(* ===== verification/Obs_Prelude.thy ===== *)
theory Obs_Prelude
  imports Complex_Main "HOL-Library.Multiset" "HOL-Library.Sublist"
begin

text \<open>
  Shared vocabulary of the LLM Obs development: the names of the model's basic types, the
  Python values and string operations that several components use, SQL statements on
  tables kept as lists of rows, and the lemmas and automation about them.

  \<^item> Instants are integers (microseconds since the epoch, UTC), identifiers are strings.
  \<^item> A Python string is a \<^typ>\<open>string\<close>. The case and white-space operations act on
    ASCII characters and leave every other character alone, so the model is exact for the
    ASCII strings that keys, header names, provider names and modes are made of.
  \<^item> A raised exception is a value: \<^verbatim>\<open>Raise\<close> of an outcome, \<open>Inl\<close> of a sum.
  \<^item> A table is the list of its rows. A statement of the source's SQL text becomes one of
    the list operations below; the rows of one \<^verbatim>\<open>async with db.begin()\<close> block change
    together or, when the block raises, not at all.
\<close>

section \<open>Basic types\<close>

type_synonym time = int
type_synonym uuid = string

text \<open>One second of the clock.\<close>

abbreviation seconds :: "int \<Rightarrow> time" where
  "seconds n \<equiv> n * 1000000"

text \<open>
  How a request handler fails: with the \<^verbatim>\<open>HTTPException\<close> it raises, or with an exception
  it does not handle (named by its class), which the framework answers with status 500.
\<close>

datatype http_error = HTTPException nat string | Unhandled string

text \<open>What a Python call does: return a value or raise, with the exception's class name.\<close>

datatype 'a outcome = Ret 'a | Raise string

datatype json =
    JNull
  | JBool bool
  | JInt int
  | JFloat rat
  | JStr string
  | JArr "json list"
  | JObj "(string \<times> json) list"

named_theorems table_simps \<open>rewriting of statements on tables\<close>
named_theorems py_simps \<open>unfolding of the Python string operations\<close>

section \<open>Python strings\<close>

definition lower_char :: "char \<Rightarrow> char" where
  "lower_char c = (let n = (of_char c :: nat) in if 65 \<le> n \<and> n \<le> 90 then char_of (n + 32) else c)"

definition py_lower :: "string \<Rightarrow> string" where
  "py_lower s = map lower_char s"

definition is_space :: "char \<Rightarrow> bool" where
  "is_space c = (let n = (of_char c :: nat) in n = 32 \<or> (9 \<le> n \<and> n \<le> 13) \<or> (28 \<le> n \<and> n \<le> 31))"

definition py_strip :: "string \<Rightarrow> string" where
  "py_strip s = rev (dropWhile is_space (rev (dropWhile is_space s)))"

text \<open>\<^verbatim>\<open>s.split(",")\<close>: always at least one part.\<close>

fun py_split :: "char \<Rightarrow> string \<Rightarrow> string list" where
  "py_split d [] = [[]]"
| "py_split d (c # cs) =
     (if c = d then [] # py_split d cs
      else case py_split d cs of [] \<Rightarrow> [[c]] | w # ws \<Rightarrow> (c # w) # ws)"

text \<open>\<^verbatim>\<open>part in s\<close> and \<^verbatim>\<open>s.startswith(p)\<close>, \<^verbatim>\<open>s.endswith(p)\<close>.\<close>

fun py_contains :: "string \<Rightarrow> string \<Rightarrow> bool" where
  "py_contains p [] = (p = [])"
| "py_contains p (c # cs) = (take (length p) (c # cs) = p \<or> py_contains p cs)"

definition py_startswith :: "string \<Rightarrow> string \<Rightarrow> bool" where
  "py_startswith p s = (take (length p) s = p)"

definition py_endswith :: "string \<Rightarrow> string \<Rightarrow> bool" where
  "py_endswith p s = (length p \<le> length s \<and> drop (length s - length p) s = p)"

text \<open>Truth value of an optional string: \<open>None\<close> and the empty string are false.\<close>

fun truthy :: "string option \<Rightarrow> bool" where
  "truthy None = False"
| "truthy (Some s) = (s \<noteq> [])"

lemmas [py_simps] = py_lower_def lower_char_def py_strip_def is_space_def py_startswith_def
  py_endswith_def

lemma lower_char_idem [simp]: "lower_char (lower_char c) = lower_char c"
proof (cases "65 \<le> (of_char c :: nat) \<and> (of_char c :: nat) \<le> 90")
  case True
  then have "(of_char (lower_char c) :: nat) = of_char c + 32"
    by (simp add: lower_char_def of_char_of)
  with True show ?thesis
    by (simp add: lower_char_def [of "lower_char c"])
next
  case False
  then have "lower_char c = c" by (auto simp: lower_char_def Let_def)
  then show ?thesis by simp
qed

lemma py_lower_idem [simp]: "py_lower (py_lower s) = py_lower s"
  by (simp add: py_lower_def)

lemma dropWhile_idem [simp]: "dropWhile P (dropWhile P xs) = dropWhile P xs"
  by (induction xs) auto

lemma dropWhile_rev_fixed:
  "dropWhile P xs = xs \<Longrightarrow> dropWhile P (rev (dropWhile P (rev xs))) = rev (dropWhile P (rev xs))"
proof (cases xs)
  case (Cons x ys)
  assume "dropWhile P xs = xs"
  with Cons have "\<not> P x" by (auto split: if_splits dest: arg_cong [where f = length] simp: dropWhile_eq_Cons_conv)
  with Cons have "dropWhile P (rev xs) \<noteq> []" "last (dropWhile P (rev xs)) = x"
    by (auto simp: dropWhile_append3 dropWhile_eq_Nil_conv)
  then have "hd (rev (dropWhile P (rev xs))) = x" "rev (dropWhile P (rev xs)) \<noteq> []"
    by (simp_all add: hd_rev)
  with \<open>\<not> P x\<close> show ?thesis
    by (cases "rev (dropWhile P (rev xs))") auto
qed simp

lemma py_strip_idem [simp]: "py_strip (py_strip s) = py_strip s"
proof -
  have "dropWhile is_space (py_strip s) = py_strip s"
    unfolding py_strip_def by (rule dropWhile_rev_fixed) simp
  then show ?thesis
    by (subst py_strip_def) (simp add: py_strip_def)
qed

section \<open>Tables\<close>

text \<open>\<^verbatim>\<open>UPDATE \<dots> SET f WHERE P\<close> and \<^verbatim>\<open>DELETE \<dots> WHERE P\<close>.\<close>

definition update_where :: "('a \<Rightarrow> bool) \<Rightarrow> ('a \<Rightarrow> 'a) \<Rightarrow> 'a list \<Rightarrow> 'a list" where
  "update_where P f rows = map (\<lambda>r. if P r then f r else r) rows"

definition delete_where :: "('a \<Rightarrow> bool) \<Rightarrow> 'a list \<Rightarrow> 'a list" where
  "delete_where P rows = filter (\<lambda>r. \<not> P r) rows"

text \<open>
  \<^verbatim>\<open>INSERT \<dots> ON CONFLICT (key) DO NOTHING\<close>: the new table and whether a row was
  inserted.
\<close>

definition insert_new :: "('a \<Rightarrow> 'k) \<Rightarrow> 'a \<Rightarrow> 'a list \<Rightarrow> 'a list \<times> bool" where
  "insert_new key r rows = (if key r \<in> key ` set rows then (rows, False) else (rows @ [r], True))"

text \<open>
  A query on a unique column followed by \<^verbatim>\<open>one_or_none()\<close>. The uniqueness of the
  column is part of the well-formedness of each table below.
\<close>

definition select_one :: "('a \<Rightarrow> bool) \<Rightarrow> 'a list \<Rightarrow> 'a option" where
  "select_one P rows = List.find P rows"

lemma length_update_where [simp, table_simps]: "length (update_where P f rows) = length rows"
  by (simp add: update_where_def)

lemma update_where_Nil [simp, table_simps]: "update_where P f [] = []"
  by (simp add: update_where_def)

lemma update_where_Cons [table_simps]:
  "update_where P f (r # rows) = (if P r then f r else r) # update_where P f rows"
  by (simp add: update_where_def)

lemma update_where_append [table_simps]:
  "update_where P f (xs @ ys) = update_where P f xs @ update_where P f ys"
  by (simp add: update_where_def)

lemma in_update_where [table_simps]:
  "x \<in> set (update_where P f rows) \<longleftrightarrow> (\<exists>r \<in> set rows. x = (if P r then f r else r))"
  by (auto simp: update_where_def)

lemma update_whereI: "r \<in> set rows \<Longrightarrow> (if P r then f r else r) \<in> set (update_where P f rows)"
  by (auto simp: in_update_where)

lemma map_update_where_same:
  "(\<And>r. P r \<Longrightarrow> key (f r) = key r) \<Longrightarrow> map key (update_where P f rows) = map key rows"
  by (simp add: update_where_def)

lemma list_all_update_where:
  "(\<And>r. Q (f r) = Q r) \<Longrightarrow> list_all Q (update_where P f rows) = list_all Q rows"
  by (induction rows) (simp_all add: update_where_Cons)

lemma update_where_none [simp]: "(\<And>r. r \<in> set rows \<Longrightarrow> \<not> P r) \<Longrightarrow> update_where P f rows = rows"
  by (simp add: update_where_def map_idI)

lemma filter_update_where_other:
  "(\<And>r. r \<in> set rows \<Longrightarrow> P r \<Longrightarrow> \<not> Q r \<and> \<not> Q (f r)) \<Longrightarrow> filter Q (update_where P f rows) = filter Q rows"
  by (induction rows) (auto simp: update_where_def)

lemma in_delete_where [simp, table_simps]: "x \<in> set (delete_where P rows) \<longleftrightarrow> x \<in> set rows \<and> \<not> P x"
  by (auto simp: delete_where_def)

lemma distinct_map_delete_where:
  "distinct (map key rows) \<Longrightarrow> distinct (map key (delete_where P rows))"
  unfolding delete_where_def by (rule distinct_map_filter)

lemma distinct_insert_new:
  "distinct (map key rows) \<Longrightarrow> distinct (map key (fst (insert_new key r rows)))"
  by (auto simp: insert_new_def)

lemma select_one_SomeD:
  "select_one P rows = Some r \<Longrightarrow> r \<in> set rows \<and> P r"
  unfolding select_one_def by (induction rows) (auto split: if_splits)

lemma select_one_None_iff: "select_one P rows = None \<longleftrightarrow> (\<forall>r \<in> set rows. \<not> P r)"
  unfolding select_one_def by (auto simp: find_None_iff)

lemma select_one_Nil [simp, table_simps]: "select_one P [] = None"
  by (simp add: select_one_def)

lemma select_one_Cons [simp, table_simps]:
  "select_one P (r # rows) = (if P r then Some r else select_one P rows)"
  by (simp add: select_one_def)

text \<open>
  On a table whose key is unique, a query that fixes the key has at most one row, and it
  is the one \<^const>\<open>select_one\<close> finds.
\<close>

lemma select_one_unique:
  assumes "distinct (map key rows)" and "r \<in> set rows" and "P r"
    and "\<And>x. x \<in> set rows \<Longrightarrow> P x \<Longrightarrow> key x = key r"
  shows "select_one P rows = Some r"
proof (cases "select_one P rows")
  case None
  with assms show ?thesis by (auto simp: select_one_None_iff)
next
  case (Some x)
  from select_one_SomeD [OF this] assms(4) have "x \<in> set rows" "key x = key r" by auto
  with assms(1,2) have "x = r" by (metis distinct_map inj_onD)
  with Some show ?thesis by simp
qed

lemma filter_unique_key:
  assumes "distinct (map key rows)" and "\<And>x. P x \<Longrightarrow> key x = k"
  shows "length (filter P rows) \<le> 1"
proof -
  have "distinct (map key (filter P rows))" using assms(1) by (rule distinct_map_filter)
  moreover have "set (map key (filter P rows)) \<subseteq> {k}" using assms(2) by auto
  ultimately have "card (set (map key (filter P rows))) \<le> 1"
    by (metis card_mono card.empty card_insert_disjoint finite.emptyI finite.insertI empty_iff One_nat_def)
  with \<open>distinct (map key (filter P rows))\<close> show ?thesis
    by (metis distinct_card length_map)
qed

section \<open>Sums over tables\<close>

lemma sum_list_filter_split:
  "sum_list (map f (filter P xs)) + sum_list (map f (filter (\<lambda>x. \<not> P x) xs)) =
     (sum_list (map f xs) :: 'a :: comm_monoid_add)"
  by (induction xs) (auto simp: algebra_simps)

lemma sum_list_map_append [simp]:
  "sum_list (map f (xs @ ys)) = sum_list (map f xs) + (sum_list (map f ys) :: 'a :: monoid_add)"
  by simp

text \<open>The first of several checks that fails.\<close>

fun first_error :: "'e option list \<Rightarrow> 'e option" where
  "first_error [] = None"
| "first_error (Some e # es) = Some e"
| "first_error (None # es) = first_error es"

lemma first_error_None: "first_error es = None \<longleftrightarrow> (\<forall>e \<in> set es. e = None)"
  by (induction es rule: first_error.induct) auto

lemma last_take_nth:
  assumes "0 < n" and "n < length xs"
  shows "last (take n xs) = xs ! (n - 1)"
proof -
  have "take n xs \<noteq> []" using assms by auto
  then show ?thesis using assms by (simp add: last_conv_nth)
qed

lemma length_concat_sum: "length (concat xss) = sum_list (map length xss)"
  by (rule length_concat)

end
