(* ===== verification/Sdk_Transport.thy ===== *)
theory Sdk_Transport
  imports Obs_Prelude
begin

text \<open>
  The SDK's HTTP transport, \<^verbatim>\<open>sdk/llm_obs/transport.py\<close>: the diagnostics record, the
  bounded retry loop of \<^verbatim>\<open>send_batch\<close> and the back-off delay. The HTTP client
  (httpx) is not part of the repository: it is the parameter \<open>post\<close>, which takes the
  client's state, the spans and the idempotency key, and returns what the call did with the
  client's new state. Parsing the \<^verbatim>\<open>Retry-After\<close> header is the parameter
  \<open>float_of\<close> (Python's \<^verbatim>\<open>float\<close>; \<open>None\<close> where it raises \<^verbatim>\<open>ValueError\<close>).
\<close>

section \<open>Definitions\<close>

text \<open>What one POST does: a response with its status and Retry-After header, or an exception.\<close>

datatype post_result =
    Response (resp_status: nat) (resp_retry_after: "string option")
  | ConnectError string
  | TimeoutException string
  | OtherError string

type_synonym ('c, 's) http_post = "'c \<Rightarrow> 's list \<Rightarrow> string option \<Rightarrow> post_result \<times> 'c"

record transport_diagnostics =
  td_ok :: bool
  td_reason :: string
  td_spans_count :: nat
  td_attempts :: nat
  td_status_code :: "nat option"
  td_retry_after :: "rat option"
  td_error_type :: "string option"

record 'c transport =
  client :: 'c
  last_diagnostics :: "transport_diagnostics option"

definition MAX_ATTEMPTS :: nat where "MAX_ATTEMPTS = 3"
definition BASE_DELAY :: rat where "BASE_DELAY = 1"

text \<open>\<^verbatim>\<open>_jitter\<close>: \<open>u\<close> is the fraction of its range that \<^verbatim>\<open>random.uniform\<close> drew.\<close>

definition jitter :: "rat \<Rightarrow> nat \<Rightarrow> rat" where
  "jitter u attempt = (let base = BASE_DELAY * 2 ^ attempt in base + u * (base * (1 / 10)))"

definition record_diagnostics :: "transport_diagnostics \<Rightarrow> 'c transport \<Rightarrow> 'c transport" where
  "record_diagnostics d tr = tr\<lparr>last_diagnostics := Some d\<rparr>"

text \<open>\<^verbatim>\<open>raise_for_status\<close> accepts the 2xx responses only.\<close>

definition is_success :: "nat \<Rightarrow> bool" where
  "is_success st \<longleftrightarrow> 200 \<le> st \<and> st < 300"

definition retry_after_value :: "(string \<Rightarrow> rat option) \<Rightarrow> string option \<Rightarrow> rat option" where
  "retry_after_value float_of h = (case h of None \<Rightarrow> Some 60 | Some s \<Rightarrow> float_of s)"

text \<open>
  The loop \<^verbatim>\<open>for attempt in range(MAX_ATTEMPTS)\<close> over the remaining attempt numbers, with
  the code after the loop as its last case. An exception that no handler names, and the
  \<^verbatim>\<open>ValueError\<close> of a malformed Retry-After header, leave the function.
\<close>

fun send_attempts ::
  "('c, 's) http_post \<Rightarrow> (string \<Rightarrow> rat option) \<Rightarrow> 's list \<Rightarrow> string option \<Rightarrow> nat list \<Rightarrow>
   'c transport \<Rightarrow> bool outcome \<times> 'c transport" where
  "send_attempts post float_of spans key [] tr =
     (Ret False, record_diagnostics
        \<lparr>td_ok = False, td_reason = ''unknown_failure'', td_spans_count = length spans,
         td_attempts = MAX_ATTEMPTS, td_status_code = None, td_retry_after = None,
         td_error_type = None\<rparr> tr)"
| "send_attempts post float_of spans key (attempt # rest) tr =
     (let (r, c) = post (client tr) spans key; tr' = tr\<lparr>client := c\<rparr> in
      case r of
        Response st ra \<Rightarrow>
          if is_success st then
            (Ret True, record_diagnostics
               \<lparr>td_ok = True, td_reason = ''sent'', td_spans_count = length spans,
                td_attempts = attempt + 1, td_status_code = Some st, td_retry_after = None,
                td_error_type = None\<rparr> tr')
          else if st = 429 then
            (case retry_after_value float_of ra of
               None \<Rightarrow> (Raise ''ValueError'', tr')
             | Some w \<Rightarrow> (Ret False, record_diagnostics
                 \<lparr>td_ok = False, td_reason = ''rate_limited'', td_spans_count = length spans,
                  td_attempts = attempt + 1, td_status_code = Some st, td_retry_after = Some w,
                  td_error_type = None\<rparr> tr'))
          else if 500 \<le> st \<and> attempt < MAX_ATTEMPTS - 1 then
            send_attempts post float_of spans key rest tr'
          else
            (Ret False, record_diagnostics
               \<lparr>td_ok = False, td_reason = ''http_error'', td_spans_count = length spans,
                td_attempts = attempt + 1, td_status_code = Some st, td_retry_after = None,
                td_error_type = None\<rparr> tr')
      | OtherError e \<Rightarrow> (Raise e, tr')
      | e \<Rightarrow>
          if attempt < MAX_ATTEMPTS - 1 then send_attempts post float_of spans key rest tr'
          else
            (Ret False, record_diagnostics
               \<lparr>td_ok = False, td_reason = ''connection_error'', td_spans_count = length spans,
                td_attempts = attempt + 1, td_status_code = None, td_retry_after = None,
                td_error_type = Some (case e of ConnectError t \<Rightarrow> t | TimeoutException t \<Rightarrow> t
                                      | _ \<Rightarrow> [])\<rparr> tr'))"

definition send_batch ::
  "('c, 's) http_post \<Rightarrow> (string \<Rightarrow> rat option) \<Rightarrow> 's list \<Rightarrow> string option \<Rightarrow>
   'c transport \<Rightarrow> bool outcome \<times> 'c transport" where
  "send_batch post float_of spans key tr =
     send_attempts post float_of spans key [0..<MAX_ATTEMPTS] tr"

section \<open>The retry loop\<close>

text \<open>The client after \<open>n\<close> POSTs of the batch, and what the POST numbered \<open>n\<close> does.\<close>

definition client_after :: "('c, 's) http_post \<Rightarrow> 's list \<Rightarrow> string option \<Rightarrow> nat \<Rightarrow> 'c \<Rightarrow> 'c" where
  "client_after post spans key n c = ((\<lambda>c. snd (post c spans key)) ^^ n) c"

definition attempt_result ::
  "('c, 's) http_post \<Rightarrow> 's list \<Rightarrow> string option \<Rightarrow> 'c \<Rightarrow> nat \<Rightarrow> post_result" where
  "attempt_result post spans key c n = fst (post (client_after post spans key n c) spans key)"

text \<open>The outcomes after which the loop goes round again while attempts are left.\<close>

fun retryable :: "post_result \<Rightarrow> bool" where
  "retryable (Response st ra) = (500 \<le> st)"
| "retryable (ConnectError t) = True"
| "retryable (TimeoutException t) = True"
| "retryable (OtherError t) = False"

lemma client_after_0 [simp]: "client_after post spans key 0 c = c"
  by (simp add: client_after_def)

lemma client_after_Suc:
  "client_after post spans key (Suc n) c = client_after post spans key n (snd (post c spans key))"
  by (simp add: client_after_def funpow_Suc_right del: funpow.simps)

lemma attempt_result_0: "attempt_result post spans key c 0 = fst (post c spans key)"
  by (simp add: attempt_result_def)

lemma attempt_result_Suc:
  "attempt_result post spans key c (Suc n) = attempt_result post spans key (snd (post c spans key)) n"
  by (simp add: attempt_result_def client_after_Suc)

text \<open>What every finished send leaves behind, relative to the attempt it starts from.\<close>

definition good_diagnostics :: "nat \<Rightarrow> 's list \<Rightarrow> bool \<Rightarrow> transport_diagnostics \<Rightarrow> bool" where
  "good_diagnostics lo spans b d \<longleftrightarrow>
     td_ok d = b \<and> td_spans_count d = length spans \<and>
     lo < td_attempts d \<and> td_attempts d \<le> MAX_ATTEMPTS \<and>
     td_reason d \<in> {''sent'', ''rate_limited'', ''http_error'', ''connection_error''} \<and>
     (b \<longleftrightarrow> td_reason d = ''sent'')"

lemma send_attempts_diagnostics:
  assumes "send_attempts post float_of spans key [lo..<MAX_ATTEMPTS] tr = (Ret b, tr')"
    and "lo < MAX_ATTEMPTS"
  shows "\<exists>d. last_diagnostics tr' = Some d \<and> good_diagnostics lo spans b d \<and>
     client tr' = client_after post spans key (td_attempts d - lo) (client tr)"
  using assms
proof (induction "MAX_ATTEMPTS - lo" arbitrary: lo tr)
  case (Suc n)
  obtain r c where post: "post (client tr) spans key = (r, c)" by (cases "post (client tr) spans key")
  have range: "[lo..<MAX_ATTEMPTS] = lo # [Suc lo..<MAX_ATTEMPTS]"
    using Suc.prems(2) by (simp add: upt_rec)
  have again: "send_attempts post float_of spans key [Suc lo..<MAX_ATTEMPTS] (tr\<lparr>client := c\<rparr>) = (Ret b, tr')
      \<Longrightarrow> lo < MAX_ATTEMPTS - 1 \<Longrightarrow> ?case"
  proof -
    assume rec: "send_attempts post float_of spans key [Suc lo..<MAX_ATTEMPTS] (tr\<lparr>client := c\<rparr>) = (Ret b, tr')"
      and lt: "lo < MAX_ATTEMPTS - 1"
    from Suc.hyps(2) lt have n: "n = MAX_ATTEMPTS - Suc lo" and lt': "Suc lo < MAX_ATTEMPTS" by simp_all
    from Suc.hyps(1) [OF n rec lt'] obtain d where d: "last_diagnostics tr' = Some d"
      "good_diagnostics (Suc lo) spans b d"
      "client tr' = client_after post spans key (td_attempts d - Suc lo) c" by auto
    then have "td_attempts d - lo = Suc (td_attempts d - Suc lo)"
      by (auto simp: good_diagnostics_def)
    with d post show ?case by (auto simp: good_diagnostics_def client_after_Suc)
  qed
  show ?case
    using Suc.prems again post
    by (auto simp: range record_diagnostics_def good_diagnostics_def client_after_Suc Let_def
        split: post_result.splits if_splits option.splits)
qed (simp add: MAX_ATTEMPTS_def)

lemma send_attempts_reaches:
  assumes "lo + k < MAX_ATTEMPTS"
    and "\<And>i. i < k \<Longrightarrow> retryable (attempt_result post spans key (client tr) i)"
    and "attempt_result post spans key (client tr) k = Response st ra" and "is_success st"
  shows "fst (send_attempts post float_of spans key [lo..<MAX_ATTEMPTS] tr) = Ret True"
  using assms
proof (induction k arbitrary: lo tr)
  case 0
  have "[lo..<MAX_ATTEMPTS] = lo # [Suc lo..<MAX_ATTEMPTS]" using "0.prems"(1) by (simp add: upt_rec)
  with "0.prems"(3,4) show ?case
    by (auto simp: attempt_result_0 split: prod.splits)
next
  case (Suc k)
  obtain r c where post: "post (client tr) spans key = (r, c)" by (cases "post (client tr) spans key")
  have range: "[lo..<MAX_ATTEMPTS] = lo # [Suc lo..<MAX_ATTEMPTS]"
    using Suc.prems(1) by (simp add: upt_rec)
  have r: "retryable r" using Suc.prems(2) [of 0] post by (simp add: attempt_result_0)
  have step: "send_attempts post float_of spans key [lo..<MAX_ATTEMPTS] tr =
      send_attempts post float_of spans key [Suc lo..<MAX_ATTEMPTS] (tr\<lparr>client := c\<rparr>)"
    using r Suc.prems(1) post
    by (cases r) (auto simp: range is_success_def Let_def)
  have "fst (send_attempts post float_of spans key [Suc lo..<MAX_ATTEMPTS] (tr\<lparr>client := c\<rparr>)) = Ret True"
  proof (rule Suc.IH)
    show "Suc lo + k < MAX_ATTEMPTS" using Suc.prems(1) by simp
    show "retryable (attempt_result post spans key (client (tr\<lparr>client := c\<rparr>)) i)" if "i < k" for i
      using Suc.prems(2) [of "Suc i"] that post by (simp add: attempt_result_Suc)
    show "attempt_result post spans key (client (tr\<lparr>client := c\<rparr>)) k = Response st ra"
      using Suc.prems(3) post by (simp add: attempt_result_Suc)
  qed (rule Suc.prems(4))
  with step show ?case by simp
qed

text \<open>
  When \<^verbatim>\<open>send_batch\<close> returns, it has recorded diagnostics whose \<^verbatim>\<open>ok\<close> is the
  returned value, that count the spans of the batch and the POSTs really made (between one
  and three), and whose reason is one of the four named causes: the fallback reason
  \<^verbatim>\<open>unknown_failure\<close> after the loop is never reported.
\<close>

theorem send_batch_diagnostics:
  assumes "send_batch post float_of spans key tr = (Ret b, tr')"
  shows "\<exists>d. last_diagnostics tr' = Some d \<and> td_ok d = b \<and> td_spans_count d = length spans \<and>
     1 \<le> td_attempts d \<and> td_attempts d \<le> 3 \<and>
     client tr' = client_after post spans key (td_attempts d) (client tr) \<and>
     td_reason d \<in> {''sent'', ''rate_limited'', ''http_error'', ''connection_error''} \<and>
     (b \<longleftrightarrow> td_reason d = ''sent'')"
  using send_attempts_diagnostics [of post float_of spans key 0 tr b tr'] assms
  by (auto simp: send_batch_def good_diagnostics_def MAX_ATTEMPTS_def)

theorem send_batch_diagnostics_witness:
  "\<exists>d. last_diagnostics \<lparr>client = (1::nat), last_diagnostics = Some
        \<lparr>td_ok = True, td_reason = ''sent'', td_spans_count = 2, td_attempts = 2,
         td_status_code = Some 202, td_retry_after = None, td_error_type = None\<rparr>\<rparr> = Some d \<and>
     td_ok d = True \<and> td_attempts d \<le> 3 \<and> td_spans_count d = length [10::int, 20]"
  using send_batch_diagnostics
    [of "\<lambda>n ss k. if n = (0::nat) then (Response 503 None, 7) else (Response 202 None, 1)" "\<lambda>s. None"
        "[10::int, 20]" None "\<lparr>client = 0, last_diagnostics = None\<rparr>" True
        "\<lparr>client = 1, last_diagnostics = Some
        \<lparr>td_ok = True, td_reason = ''sent'', td_spans_count = 2, td_attempts = 2,
         td_status_code = Some 202, td_retry_after = None, td_error_type = None\<rparr>\<rparr>"]
  by (simp add: send_batch_def MAX_ATTEMPTS_def is_success_def record_diagnostics_def upt_rec)

text \<open>
  A batch is delivered whenever one of the three POSTs succeeds and the ones before it
  fail in a way the loop retries (a 5xx response, a connection error or a timeout).
\<close>

theorem send_batch_succeeds_after_retries:
  assumes "k < 3"
    and "\<forall>i < k. retryable (attempt_result post spans key (client tr) i)"
    and "attempt_result post spans key (client tr) k = Response st ra" and "200 \<le> st \<and> st < 300"
  shows "fst (send_batch post float_of spans key tr) = Ret True"
  using send_attempts_reaches [of 0 k post spans key tr st ra float_of] assms
  by (auto simp: send_batch_def MAX_ATTEMPTS_def is_success_def)

theorem send_batch_succeeds_after_retries_witness:
  "fst (send_batch (\<lambda>n ss k. if n < (2::nat) then (TimeoutException ''ReadTimeout'', n + 1) else (Response 202 None, n))
      (\<lambda>s. None) [10::int, 20] None \<lparr>client = 0, last_diagnostics = None\<rparr>) = Ret True"
  using send_batch_succeeds_after_retries
    [of 2 "\<lambda>n ss k. if n < (2::nat) then (TimeoutException ''ReadTimeout'', n + 1) else (Response 202 None, n)"
      "[10::int, 20]" None "\<lparr>client = 0, last_diagnostics = None\<rparr>" 202 None "\<lambda>s. None"]
  by (simp add: attempt_result_def client_after_def numeral_2_eq_2 less_Suc_eq)

end
