(* ===== verification/Sdk_Tracer.thy ===== *)
theory Sdk_Tracer
  imports Sdk_Transport
begin

text \<open>
  The SDK's tracer, \<^verbatim>\<open>sdk/llm_obs/tracer.py\<close>: the bounded buffer of recorded spans, the
  queue of failed batches that are retried under their own idempotency key, the background
  flush loop, and the shutdown that drains both. The transport is the parameter
  \<open>send\<close>; the last section instantiates it with \<^const>\<open>send_batch\<close>.
  \<^verbatim>\<open>isoformat\<close> is the parameter \<open>isofmt\<close>, a fresh \<^verbatim>\<open>uuid4\<close> the argument \<open>key\<close>.
\<close>

section \<open>State\<close>

record span_data =
  sd_trace_id :: string
  sd_span_id :: string
  sd_name :: string
  sd_provider :: string
  sd_model :: string
  sd_input_messages :: "json list"
  sd_parent_span_id :: "string option"
  sd_output :: json
  sd_error :: "string option"
  sd_input_tokens :: int
  sd_output_tokens :: int
  sd_latency_ms :: rat
  sd_started_at :: time
  sd_metadata :: "(string \<times> json) list"

record flush_batch =
  fb_spans :: "span_data list"
  fb_key :: string

text \<open>
  The background task: not created, asleep, suspended in \<^verbatim>\<open>send_batch\<close> with the batch it
  took from the queues (held by the task's frame alone), or finished.
\<close>

datatype flush_task = NoTask | Sleeping | Sending flush_batch | TaskDone

record 't tracer =
  tc_buffer :: "span_data list"
  tc_maxlen :: "nat option"
  tc_pending_batches :: "flush_batch list"
  tc_pending_spans :: int
  tc_flush_task :: flush_task
  tc_shutting_down :: bool
  tc_closed :: bool
  tc_transport :: 't
  tc_transport_closed :: bool
  tc_atexit_registered :: bool
  tc_dropped_spans :: nat
  tc_failed_flushes :: nat
  tc_final_delivery_failures :: nat
  tc_last_drop_reason :: "string option"

record sdk_diagnostics =
  dg_dropped_spans :: nat
  dg_failed_flushes :: nat
  dg_final_delivery_failures :: nat
  dg_buffered_spans :: int
  dg_active_buffered_spans :: nat
  dg_pending_spans :: int
  dg_pending_batches :: nat
  dg_buffer_size :: "nat option"
  dg_last_drop_reason :: "string option"
  dg_last_flush_reason :: "string option"

type_synonym 't sender = "'t \<Rightarrow> json list \<Rightarrow> string \<Rightarrow> bool outcome \<times> 't"

section \<open>Operations\<close>

definition init_tracer :: "nat \<Rightarrow> 't \<Rightarrow> 't tracer" where
  "init_tracer buffer_size tr =
     \<lparr>tc_buffer = [], tc_maxlen = Some buffer_size, tc_pending_batches = [], tc_pending_spans = 0,
      tc_flush_task = NoTask, tc_shutting_down = False, tc_closed = False, tc_transport = tr,
      tc_transport_closed = False, tc_atexit_registered = True, tc_dropped_spans = 0,
      tc_failed_flushes = 0, tc_final_delivery_failures = 0, tc_last_drop_reason = None\<rparr>"

text \<open>\<^verbatim>\<open>deque(maxlen=n).append\<close>: on overflow the oldest element leaves.\<close>

definition deque_append :: "nat option \<Rightarrow> 'a list \<Rightarrow> 'a \<Rightarrow> 'a list" where
  "deque_append maxlen xs x =
     (case maxlen of None \<Rightarrow> xs @ [x] | Some n \<Rightarrow> drop (Suc (length xs) - n) (xs @ [x]))"

definition record_span :: "span_data \<Rightarrow> 't tracer \<Rightarrow> 't tracer" where
  "record_span s t =
     (let full = (case tc_maxlen t of None \<Rightarrow> False | Some n \<Rightarrow> n \<le> length (tc_buffer t));
          t1 = (if full
                then t\<lparr>tc_dropped_spans := Suc (tc_dropped_spans t),
                       tc_last_drop_reason := Some ''buffer_overflow''\<rparr>
                else t)
      in t1\<lparr>tc_buffer := deque_append (tc_maxlen t1) (tc_buffer t1) s\<rparr>)"

definition pop_next_flush_batch :: "string \<Rightarrow> 't tracer \<Rightarrow> flush_batch option \<times> 't tracer" where
  "pop_next_flush_batch key t =
     (case tc_pending_batches t of
        b # bs \<Rightarrow> (Some b, t\<lparr>tc_pending_batches := bs,
                             tc_pending_spans := tc_pending_spans t - int (length (fb_spans b))\<rparr>)
      | [] \<Rightarrow>
          (let active = tc_buffer t; t1 = t\<lparr>tc_buffer := []\<rparr> in
           if active = [] then (None, t1) else (Some \<lparr>fb_spans = active, fb_key = key\<rparr>, t1)))"

definition push_failed_batch :: "flush_batch \<Rightarrow> 't tracer \<Rightarrow> 't tracer" where
  "push_failed_batch b t =
     t\<lparr>tc_pending_batches := b # tc_pending_batches t,
       tc_pending_spans := tc_pending_spans t + int (length (fb_spans b))\<rparr>"

definition has_buffered_spans :: "'t tracer \<Rightarrow> bool" where
  "has_buffered_spans t \<longleftrightarrow> tc_buffer t \<noteq> [] \<or> 0 < tc_pending_spans t"

definition buffered_spans_count :: "'t tracer \<Rightarrow> int" where
  "buffered_spans_count t = int (length (tc_buffer t)) + tc_pending_spans t"

definition opt_json :: "string option \<Rightarrow> json" where
  "opt_json v = (case v of None \<Rightarrow> JNull | Some s \<Rightarrow> JStr s)"

definition span_to_dict :: "(time \<Rightarrow> string) \<Rightarrow> span_data \<Rightarrow> json" where
  "span_to_dict isofmt s = JObj
     [(''span_id'', JStr (sd_span_id s)),
      (''trace_id'', JStr (sd_trace_id s)),
      (''parent_span_id'', opt_json (sd_parent_span_id s)),
      (''name'', JStr (sd_name s)),
      (''provider'', JStr (sd_provider s)),
      (''model'', JStr (sd_model s)),
      (''input_messages'', JArr (sd_input_messages s)),
      (''output'', sd_output s),
      (''error'', opt_json (sd_error s)),
      (''input_tokens'', JInt (sd_input_tokens s)),
      (''output_tokens'', JInt (sd_output_tokens s)),
      (''latency_ms'', JFloat (sd_latency_ms s)),
      (''started_at'', JStr (isofmt (sd_started_at s))),
      (''metadata'', JObj (sd_metadata s))]"

text \<open>The part of \<^verbatim>\<open>_flush\<close> from its \<^verbatim>\<open>await\<close> on, and the whole of it.\<close>

definition flush_send ::
  "(time \<Rightarrow> string) \<Rightarrow> 't sender \<Rightarrow> flush_batch \<Rightarrow> 't tracer \<Rightarrow> bool outcome \<times> 't tracer" where
  "flush_send isofmt send b t =
     (let (r, tr) = send (tc_transport t) (map (span_to_dict isofmt) (fb_spans b)) (fb_key b);
          t1 = t\<lparr>tc_transport := tr\<rparr>
      in case r of
           Raise e \<Rightarrow> (Raise e, t1)
         | Ret sent \<Rightarrow>
             if \<not> sent
             then (Ret False, push_failed_batch b (t1\<lparr>tc_failed_flushes := Suc (tc_failed_flushes t1)\<rparr>))
             else (Ret True, t1))"

definition flush ::
  "(time \<Rightarrow> string) \<Rightarrow> 't sender \<Rightarrow> string \<Rightarrow> 't tracer \<Rightarrow> bool outcome \<times> 't tracer" where
  "flush isofmt send key t =
     (case pop_next_flush_batch key t of
        (None, t1) \<Rightarrow> (Ret True, t1)
      | (Some b, t1) \<Rightarrow> flush_send isofmt send b t1)"

text \<open>
  The loop \<^verbatim>\<open>while self._has_buffered_spans()\<close> of \<^verbatim>\<open>shutdown\<close> and
  \<^verbatim>\<open>_sync_flush_on_exit\<close>. Nothing in its text bounds it, so not returning is \<open>None\<close>.
  Only the batch made from the active buffer takes a fresh key, at most one per call.
  Nothing else runs between two sends here; the runs below split the loop at every \<^verbatim>\<open>await\<close>.
\<close>

partial_function (option) drain ::
  "(time \<Rightarrow> string) \<Rightarrow> 't sender \<Rightarrow> string \<Rightarrow> 't tracer \<Rightarrow> (bool outcome \<times> 't tracer) option" where
  "drain isofmt send key t =
     (if has_buffered_spans t
      then (case flush isofmt send key t of
              (Raise e, t1) \<Rightarrow> Some (Raise e, t1)
            | (Ret sent, t1) \<Rightarrow> if \<not> sent then Some (Ret False, t1) else drain isofmt send key t1)
      else Some (Ret True, t))"

definition start :: "'t tracer \<Rightarrow> unit outcome \<times> 't tracer" where
  "start t =
     (if tc_closed t then (Raise ''RuntimeError'', t)
      else if tc_flush_task t = Sleeping \<or> (\<exists>b. tc_flush_task t = Sending b) then (Ret (), t)
      else (Ret (), t\<lparr>tc_shutting_down := False, tc_flush_task := Sleeping\<rparr>))"

text \<open>One round of \<^verbatim>\<open>_flush_loop\<close>, split at the \<^verbatim>\<open>await\<close> inside \<^verbatim>\<open>_flush\<close>.\<close>

definition next_round :: "'t tracer \<Rightarrow> 't tracer" where
  "next_round t = t\<lparr>tc_flush_task := if tc_shutting_down t then TaskDone else Sleeping\<rparr>"

definition loop_wake :: "string \<Rightarrow> 't tracer \<Rightarrow> 't tracer" where
  "loop_wake key t =
     (case pop_next_flush_batch key t of
        (None, t1) \<Rightarrow> next_round t1
      | (Some b, t1) \<Rightarrow> t1\<lparr>tc_flush_task := Sending b\<rparr>)"

definition loop_sent ::
  "(time \<Rightarrow> string) \<Rightarrow> 't sender \<Rightarrow> flush_batch \<Rightarrow> 't tracer \<Rightarrow> bool outcome \<times> 't tracer" where
  "loop_sent isofmt send b t =
     (case flush_send isofmt send b t of
        (Raise e, t1) \<Rightarrow> (Raise e, t1\<lparr>tc_flush_task := TaskDone\<rparr>)
      | (Ret sent, t1) \<Rightarrow> (Ret sent, next_round t1))"

text \<open>
  Cancelling the task: \<^verbatim>\<open>CancelledError\<close> is thrown at its \<^verbatim>\<open>await\<close> and no handler of
  \<^verbatim>\<open>_flush\<close> or \<^verbatim>\<open>send_batch\<close> catches it, so a batch being sent goes with the frame.
\<close>

definition cancel_flush_task :: "'t tracer \<Rightarrow> 't tracer" where
  "cancel_flush_task t =
     (case tc_flush_task t of
        Sleeping \<Rightarrow> t\<lparr>tc_flush_task := TaskDone\<rparr>
      | Sending b \<Rightarrow> t\<lparr>tc_flush_task := TaskDone\<rparr>
      | _ \<Rightarrow> t)"

definition close_tracer :: "'t tracer \<Rightarrow> 't tracer" where
  "close_tracer t = t\<lparr>tc_transport_closed := True, tc_atexit_registered := False, tc_closed := True\<rparr>"

definition discard_buffers :: "'t tracer \<Rightarrow> 't tracer" where
  "discard_buffers t = t\<lparr>tc_buffer := [], tc_pending_batches := [], tc_pending_spans := 0\<rparr>"

definition shutdown ::
  "(time \<Rightarrow> string) \<Rightarrow> 't sender \<Rightarrow> string \<Rightarrow> bool \<Rightarrow> 't tracer \<Rightarrow> (unit outcome \<times> 't tracer) option" where
  "shutdown isofmt send key do_flush t =
     (if tc_closed t then Some (Ret (), t)
      else
        let t1 = cancel_flush_task (t\<lparr>tc_shutting_down := True\<rparr>) in
        if do_flush
        then (case drain isofmt send key t1 of
                None \<Rightarrow> None
              | Some (Raise e, t2) \<Rightarrow> Some (Raise e, t2)
              | Some (Ret sent, t2) \<Rightarrow>
                  Some (Ret (), close_tracer
                    (if sent then t2
                     else t2\<lparr>tc_final_delivery_failures := Suc (tc_final_delivery_failures t2)\<rparr>)))
        else Some (Ret (), close_tracer (discard_buffers t1)))"

text \<open>
  \<^verbatim>\<open>_sync_flush_on_exit\<close>: \<open>usable\<close> says that an event loop was found that is neither
  running nor closed. Exceptions are swallowed.
\<close>

definition sync_flush_on_exit ::
  "(time \<Rightarrow> string) \<Rightarrow> 't sender \<Rightarrow> string \<Rightarrow> bool \<Rightarrow> 't tracer \<Rightarrow> 't tracer option" where
  "sync_flush_on_exit isofmt send key usable t =
     (if tc_closed t \<or> \<not> has_buffered_spans t \<or> \<not> usable then Some t
      else map_option snd (drain isofmt send key t))"

definition get_sdk_diagnostics :: "('t \<Rightarrow> string option) \<Rightarrow> 't tracer \<Rightarrow> sdk_diagnostics" where
  "get_sdk_diagnostics flush_reason t =
     \<lparr>dg_dropped_spans = tc_dropped_spans t, dg_failed_flushes = tc_failed_flushes t,
      dg_final_delivery_failures = tc_final_delivery_failures t,
      dg_buffered_spans = buffered_spans_count t,
      dg_active_buffered_spans = length (tc_buffer t), dg_pending_spans = tc_pending_spans t,
      dg_pending_batches = length (tc_pending_batches t), dg_buffer_size = tc_maxlen t,
      dg_last_drop_reason = tc_last_drop_reason t,
      dg_last_flush_reason = flush_reason (tc_transport t)\<rparr>"

section \<open>Invariant\<close>

definition pending_list :: "'t tracer \<Rightarrow> span_data list" where
  "pending_list t = concat (map fb_spans (tc_pending_batches t))"

fun in_flight :: "flush_task \<Rightarrow> span_data list" where
  "in_flight (Sending b) = fb_spans b"
| "in_flight _ = []"

definition tracer_inv :: "'t tracer \<Rightarrow> bool" where
  "tracer_inv t \<longleftrightarrow>
     tc_pending_spans t = int (length (pending_list t)) \<and>
     (\<forall>b \<in> set (tc_pending_batches t). fb_spans b \<noteq> []) \<and>
     (\<forall>n. tc_maxlen t = Some n \<longrightarrow> length (tc_buffer t) \<le> n)"

lemma length_deque_append: "length (deque_append (Some n) xs x) = min n (Suc (length xs))"
  by (simp add: deque_append_def)

lemma subseq_deque_append: "subseq (deque_append m xs x) (xs @ [x])"
  by (cases m) (auto simp: deque_append_def simp del: drop_append intro: suffix_imp_subseq suffix_drop)

lemma init_tracer_inv: "tracer_inv (init_tracer n tr)"
  by (simp add: tracer_inv_def init_tracer_def pending_list_def)

lemma record_span_inv: "tracer_inv t \<Longrightarrow> tracer_inv (record_span s t)"
  by (auto simp: tracer_inv_def record_span_def pending_list_def length_deque_append Let_def)

lemma pop_inv: "tracer_inv t \<Longrightarrow> tracer_inv (snd (pop_next_flush_batch key t))"
  by (auto simp: tracer_inv_def pop_next_flush_batch_def pending_list_def Let_def split: list.splits)

lemma pop_nonempty:
  "tracer_inv t \<Longrightarrow> pop_next_flush_batch key t = (Some b, t') \<Longrightarrow> fb_spans b \<noteq> []"
  by (auto simp: tracer_inv_def pop_next_flush_batch_def Let_def split: list.splits if_splits)

lemma push_inv: "tracer_inv t \<Longrightarrow> fb_spans b \<noteq> [] \<Longrightarrow> tracer_inv (push_failed_batch b t)"
  by (auto simp: tracer_inv_def push_failed_batch_def pending_list_def)

lemma transport_update_inv [simp]:
  "tracer_inv (t\<lparr>tc_transport := tr\<rparr>) = tracer_inv t"
  "tracer_inv (t\<lparr>tc_failed_flushes := n\<rparr>) = tracer_inv t"
  "tracer_inv (t\<lparr>tc_flush_task := ft\<rparr>) = tracer_inv t"
  "tracer_inv (t\<lparr>tc_shutting_down := b\<rparr>) = tracer_inv t"
  by (simp_all add: tracer_inv_def pending_list_def)

lemma flush_send_inv:
  "tracer_inv t \<Longrightarrow> fb_spans b \<noteq> [] \<Longrightarrow> tracer_inv (snd (flush_send isofmt send b t))"
  by (auto simp: flush_send_def Let_def push_inv split: prod.splits outcome.splits)

lemma flush_inv: "tracer_inv t \<Longrightarrow> tracer_inv (snd (flush isofmt send key t))"
  using pop_inv [of t key] pop_nonempty [of t key]
  by (auto simp: flush_def flush_send_inv split: prod.splits option.splits)

lemma next_round_inv [simp]: "tracer_inv (next_round t) = tracer_inv t"
  by (simp add: next_round_def)

lemma loop_wake_inv: "tracer_inv t \<Longrightarrow> tracer_inv (loop_wake key t)"
  using pop_inv [of t key] by (auto simp: loop_wake_def split: prod.splits option.splits)

lemma loop_sent_inv:
  "tracer_inv t \<Longrightarrow> fb_spans b \<noteq> [] \<Longrightarrow> tracer_inv (snd (loop_sent isofmt send b t))"
  using flush_send_inv [of t b isofmt send]
  by (auto simp: loop_sent_def split: prod.splits outcome.splits)

lemma start_inv: "tracer_inv t \<Longrightarrow> tracer_inv (snd (start t))"
  by (auto simp: start_def)

lemmas tracer_inv_rules = init_tracer_inv record_span_inv loop_wake_inv loop_sent_inv start_inv

section \<open>Draining: two queues as one sequence of batches\<close>

text \<open>The batches a drain sends, in order: the failed ones, then the active buffer as one batch.\<close>

definition batches :: "string \<Rightarrow> 't tracer \<Rightarrow> flush_batch list" where
  "batches key t = tc_pending_batches t @
     (if tc_buffer t = [] then [] else [\<lparr>fb_spans = tc_buffer t, fb_key = key\<rparr>])"

text \<open>
  The specification: send the batches in order and stop at the first that is not sent,
  keeping it and the ones after it; an exception loses the batch it interrupts.
\<close>

fun send_all ::
  "(time \<Rightarrow> string) \<Rightarrow> 't sender \<Rightarrow> flush_batch list \<Rightarrow> 't \<Rightarrow> bool outcome \<times> 't \<times> flush_batch list" where
  "send_all isofmt send [] tr = (Ret True, tr, [])"
| "send_all isofmt send (b # bs) tr =
     (case send tr (map (span_to_dict isofmt) (fb_spans b)) (fb_key b) of
        (Raise e, tr') \<Rightarrow> (Raise e, tr', bs)
      | (Ret sent, tr') \<Rightarrow> if sent then send_all isofmt send bs tr' else (Ret False, tr', b # bs))"

lemma has_buffered_iff: "tracer_inv t \<Longrightarrow> has_buffered_spans t \<longleftrightarrow> batches key t \<noteq> []"
  by (cases "tc_pending_batches t")
     (auto simp: tracer_inv_def has_buffered_spans_def batches_def pending_list_def intro: add_pos_nonneg)

lemma pop_batches_Cons:
  "batches key t = b # bs \<Longrightarrow>
   \<exists>t'. pop_next_flush_batch key t = (Some b, t') \<and> batches key t' = bs \<and> tc_transport t' = tc_transport t \<and>
     tc_closed t' = tc_closed t \<and> tc_final_delivery_failures t' = tc_final_delivery_failures t"
  by (cases "tc_pending_batches t")
     (auto simp: batches_def pop_next_flush_batch_def Let_def split: if_splits)

lemma push_batches: "batches key (push_failed_batch b t) = b # batches key t"
  by (simp add: batches_def push_failed_batch_def)

lemma batches_frame [simp]:
  "batches key (t\<lparr>tc_transport := tr\<rparr>) = batches key t"
  "batches key (t\<lparr>tc_failed_flushes := n\<rparr>) = batches key t"
  "batches key (t\<lparr>tc_flush_task := ft\<rparr>) = batches key t"
  "batches key (t\<lparr>tc_shutting_down := sd\<rparr>) = batches key t"
  by (simp_all add: batches_def)

lemma close_tracer_frame:
  "batches key (close_tracer t) = batches key t" "tc_transport (close_tracer t) = tc_transport t"
  "tc_closed (close_tracer t)" "tc_final_delivery_failures (close_tracer t) = tc_final_delivery_failures t"
  "batches key (t\<lparr>tc_final_delivery_failures := n\<rparr>) = batches key t"
  by (simp_all add: close_tracer_def batches_def)

lemma drain_refines_send_all:
  assumes "tracer_inv t" and "batches key t = bs"
    and "send_all isofmt send bs (tc_transport t) = (r, tr, rest)"
  shows "\<exists>t'. drain isofmt send key t = Some (r, t') \<and> tc_transport t' = tr \<and>
     batches key t' = rest \<and> tracer_inv t' \<and> tc_closed t' = tc_closed t \<and>
     tc_final_delivery_failures t' = tc_final_delivery_failures t"
  using assms
proof (induction bs arbitrary: t)
  case Nil
  then have "\<not> has_buffered_spans t" using has_buffered_iff [of t key] by simp
  with Nil show ?case by (subst drain.simps) simp
next
  case (Cons b bs)
  have has: "has_buffered_spans t" using has_buffered_iff [OF Cons.prems(1), of key] Cons.prems(2) by simp
  from pop_batches_Cons [OF Cons.prems(2)] obtain t1
    where pop: "pop_next_flush_batch key t = (Some b, t1)" and t1: "batches key t1 = bs"
      "tc_transport t1 = tc_transport t" "tc_closed t1 = tc_closed t"
      "tc_final_delivery_failures t1 = tc_final_delivery_failures t" by blast
  have inv1: "tracer_inv t1" using pop_inv [OF Cons.prems(1), of key] pop by simp
  have b: "fb_spans b \<noteq> []" using pop_nonempty [OF Cons.prems(1) pop] .
  obtain o1 tr1 where send: "send (tc_transport t) (map (span_to_dict isofmt) (fb_spans b)) (fb_key b) = (o1, tr1)"
    by (cases "send (tc_transport t) (map (span_to_dict isofmt) (fb_spans b)) (fb_key b)")
  have flush: "flush isofmt send key t = flush_send isofmt send b t1" by (simp add: flush_def pop)
  show ?case
  proof (cases "o1 = Ret True")
    case True
    with flush send t1 have "flush isofmt send key t = (Ret True, t1\<lparr>tc_transport := tr1\<rparr>)"
      by (simp add: flush_send_def)
    moreover from Cons.prems(3) send True
    have "send_all isofmt send bs (tc_transport (t1\<lparr>tc_transport := tr1\<rparr>)) = (r, tr, rest)" by simp
    ultimately show ?thesis
      using Cons.IH [of "t1\<lparr>tc_transport := tr1\<rparr>"] inv1 t1 has
      by (subst drain.simps) simp
  next
    case False
    then show ?thesis
      using Cons.prems(3) send flush t1 has inv1 b
      by (subst drain.simps)
         (auto simp: flush_send_def Let_def push_batches push_inv split: outcome.splits if_splits,
          auto simp: push_failed_batch_def)
  qed
qed

section \<open>Runs\<close>

text \<open>
  A run interleaves the application, the background loop and any number of shutdowns and exit hooks.
  A shutdown or an exit hook in progress is a frame: it waits for the cancelled task (with its
  argument \<^verbatim>\<open>flush\<close>), is at the head of its loop, or awaits a send; the flag tells a shutdown from an exit hook.
\<close>

datatype drain_frame = Waiting bool | Looping bool | Sending_Last bool flush_batch

text \<open>
  The state of a run, with what has become of the recorded spans: delivered, dropped from the full
  buffer, interrupted in a send (which raised, or whose task was cancelled), or discarded by
  \<^verbatim>\<open>shutdown(flush=False)\<close>.
\<close>

record 't run_state =
  rn_tracer :: "'t tracer"
  rn_frames :: "drain_frame list"
  rn_recorded :: "span_data list"
  rn_delivered :: "span_data list"
  rn_dropped :: "span_data list"
  rn_interrupted :: "span_data list"
  rn_discarded :: "span_data list"

definition init_run :: "nat \<Rightarrow> 't \<Rightarrow> 't run_state" where
  "init_run n tr = \<lparr>rn_tracer = init_tracer n tr, rn_frames = [], rn_recorded = [], rn_delivered = [], rn_dropped = [],
     rn_interrupted = [], rn_discarded = []\<rparr>"

text \<open>The spans that leave the buffer when a span is recorded.\<close>

definition overflow :: "span_data \<Rightarrow> 't tracer \<Rightarrow> span_data list" where
  "overflow x t = (case tc_maxlen t of None \<Rightarrow> [] | Some n \<Rightarrow> take (Suc (length (tc_buffer t)) - n) (tc_buffer t @ [x]))"

inductive tracer_step :: "(time \<Rightarrow> string) \<Rightarrow> 't sender \<Rightarrow> 't run_state \<Rightarrow> 't run_state \<Rightarrow> bool"
  for isofmt :: "time \<Rightarrow> string" and send :: "'t sender" where
  step_record:
    "tracer_step isofmt send s (s\<lparr>rn_tracer := record_span x (rn_tracer s), rn_recorded := rn_recorded s @ [x],
       rn_dropped := rn_dropped s @ overflow x (rn_tracer s)\<rparr>)"
| step_start: "tracer_step isofmt send s (s\<lparr>rn_tracer := snd (start (rn_tracer s))\<rparr>)"
| step_wake: "tc_flush_task (rn_tracer s) = Sleeping \<Longrightarrow> tracer_step isofmt send s (s\<lparr>rn_tracer := loop_wake key (rn_tracer s)\<rparr>)"
| step_sent: "tc_flush_task (rn_tracer s) = Sending b \<Longrightarrow> loop_sent isofmt send b (rn_tracer s) = (Ret True, t') \<Longrightarrow>
     tracer_step isofmt send s (s\<lparr>rn_tracer := t', rn_delivered := rn_delivered s @ fb_spans b\<rparr>)"
| step_failed: "tc_flush_task (rn_tracer s) = Sending b \<Longrightarrow> loop_sent isofmt send b (rn_tracer s) = (Ret False, t') \<Longrightarrow>
     tracer_step isofmt send s (s\<lparr>rn_tracer := t'\<rparr>)"
| step_raised: "tc_flush_task (rn_tracer s) = Sending b \<Longrightarrow> loop_sent isofmt send b (rn_tracer s) = (Raise e, t') \<Longrightarrow>
     tracer_step isofmt send s (s\<lparr>rn_tracer := t', rn_interrupted := rn_interrupted s @ fb_spans b\<rparr>)"
| step_shutdown: "\<not> tc_closed (rn_tracer s) \<Longrightarrow>
     tracer_step isofmt send s (s\<lparr>rn_tracer := cancel_flush_task ((rn_tracer s)\<lparr>tc_shutting_down := True\<rparr>),
       rn_frames := rn_frames s @ [Waiting flush_arg],
       rn_interrupted := rn_interrupted s @ in_flight (tc_flush_task (rn_tracer s))\<rparr>)"
| step_discard: "rn_frames s = fs @ Waiting False # gs \<Longrightarrow>
     tracer_step isofmt send s (s\<lparr>rn_tracer := close_tracer (discard_buffers (rn_tracer s)), rn_frames := fs @ gs,
       rn_discarded := rn_discarded s @ pending_list (rn_tracer s) @ tc_buffer (rn_tracer s)\<rparr>)"
| step_drain: "rn_frames s = fs @ Waiting True # gs \<Longrightarrow> tracer_step isofmt send s (s\<lparr>rn_frames := fs @ Looping True # gs\<rparr>)"
| step_exit: "\<not> tc_closed (rn_tracer s) \<Longrightarrow> has_buffered_spans (rn_tracer s) \<Longrightarrow>
     tracer_step isofmt send s (s\<lparr>rn_frames := rn_frames s @ [Looping False]\<rparr>)"
| step_pop: "rn_frames s = fs @ Looping sh # gs \<Longrightarrow> has_buffered_spans (rn_tracer s) \<Longrightarrow>
     pop_next_flush_batch key (rn_tracer s) = (Some b, t') \<Longrightarrow>
     tracer_step isofmt send s (s\<lparr>rn_tracer := t', rn_frames := fs @ Sending_Last sh b # gs\<rparr>)"
| step_drained: "rn_frames s = fs @ Looping sh # gs \<Longrightarrow> \<not> has_buffered_spans (rn_tracer s) \<Longrightarrow>
     tracer_step isofmt send s (s\<lparr>rn_tracer := (if sh then close_tracer (rn_tracer s) else rn_tracer s), rn_frames := fs @ gs\<rparr>)"
| step_last_sent: "rn_frames s = fs @ Sending_Last sh b # gs \<Longrightarrow> flush_send isofmt send b (rn_tracer s) = (Ret True, t') \<Longrightarrow>
     tracer_step isofmt send s (s\<lparr>rn_tracer := t', rn_frames := fs @ Looping sh # gs, rn_delivered := rn_delivered s @ fb_spans b\<rparr>)"
| step_last_failed: "rn_frames s = fs @ Sending_Last sh b # gs \<Longrightarrow> flush_send isofmt send b (rn_tracer s) = (Ret False, t') \<Longrightarrow>
     tracer_step isofmt send s (s\<lparr>rn_frames := fs @ gs, rn_tracer :=
       (if sh then close_tracer (t'\<lparr>tc_final_delivery_failures := Suc (tc_final_delivery_failures t')\<rparr>) else t')\<rparr>)"
| step_last_raised: "rn_frames s = fs @ Sending_Last sh b # gs \<Longrightarrow> flush_send isofmt send b (rn_tracer s) = (Raise e, t') \<Longrightarrow>
     tracer_step isofmt send s (s\<lparr>rn_tracer := t', rn_frames := fs @ gs, rn_interrupted := rn_interrupted s @ fb_spans b\<rparr>)"

text \<open>A run all of whose states satisfy a condition.\<close>

inductive tracer_run :: "(time \<Rightarrow> string) \<Rightarrow> 't sender \<Rightarrow> ('t run_state \<Rightarrow> bool) \<Rightarrow> 't run_state \<Rightarrow> 't run_state \<Rightarrow> bool"
  for isofmt :: "time \<Rightarrow> string" and send :: "'t sender" and good :: "'t run_state \<Rightarrow> bool" and s0 :: "'t run_state" where
  run_init: "good s0 \<Longrightarrow> tracer_run isofmt send good s0 s0"
| run_step: "tracer_run isofmt send good s0 s \<Longrightarrow> tracer_step isofmt send s s' \<Longrightarrow> good s' \<Longrightarrow> tracer_run isofmt send good s0 s'"

text \<open>The batches being sent, and all spans that the SDK still holds, oldest first.\<close>

fun frame_batches :: "drain_frame \<Rightarrow> flush_batch list" where
  "frame_batches (Sending_Last sh b) = [b]"
| "frame_batches _ = []"

fun task_batches :: "flush_task \<Rightarrow> flush_batch list" where
  "task_batches (Sending b) = [b]"
| "task_batches _ = []"

definition batches_in_flight :: "'t run_state \<Rightarrow> flush_batch list" where
  "batches_in_flight s = task_batches (tc_flush_task (rn_tracer s)) @ concat (map frame_batches (rn_frames s))"

definition queued_spans :: "'t tracer \<Rightarrow> span_data list" where
  "queued_spans t = pending_list t @ tc_buffer t"

definition held_spans :: "'t run_state \<Rightarrow> span_data list" where
  "held_spans s = concat (map fb_spans (batches_in_flight s)) @ queued_spans (rn_tracer s)"

definition run_inv :: "'t run_state \<Rightarrow> bool" where
  "run_inv s \<longleftrightarrow> tracer_inv (rn_tracer s) \<and> list_all (\<lambda>b. fb_spans b \<noteq> []) (batches_in_flight s)"

lemma task_batches_spans: "concat (map fb_spans (task_batches ft)) = in_flight ft"
  by (cases ft) simp_all

text \<open>What the operations do to the queues.\<close>

lemma record_frame:
  "tc_flush_task (record_span x t) = tc_flush_task t" "tc_maxlen (record_span x t) = tc_maxlen t"
  "queued_spans (record_span x t) = pending_list t @ deque_append (tc_maxlen t) (tc_buffer t) x"
  by (auto simp: record_span_def queued_spans_def pending_list_def Let_def)

lemma record_splits: "overflow x t @ deque_append (tc_maxlen t) (tc_buffer t) x = tc_buffer t @ [x]"
  by (simp add: overflow_def deque_append_def del: take_append drop_append split: option.split)

lemma record_counts:
  assumes "tracer_inv t"
  shows "tc_dropped_spans (record_span x t) = tc_dropped_spans t + length (overflow x t)"
proof (cases "tc_maxlen t")
  case (Some n)
  with assms have "length (tc_buffer t) \<le> n" by (simp add: tracer_inv_def)
  with Some show ?thesis by (auto simp: record_span_def overflow_def Let_def)
qed (simp add: record_span_def overflow_def Let_def)

lemma pop_frame:
  assumes "pop_next_flush_batch key t = (Some b, t')"
  shows "queued_spans t = fb_spans b @ queued_spans t'" "tc_flush_task t' = tc_flush_task t" "tc_maxlen t' = tc_maxlen t"
    "tc_dropped_spans t' = tc_dropped_spans t"
  using assms by (auto simp: pop_next_flush_batch_def queued_spans_def pending_list_def Let_def split: list.splits if_splits)

lemma flush_send_frame:
  assumes "flush_send isofmt send b t = (r, t')"
  shows "tc_flush_task t' = tc_flush_task t" "tc_dropped_spans t' = tc_dropped_spans t" "tc_maxlen t' = tc_maxlen t"
    "queued_spans t' = (if r = Ret False then fb_spans b else []) @ queued_spans t"
  using assms
  by (auto simp: flush_send_def Let_def push_failed_batch_def pending_list_def queued_spans_def
      split: prod.splits outcome.splits if_splits)

lemma loop_sent_frame:
  assumes "loop_sent isofmt send b t = (r, t')"
  shows "task_batches (tc_flush_task t') = []" "tc_dropped_spans t' = tc_dropped_spans t" "tc_maxlen t' = tc_maxlen t"
    "queued_spans t' = (if r = Ret False then fb_spans b else []) @ queued_spans t"
proof -
  obtain r0 t0 where fs: "flush_send isofmt send b t = (r0, t0)"
    by (cases "flush_send isofmt send b t")
  with assms have r: "r = r0" and "\<exists>ft \<in> {Sleeping, TaskDone}. t' = t0\<lparr>tc_flush_task := ft\<rparr>"
    by (auto simp: loop_sent_def next_round_def split: outcome.splits)
  then obtain ft where "ft \<in> {Sleeping, TaskDone}" and t': "t' = t0\<lparr>tc_flush_task := ft\<rparr>" by blast
  then show "task_batches (tc_flush_task t') = []" by auto
  show "tc_dropped_spans t' = tc_dropped_spans t" "tc_maxlen t' = tc_maxlen t"
    "queued_spans t' = (if r = Ret False then fb_spans b else []) @ queued_spans t"
    using flush_send_frame [OF fs] by (simp_all add: t' r queued_spans_def pending_list_def)
qed

lemma loop_wake_frame:
  assumes "tc_flush_task t = Sleeping"
  shows "tc_dropped_spans (loop_wake key t) = tc_dropped_spans t" "tc_maxlen (loop_wake key t) = tc_maxlen t"
    "concat (map fb_spans (task_batches (tc_flush_task (loop_wake key t)))) @ queued_spans (loop_wake key t) = queued_spans t"
  using assms
  by (cases "tc_pending_batches t"; cases "tc_buffer t";
      simp add: loop_wake_def queued_spans_def pop_next_flush_batch_def next_round_def pending_list_def)+

lemma start_frame:
  "task_batches (tc_flush_task (snd (start t))) = task_batches (tc_flush_task t)" "queued_spans (snd (start t)) = queued_spans t"
  "tc_dropped_spans (snd (start t)) = tc_dropped_spans t" "tc_maxlen (snd (start t)) = tc_maxlen t"
  by (cases "tc_flush_task t"; auto simp: start_def queued_spans_def pending_list_def)+

lemma cancel_frame:
  "task_batches (tc_flush_task (cancel_flush_task t)) = []" "queued_spans (cancel_flush_task t) = queued_spans t"
  "tc_dropped_spans (cancel_flush_task t) = tc_dropped_spans t" "tc_maxlen (cancel_flush_task t) = tc_maxlen t"
  "tracer_inv (cancel_flush_task t) = tracer_inv t"
  by (cases "tc_flush_task t"; simp add: cancel_flush_task_def queued_spans_def pending_list_def)+

lemma close_frame:
  "tc_flush_task (close_tracer t) = tc_flush_task t" "queued_spans (close_tracer t) = queued_spans t"
  "tc_dropped_spans (close_tracer t) = tc_dropped_spans t" "tc_maxlen (close_tracer t) = tc_maxlen t"
  "tracer_inv (close_tracer t) = tracer_inv t"
  by (simp_all add: close_tracer_def queued_spans_def pending_list_def tracer_inv_def)

lemma discard_frame:
  "tc_flush_task (discard_buffers t) = tc_flush_task t" "queued_spans (discard_buffers t) = []"
  "tc_dropped_spans (discard_buffers t) = tc_dropped_spans t" "tc_maxlen (discard_buffers t) = tc_maxlen t"
  "tracer_inv (discard_buffers t)"
  by (simp_all add: discard_buffers_def queued_spans_def pending_list_def tracer_inv_def)

lemma field_frame [simp]:
  "queued_spans (t\<lparr>tc_shutting_down := sd\<rparr>) = queued_spans t"
  "queued_spans (t\<lparr>tc_final_delivery_failures := n\<rparr>) = queued_spans t"
  "tracer_inv (t\<lparr>tc_final_delivery_failures := n\<rparr>) = tracer_inv t"
  by (simp_all add: queued_spans_def pending_list_def tracer_inv_def)

lemmas run_frames = record_frame pop_frame flush_send_frame loop_sent_frame loop_wake_frame start_frame cancel_frame
  close_frame discard_frame

lemma run_inv_step: "tracer_step isofmt send s s' \<Longrightarrow> run_inv s \<Longrightarrow> run_inv s'"
proof (induction rule: tracer_step.induct)
  case (step_record s x)
  then show ?case by (simp add: run_inv_def batches_in_flight_def record_span_inv record_frame)
next
  case (step_start s)
  then show ?case by (simp add: run_inv_def batches_in_flight_def start_inv start_frame)
next
  case (step_wake s key)
  have "fb_spans b \<noteq> []" if "tc_flush_task (loop_wake key (rn_tracer s)) = Sending b" for b
    using step_wake that pop_nonempty [of "rn_tracer s" key]
    by (auto simp: loop_wake_def run_inv_def next_round_def split: prod.splits option.splits if_splits)
  then have "list_all (\<lambda>b. fb_spans b \<noteq> []) (task_batches (tc_flush_task (loop_wake key (rn_tracer s))))"
    by (cases "tc_flush_task (loop_wake key (rn_tracer s))") simp_all
  with step_wake show ?case by (simp add: run_inv_def batches_in_flight_def loop_wake_inv)
next
  case (step_sent s b t')
  then show ?case using loop_sent_inv [of "rn_tracer s" b isofmt send] loop_sent_frame(1) [OF step_sent(2)]
    by (simp add: run_inv_def batches_in_flight_def)
next
  case (step_failed s b t')
  then show ?case using loop_sent_inv [of "rn_tracer s" b isofmt send] loop_sent_frame(1) [OF step_failed(2)]
    by (simp add: run_inv_def batches_in_flight_def)
next
  case (step_raised s b e t')
  then show ?case using loop_sent_inv [of "rn_tracer s" b isofmt send] loop_sent_frame(1) [OF step_raised(2)]
    by (simp add: run_inv_def batches_in_flight_def)
next
  case (step_pop s fs sh gs key b t')
  then show ?case using pop_inv [of "rn_tracer s" key] pop_nonempty [of "rn_tracer s" key b t'] pop_frame(2) [OF step_pop(3)]
    by (simp add: run_inv_def batches_in_flight_def)
next
  case (step_last_sent s fs sh b gs t')
  then show ?case using flush_send_inv [of "rn_tracer s" b isofmt send] flush_send_frame(1) [OF step_last_sent(2)]
    by (simp add: run_inv_def batches_in_flight_def)
next
  case (step_last_failed s fs sh b gs t')
  then show ?case using flush_send_inv [of "rn_tracer s" b isofmt send] flush_send_frame(1) [OF step_last_failed(2)]
    by (simp add: run_inv_def batches_in_flight_def close_frame)
next
  case (step_last_raised s fs sh b gs e t')
  then show ?case using flush_send_inv [of "rn_tracer s" b isofmt send] flush_send_frame(1) [OF step_last_raised(2)]
    by (simp add: run_inv_def batches_in_flight_def)
qed (simp_all add: run_inv_def batches_in_flight_def cancel_frame close_frame discard_frame)

text \<open>Every span is in exactly one place, and the counter of dropped spans is exact.\<close>

definition accounted :: "'t run_state \<Rightarrow> bool" where
  "accounted s \<longleftrightarrow> mset (rn_recorded s) = mset (rn_delivered s) + mset (held_spans s) + mset (rn_dropped s) +
       mset (rn_interrupted s) + mset (rn_discarded s) \<and>
     tc_dropped_spans (rn_tracer s) = length (rn_dropped s)"

lemma accounted_step: "tracer_step isofmt send s s' \<Longrightarrow> run_inv s \<Longrightarrow> accounted s \<Longrightarrow> accounted s'"
proof (induction rule: tracer_step.induct)
  case (step_record s x)
  have "mset (overflow x (rn_tracer s)) + mset (deque_append (tc_maxlen (rn_tracer s)) (tc_buffer (rn_tracer s)) x) =
      mset (tc_buffer (rn_tracer s)) + {#x#}"
    using arg_cong [OF record_splits [of x "rn_tracer s"], of mset] by simp
  then have "mset (overflow x (rn_tracer s)) + mset (queued_spans (record_span x (rn_tracer s))) =
      mset (queued_spans (rn_tracer s)) + {#x#}"
    unfolding record_frame(3) by (simp add: queued_spans_def ac_simps)
  with step_record show ?case
    by (simp add: accounted_def run_inv_def held_spans_def batches_in_flight_def record_frame(1,2) record_counts ac_simps)
next
  case (step_wake s key)
  have "mset (concat (map fb_spans (task_batches (tc_flush_task (loop_wake key (rn_tracer s)))))) + mset (queued_spans (loop_wake key (rn_tracer s))) =
      mset (queued_spans (rn_tracer s))"
    using arg_cong [OF loop_wake_frame(3) [OF step_wake(1), of key], of mset] by simp
  with step_wake show ?case
    by (simp add: accounted_def held_spans_def batches_in_flight_def loop_wake_frame ac_simps)
next
  case (step_sent s b t')
  with loop_sent_frame [OF step_sent(2)] show ?case by (simp add: accounted_def held_spans_def batches_in_flight_def ac_simps)
next
  case (step_failed s b t')
  with loop_sent_frame [OF step_failed(2)] show ?case by (simp add: accounted_def held_spans_def batches_in_flight_def ac_simps)
next
  case (step_raised s b e t')
  with loop_sent_frame [OF step_raised(2)] show ?case by (simp add: accounted_def held_spans_def batches_in_flight_def ac_simps)
next
  case (step_pop s fs sh gs key b t')
  with pop_frame [OF step_pop(3)] show ?case by (simp add: accounted_def held_spans_def batches_in_flight_def ac_simps)
next
  case (step_last_sent s fs sh b gs t')
  with flush_send_frame [OF step_last_sent(2)] show ?case
    by (simp add: accounted_def held_spans_def batches_in_flight_def ac_simps)
next
  case (step_last_failed s fs sh b gs t')
  with flush_send_frame [OF step_last_failed(2)] show ?case
    by (simp add: accounted_def held_spans_def batches_in_flight_def close_frame ac_simps)
next
  case (step_last_raised s fs sh b gs e t')
  with flush_send_frame [OF step_last_raised(2)] show ?case
    by (simp add: accounted_def held_spans_def batches_in_flight_def ac_simps)
next
  case (step_discard s fs gs)
  have "mset (queued_spans (rn_tracer s)) = mset (pending_list (rn_tracer s)) + mset (tc_buffer (rn_tracer s))"
    by (simp add: queued_spans_def)
  with step_discard show ?case
    by (simp add: accounted_def held_spans_def batches_in_flight_def close_frame discard_frame ac_simps)
qed (simp_all add: accounted_def held_spans_def batches_in_flight_def start_frame cancel_frame close_frame
      task_batches_spans ac_simps)

text \<open>With one send at a time the spans are delivered in order.\<close>

definition one_send :: "'t run_state \<Rightarrow> bool" where
  "one_send s \<longleftrightarrow> length (batches_in_flight s) \<le> 1"

definition in_order :: "'t run_state \<Rightarrow> bool" where
  "in_order s \<longleftrightarrow> subseq (rn_delivered s @ held_spans s) (rn_recorded s)"

lemma in_order_mono:
  assumes "in_order s" and "rn_recorded s' = rn_recorded s" and "subseq (rn_delivered s' @ held_spans s') (rn_delivered s @ held_spans s)"
  shows "in_order s'"
  using assms by (auto simp: in_order_def intro: subseq_order.trans)

lemma one_send_frame:
  assumes "one_send s" and "rn_frames s = fs @ Sending_Last sh b # gs"
  shows "task_batches (tc_flush_task (rn_tracer s)) = [] \<and> concat (map frame_batches fs) = [] \<and> concat (map frame_batches gs) = []"
  using assms by (auto simp: one_send_def batches_in_flight_def length_0_conv [symmetric] simp del: length_0_conv)

lemma one_send_task:
  assumes "one_send s" and "tc_flush_task (rn_tracer s) = Sending b"
  shows "concat (map frame_batches (rn_frames s)) = []"
  using assms by (auto simp: one_send_def batches_in_flight_def length_0_conv [symmetric] simp del: length_0_conv)

lemma in_order_step:
  assumes "tracer_step isofmt send s s'" and "one_send s" and "one_send s'" and "in_order s"
  shows "in_order s'"
  using assms
proof (induction rule: tracer_step.induct)
  case (step_record s x)
  let ?old = "tc_buffer (rn_tracer s)" and ?new = "deque_append (tc_maxlen (rn_tracer s)) (tc_buffer (rn_tracer s)) x"
  have "subseq ?new (?old @ [x])" by (rule subseq_deque_append)
  then have "subseq ((rn_delivered s @ concat (map fb_spans (batches_in_flight s)) @ pending_list (rn_tracer s)) @ ?new)
      ((rn_delivered s @ concat (map fb_spans (batches_in_flight s)) @ pending_list (rn_tracer s)) @ ?old @ [x])"
    by (subst subseq_append') assumption
  moreover have "subseq ((rn_delivered s @ concat (map fb_spans (batches_in_flight s)) @ pending_list (rn_tracer s) @ ?old) @ [x]) (rn_recorded s @ [x])"
    using step_record(3) by (subst subseq_append) (simp add: in_order_def held_spans_def queued_spans_def)
  ultimately show ?case
    by (auto simp: in_order_def held_spans_def batches_in_flight_def record_frame intro: subseq_order.trans)
next
  case (step_wake s key)
  show ?case
  proof (cases "tc_flush_task (loop_wake key (rn_tracer s))")
    case (Sending b)
    have none: "concat (map frame_batches (rn_frames s)) = []"
      using one_send_task [OF step_wake(3), of b] Sending by simp
    have "held_spans (s\<lparr>rn_tracer := loop_wake key (rn_tracer s)\<rparr>) = held_spans s"
      using loop_wake_frame(3) [OF step_wake(1), of key] step_wake(1)
      by (simp add: held_spans_def batches_in_flight_def Sending none del: concat_eq_Nil_conv)
    with step_wake(4) show ?thesis by (simp add: in_order_def)
  qed (use loop_wake_frame(3) [OF step_wake(1), of key] step_wake(1,4) in \<open>simp_all add: in_order_def held_spans_def batches_in_flight_def\<close>)
next
  case (step_sent s b t')
  with loop_sent_frame [OF step_sent(2)] one_send_task [OF step_sent(3,1)] show ?case
    by (simp add: in_order_def held_spans_def batches_in_flight_def)
next
  case (step_failed s b t')
  have "held_spans (s\<lparr>rn_tracer := t'\<rparr>) = held_spans s"
    using loop_sent_frame [OF step_failed(2)] one_send_task [OF step_failed(3,1)] step_failed(1)
    by (simp add: held_spans_def batches_in_flight_def del: concat_eq_Nil_conv)
  with step_failed(5) show ?case by (simp add: in_order_def)
next
  case (step_raised s b e t')
  from loop_sent_frame [OF step_raised(2)] step_raised(1) show ?case
    by (intro in_order_mono [OF step_raised(5)]) (simp_all add: held_spans_def batches_in_flight_def subseq_append' list_emb_append2)
next
  case (step_shutdown s flush_arg)
  show ?case
    by (intro in_order_mono [OF step_shutdown(4)])
      (simp_all add: held_spans_def batches_in_flight_def subseq_append' list_emb_append2 cancel_frame)
next
  case (step_discard s fs gs)
  then show ?case
    by (intro in_order_mono [OF step_discard(4)])
      (simp_all add: held_spans_def batches_in_flight_def subseq_append' subseq_rev_drop_many close_frame discard_frame)
next
  case (step_pop s fs sh gs key b t')
  have "rn_frames (s\<lparr>rn_tracer := t', rn_frames := fs @ Sending_Last sh b # gs\<rparr>) = fs @ Sending_Last sh b # gs" by simp
  note alone = one_send_frame [OF step_pop(5) this]
  with pop_frame [OF step_pop(3)] step_pop(1,6) show ?case
    by (simp add: in_order_def held_spans_def batches_in_flight_def del: concat_eq_Nil_conv)
next
  case (step_last_sent s fs sh b gs t')
  with flush_send_frame [OF step_last_sent(2)] one_send_frame [OF step_last_sent(3,1)] show ?case
    by (simp add: in_order_def held_spans_def batches_in_flight_def del: concat_eq_Nil_conv)
next
  case (step_last_failed s fs sh b gs t')
  with flush_send_frame [OF step_last_failed(2)] one_send_frame [OF step_last_failed(3,1)] show ?case
    by (simp add: in_order_def held_spans_def batches_in_flight_def close_frame del: concat_eq_Nil_conv)
next
  case (step_last_raised s fs sh b gs e t')
  from flush_send_frame [OF step_last_raised(2)] step_last_raised(1) one_send_frame [OF step_last_raised(3,1)] show ?case
    by (intro in_order_mono [OF step_last_raised(5)]) (simp_all add: held_spans_def batches_in_flight_def subseq_append' list_emb_append2 del: concat_eq_Nil_conv)
qed (simp_all add: in_order_def held_spans_def batches_in_flight_def start_frame close_frame)

lemma step_maxlen: "tracer_step isofmt send s s' \<Longrightarrow> tc_maxlen (rn_tracer s') = tc_maxlen (rn_tracer s)"
  by (induction rule: tracer_step.induct) (simp_all add: run_frames)

lemma init_run_facts: "run_inv (init_run n tr)" "accounted (init_run n tr)" "in_order (init_run n tr)" "tc_maxlen (rn_tracer (init_run n tr)) = Some n"
proof -
  have "tracer_inv (init_tracer n tr)" by (rule init_tracer_inv)
  then show "run_inv (init_run n tr)" by (simp add: run_inv_def init_run_def batches_in_flight_def) (simp add: init_tracer_def)
qed (simp_all add: accounted_def in_order_def init_run_def init_tracer_def held_spans_def batches_in_flight_def queued_spans_def pending_list_def)

lemma run_facts:
  assumes "tracer_run isofmt send good (init_run n tr) s"
  shows "run_inv s \<and> accounted s \<and> tc_maxlen (rn_tracer s) = Some n"
  using assms by (induction rule: tracer_run.induct) (simp_all add: init_run_facts run_inv_step accounted_step step_maxlen)

lemma run_in_order:
  assumes "tracer_run isofmt send one_send (init_run n tr) s"
  shows "one_send s \<and> in_order s"
  using assms by (induction rule: tracer_run.induct) (auto simp: init_run_facts intro: in_order_step)

section \<open>What the tracer relies on\<close>

text \<open>
  The contract between tracer and transport: a send that returns leaves diagnostics about
  that very batch. The tracer's own diagnostics rest on it.
\<close>

locale batch_transport =
  fixes send :: "'t sender"
    and diagnostics :: "'t \<Rightarrow> transport_diagnostics option"
  assumes send_diagnosed:
    "send tr ss k = (Ret b, tr') \<Longrightarrow>
       \<exists>d. diagnostics tr' = Some d \<and> td_ok d = b \<and> td_spans_count d = length ss \<and>
         (td_reason d = ''sent'' \<longleftrightarrow> b)"
begin

lemma flush_failure_diagnosed:
  assumes "flush isofmt send key t = (Ret False, t')"
  shows "\<exists>b d. fst (pop_next_flush_batch key t) = Some b \<and> diagnostics (tc_transport t') = Some d \<and>
     \<not> td_ok d \<and> td_reason d \<noteq> ''sent'' \<and> td_spans_count d = length (fb_spans b)"
proof -
  obtain b t1 where pop: "pop_next_flush_batch key t = (Some b, t1)"
    and send: "flush_send isofmt send b t1 = (Ret False, t')"
    using assms by (auto simp: flush_def split: prod.splits option.splits)
  from send obtain tr where "send (tc_transport t1) (map (span_to_dict isofmt) (fb_spans b)) (fb_key b) = (Ret False, tr)"
    and "tc_transport t' = tr"
    by (auto simp: flush_send_def push_failed_batch_def Let_def split: prod.splits outcome.splits if_splits)
  with send_diagnosed pop show ?thesis by fastforce
qed

end

definition http_send :: "('c, json) http_post \<Rightarrow> (string \<Rightarrow> rat option) \<Rightarrow> 'c transport sender" where
  "http_send post float_of tr ss k = send_batch post float_of ss (Some k) tr"

lemma http_send_diagnosed:
  "http_send post float_of tr ss k = (Ret b, tr') \<Longrightarrow>
     \<exists>d. last_diagnostics tr' = Some d \<and> td_ok d = b \<and> td_spans_count d = length ss \<and>
       (td_reason d = ''sent'' \<longleftrightarrow> b)"
  using send_attempts_diagnostics [of post float_of ss "Some k" 0 tr b tr']
  by (auto simp: http_send_def send_batch_def good_diagnostics_def MAX_ATTEMPTS_def)

interpretation http: batch_transport "http_send post float_of" last_diagnostics for post float_of
  by unfold_locales (rule http_send_diagnosed)

lemma record_span_pending: "tc_pending_batches (fold record_span ss t) = tc_pending_batches t"
  by (induction ss arbitrary: t) (auto simp: record_span_def Let_def)

section \<open>Properties\<close>

text \<open>A span for the examples below.\<close>

definition demo_span :: "string \<Rightarrow> span_data" where
  "demo_span i = \<lparr>sd_trace_id = ''t'', sd_span_id = i, sd_name = ''n'', sd_provider = ''custom'',
     sd_model = ''m'', sd_input_messages = [], sd_parent_span_id = None, sd_output = JNull,
     sd_error = None, sd_input_tokens = 0, sd_output_tokens = 0, sd_latency_ms = 0,
     sd_started_at = 0, sd_metadata = []\<rparr>"

text \<open>A run in which two spans are recorded in a buffer for one, and the second is lost to a cancelled send.\<close>

definition demo_run :: "nat run_state" where
  "demo_run = \<lparr>rn_tracer = cancel_flush_task ((loop_wake ''k'' (snd (start (record_span (demo_span ''b'')
       (record_span (demo_span ''a'') (init_tracer 1 0))))))\<lparr>tc_shutting_down := True\<rparr>),
     rn_frames = [Waiting True], rn_recorded = [demo_span ''a'', demo_span ''b''], rn_delivered = [], rn_dropped = [demo_span ''a''],
     rn_interrupted = [demo_span ''b''], rn_discarded = []\<rparr>"

lemma demo_run_runs: "tracer_run isofmt send one_send (init_run 1 0) demo_run"
proof -
  let ?t1 = "record_span (demo_span ''a'') (init_tracer 1 (0 :: nat))"
  let ?t2 = "record_span (demo_span ''b'') ?t1"
  let ?t3 = "snd (start ?t2)"
  let ?s = "\<lambda>t xs ds. \<lparr>rn_tracer = t, rn_frames = [], rn_recorded = xs, rn_delivered = [], rn_dropped = ds, rn_interrupted = [], rn_discarded = []\<rparr>"
  note defs = record_span_def init_tracer_def deque_append_def overflow_def start_def loop_wake_def pop_next_flush_batch_def
    cancel_flush_task_def one_send_def batches_in_flight_def init_run_def demo_run_def
  have 0: "tracer_run isofmt send one_send (init_run 1 0) (init_run 1 0)" by (rule run_init) (simp add: defs)
  have "tracer_step isofmt send (init_run 1 0) (?s ?t1 [demo_span ''a''] [])"
    using step_record [of isofmt send "init_run 1 0" "demo_span ''a''"] by (simp add: defs)
  then have 1: "tracer_run isofmt send one_send (init_run 1 0) (?s ?t1 [demo_span ''a''] [])" by (rule run_step [OF 0]) (simp add: defs)
  have "tracer_step isofmt send (?s ?t1 [demo_span ''a''] []) (?s ?t2 [demo_span ''a'', demo_span ''b''] [demo_span ''a''])"
    using step_record [of isofmt send "?s ?t1 [demo_span ''a''] []" "demo_span ''b''"] by (simp add: defs)
  then have 2: "tracer_run isofmt send one_send (init_run 1 0) (?s ?t2 [demo_span ''a'', demo_span ''b''] [demo_span ''a''])"
    by (rule run_step [OF 1]) (simp add: defs)
  have "tracer_step isofmt send (?s ?t2 [demo_span ''a'', demo_span ''b''] [demo_span ''a'']) (?s ?t3 [demo_span ''a'', demo_span ''b''] [demo_span ''a''])"
    using step_start [of isofmt send "?s ?t2 [demo_span ''a'', demo_span ''b''] [demo_span ''a'']"] by simp
  then have 3: "tracer_run isofmt send one_send (init_run 1 0) (?s ?t3 [demo_span ''a'', demo_span ''b''] [demo_span ''a''])"
    by (rule run_step [OF 2]) (simp add: defs)
  have "tracer_step isofmt send (?s ?t3 [demo_span ''a'', demo_span ''b''] [demo_span ''a''])
      (?s (loop_wake ''k'' ?t3) [demo_span ''a'', demo_span ''b''] [demo_span ''a''])"
    using step_wake [of "?s ?t3 [demo_span ''a'', demo_span ''b''] [demo_span ''a'']" isofmt send "''k''"] by (simp add: defs)
  then have 4: "tracer_run isofmt send one_send (init_run 1 0) (?s (loop_wake ''k'' ?t3) [demo_span ''a'', demo_span ''b''] [demo_span ''a''])"
    by (rule run_step [OF 3]) (simp add: defs)
  have "tracer_step isofmt send (?s (loop_wake ''k'' ?t3) [demo_span ''a'', demo_span ''b''] [demo_span ''a'']) demo_run"
    using step_shutdown [of "?s (loop_wake ''k'' ?t3) [demo_span ''a'', demo_span ''b''] [demo_span ''a'']" isofmt send True]
    by (simp add: defs)
  then show ?thesis by (rule run_step [OF 4]) (simp add: defs)
qed





text \<open>
  A batch whose flush fails is the next one to be sent, with the same spans and under
  the same idempotency key, however many spans are recorded in between; and the failure is
  reported in the diagnostics with the size of that batch.
\<close>

theorem failed_batch_retried_first:
  assumes "flush isofmt (http_send post float_of) key t = (Ret False, t')"
  shows "\<exists>b d. fst (pop_next_flush_batch key t) = Some b \<and>
     fst (pop_next_flush_batch key' (fold record_span ss t')) = Some b \<and>
     last_diagnostics (tc_transport t') = Some d \<and> td_reason d \<noteq> ''sent'' \<and>
     td_spans_count d = length (fb_spans b)"
proof -
  from http.flush_failure_diagnosed [OF assms] obtain b d
    where bd: "fst (pop_next_flush_batch key t) = Some b" "last_diagnostics (tc_transport t') = Some d"
      "td_reason d \<noteq> ''sent''" "td_spans_count d = length (fb_spans b)" by blast
  from assms bd(1) obtain t1 where "flush_send isofmt (http_send post float_of) b t1 = (Ret False, t')"
    by (auto simp: flush_def split: prod.splits option.splits)
  then obtain bs where "tc_pending_batches t' = b # bs"
    by (auto simp: flush_send_def push_failed_batch_def Let_def split: prod.splits outcome.splits if_splits)
  then have "fst (pop_next_flush_batch key' (fold record_span ss t')) = Some b"
    by (simp add: pop_next_flush_batch_def record_span_pending)
  with bd show ?thesis by blast
qed

theorem failed_batch_retried_first_witness:
  "\<exists>b. fst (pop_next_flush_batch ''k2'' (fold record_span [demo_span ''c'']
      (snd (flush (\<lambda>_. []) (http_send (\<lambda>c ss k. (Response 400 None, c)) (\<lambda>s. None)) ''k1''
         (record_span (demo_span ''a'') (init_tracer 3 \<lparr>client = (0::nat), last_diagnostics = None\<rparr>)))))) = Some b"
proof -
  let ?t = "record_span (demo_span ''a'') (init_tracer 3 \<lparr>client = (0::nat), last_diagnostics = None\<rparr>)"
  let ?f = "flush (\<lambda>_. []) (http_send (\<lambda>c ss k. (Response 400 None, c)) (\<lambda>s. None)) ''k1'' ?t"
  have "?f = (Ret False, snd ?f)"
    by (simp add: flush_def record_span_def init_tracer_def deque_append_def pop_next_flush_batch_def
        flush_send_def http_send_def send_batch_def MAX_ATTEMPTS_def upt_rec is_success_def Let_def)
  from failed_batch_retried_first [OF this, of "''k2''" "[demo_span ''c'']"] show ?thesis by blast
qed

text \<open>
  C5: \<^verbatim>\<open>shutdown(flush=True)\<close> returns, and does exactly what sending the failed batches
  and then the buffer in order does: it closes the tracer unless a send raises, keeps the
  first batch that is not sent and all after it, and counts one final delivery failure
  in that case.
\<close>

theorem shutdown_drains:
  assumes "tracer_inv t" and "\<not> tc_closed t"
    and "send_all isofmt send (batches key t) (tc_transport t) = (r, tr, rest)"
  shows "\<exists>t'. shutdown isofmt send key True t =
       Some (case r of Raise e \<Rightarrow> Raise e | Ret sent \<Rightarrow> Ret (), t') \<and>
     batches key t' = rest \<and> tc_transport t' = tr \<and> (tc_closed t' \<longleftrightarrow> (\<exists>sent. r = Ret sent)) \<and>
     tc_final_delivery_failures t' = tc_final_delivery_failures t + (if r = Ret False then 1 else 0)"
proof -
  let ?t = "cancel_flush_task (t\<lparr>tc_shutting_down := True\<rparr>)"
  have c: "tracer_inv ?t" "batches key ?t = batches key t" "tc_transport ?t = tc_transport t"
    "tc_closed ?t = tc_closed t" "tc_final_delivery_failures ?t = tc_final_delivery_failures t"
    using assms(1) by (simp_all add: cancel_flush_task_def split: flush_task.split)
  from drain_refines_send_all [OF c(1,2), of isofmt send r tr rest] assms(3) c(3)
  obtain t' where "drain isofmt send key ?t = Some (r, t')" "tc_transport t' = tr" "batches key t' = rest"
    "tc_closed t' = tc_closed ?t" "tc_final_delivery_failures t' = tc_final_delivery_failures ?t" by auto
  with assms(2) c show ?thesis
    by (cases r) (simp_all add: shutdown_def close_tracer_frame)
qed

theorem shutdown_drains_witness:
  "\<exists>t'. shutdown (\<lambda>_. []) (\<lambda>tr ss k. (Ret True, tr + length ss)) ''k'' True
       (record_span (demo_span ''a'') (init_tracer 3 (0::nat))) = Some (Ret (), t') \<and> tc_transport t' = 1 \<and> tc_closed t'"
proof -
  let ?t = "record_span (demo_span ''a'') (init_tracer 3 (0::nat))"
  have inv: "tracer_inv ?t" by (intro tracer_inv_rules)
  have open': "\<not> tc_closed ?t" by (simp add: record_span_def init_tracer_def Let_def)
  have "send_all (\<lambda>_. []) (\<lambda>tr ss k. (Ret True, tr + length ss)) (batches ''k'' ?t) (tc_transport ?t) = (Ret True, 1, [])"
    by (simp add: batches_def record_span_def init_tracer_def deque_append_def Let_def)
  from shutdown_drains [OF inv open' this] show ?thesis by auto
qed

text \<open>
  A batch that the background task is sending when \<^verbatim>\<open>shutdown\<close> is called takes no
  part in it: cancelling the task discards it, and the shutdown does the same as if the
  batch had never existed, although \<^verbatim>\<open>flush=True\<close> asks for the recorded spans to be sent.
\<close>

theorem shutdown_forgets_batch_in_flight:
  assumes "tc_flush_task t = Sending b" and "\<not> tc_closed t"
  shows "shutdown isofmt send key True t = shutdown isofmt send key True (t\<lparr>tc_flush_task := Sleeping\<rparr>)"
  using assms by (simp add: shutdown_def cancel_flush_task_def Let_def)

theorem shutdown_forgets_batch_in_flight_witness:
  "shutdown (\<lambda>_. []) (\<lambda>tr ss k. (Ret True, tr + length ss)) ''k'' True
     ((init_tracer 3 (0::nat))\<lparr>tc_flush_task := Sending \<lparr>fb_spans = [demo_span ''a''], fb_key = ''k0''\<rparr>\<rparr>) =
   shutdown (\<lambda>_. []) (\<lambda>tr ss k. (Ret True, tr + length ss)) ''k'' True
     ((init_tracer 3 (0::nat))\<lparr>tc_flush_task := Sleeping\<rparr>)"
  using shutdown_forgets_batch_in_flight
    [of "(init_tracer 3 (0::nat))\<lparr>tc_flush_task := Sending \<lparr>fb_spans = [demo_span ''a''], fb_key = ''k0''\<rparr>\<rparr>"
        "\<lparr>fb_spans = [demo_span ''a''], fb_key = ''k0''\<rparr>" "\<lambda>_. []" "\<lambda>tr ss k. (Ret True, tr + length ss)" "''k''"]
  by (simp add: init_tracer_def)

end
