(* ===== verification/Payload_Storage.thy ===== *)
theory Payload_Storage
  imports Obs_Prelude
begin

text \<open>
  Payload privacy: \<^verbatim>\<open>backend/app/services/storage.py\<close> (redaction, the storage decision,
  writing and reading the payload object) and the privacy helpers of
  \<^verbatim>\<open>backend/app/workers/process_span.py\<close> (effective settings, sanitised metadata).

  Parameters for code outside the repository: \<open>dumps\<close> is \<^verbatim>\<open>json.dumps\<close> followed by
  the UTF-8 encoding (\<open>None\<close> where the encoding raises), \<open>loads\<close> its inverse,
  \<open>compress\<close>/\<open>decompress\<close> are gzip, \<open>put\<close>/\<open>get\<close> the object store with
  its state (the answer \<open>Some e\<close> of \<open>put\<close>, or \<open>None\<close> of \<open>get\<close>, stands for an exception).
\<close>

section \<open>Definitions\<close>

definition DEFAULT_PAYLOAD_MAX_BYTES :: int where
  "DEFAULT_PAYLOAD_MAX_BYTES = 256 * 1024"

definition DEFAULT_REDACT_KEYS :: string where
  "DEFAULT_REDACT_KEYS = ''api_key,password,secret,token,authorization''"

definition REDACTED_VALUE :: string where
  "REDACTED_VALUE = ''[redacted]''"

datatype payload_status = Stored | Stored_redacted | Omitted | Too_large | Storage_failed

record payload_storage_result =
  ps_s3_key :: "string option"
  ps_status :: payload_status
  ps_drop_reason :: "string option"

definition parse_redact_keys :: "string option \<Rightarrow> string set" where
  "parse_redact_keys value =
     (let v = (if truthy value then the value else DEFAULT_REDACT_KEYS)
      in set (map (\<lambda>item. py_lower (py_strip item))
            (filter (\<lambda>item. py_strip item \<noteq> []) (py_split (CHR '','') v))))"

fun redact_payload :: "string set \<Rightarrow> json \<Rightarrow> json" where
  "redact_payload ks (JArr xs) = JArr (map (redact_payload ks) xs)"
| "redact_payload ks (JObj kvs) =
     JObj (map (\<lambda>kv. (fst kv, if py_lower (fst kv) \<in> ks then JStr REDACTED_VALUE
                              else redact_payload ks (snd kv))) kvs)"
| "redact_payload ks v = v"

definition should_store_payload :: "string \<Rightarrow> bool \<Rightarrow> bool" where
  "should_store_payload mode has_error =
     (if mode = ''none'' then False else if mode = ''errors'' then has_error else True)"

definition skipped_payload_result :: "string \<Rightarrow> payload_storage_result" where
  "skipped_payload_result mode =
     (if mode = ''none''
      then \<lparr>ps_s3_key = None, ps_status = Omitted, ps_drop_reason = Some ''storage_mode_none''\<rparr>
      else \<lparr>ps_s3_key = None, ps_status = Omitted, ps_drop_reason = Some ''errors_only_non_error''\<rparr>)"

definition payload_key :: "string \<Rightarrow> string \<Rightarrow> string" where
  "payload_key project_id span_id =
     ''payloads/'' @ project_id @ ''/'' @ take 2 span_id @ ''/'' @ span_id @ ''.json.gz''"

definition payload_data :: "json list \<Rightarrow> json \<Rightarrow> json" where
  "payload_data messages out = JObj [(''messages'', JArr messages), (''output'', out)]"

text \<open>
  \<^verbatim>\<open>StorageService.store_payload\<close>. The encoding error is raised outside its
  \<^verbatim>\<open>try\<close>; every failure of the object store is turned into a result.
\<close>

definition store_payload ::
  "(json \<Rightarrow> 'b list option) \<Rightarrow> ('b list \<Rightarrow> 'z) \<Rightarrow> ('s \<Rightarrow> string \<Rightarrow> 'z \<Rightarrow> string option \<times> 's) \<Rightarrow>
   string \<Rightarrow> string \<Rightarrow> json list \<Rightarrow> json \<Rightarrow> int option \<Rightarrow> string set \<Rightarrow> 's \<Rightarrow>
   payload_storage_result outcome \<times> 's" where
  "store_payload dumps compress put project_id span_id messages out max_bytes redact_keys s3 =
     (let data0 = payload_data messages out;
          data = (if redact_keys \<noteq> {} then redact_payload redact_keys data0 else data0)
      in case dumps data of
           None \<Rightarrow> (Raise ''UnicodeEncodeError'', s3)
         | Some payload_bytes \<Rightarrow>
             if (case max_bytes of None \<Rightarrow> False | Some m \<Rightarrow> m < int (length payload_bytes))
             then (Ret \<lparr>ps_s3_key = None, ps_status = Too_large,
                        ps_drop_reason = Some ''max_bytes_exceeded''\<rparr>, s3)
             else
               (case put s3 (payload_key project_id span_id) (compress payload_bytes) of
                  (None, s3') \<Rightarrow>
                    (Ret \<lparr>ps_s3_key = Some (payload_key project_id span_id),
                          ps_status = (if redact_keys \<noteq> {} then Stored_redacted else Stored),
                          ps_drop_reason = None\<rparr>, s3')
                | (Some e, s3') \<Rightarrow>
                    (Ret \<lparr>ps_s3_key = None, ps_status = Storage_failed,
                          ps_drop_reason = Some ''s3_error''\<rparr>, s3')))"

definition get_payload ::
  "('b list \<Rightarrow> json option) \<Rightarrow> ('z \<Rightarrow> 'b list option) \<Rightarrow> ('s \<Rightarrow> string \<Rightarrow> 'z option) \<Rightarrow>
   string \<Rightarrow> 's \<Rightarrow> json option" where
  "get_payload loads decompress get key s3 =
     (case get s3 key of
        None \<Rightarrow> None
      | Some z \<Rightarrow> (case decompress z of None \<Rightarrow> None | Some bytes \<Rightarrow> loads bytes))"

subsection \<open>Effective settings and span metadata\<close>

record payload_privacy_settings =
  pp_storage_mode :: string
  pp_max_bytes :: int
  pp_redact_keys :: string

text \<open>The row of \<^verbatim>\<open>projects\<close>, if there is one, read with Python's \<^verbatim>\<open>or\<close>.\<close>

definition load_payload_privacy_settings ::
  "payload_privacy_settings option \<Rightarrow> payload_privacy_settings" where
  "load_payload_privacy_settings row =
     (case row of
        None \<Rightarrow> \<lparr>pp_storage_mode = ''all'', pp_max_bytes = DEFAULT_PAYLOAD_MAX_BYTES,
                 pp_redact_keys = DEFAULT_REDACT_KEYS\<rparr>
      | Some r \<Rightarrow>
          \<lparr>pp_storage_mode = (if pp_storage_mode r = [] then ''all'' else pp_storage_mode r),
           pp_max_bytes = (if pp_max_bytes r = 0 then DEFAULT_PAYLOAD_MAX_BYTES else pp_max_bytes r),
           pp_redact_keys = (if pp_redact_keys r = [] then DEFAULT_REDACT_KEYS else pp_redact_keys r)\<rparr>)"

definition PAYLOAD_LIKE_METADATA_KEYS :: "string list" where
  "PAYLOAD_LIKE_METADATA_KEYS = [''messages'', ''input_messages'', ''input'', ''output'', ''prompt'',
     ''system'', ''system_prompt'']"

definition SENSITIVE_METADATA_KEY_PARTS :: "string list" where
  "SENSITIVE_METADATA_KEY_PARTS = [''api_key'', ''authorization'', ''cookie'', ''password'', ''secret'', ''token'']"

definition SAFE_SPAN_METADATA_KEYS :: "string list" where
  "SAFE_SPAN_METADATA_KEYS = [''route'', ''source'', ''stream'', ''stream_complete'']"

fun scalar :: "json \<Rightarrow> bool" where
  "scalar (JArr xs) = False"
| "scalar (JObj kvs) = False"
| "scalar v = True"

definition keeps_metadata :: "string \<times> json \<Rightarrow> bool" where
  "keeps_metadata kv =
     (let key_lower = py_lower (fst kv) in
      if key_lower \<in> set PAYLOAD_LIKE_METADATA_KEYS then False
      else if \<exists>part \<in> set SENSITIVE_METADATA_KEY_PARTS. py_contains part key_lower then False
      else if key_lower \<notin> set SAFE_SPAN_METADATA_KEYS then False
      else scalar (snd kv))"

definition sanitize_span_metadata :: "json \<Rightarrow> string set \<Rightarrow> (string \<times> json) list" where
  "sanitize_span_metadata metadata redact_keys =
     (case redact_payload redact_keys metadata of
        JObj kvs \<Rightarrow> filter keeps_metadata kvs
      | _ \<Rightarrow> [])"

section \<open>Redaction\<close>

text \<open>Nothing but the marker stands under a key that is to be redacted, at any depth.\<close>

fun redacted_all :: "string set \<Rightarrow> json \<Rightarrow> bool" where
  "redacted_all ks (JArr xs) = (\<forall>x \<in> set xs. redacted_all ks x)"
| "redacted_all ks (JObj kvs) =
     (\<forall>kv \<in> set kvs. if py_lower (fst kv) \<in> ks then snd kv = JStr REDACTED_VALUE
                     else redacted_all ks (snd kv))"
| "redacted_all ks v = True"

text \<open>Two values that differ at most in what stands under keys to be redacted.\<close>

fun same_public :: "string set \<Rightarrow> json \<Rightarrow> json \<Rightarrow> bool" where
  "same_public ks (JArr xs) (JArr ys) = list_all2 (same_public ks) xs ys"
| "same_public ks (JObj kvs) (JObj lvs) =
     list_all2 (\<lambda>kv lv. fst kv = fst lv \<and> (py_lower (fst kv) \<in> ks \<or> same_public ks (snd kv) (snd lv))) kvs lvs"
| "same_public ks v w = (v = w)"

lemma redact_payload_redacted: "redacted_all ks (redact_payload ks v)"
proof (induction ks v rule: redact_payload.induct)
  case (2 ks kvs)
  have "\<forall>kv \<in> set kvs. py_lower (fst kv) \<notin> ks \<longrightarrow> redacted_all ks (redact_payload ks (snd kv))"
    using 2 by blast
  then show ?case by simp
qed simp_all

lemma redact_payload_fixed: "redacted_all ks v \<Longrightarrow> redact_payload ks v = v"
proof (induction ks v rule: redact_payload.induct)
  case (1 ks xs)
  then show ?case by (simp add: map_idI)
next
  case (2 ks kvs)
  have "(fst kv, if py_lower (fst kv) \<in> ks then JStr REDACTED_VALUE else redact_payload ks (snd kv)) = kv"
    if "kv \<in> set kvs" for kv
    using 2 that by (auto simp: prod_eq_iff split: if_splits)
  then show ?case by (simp add: map_idI)
qed simp_all

lemma redact_payload_idem: "redact_payload ks (redact_payload ks v) = redact_payload ks v"
  by (rule redact_payload_fixed) (rule redact_payload_redacted)

lemma redacted_all_empty: "redacted_all {} v"
  by (induction "{} :: string set" v rule: redacted_all.induct) auto

lemma redact_payload_empty [simp]: "redact_payload {} v = v"
  by (rule redact_payload_fixed) (rule redacted_all_empty)

lemma redact_payload_public: "same_public ks v w \<Longrightarrow> redact_payload ks v = redact_payload ks w"
proof (induction ks v w rule: same_public.induct)
  case (1 ks xs ys)
  have "list_all2 (\<lambda>x y. redact_payload ks x = redact_payload ks y) xs ys"
    using 1 by (auto simp: list_all2_conv_all_nth)
  then have "map (redact_payload ks) xs = map (redact_payload ks) ys"
    by (simp add: list_all2_conv_all_nth list_eq_iff_nth_eq)
  then show ?case by simp
next
  case (2 ks kvs lvs)
  define f where "f = (\<lambda>kv. (fst kv, if py_lower (fst kv) \<in> ks then JStr REDACTED_VALUE
                              else redact_payload ks (snd kv)))"
  have len: "length kvs = length lvs" using 2(2) by (simp add: list_all2_conv_all_nth)
  have "f (kvs ! i) = f (lvs ! i)" if "i < length kvs" for i
    using 2(2) 2(1) [of "kvs ! i" "lvs ! i"] that len by (auto simp: list_all2_conv_all_nth f_def)
  with len have "map f kvs = map f lvs" by (intro nth_equalityI) simp_all
  then show ?case by (simp only: redact_payload.simps f_def)
qed simp_all

section \<open>Reading back\<close>

text \<open>
  What the service relies on from the object store and the codecs: an object written
  without an error is read back as it was written, and encoding and compression are undone
  by their counterparts.
\<close>

definition object_store_ok ::
  "('s \<Rightarrow> string \<Rightarrow> 'z \<Rightarrow> string option \<times> 's) \<Rightarrow> ('s \<Rightarrow> string \<Rightarrow> 'z option) \<Rightarrow> bool" where
  "object_store_ok put get \<longleftrightarrow> (\<forall>s k z s'. put s k z = (None, s') \<longrightarrow> get s' k = Some z)"

definition codec_ok ::
  "(json \<Rightarrow> 'b list option) \<Rightarrow> ('b list \<Rightarrow> json option) \<Rightarrow> ('b list \<Rightarrow> 'z) \<Rightarrow> ('z \<Rightarrow> 'b list option) \<Rightarrow> bool" where
  "codec_ok dumps loads compress decompress \<longleftrightarrow>
     (\<forall>v bytes. dumps v = Some bytes \<longrightarrow> loads bytes = Some v) \<and> (\<forall>bytes. decompress (compress bytes) = Some bytes)"

lemma store_payload_storedD:
  assumes "store_payload dumps compress put pid sid msgs out mb ks s3 = (Ret r, s3')"
    and "ps_s3_key r = Some key"
  shows "key = payload_key pid sid \<and>
    (\<exists>bytes. dumps (if ks \<noteq> {} then redact_payload ks (payload_data msgs out) else payload_data msgs out) = Some bytes \<and>
       put s3 key (compress bytes) = (None, s3'))"
  using assms by (auto simp: store_payload_def Let_def split: option.splits if_splits prod.splits)

section \<open>Properties\<close>

text \<open>
  C10: What \<^verbatim>\<open>store_payload\<close> writes to the object store and what it returns does not depend
  on anything that stands under a key to be redacted, at any depth of the payload: two
  payloads that agree everywhere else are stored alike.
\<close>

theorem store_payload_hides_redacted_fields:
  assumes "redact_keys \<noteq> {}"
    and "same_public redact_keys (payload_data msgs out) (payload_data msgs' out')"
  shows "store_payload dumps compress put pid sid msgs out max_bytes redact_keys s3 =
     store_payload dumps compress put pid sid msgs' out' max_bytes redact_keys s3"
  using assms redact_payload_public [OF assms(2)] by (simp add: store_payload_def)

theorem store_payload_hides_redacted_fields_witness:
  "store_payload (\<lambda>v. Some [v]) (\<lambda>b. b) (\<lambda>s k z. (None, s)) ''p'' ''s''
      [JObj [(''API_Key'', JStr ''sk-1''), (''role'', JStr ''user'')]] JNull None {''api_key''} (0::nat) =
   store_payload (\<lambda>v. Some [v]) (\<lambda>b. b) (\<lambda>s k z. (None, s)) ''p'' ''s''
      [JObj [(''API_Key'', JNull), (''role'', JStr ''user'')]] JNull None {''api_key''} 0"
  by (rule store_payload_hides_redacted_fields) (simp, code_simp)

text \<open>
  After redaction nothing but the marker stands under any key to be redacted, whatever
  its case and depth, and redacting again changes nothing.
\<close>

theorem redact_payload_complete:
  "redacted_all ks (redact_payload ks v) \<and> redact_payload ks (redact_payload ks v) = redact_payload ks v"
  by (simp add: redact_payload_redacted redact_payload_idem)

text \<open>
  C11: A payload that was stored is read back from its key as the redacted payload, given an
  object store and codecs that keep what they are given.
\<close>

theorem stored_payload_reads_back:
  assumes "object_store_ok put get" and "codec_ok dumps loads compress decompress"
    and "store_payload dumps compress put pid sid msgs out max_bytes redact_keys s3 = (Ret r, s3')"
    and "ps_s3_key r = Some key"
  shows "get_payload loads decompress get key s3' = Some (redact_payload redact_keys (payload_data msgs out))"
proof -
  from store_payload_storedD [OF assms(3,4)] obtain bytes
    where "dumps (if redact_keys \<noteq> {} then redact_payload redact_keys (payload_data msgs out)
                  else payload_data msgs out) = Some bytes"
      and "put s3 key (compress bytes) = (None, s3')" by blast
  with assms(1,2) show ?thesis
    by (auto simp: object_store_ok_def codec_ok_def get_payload_def split: if_splits)
qed

theorem stored_payload_reads_back_witness:
  "get_payload (\<lambda>b. case b of [v] \<Rightarrow> Some v | _ \<Rightarrow> None) Some (\<lambda>s k. s k) (payload_key ''p'' ''s1'')
      ((\<lambda>_. None)(payload_key ''p'' ''s1'' := Some [redact_payload {''token''} (payload_data [] (JStr ''hi''))])) =
    Some (redact_payload {''token''} (payload_data [] (JStr ''hi'')))"
  using stored_payload_reads_back
    [of "\<lambda>s k z. (None, s(k := Some z))" "\<lambda>s k. s k" "\<lambda>v. Some [v]" "\<lambda>b. case b of [v] \<Rightarrow> Some v | _ \<Rightarrow> None"
        "\<lambda>b. b" Some "''p''" "''s1''" "[]" "JStr ''hi''" None "{''token''}" "\<lambda>_. None"
        "\<lparr>ps_s3_key = Some (payload_key ''p'' ''s1''), ps_status = Stored_redacted, ps_drop_reason = None\<rparr>"
        "(\<lambda>_. None)(payload_key ''p'' ''s1'' := Some [redact_payload {''token''} (payload_data [] (JStr ''hi''))])"
        "payload_key ''p'' ''s1''"]
  by (simp add: object_store_ok_def codec_ok_def store_payload_def)

text \<open>
  The metadata stored with a span has only keys of the safe list, none that looks like a
  payload or holds a sensitive part, and only scalar values, each of which the span really
  carried under that key or is the redaction marker.
\<close>

theorem sanitized_metadata_is_safe:
  assumes "(k, v) \<in> set (sanitize_span_metadata metadata redact_keys)"
  shows "py_lower k \<in> {''route'', ''source'', ''stream'', ''stream_complete''} \<and> scalar v \<and>
     (\<exists>kvs v0. metadata = JObj kvs \<and> (k, v0) \<in> set kvs \<and>
        v = (if py_lower k \<in> redact_keys then JStr REDACTED_VALUE else v0))"
proof -
  obtain kvs where m: "metadata = JObj kvs"
    using assms by (cases metadata) (auto simp: sanitize_span_metadata_def)
  with assms obtain v0 where v0: "(k, v0) \<in> set kvs" "keeps_metadata (k, v)"
    "v = (if py_lower k \<in> redact_keys then JStr REDACTED_VALUE else redact_payload redact_keys v0)"
    unfolding sanitize_span_metadata_def by fastforce
  then have safe: "py_lower k \<in> set SAFE_SPAN_METADATA_KEYS" "scalar v"
    by (auto simp: keeps_metadata_def Let_def split: if_splits)
  then have "py_lower k \<notin> redact_keys \<Longrightarrow> v = v0" using v0(3) by (cases v0) auto
  with v0 m safe show ?thesis by (auto simp: SAFE_SPAN_METADATA_KEYS_def)
qed

theorem sanitized_metadata_is_safe_witness:
  "py_lower ''Route'' \<in> {''route'', ''source'', ''stream'', ''stream_complete''} \<and> scalar (JStr ''/v1'')"
proof -
  have "(''Route'', JStr ''/v1'') \<in> set (sanitize_span_metadata
      (JObj [(''Route'', JStr ''/v1''), (''prompt'', JStr ''x'')]) {''token''})"
    by code_simp
  from sanitized_metadata_is_safe [OF this] show ?thesis by blast
qed

text \<open>
  A project that sets its payload limit to zero bytes still has its payloads stored: the
  worker reads the zero as a missing value and uses the default of 256 KiB.
\<close>

theorem zero_limit_still_stores:
  assumes "row = Some r" and "pp_max_bytes r = 0"
    and "dumps (redact_payload ks (payload_data msgs out)) = Some bytes" and "ks \<noteq> {}"
    and "length bytes \<le> 262144"
    and "put s3 (payload_key pid sid) (compress bytes) = (None, s3')"
  shows "store_payload dumps compress put pid sid msgs out
       (Some (pp_max_bytes (load_payload_privacy_settings row))) ks s3 =
     (Ret \<lparr>ps_s3_key = Some (payload_key pid sid), ps_status = Stored_redacted, ps_drop_reason = None\<rparr>, s3')"
  using assms by (simp add: store_payload_def load_payload_privacy_settings_def DEFAULT_PAYLOAD_MAX_BYTES_def)

theorem zero_limit_still_stores_witness:
  "store_payload (\<lambda>v. Some [1::nat, 2, 3]) (\<lambda>b. b) (\<lambda>s k z. (None, Suc s)) ''p'' ''s1'' [] JNull
      (Some (pp_max_bytes (load_payload_privacy_settings
         (Some \<lparr>pp_storage_mode = ''all'', pp_max_bytes = 0, pp_redact_keys = ''token''\<rparr>)))) {''token''} 0 =
    (Ret \<lparr>ps_s3_key = Some (payload_key ''p'' ''s1''), ps_status = Stored_redacted, ps_drop_reason = None\<rparr>, Suc 0)"
  by (rule zero_limit_still_stores [OF refl, where bytes = "[1, 2, 3]"]) simp_all

end
