(* ===== verification/Rbac.thy ===== *)
theory Rbac
  imports Obs_Prelude
begin

text \<open>
  Role checks of \<^verbatim>\<open>backend/app/core/rbac.py\<close>: the authenticated user's mapping as a record
  and the guards that every administrative handler starts with.
\<close>

record current_user =
  cu_sub :: uuid
  cu_org_id :: uuid
  cu_role :: "string option"
  cu_is_platform_admin :: "bool option"

definition ROLE_LEVELS :: "string \<rightharpoonup> int" where
  "ROLE_LEVELS = [''viewer'' \<mapsto> 0, ''member'' \<mapsto> 1, ''admin'' \<mapsto> 2]"

definition is_role_name :: "string option \<Rightarrow> bool" where
  "is_role_name v = (case v of None \<Rightarrow> False | Some r \<Rightarrow> ROLE_LEVELS r \<noteq> None)"

definition py_capitalize :: "string \<Rightarrow> string" where
  "py_capitalize s =
     (case s of [] \<Rightarrow> []
      | c # cs \<Rightarrow> (let n = (of_char c :: nat) in if 97 \<le> n \<and> n \<le> 122 then char_of (n - 32) else c) # py_lower cs)"

definition require_role :: "current_user \<Rightarrow> string \<Rightarrow> http_error + unit" where
  "require_role user minimum_role =
     (let current_level = (if is_role_name (cu_role user) then the (ROLE_LEVELS (the (cu_role user))) else -1);
          required_level = the (ROLE_LEVELS minimum_role)
      in if current_level < required_level
         then Inl (HTTPException 403 (py_capitalize minimum_role @ '' role required''))
         else Inr ())"

definition require_admin :: "current_user \<Rightarrow> http_error + unit" where
  "require_admin user = require_role user ''admin''"

definition require_member :: "current_user \<Rightarrow> http_error + unit" where
  "require_member user = require_role user ''member''"

definition require_platform_admin :: "current_user \<Rightarrow> http_error + unit" where
  "require_platform_admin user =
     (if cu_is_platform_admin user \<noteq> Some True then Inl (HTTPException 403 ''Platform admin role required'')
      else Inr ())"

text \<open>Who passes each guard.\<close>

lemma require_admin_Inr [simp]: "require_admin user = Inr u \<longleftrightarrow> cu_role user = Some ''admin''"
  by (cases "cu_role user")
     (auto simp: require_admin_def require_role_def Let_def is_role_name_def ROLE_LEVELS_def)

lemma require_member_Inr [simp]:
  "require_member user = Inr u \<longleftrightarrow> cu_role user = Some ''admin'' \<or> cu_role user = Some ''member''"
  by (cases "cu_role user")
     (auto simp: require_member_def require_role_def Let_def is_role_name_def ROLE_LEVELS_def)

lemma require_platform_admin_Inr [simp]:
  "require_platform_admin user = Inr u \<longleftrightarrow> cu_is_platform_admin user = Some True"
  by (simp add: require_platform_admin_def)

lemma require_admin_Inl:
  "require_admin user = Inl e \<Longrightarrow> cu_role user \<noteq> Some ''admin'' \<and> e = HTTPException 403 ''Admin role required''"
proof -
  have "py_capitalize ''admin'' = ''Admin''" by code_simp
  then show "require_admin user = Inl e \<Longrightarrow> ?thesis"
    by (cases "cu_role user")
       (auto simp: require_admin_def require_role_def Let_def is_role_name_def ROLE_LEVELS_def split: if_splits)
qed

end
