(* ===== verification/Redis_Client.thy ===== *)
theory Redis_Client
  imports Obs_Prelude
begin

text \<open>
  Redis as the backend uses it through \<^verbatim>\<open>get_redis()\<close> (\<^verbatim>\<open>backend/app/core/redis.py\<close>): string
  keys with a value and an expiry. The server is not part of the repository, so its commands
  are a parameter: a record of operations on an abstract server state, at the clock's time.
  The JSON text a component stores is represented by the value it encodes.

  What the code relies on is stated as two locales. \<^verbatim>\<open>redis_cache\<close> says that a read returns
  nothing but the last value written under that very key, unexpired and not deleted; a server
  that evicts keys satisfies it. \<^verbatim>\<open>redis_store\<close> adds that an unexpired value is there. Their
  reference instance, an association list with expiry times, is used by the examples.
\<close>

record ('r, 'v) redis =
  r_get :: "time \<Rightarrow> string \<Rightarrow> 'r \<Rightarrow> 'v option"
  r_setex :: "time \<Rightarrow> string \<Rightarrow> int \<Rightarrow> 'v \<Rightarrow> 'r \<Rightarrow> 'r"
  r_delete :: "string list \<Rightarrow> 'r \<Rightarrow> 'r"
  r_scan :: "string \<Rightarrow> 'r \<Rightarrow> string list"

text \<open>A pattern without the characters that \<^verbatim>\<open>SCAN MATCH\<close> treats specially.\<close>

definition no_glob :: "string \<Rightarrow> bool" where
  "no_glob p \<longleftrightarrow> set p \<inter> {CHR ''*'', CHR ''?'', CHR ''['', CHR '']'', CHR 0x5C} = {}"

locale redis_cache =
  fixes R :: "('r, 'v) redis"
  assumes get_setex:
      "r_get R now' k' (r_setex R now k ttl v r) = Some w \<Longrightarrow>
         k' = k \<and> w = v \<and> now' < now + seconds ttl \<or> k' \<noteq> k \<and> r_get R now' k' r = Some w"
    and get_delete:
      "r_get R now k (r_delete R ks r) = Some w \<Longrightarrow> k \<notin> set ks \<and> r_get R now k r = Some w"
    and get_earlier:
      "r_get R now' k r = Some w \<Longrightarrow> now \<le> now' \<Longrightarrow> r_get R now k r = Some w"
    and scan_prefix:
      "no_glob p \<Longrightarrow> r_get R now k r = Some w \<Longrightarrow> py_startswith p k \<Longrightarrow> k \<in> set (r_scan R (p @ ''*'') r)"
begin

text \<open>A key that was deleted is read again only after it is written again.\<close>

lemma get_deleted: "k \<in> set ks \<Longrightarrow> r_get R now k (r_delete R ks r) = None"
proof (rule ccontr)
  assume "k \<in> set ks" and "r_get R now k (r_delete R ks r) \<noteq> None"
  then obtain w where "r_get R now k (r_delete R ks r) = Some w" by auto
  from get_delete [OF this] \<open>k \<in> set ks\<close> show False by simp
qed

text \<open>Deleting what a scan for a prefix found removes every key with that prefix.\<close>

lemma get_scanned_deleted:
  assumes "no_glob p" and "py_startswith p k"
  shows "r_get R now k (r_delete R (ks @ r_scan R (p @ ''*'') r) r) = None"
proof (rule ccontr)
  assume "r_get R now k (r_delete R (ks @ r_scan R (p @ ''*'') r) r) \<noteq> None"
  then obtain w where "r_get R now k (r_delete R (ks @ r_scan R (p @ ''*'') r) r) = Some w" by auto
  from get_delete [OF this] scan_prefix [OF assms(1) _ assms(2)] show False by auto
qed

end

locale redis_store = redis_cache +
  assumes get_setex_live:
      "now' < now + seconds ttl \<Longrightarrow> r_get R now' k (r_setex R now k ttl v r) = Some v"
    and get_setex_other:
      "k' \<noteq> k \<Longrightarrow> r_get R now' k' (r_setex R now k ttl v r) = r_get R now' k' r"

section \<open>Reference instance\<close>

type_synonym 'v mem = "(string \<times> 'v \<times> time) list"

definition mem_get :: "time \<Rightarrow> string \<Rightarrow> 'v mem \<Rightarrow> 'v option" where
  "mem_get now k r = (case map_of r k of Some (v, e) \<Rightarrow> if now < e then Some v else None | None \<Rightarrow> None)"

definition mem_setex :: "time \<Rightarrow> string \<Rightarrow> int \<Rightarrow> 'v \<Rightarrow> 'v mem \<Rightarrow> 'v mem" where
  "mem_setex now k ttl v r = (k, v, now + seconds ttl) # r"

definition mem_delete :: "string list \<Rightarrow> 'v mem \<Rightarrow> 'v mem" where
  "mem_delete ks r = filter (\<lambda>e. fst e \<notin> set ks) r"

text \<open>
  The patterns of \<^verbatim>\<open>SCAN MATCH\<close> as the server documents them: \<^verbatim>\<open>*\<close>, \<^verbatim>\<open>?\<close>, classes in
  brackets with ranges and negation, and a backslash that quotes.
\<close>

function glob_class :: "string \<Rightarrow> char \<Rightarrow> bool \<times> string" where
  "glob_class [] x = (False, [])"
| "glob_class (a # p) x =
     (if a = CHR 0x5C \<and> p \<noteq> [] then (let (m, rest) = glob_class (tl p) x in (hd p = x \<or> m, rest))
      else if a = CHR '']'' then (False, p)
      else if 2 \<le> length p \<and> hd p = CHR ''-''
      then (let (m, rest) = glob_class (drop 2 p) x; b = p ! 1
            in ((of_char a \<le> (of_char x :: nat) \<and> of_char x \<le> (of_char b :: nat)) \<or>
                (of_char b \<le> (of_char x :: nat) \<and> of_char x \<le> (of_char a :: nat)) \<or> m, rest))
      else (let (m, rest) = glob_class p x in (a = x \<or> m, rest)))"
  by pat_completeness auto
termination
  by (relation "measure (length \<circ> fst)") auto

lemma glob_class_shorter: "length (snd (glob_class p x)) \<le> length p"
  by (induction p x rule: glob_class.induct) (auto simp: Let_def split: prod.split)

definition glob_bracket :: "string \<Rightarrow> char \<Rightarrow> bool \<times> string" where
  "glob_bracket p x =
     (if take 1 p = ''^'' then (let (m, rest) = glob_class (drop 1 p) x in (\<not> m, rest)) else glob_class p x)"

lemma glob_bracket_shorter: "length (snd (glob_bracket p x)) \<le> length p"
  using glob_class_shorter [of p x] glob_class_shorter [of "drop 1 p" x]
  by (auto simp: glob_bracket_def Let_def split: prod.splits)

function glob_match :: "string \<Rightarrow> string \<Rightarrow> bool" where
  "glob_match [] s = (s = [])"
| "glob_match (c # p) [] = (c = CHR ''*'' \<and> glob_match p [])"
| "glob_match (c # p) (x # s) =
     (if c = CHR ''*'' then glob_match p (x # s) \<or> glob_match (c # p) s
      else if c = CHR ''?'' then glob_match p s
      else if c = CHR ''['' then fst (glob_bracket p x) \<and> glob_match (snd (glob_bracket p x)) s
      else if c = CHR 0x5C \<and> p \<noteq> [] then hd p = x \<and> glob_match (tl p) s
      else c = x \<and> glob_match p s)"
  by pat_completeness auto
termination
  by (relation "measure (\<lambda>(p, s). length p + length s)") (auto intro!: le_imp_less_Suc le_SucI glob_bracket_shorter)

lemma glob_star: "glob_match ''*'' s"
  by (induction s) simp_all

lemma glob_prefix: "no_glob p \<Longrightarrow> glob_match (p @ ''*'') (p @ s)"
  by (induction p) (auto simp: no_glob_def glob_star)

definition mem_scan :: "string \<Rightarrow> 'v mem \<Rightarrow> string list" where
  "mem_scan pat r = filter (glob_match pat) (map fst r)"

definition mem_redis :: "('v mem, 'v) redis" where
  "mem_redis = \<lparr>r_get = mem_get, r_setex = mem_setex, r_delete = mem_delete, r_scan = mem_scan\<rparr>"

lemma mem_redis_simps [simp]:
  "r_get mem_redis = mem_get" "r_setex mem_redis = mem_setex"
  "r_delete mem_redis = mem_delete" "r_scan mem_redis = mem_scan"
  by (simp_all add: mem_redis_def)

lemma map_of_mem_delete: "map_of (mem_delete ks r) k = (if k \<in> set ks then None else map_of r k)"
  unfolding mem_delete_def by (induction r) auto

interpretation mem: redis_store mem_redis
proof unfold_locales
  fix now' k' now k ttl v r w
  assume "r_get mem_redis now' k' (r_setex mem_redis now k ttl v r) = Some (w :: 'v)"
  then show "k' = k \<and> w = v \<and> now' < now + seconds ttl \<or> k' \<noteq> k \<and> r_get mem_redis now' k' r = Some w"
    by (auto simp: mem_get_def mem_setex_def split: if_splits)
next
  fix now k ks r w
  assume "r_get mem_redis now k (r_delete mem_redis ks r) = Some (w :: 'v)"
  then show "k \<notin> set ks \<and> r_get mem_redis now k r = Some w"
    by (auto simp: mem_get_def map_of_mem_delete split: if_splits)
next
  fix now' k r w now
  assume "r_get mem_redis now' k r = Some (w :: 'v)" and "now \<le> now'"
  then show "r_get mem_redis now k r = Some w"
    by (auto simp: mem_get_def split: option.splits if_splits)
next
  fix p now k r w
  assume "r_get mem_redis now k r = Some (w :: 'v)"
  then have "k \<in> set (map fst r)" by (force simp: mem_get_def dest: map_of_SomeD split: option.splits)
  moreover assume "no_glob p" and "py_startswith p k"
  then have "glob_match (p @ ''*'') k"
    using glob_prefix [of p "drop (length p) k"] by (metis append_take_drop_id py_startswith_def)
  ultimately show "k \<in> set (r_scan mem_redis (p @ ''*'') r)" by (simp add: mem_scan_def)
qed (auto simp: mem_get_def mem_setex_def)

end
