(* ===== verification/Pricing.thy ===== *)
theory Pricing
  imports Rbac Redis_Client "HOL-Library.Char_ord" "HOL-Library.List_Lexorder" "HOL-Library.Product_Lexorder"
begin

text \<open>
  Model prices: \<^verbatim>\<open>backend/app/services/cost.py\<close> (the price of a span, through a Redis
  cache and a per-batch cache) and \<^verbatim>\<open>backend/app/api/v1/pricing.py\<close> (the handlers that
  change the price list and invalidate the cache).

  A price is a \<^verbatim>\<open>Numeric(12, 10)\<close>, kept as an integer number of \<open>10\<^sup>-\<^sup>1\<^sup>0\<close> units; a cost is kept
  in units of \<open>10\<^sup>-\<^sup>8\<close>. Before rounding a cost is exact: \<^verbatim>\<open>Decimal\<close> has 28 digits, and twelve
  digits of price times the eight of a token count, three places shifted, fit in them. Text is
  compared by character codes.
\<close>

section \<open>The price list\<close>

record model_price =
  mp_id :: int
  mp_provider :: string
  mp_model :: string
  mp_input :: int
  mp_output :: int
  mp_valid_from :: time
  mp_valid_to :: "time option"

record pricing_db =
  model_pricing :: "model_price list"
  pricing_id_seq :: int

text \<open>The key of \<^verbatim>\<open>UniqueConstraint("provider", "model", "valid_from")\<close>.\<close>

definition price_key :: "model_price \<Rightarrow> string \<times> string \<times> time" where
  "price_key r = (mp_provider r, mp_model r, mp_valid_from r)"

text \<open>What the engine stores for a numeric value in a \<^verbatim>\<open>Numeric(12, 10)\<close> column: rounded
  to ten places, an error when more than two digits are left of the point.\<close>

definition pg_numeric :: "rat \<Rightarrow> int option" where
  "pg_numeric x = (let u = \<lfloor>x * 10 ^ 10 + 1 / 2\<rfloor> in if u < 10 ^ 12 then Some u else None)"

section \<open>Looking a price up\<close>

definition row_covers :: "model_price \<Rightarrow> time \<Rightarrow> bool" where
  "row_covers r t = (mp_valid_from r \<le> t \<and> (case mp_valid_to r of None \<Rightarrow> True | Some e \<Rightarrow> t < e))"

definition price_candidates :: "model_price list \<Rightarrow> string \<Rightarrow> string \<Rightarrow> time \<Rightarrow> model_price list" where
  "price_candidates rows p m t = filter (\<lambda>r. mp_provider r = p \<and> mp_model r = m \<and> row_covers r t) rows"

text \<open>\<^verbatim>\<open>ORDER BY valid_from DESC LIMIT 1\<close>\<close>

definition select_pricing :: "model_price list \<Rightarrow> string \<Rightarrow> string \<Rightarrow> time \<Rightarrow> model_price option" where
  "select_pricing rows p m t =
     (case sort_key (\<lambda>r. - mp_valid_from r) (price_candidates rows p m t) of [] \<Rightarrow> None | r # _ \<Rightarrow> Some r)"

text \<open>The cached dictionary; \<open>None\<close> where the key is absent or null.\<close>

record pricing =
  pr_input :: int
  pr_output :: int
  pr_valid_from :: "time option"
  pr_valid_to :: "time option"

definition pricing_of_row :: "model_price \<Rightarrow> pricing" where
  "pricing_of_row r =
     \<lparr>pr_input = mp_input r, pr_output = mp_output r, pr_valid_from = Some (mp_valid_from r),
      pr_valid_to = mp_valid_to r\<rparr>"

definition CACHE_TTL :: int where "CACHE_TTL = 3600"

definition cache_key :: "string \<Rightarrow> string \<Rightarrow> string" where
  "cache_key provider model = ''pricing:'' @ provider @ '':'' @ model @ '':active''"

definition cached_interval_covers :: "pricing \<Rightarrow> time \<Rightarrow> bool" where
  "cached_interval_covers pr at_time =
     (case pr_valid_from pr of None \<Rightarrow> False
      | Some f \<Rightarrow> f \<le> at_time \<and> (case pr_valid_to pr of None \<Rightarrow> True | Some e \<Rightarrow> e > at_time))"

definition get_pricing ::
  "('r, pricing) redis \<Rightarrow> time \<Rightarrow> model_price list \<Rightarrow> string \<Rightarrow> string \<Rightarrow> time \<Rightarrow> 'r \<Rightarrow> pricing option \<times> 'r" where
  "get_pricing R now rows provider model at_time r =
     (let key = cache_key provider model;
          cached = r_get R now key r
      in if \<exists>c \<in> set_option cached. cached_interval_covers c at_time then (cached, r)
         else case select_pricing rows provider model at_time of
                None \<Rightarrow> (None, r)
              | Some row \<Rightarrow>
                  (let pr = pricing_of_row row in (Some pr, r_setex R now key CACHE_TTL pr r)))"

type_synonym batch_intervals = "string \<times> string \<Rightarrow> pricing list"

definition get_batch_pricing ::
  "('r, pricing) redis \<Rightarrow> time \<Rightarrow> model_price list \<Rightarrow> string \<Rightarrow> string \<Rightarrow> time \<Rightarrow> batch_intervals \<Rightarrow> 'r
     \<Rightarrow> pricing option \<times> batch_intervals \<times> 'r" where
  "get_batch_pricing R now rows provider model at_time b r =
     (case List.find (\<lambda>pr. cached_interval_covers pr at_time) (b (provider, model)) of
        Some pr \<Rightarrow> (Some pr, b, r)
      | None \<Rightarrow>
          (case get_pricing R now rows provider model at_time r of
             (None, r') \<Rightarrow> (None, b, r')
           | (Some pr, r') \<Rightarrow> (Some pr, b((provider, model) := b (provider, model) @ [pr]), r')))"

text \<open>\<^verbatim>\<open>quantize\<close> rounds half to even.\<close>

definition round_half_even :: "int \<Rightarrow> int \<Rightarrow> int" where
  "round_half_even n d =
     (let q = n div d; r = n mod d
      in if 2 * r < d then q else if d < 2 * r then q + 1 else if even q then q else q + 1)"

definition span_cost :: "pricing option \<Rightarrow> int \<Rightarrow> int \<Rightarrow> int" where
  "span_cost pr input_tokens output_tokens =
     (case pr of None \<Rightarrow> 0
      | Some x \<Rightarrow> round_half_even (pr_input x * input_tokens + pr_output x * output_tokens) (10 ^ 5))"

definition calculate ::
  "('r, pricing) redis \<Rightarrow> time \<Rightarrow> model_price list \<Rightarrow> string \<Rightarrow> string \<Rightarrow> int \<Rightarrow> int \<Rightarrow> time option
     \<Rightarrow> batch_intervals \<Rightarrow> 'r \<Rightarrow> int \<times> batch_intervals \<times> 'r" where
  "calculate R now rows provider model input_tokens output_tokens at_time b r =
     (case get_batch_pricing R now rows provider model (case at_time of None \<Rightarrow> now | Some t \<Rightarrow> t) b r of
        (pr, b', r') \<Rightarrow> (span_cost pr input_tokens output_tokens, b', r'))"

section \<open>Changing the price list\<close>

record pricing_create =
  pc_provider :: string
  pc_model :: string
  pc_input :: rat
  pc_output :: rat
  pc_valid_from :: "time option"

record pricing_update =
  pu_input :: "rat option"
  pu_output :: "rat option"
  pu_valid_from :: "time option"
  pu_valid_to :: "time option"

definition normalize_name :: "string \<Rightarrow> string" where
  "normalize_name value = py_lower (py_strip value)"

definition invalidate_pricing_cache :: "('r, pricing) redis \<Rightarrow> string \<Rightarrow> string \<Rightarrow> 'r \<Rightarrow> 'r" where
  "invalidate_pricing_cache R provider model r =
     (let legacy_key = ''pricing:'' @ provider @ '':'' @ model
      in r_delete R ([legacy_key] @ r_scan R (legacy_key @ '':*'') r) r)"

text \<open>
  \<^verbatim>\<open>create_pricing\<close>. The insertion raises when the unique constraint or the numeric range is
  violated; the transaction is then rolled back (the sequence is not).
\<close>

definition create_pricing ::
  "('r, pricing) redis \<Rightarrow> time \<Rightarrow> current_user \<Rightarrow> pricing_create \<Rightarrow> pricing_db \<Rightarrow> 'r
     \<Rightarrow> (http_error + model_price) \<times> pricing_db \<times> 'r" where
  "create_pricing R now user body db r =
     (case require_platform_admin user of Inl e \<Rightarrow> (Inl e, db, r)
      | Inr _ \<Rightarrow>
          (let provider = normalize_name (pc_provider body);
               model = py_strip (pc_model body)
           in if model = [] then (Inl (HTTPException 422 ''Model is required''), db, r)
              else
                let valid_from = (case pc_valid_from body of None \<Rightarrow> now | Some t \<Rightarrow> t);
                    closed = update_where
                      (\<lambda>x. mp_provider x = provider \<and> mp_model x = model \<and> mp_valid_from x < valid_from \<and>
                           (case mp_valid_to x of None \<Rightarrow> True | Some e \<Rightarrow> valid_from < e))
                      (\<lambda>x. x\<lparr>mp_valid_to := Some valid_from\<rparr>) (model_pricing db);
                    seq = pricing_id_seq db + 1
                in case (pg_numeric (pc_input body), pg_numeric (pc_output body)) of
                     (Some inp, Some out) \<Rightarrow>
                       (let row = \<lparr>mp_id = seq, mp_provider = provider, mp_model = model, mp_input = inp,
                                   mp_output = out, mp_valid_from = valid_from, mp_valid_to = None\<rparr>
                        in if price_key row \<in> price_key ` set closed
                           then (Inl (Unhandled ''IntegrityError''), db\<lparr>pricing_id_seq := seq\<rparr>, r)
                           else (Inr row, \<lparr>model_pricing = closed @ [row], pricing_id_seq = seq\<rparr>,
                                 invalidate_pricing_cache R provider model r))
                   | _ \<Rightarrow> (Inl (Unhandled ''DBAPIError''), db, r)))"

definition opt_set :: "('a \<Rightarrow> 'b \<Rightarrow> 'b) \<Rightarrow> 'a option \<Rightarrow> 'b \<Rightarrow> 'b" where
  "opt_set f v x = (case v of None \<Rightarrow> x | Some a \<Rightarrow> f a x)"

text \<open>The updated row; \<open>None\<close> when a number does not fit its column.\<close>

definition apply_updates :: "pricing_update \<Rightarrow> model_price \<Rightarrow> model_price option" where
  "apply_updates body x =
     (if Option.map_option pg_numeric (pu_input body) = Some None \<or>
         Option.map_option pg_numeric (pu_output body) = Some None then None
      else Some
        (opt_set (\<lambda>v. mp_valid_to_update (\<lambda>_. Some v)) (pu_valid_to body)
        (opt_set (\<lambda>v. mp_valid_from_update (\<lambda>_. v)) (pu_valid_from body)
        (opt_set (\<lambda>v. mp_output_update (\<lambda>_. the (pg_numeric v))) (pu_output body)
        (opt_set (\<lambda>v. mp_input_update (\<lambda>_. the (pg_numeric v))) (pu_input body) x)))))"

definition update_pricing ::
  "('r, pricing) redis \<Rightarrow> current_user \<Rightarrow> int \<Rightarrow> pricing_update \<Rightarrow> pricing_db \<Rightarrow> 'r
     \<Rightarrow> (http_error + model_price) \<times> pricing_db \<times> 'r" where
  "update_pricing R user pricing_id body db r =
     (case require_platform_admin user of Inl e \<Rightarrow> (Inl e, db, r)
      | Inr _ \<Rightarrow>
          if pu_input body = None \<and> pu_output body = None \<and> pu_valid_from body = None \<and> pu_valid_to body = None
          then (Inl (HTTPException 400 ''No fields to update''), db, r)
          else case select_one (\<lambda>x. mp_id x = pricing_id) (model_pricing db) of
                 None \<Rightarrow> (Inl (HTTPException 404 ''Pricing record not found''), db, r)
               | Some old \<Rightarrow>
                   (case apply_updates body old of
                      None \<Rightarrow> (Inl (Unhandled ''DBAPIError''), db, r)
                    | Some row \<Rightarrow>
                        if \<exists>x \<in> set (model_pricing db). mp_id x \<noteq> pricing_id \<and> price_key x = price_key row
                        then (Inl (Unhandled ''IntegrityError''), db, r)
                        else (Inr row,
                              db\<lparr>model_pricing := update_where (\<lambda>x. mp_id x = pricing_id) (\<lambda>_. row) (model_pricing db)\<rparr>,
                              invalidate_pricing_cache R (mp_provider row) (mp_model row) r)))"

definition end_pricing ::
  "('r, pricing) redis \<Rightarrow> time \<Rightarrow> current_user \<Rightarrow> int \<Rightarrow> time option \<Rightarrow> pricing_db \<Rightarrow> 'r
     \<Rightarrow> (http_error + model_price) \<times> pricing_db \<times> 'r" where
  "end_pricing R now user pricing_id body_valid_to db r =
     (case require_platform_admin user of Inl e \<Rightarrow> (Inl e, db, r)
      | Inr _ \<Rightarrow>
          (let valid_to = (case body_valid_to of None \<Rightarrow> now | Some t \<Rightarrow> t)
           in case select_one (\<lambda>x. mp_id x = pricing_id) (model_pricing db) of
                None \<Rightarrow> (Inl (HTTPException 404 ''Pricing record not found''), db, r)
              | Some old \<Rightarrow>
                  (let row = old\<lparr>mp_valid_to := Some valid_to\<rparr>
                   in (Inr row,
                       db\<lparr>model_pricing := update_where (\<lambda>x. mp_id x = pricing_id)
                                            (\<lambda>x. x\<lparr>mp_valid_to := Some valid_to\<rparr>) (model_pricing db)\<rparr>,
                       invalidate_pricing_cache R (mp_provider row) (mp_model row) r))))"

text \<open>\<^verbatim>\<open>s ILIKE p\<close>: \<^verbatim>\<open>%\<close> any text, \<^verbatim>\<open>_\<close> any character, a backslash quotes.\<close>

function ilike :: "string \<Rightarrow> string \<Rightarrow> bool" where
  "ilike [] s = (s = [])"
| "ilike (c # p) [] = (c = CHR ''%'' \<and> ilike p [])"
| "ilike (c # p) (d # s) =
     (if c = CHR ''%'' then ilike p (d # s) \<or> ilike (c # p) s
      else if c = CHR ''_'' then ilike p s
      else if c = CHR 0x5C \<and> p \<noteq> [] then lower_char (hd p) = lower_char d \<and> ilike (tl p) s
      else lower_char c = lower_char d \<and> ilike p s)"
  by pat_completeness auto
termination
  by (relation "measure (\<lambda>(p, s). length p + length s)") auto

definition list_pricing ::
  "time \<Rightarrow> current_user \<Rightarrow> string option \<Rightarrow> string option \<Rightarrow> bool \<Rightarrow> pricing_db \<Rightarrow> http_error + model_price list" where
  "list_pricing now user provider model include_expired db =
     (case require_platform_admin user of Inl e \<Rightarrow> Inl e
      | Inr _ \<Rightarrow>
          (let provider_filter = (if truthy provider then Some (normalize_name (the provider)) else None);
               model_filter = (if truthy model then Some (py_strip (the model)) else None);
               model_like = (if truthy model_filter then Some (''%'' @ the model_filter @ ''%'') else None);
               hits = filter (\<lambda>x. (provider_filter = None \<or> provider_filter = Some (mp_provider x)) \<and>
                                  (model_filter = None \<or> (\<exists>l \<in> set_option model_like. ilike l (mp_model x))) \<and>
                                  (include_expired \<or> mp_valid_to x = None \<or> the (mp_valid_to x) > now))
                             (model_pricing db)
           in Inr (take 500 (sort_key (\<lambda>x. (mp_provider x, mp_model x, - mp_valid_from x)) hits))))"

section \<open>The looked-up row\<close>

lemma set_price_candidates:
  "r \<in> set (price_candidates rows p m t) \<longleftrightarrow>
     r \<in> set rows \<and> mp_provider r = p \<and> mp_model r = m \<and> row_covers r t"
  by (auto simp: price_candidates_def)

lemma select_pricing_SomeD:
  assumes "select_pricing rows p m t = Some r"
  shows "r \<in> set (price_candidates rows p m t)"
    and "s \<in> set (price_candidates rows p m t) \<Longrightarrow> mp_valid_from s \<le> mp_valid_from r"
proof -
  let ?c = "price_candidates rows p m t"
  obtain ys where ys: "sort_key (\<lambda>r. - mp_valid_from r) ?c = r # ys"
    using assms by (auto simp: select_pricing_def split: list.splits)
  have set: "set ?c = set (r # ys)" using arg_cong [OF ys, of set] by simp
  then show "r \<in> set ?c" by simp
  have "sorted (map (\<lambda>r. - mp_valid_from r) (r # ys))" using sorted_sort_key ys by metis
  then show "mp_valid_from s \<le> mp_valid_from r" if "s \<in> set ?c"
    using that set by auto
qed

lemma select_pricing_None_iff: "select_pricing rows p m t = None \<longleftrightarrow> price_candidates rows p m t = []"
proof -
  have "sort_key f xs = [] \<longleftrightarrow> xs = []" for f :: "model_price \<Rightarrow> int" and xs
    by (metis set_empty set_sort)
  then show ?thesis by (auto simp: select_pricing_def split: list.splits)
qed

text \<open>With the unique constraint, the newest candidate is the row that is found.\<close>

lemma select_pricing_eqI:
  assumes "distinct (map price_key rows)" and "r \<in> set (price_candidates rows p m t)"
    and "\<And>s. s \<in> set (price_candidates rows p m t) \<Longrightarrow> mp_valid_from s \<le> mp_valid_from r"
  shows "select_pricing rows p m t = Some r"
proof (cases "select_pricing rows p m t")
  case None
  with assms(2) show ?thesis by (simp add: select_pricing_None_iff)
next
  case (Some x)
  note x = select_pricing_SomeD [OF this]
  have "mp_valid_from x = mp_valid_from r" using x assms(2,3) by (metis order_antisym)
  then have "price_key x = price_key r" using x(1) assms(2) by (simp add: price_key_def set_price_candidates)
  then have "x = r" using x(1) assms(1,2) by (metis distinct_map inj_onD set_price_candidates)
  with Some show ?thesis by simp
qed

lemma cached_covers_row [simp]: "cached_interval_covers (pricing_of_row r) t = row_covers r t"
  by (simp add: cached_interval_covers_def pricing_of_row_def row_covers_def split: option.splits)

section \<open>Agreement of the caches with the table\<close>

text \<open>No instant is covered by two rows of the same model.\<close>

definition disjoint_prices :: "model_price list \<Rightarrow> bool" where
  "disjoint_prices rows \<longleftrightarrow>
     (\<forall>r \<in> set rows. \<forall>s \<in> set rows.
        mp_provider r = mp_provider s \<and> mp_model r = mp_model s \<and> r \<noteq> s \<longrightarrow>
        \<not> (row_covers r (max (mp_valid_from r) (mp_valid_from s)) \<and>
            row_covers s (max (mp_valid_from r) (mp_valid_from s))))"

lemma disjoint_prices_unique:
  assumes "disjoint_prices rows" and "r \<in> set (price_candidates rows p m t)"
    and "s \<in> set (price_candidates rows p m t)"
  shows "r = s"
proof (rule ccontr)
  assume "r \<noteq> s"
  moreover have "row_covers r (max (mp_valid_from r) (mp_valid_from s))"
    and "row_covers s (max (mp_valid_from r) (mp_valid_from s))"
    using assms(2,3) by (auto simp: set_price_candidates row_covers_def split: option.splits)
  ultimately show False using assms by (auto simp: disjoint_prices_def set_price_candidates)
qed

lemma disjoint_pricesI:
  assumes "\<And>r s t. r \<in> set rows \<Longrightarrow> s \<in> set rows \<Longrightarrow> mp_provider r = mp_provider s \<Longrightarrow>
    mp_model r = mp_model s \<Longrightarrow> row_covers r t \<Longrightarrow> row_covers s t \<Longrightarrow> r = s"
  shows "disjoint_prices rows"
  unfolding disjoint_prices_def using assms by blast

lemma disjoint_select_pricing:
  assumes "disjoint_prices rows" and "r \<in> set (price_candidates rows p m t)"
  shows "select_pricing rows p m t = Some r"
proof (cases "select_pricing rows p m t")
  case None
  with assms(2) show ?thesis by (simp add: select_pricing_None_iff)
next
  case (Some x)
  with disjoint_prices_unique [OF assms(1) select_pricing_SomeD(1) [OF Some] assms(2)]
  show ?thesis by simp
qed

text \<open>
  Every price the Redis cache can return for a model is a row of that model; \<open>N\<close> says for which names.
  The key of a model is ambiguous when the provider has a colon; those that ingest lets through have none.
\<close>

definition named_provider :: "string \<Rightarrow> string \<Rightarrow> bool" where
  "named_provider p m \<longleftrightarrow> CHR '':'' \<notin> set p"

definition cache_agrees :: "('r, pricing) redis \<Rightarrow> (string \<Rightarrow> string \<Rightarrow> bool) \<Rightarrow> model_price list \<Rightarrow> 'r \<Rightarrow> bool" where
  "cache_agrees R N rows r \<longleftrightarrow>
     (\<forall>now p m pr. N p m \<longrightarrow> r_get R now (cache_key p m) r = Some pr \<longrightarrow>
        (\<exists>row \<in> set rows. mp_provider row = p \<and> mp_model row = m \<and> pr = pricing_of_row row))"

definition batch_agrees :: "model_price list \<Rightarrow> batch_intervals \<Rightarrow> bool" where
  "batch_agrees rows b \<longleftrightarrow>
     (\<forall>p m. \<forall>pr \<in> set (b (p, m)). \<exists>row \<in> set rows. mp_provider row = p \<and> mp_model row = m \<and> pr = pricing_of_row row)"

lemma cache_key_inject:
  assumes "CHR '':'' \<notin> set p" and "CHR '':'' \<notin> set q" and "cache_key p m = cache_key q n"
  shows "p = q \<and> m = n"
proof -
  have eq: "p @ CHR '':'' # m = q @ CHR '':'' # n"
    using assms(3) by (simp add: cache_key_def)
  then have "takeWhile (\<lambda>c. c \<noteq> CHR '':'') (p @ CHR '':'' # m) = takeWhile (\<lambda>c. c \<noteq> CHR '':'') (q @ CHR '':'' # n)"
    by simp
  then have "p = q" using assms(1,2) by (auto simp: takeWhile_append split: if_splits)
  with eq show ?thesis by simp
qed

lemma get_pricing_cases:
  assumes "get_pricing R now rows p m t r = (res, r')"
  obtains (hit) pr where "r_get R now (cache_key p m) r = Some pr" "cached_interval_covers pr t"
      "res = Some pr" "r' = r"
    | (missing) "select_pricing rows p m t = None" "res = None" "r' = r"
    | (fetched) row where "select_pricing rows p m t = Some row" "res = Some (pricing_of_row row)"
      "r' = r_setex R now (cache_key p m) CACHE_TTL (pricing_of_row row) r"
  using assms
  by (cases "r_get R now (cache_key p m) r"; cases "select_pricing rows p m t")
     (auto simp: get_pricing_def Let_def split: if_splits)

lemma cache_agrees_setex:
  assumes "redis_cache R" and "cache_agrees R N rows r" and "CHR '':'' \<notin> set p" and named: "\<And>q n. N q n \<Longrightarrow> CHR '':'' \<notin> set q"
    and "row \<in> set rows" "mp_provider row = p" "mp_model row = m"
  shows "cache_agrees R N rows (r_setex R now (cache_key p m) ttl (pricing_of_row row) r)"
  unfolding cache_agrees_def
proof (intro allI impI)
  fix now' q n pr
  assume q: "N q n"
    and "r_get R now' (cache_key q n) (r_setex R now (cache_key p m) ttl (pricing_of_row row) r) = Some pr"
  from redis_cache.get_setex [OF assms(1) this(2)]
  show "\<exists>row\<in>set rows. mp_provider row = q \<and> mp_model row = n \<and> pr = pricing_of_row row"
  proof
    assume "cache_key q n = cache_key p m \<and> pr = pricing_of_row row \<and> now' < now + seconds ttl"
    with cache_key_inject [OF named [OF q] assms(3), of n m] assms(5-7) show ?thesis by auto
  next
    assume "cache_key q n \<noteq> cache_key p m \<and> r_get R now' (cache_key q n) r = Some pr"
    with assms(2) q show ?thesis by (auto simp: cache_agrees_def)
  qed
qed

lemma get_pricing_sound:
  assumes "redis_cache R" and agrees: "cache_agrees R N rows r" and named: "\<And>q n. N q n \<Longrightarrow> CHR '':'' \<notin> set q"
    and p: "CHR '':'' \<notin> set p" and got: "get_pricing R now rows p m t r = (res, r')"
  shows "cache_agrees R N rows r' \<and>
    (N p m \<longrightarrow> (case res of None \<Rightarrow> price_candidates rows p m t = []
     | Some pr \<Rightarrow> \<exists>row \<in> set (price_candidates rows p m t). pr = pricing_of_row row))"
  using got
proof (cases rule: get_pricing_cases)
  case (hit pr)
  then have "\<exists>row \<in> set rows. mp_provider row = p \<and> mp_model row = m \<and> pr = pricing_of_row row" if "N p m"
    using agrees that unfolding cache_agrees_def by blast
  with hit agrees show ?thesis by (fastforce simp: set_price_candidates)
next
  case missing
  with agrees show ?thesis by (simp add: select_pricing_None_iff)
next
  case (fetched row)
  note sel = select_pricing_SomeD(1) [OF fetched(1)]
  then have "row \<in> set rows" "mp_provider row = p" "mp_model row = m" by (simp_all add: set_price_candidates)
  from cache_agrees_setex [OF assms(1) agrees p named this] fetched sel show ?thesis by auto
qed

lemma get_batch_pricing_sound:
  assumes "redis_cache R" and "cache_agrees R named_provider rows r" and "batch_agrees rows b" and p: "CHR '':'' \<notin> set p"
    and got: "get_batch_pricing R now rows p m t b r = (res, b', r')"
  shows "cache_agrees R named_provider rows r' \<and> batch_agrees rows b' \<and>
    (case res of None \<Rightarrow> price_candidates rows p m t = []
     | Some pr \<Rightarrow> \<exists>row \<in> set (price_candidates rows p m t). pr = pricing_of_row row)"
proof (cases "List.find (\<lambda>pr. cached_interval_covers pr t) (b (p, m))")
  case (Some pr)
  then have "pr \<in> set (b (p, m))" "cached_interval_covers pr t"
    by (auto simp: find_Some_iff in_set_conv_nth)
  with assms(3) obtain row where "row \<in> set rows" "mp_provider row = p" "mp_model row = m" "pr = pricing_of_row row"
    unfolding batch_agrees_def by blast
  with \<open>cached_interval_covers pr t\<close> have "row \<in> set (price_candidates rows p m t)"
    by (simp add: set_price_candidates)
  moreover have "res = Some pr" "b' = b" "r' = r" using got Some by (simp_all add: get_batch_pricing_def)
  ultimately show ?thesis using assms(2,3) \<open>pr = pricing_of_row row\<close> by auto
next
  case None
  obtain res1 r1 where g: "get_pricing R now rows p m t r = (res1, r1)" by fastforce
  with got None have eq: "res = res1" "r' = r1"
      "b' = (case res1 of None \<Rightarrow> b | Some pr \<Rightarrow> b((p, m) := b (p, m) @ [pr]))"
    by (auto simp: get_batch_pricing_def split: option.splits)
  from get_pricing_sound [OF assms(1,2) _ p g] assms(3) p show ?thesis
    unfolding eq by (cases res1) (auto simp: named_provider_def batch_agrees_def set_price_candidates)
qed


section \<open>Rounding\<close>

lemma round_half_even_bounds:
  assumes "0 < d"
  shows "2 * \<bar>d * round_half_even n d - n\<bar> \<le> d"
proof -
  define q m where "q = d * (n div d)" and "m = n mod d"
  have "n = q + m" "0 \<le> m" "m < d" using assms by (simp_all add: q_def m_def)
  moreover have "d * round_half_even n d \<in> (if 2 * m < d then {q} else if d < 2 * m then {q + d} else {q, q + d})"
    by (simp add: round_half_even_def Let_def q_def m_def algebra_simps)
  ultimately show ?thesis by (auto split: if_splits)
qed

lemma round_half_even_mono:
  assumes "0 < d" and "a \<le> b"
  shows "round_half_even a d \<le> round_half_even b d"
proof (cases "a div d = b div d")
  case True
  then have "a mod d \<le> b mod d" using assms(2) by (metis div_mult_mod_eq add_le_cancel_left)
  with True show ?thesis by (auto simp: round_half_even_def Let_def)
next
  case False
  then have "a div d + 1 \<le> b div d" using zdiv_mono1 [OF assms(2,1)] by simp
  then show ?thesis by (auto simp: round_half_even_def Let_def)
qed

text \<open>
  C12: A computed cost is within half a unit of the eighth decimal place of the exact
  product of prices and token counts, never negative, and never goes down when a span has
  more tokens.
\<close>

theorem span_cost_accurate:
  assumes "0 \<le> pr_input pr" and "0 \<le> pr_output pr" and "0 \<le> i" and "i \<le> i'" and "0 \<le> j" and "j \<le> j'"
  shows "2 * \<bar>10 ^ 5 * span_cost (Some pr) i j - (pr_input pr * i + pr_output pr * j)\<bar> \<le> 10 ^ 5 \<and>
    0 \<le> span_cost (Some pr) i j \<and> span_cost (Some pr) i j \<le> span_cost (Some pr) i' j'"
proof (intro conjI)
  show "2 * \<bar>10 ^ 5 * span_cost (Some pr) i j - (pr_input pr * i + pr_output pr * j)\<bar> \<le> 10 ^ 5"
    using round_half_even_bounds [of "10 ^ 5"] by (simp add: span_cost_def)
  have "round_half_even 0 (10 ^ 5) \<le> span_cost (Some pr) i j"
    unfolding span_cost_def option.case by (rule round_half_even_mono) (simp_all add: assms)
  then show "0 \<le> span_cost (Some pr) i j" by (simp add: round_half_even_def)
  have "pr_input pr * i + pr_output pr * j \<le> pr_input pr * i' + pr_output pr * j'"
    using assms by (intro add_mono mult_left_mono)
  then show "span_cost (Some pr) i j \<le> span_cost (Some pr) i' j'"
    unfolding span_cost_def option.case by (intro round_half_even_mono) simp_all
qed

section \<open>Changing prices\<close>

text \<open>What a successful creation leaves in the table.\<close>

definition close_open :: "string \<Rightarrow> string \<Rightarrow> time \<Rightarrow> model_price \<Rightarrow> model_price" where
  "close_open p m v x =
     (if mp_provider x = p \<and> mp_model x = m \<and> mp_valid_from x < v \<and>
         (case mp_valid_to x of None \<Rightarrow> True | Some e \<Rightarrow> v < e) then x\<lparr>mp_valid_to := Some v\<rparr> else x)"

lemma close_open_simps [simp]:
  "mp_provider (close_open p m v x) = mp_provider x" "mp_model (close_open p m v x) = mp_model x"
  "mp_valid_from (close_open p m v x) = mp_valid_from x" "mp_input (close_open p m v x) = mp_input x"
  "mp_output (close_open p m v x) = mp_output x" "mp_id (close_open p m v x) = mp_id x"
  "price_key (close_open p m v x) = price_key x"
  by (simp_all add: close_open_def price_key_def)

lemma close_open_other [simp]: "mp_provider x \<noteq> p \<or> mp_model x \<noteq> m \<Longrightarrow> close_open p m v x = x"
  by (auto simp: close_open_def)

lemma row_covers_close_open:
  "mp_provider x = p \<Longrightarrow> mp_model x = m \<Longrightarrow>
     row_covers (close_open p m v x) t \<longleftrightarrow> row_covers x t \<and> (mp_valid_from x < v \<longrightarrow> t < v)"
  by (auto simp: close_open_def row_covers_def split: option.splits)

lemma create_pricing_Inr:
  assumes "create_pricing R now user body db r = (Inr row, db', r')"
  obtains p m v where "p = normalize_name (pc_provider body)" "m = py_strip (pc_model body)"
    "v = (case pc_valid_from body of None \<Rightarrow> now | Some t \<Rightarrow> t)"
    "cu_is_platform_admin user = Some True" "m \<noteq> []"
    "mp_provider row = p" "mp_model row = m" "mp_valid_from row = v" "mp_valid_to row = None"
    "Some (mp_input row) = pg_numeric (pc_input body)" "Some (mp_output row) = pg_numeric (pc_output body)"
    "mp_id row = pricing_id_seq db + 1" "pricing_id_seq db' = pricing_id_seq db + 1"
    "price_key row \<notin> price_key ` set (model_pricing db)"
    "model_pricing db' = map (close_open p m v) (model_pricing db) @ [row]"
    "r' = invalidate_pricing_cache R p m r"
proof -
  have eq: "update_where (\<lambda>x. mp_provider x = p \<and> mp_model x = m \<and> mp_valid_from x < v \<and>
      (case mp_valid_to x of None \<Rightarrow> True | Some e \<Rightarrow> v < e)) (\<lambda>x. x\<lparr>mp_valid_to := Some v\<rparr>) rows
      = map (close_open p m v) rows" for p m v rows
    by (simp add: update_where_def close_open_def)
  have keys: "price_key ` set (map (close_open p m v) rows) = price_key ` set rows" for p m v rows
    by (simp add: image_image)
  show ?thesis
    using assms that [OF refl refl refl]
    unfolding create_pricing_def Let_def eq keys
    by (cases "require_platform_admin user"; cases "pg_numeric (pc_input body)";
        cases "pg_numeric (pc_output body)") (auto split: if_splits)
qed

text \<open>The price in force, as the reader of the price list sees it.\<close>

definition price_at :: "model_price list \<Rightarrow> string \<Rightarrow> string \<Rightarrow> time \<Rightarrow> (int \<times> int) option" where
  "price_at rows p m t = map_option (\<lambda>r. (mp_input r, mp_output r)) (select_pricing rows p m t)"

lemma select_pricing_map:
  assumes "distinct (map price_key rows)" and key: "\<And>x. price_key (f x) = price_key x"
    and same: "\<And>x. x \<in> set rows \<Longrightarrow> mp_provider x = p \<Longrightarrow> mp_model x = m \<Longrightarrow> row_covers (f x) t = row_covers x t"
  shows "select_pricing (map f rows) p m t = map_option f (select_pricing rows p m t)"
proof -
  have key': "mp_provider (f x) = mp_provider x" "mp_model (f x) = mp_model x" "mp_valid_from (f x) = mp_valid_from x" for x
    using key [of x] by (simp_all add: price_key_def)
  have cands: "price_candidates (map f rows) p m t = map f (price_candidates rows p m t)"
    using same by (auto simp: price_candidates_def filter_map o_def key' intro!: arg_cong [where f = "map f"] filter_cong)
  show ?thesis
  proof (cases "select_pricing rows p m t")
    case None
    then have "select_pricing (map f rows) p m t = None" by (simp add: select_pricing_None_iff cands)
    with None show ?thesis by simp
  next
    case (Some x)
    note x = select_pricing_SomeD [OF this]
    have "select_pricing (map f rows) p m t = Some (f x)"
      by (rule select_pricing_eqI) (use assms(1) x in \<open>auto simp: cands key o_def key'\<close>)
    with Some show ?thesis by simp
  qed
qed

lemma select_pricing_snoc_other:
  "\<not> (mp_provider row = p \<and> mp_model row = m \<and> row_covers row t) \<Longrightarrow>
     select_pricing (rows @ [row]) p m t = select_pricing rows p m t"
  by (auto simp: select_pricing_def price_candidates_def)

lemma create_pricing_distinct:
  assumes "distinct (map price_key (model_pricing db))"
    and "create_pricing R now user body db r = (Inr row, db', r')"
  shows "distinct (map price_key (model_pricing db'))"
  using assms(2) by (rule create_pricing_Inr) (use assms(1) in \<open>simp add: o_def\<close>)

text \<open>From the new start on, only the rows that start later are left beside the new one.\<close>

lemma candidates_closed:
  assumes "v \<le> t" and ne: "\<And>x. x \<in> set rows \<Longrightarrow> mp_provider x = p \<Longrightarrow> mp_model x = m \<Longrightarrow> mp_valid_from x \<noteq> v"
  shows "set (price_candidates (map (close_open p m v) rows) p m t) =
    set (price_candidates (filter (\<lambda>x. v < mp_valid_from x) rows) p m t)"
proof -
  have "row_covers (close_open p m v x) t \<longleftrightarrow> v < mp_valid_from x \<and> row_covers x t"
    and "v < mp_valid_from x \<Longrightarrow> close_open p m v x = x"
    if "x \<in> set rows" "mp_provider x = p" "mp_model x = m" for x
    using row_covers_close_open [OF that(2,3), of v t] ne [OF that] assms(1)
    by (auto simp: close_open_def)
  then show ?thesis
    unfolding set_eq_iff set_price_candidates set_map set_filter image_iff mem_Collect_eq
    by (metis close_open_simps(1,2))
qed

text \<open>
  A new price takes effect from its start. After \<^verbatim>\<open>create_pricing\<close> succeeds with start
  \<open>v\<close>, the price list gives the same price as before for every other model and, for this
  model, for every instant before \<open>v\<close>; from \<open>v\<close> on it gives the new price, except where an
  existing row that starts later than \<open>v\<close> covers the instant.
\<close>

theorem create_pricing_takes_effect:
  assumes "distinct (map price_key (model_pricing db))"
    and "create_pricing R now user body db r = (Inr row, db', r')"
  defines "p \<equiv> mp_provider row" and "m \<equiv> mp_model row" and "v \<equiv> mp_valid_from row"
  shows "((q, n) \<noteq> (p, m) \<or> t < v \<longrightarrow>
            price_at (model_pricing db') q n t = price_at (model_pricing db) q n t) \<and>
         (v \<le> t \<longrightarrow> price_at (model_pricing db') p m t =
            (case price_at (filter (\<lambda>x. v < mp_valid_from x) (model_pricing db)) p m t of
               None \<Rightarrow> Some (mp_input row, mp_output row) | Some later \<Rightarrow> Some later))"
proof -
  let ?f = "close_open p m v"
  have dist: "distinct (map price_key (model_pricing db'))" by (rule create_pricing_distinct [OF assms(1,2)])
  have db': "model_pricing db' = map ?f (model_pricing db) @ [row]"
    and new: "price_key row \<notin> price_key ` set (model_pricing db)" and open_end: "mp_valid_to row = None"
    using assms(2) unfolding p_def m_def v_def by (rule create_pricing_Inr, simp)+
  have keep: "price_at (model_pricing db') q n t = price_at (model_pricing db) q n t" if "(q, n) \<noteq> (p, m) \<or> t < v"
  proof -
    have "select_pricing (map ?f (model_pricing db)) q n t = map_option ?f (select_pricing (model_pricing db) q n t)"
    proof (rule select_pricing_map [OF assms(1)])
      fix x :: model_price assume "mp_provider x = q" "mp_model x = n"
      with that row_covers_close_open [of x p m v t] show "row_covers (?f x) t = row_covers x t"
        by (cases "mp_provider x = p \<and> mp_model x = m") auto
    qed simp
    moreover have "\<not> (mp_provider row = q \<and> mp_model row = n \<and> row_covers row t)"
      using that by (auto simp: p_def m_def v_def row_covers_def)
    ultimately show ?thesis
      by (simp add: db' price_at_def select_pricing_snoc_other option.map_comp o_def)
  qed
  have take: "price_at (model_pricing db') p m t =
      (case price_at (filter (\<lambda>x. v < mp_valid_from x) (model_pricing db)) p m t of
         None \<Rightarrow> Some (mp_input row, mp_output row) | Some later \<Rightarrow> Some later)" if "v \<le> t"
  proof -
    let ?later = "filter (\<lambda>x. v < mp_valid_from x) (model_pricing db)"
    have cands: "set (price_candidates (model_pricing db') p m t) = insert row (set (price_candidates ?later p m t))"
    proof -
      have "row_covers row t" using that open_end by (simp add: row_covers_def v_def)
      moreover have "mp_valid_from x \<noteq> v" if "x \<in> set (model_pricing db)" "mp_provider x = p" "mp_model x = m" for x
        using new that by (auto simp: price_key_def p_def m_def v_def image_iff)
      ultimately show ?thesis
        using candidates_closed [OF that, of "model_pricing db" p m]
        by (auto simp: db' p_def [symmetric] m_def [symmetric] price_candidates_def)
    qed
    show ?thesis
    proof (cases "select_pricing ?later p m t")
      case None
      then have "price_candidates ?later p m t = []" by (simp add: select_pricing_None_iff)
      then have "select_pricing (model_pricing db') p m t = Some row"
        by (intro select_pricing_eqI [OF dist]) (simp_all add: cands)
      with None show ?thesis by (simp add: price_at_def)
    next
      case (Some x)
      note x = select_pricing_SomeD [OF this]
      have "select_pricing (model_pricing db') p m t = Some x"
        by (rule select_pricing_eqI [OF dist])
           (use x in \<open>auto simp: cands v_def [symmetric] set_price_candidates\<close>)
      with Some show ?thesis by (simp add: price_at_def)
    qed
  qed
  from keep take show ?thesis by blast
qed

section \<open>Invalidation of the cache\<close>

text \<open>
  Names that make neither the key nor the \<^verbatim>\<open>SCAN\<close> pattern ambiguous: no colon in the
  provider and none of the characters \<^verbatim>\<open>* ? [ ] \\<close> in either.
\<close>

definition plain_names :: "string \<Rightarrow> string \<Rightarrow> bool" where
  "plain_names p m \<longleftrightarrow> CHR '':'' \<notin> set p \<and> no_glob p \<and> no_glob m"

lemma no_glob_legacy: "plain_names p m \<Longrightarrow> no_glob (''pricing:'' @ p @ '':'' @ m @ '':'')"
  by (auto simp: plain_names_def no_glob_def)

lemma invalidated:
  assumes "redis_cache R" and "plain_names p m"
  shows "r_get R now (cache_key p m) (invalidate_pricing_cache R p m r) = None"
proof -
  have "py_startswith (''pricing:'' @ p @ '':'' @ m @ '':'') (cache_key p m)"
    by (simp add: py_startswith_def cache_key_def)
  from redis_cache.get_scanned_deleted [OF assms(1) no_glob_legacy [OF assms(2)] this,
      of now "[''pricing:'' @ p @ '':'' @ m]" r]
  show ?thesis by (simp add: invalidate_pricing_cache_def Let_def)
qed

text \<open>A change of one model's rows, followed by the invalidation, keeps the agreement for plain names.\<close>

lemma cache_agrees_invalidate:
  assumes "redis_cache R" and "cache_agrees R plain_names rows r"
    and other: "\<And>x. x \<in> set rows \<Longrightarrow> mp_provider x \<noteq> p \<or> mp_model x \<noteq> m \<Longrightarrow> x \<in> set rows'"
  shows "cache_agrees R plain_names rows' (invalidate_pricing_cache R p m r)"
  unfolding cache_agrees_def
proof (intro allI impI)
  fix now q n pr
  assume q: "plain_names q n" and got: "r_get R now (cache_key q n) (invalidate_pricing_cache R p m r) = Some pr"
  with invalidated [OF assms(1) q, of now r] have ne: "q \<noteq> p \<or> n \<noteq> m" by auto
  from got have "r_get R now (cache_key q n) r = Some pr"
    unfolding invalidate_pricing_cache_def Let_def by (blast dest: redis_cache.get_delete [OF assms(1)])
  with assms(2) q obtain row where "row \<in> set rows" "mp_provider row = q" "mp_model row = n" "pr = pricing_of_row row"
    unfolding cache_agrees_def by blast
  with other [of row] ne show "\<exists>row\<in>set rows'. mp_provider row = q \<and> mp_model row = n \<and> pr = pricing_of_row row"
    by auto
qed

text \<open>
  The look-ups and the changes of the price list, in any order. Look-ups are for the providers of
  ingested spans, which have no colon; the changes are for any names.
\<close>

inductive pricing_step :: "('r, pricing) redis \<Rightarrow> pricing_db \<times> 'r \<Rightarrow> pricing_db \<times> 'r \<Rightarrow> bool" for R where
  lookup: "CHR '':'' \<notin> set p \<Longrightarrow> get_pricing R now (model_pricing db) p m t r = (res, r') \<Longrightarrow>
    pricing_step R (db, r) (db, r')"
| create: "create_pricing R now user body db r = (res, db', r') \<Longrightarrow> pricing_step R (db, r) (db', r')"
| update: "update_pricing R user i up db r = (res, db', r') \<Longrightarrow> pricing_step R (db, r) (db', r')"
| stop: "end_pricing R now user i at_end db r = (res, db', r') \<Longrightarrow> pricing_step R (db, r) (db', r')"

definition pricing_inv :: "('r, pricing) redis \<Rightarrow> pricing_db \<times> 'r \<Rightarrow> bool" where
  "pricing_inv R s \<longleftrightarrow>
     distinct (map price_key (model_pricing (fst s))) \<and>
     distinct (map mp_id (model_pricing (fst s))) \<and>
     (\<forall>x \<in> set (model_pricing (fst s)). mp_id x \<le> pricing_id_seq (fst s)) \<and>
     cache_agrees R plain_names (model_pricing (fst s)) (snd s)"

lemma apply_updates_names:
  "apply_updates body x = Some y \<Longrightarrow> mp_provider y = mp_provider x \<and> mp_model y = mp_model x \<and> mp_id y = mp_id x"
  by (auto simp: apply_updates_def opt_set_def split: if_splits option.splits)

text \<open>Replacing the row with a given id by one of the same model.\<close>

lemma pricing_inv_replace:
  assumes R: "redis_cache R" and inv: "pricing_inv R (db, r)"
    and old: "old \<in> set (model_pricing db)" and id: "mp_id row = mp_id old"
    and names: "mp_provider row = mp_provider old" "mp_model row = mp_model old"
    and free: "\<And>x. x \<in> set (model_pricing db) \<Longrightarrow> mp_id x \<noteq> mp_id old \<Longrightarrow> price_key x \<noteq> price_key row"
  shows "pricing_inv R (db\<lparr>model_pricing := update_where (\<lambda>x. mp_id x = mp_id old) (\<lambda>_. row) (model_pricing db)\<rparr>,
           invalidate_pricing_cache R (mp_provider row) (mp_model row) r)"
proof -
  let ?rows = "model_pricing db"
  let ?new = "update_where (\<lambda>x. mp_id x = mp_id old) (\<lambda>_. row) ?rows"
  note inv = inv [unfolded pricing_inv_def fst_conv snd_conv]
  have ids: "map mp_id ?new = map mp_id ?rows"
    by (rule map_update_where_same) (simp add: id)
  have uniq: "x = old" if "x \<in> set ?rows" "mp_id x = mp_id old" for x
    using that old inv by (metis distinct_map inj_onD)
  have "inj_on price_key (set ?new)"
  proof (rule inj_onI)
    fix x y assume xy: "x \<in> set ?new" "y \<in> set ?new" "price_key x = price_key y"
    have "z = row \<or> (z \<in> set ?rows \<and> mp_id z \<noteq> mp_id old)" if "z \<in> set ?new" for z
      using that by (auto simp: in_update_where split: if_splits)
    from this [OF xy(1)] this [OF xy(2)] free xy(3) inv show "x = y"
      by (metis distinct_map inj_onD)
  qed
  moreover have "distinct ?new" using ids inv by (metis distinct_map)
  ultimately have "distinct (map price_key ?new)" by (simp add: distinct_map)
  moreover have "cache_agrees R plain_names ?new (invalidate_pricing_cache R (mp_provider row) (mp_model row) r)"
  proof (rule cache_agrees_invalidate [OF R])
    show "cache_agrees R plain_names ?rows r" using inv by simp
    fix x assume "x \<in> set ?rows" "mp_provider x \<noteq> mp_provider row \<or> mp_model x \<noteq> mp_model row"
    with uniq [of x] names show "x \<in> set ?new" by (force simp: in_update_where)
  qed
  ultimately show ?thesis
    using inv old id ids by (auto simp: pricing_inv_def in_update_where)
qed

lemma pricing_inv_create:
  assumes R: "redis_cache R" and inv: "pricing_inv R (db, r)"
    and c: "create_pricing R now user body db r = (Inr row, db', r')"
  shows "pricing_inv R (db', r')"
  using c
proof (cases rule: create_pricing_Inr)
  case (1 p m v)
  note inv = inv [unfolded pricing_inv_def fst_conv snd_conv]
  have "cache_agrees R plain_names (model_pricing db') r'"
    unfolding 1(16)
    by (rule cache_agrees_invalidate [OF R, where rows = "model_pricing db"])
       (use inv in \<open>auto simp: 1(1,2,15) intro!: image_eqI [where f = "close_open _ _ _"]\<close>)
  moreover have "distinct (map mp_id (model_pricing db'))"
    using inv by (auto simp: 1 o_def)
  moreover have "distinct (map price_key (model_pricing db'))"
    by (rule create_pricing_distinct [OF _ c]) (use inv in simp)
  ultimately show ?thesis
    using inv by (auto simp: pricing_inv_def 1)
qed

lemma pricing_step_inv:
  assumes "redis_cache R" and "pricing_step R s s'" and "pricing_inv R s"
  shows "pricing_inv R s'"
  using assms(2,3)
proof (induction rule: pricing_step.induct)
  case (lookup p now db m t r res r')
  with get_pricing_sound [OF assms(1) _ _ lookup(1,2), of plain_names] show ?case
    by (simp add: pricing_inv_def plain_names_def)
next
  case (create body now user db r res db' r')
  show ?case
  proof (cases res)
    case (Inr row)
    with create pricing_inv_create [OF assms(1) create(2)] show ?thesis by simp
  next
    case (Inl e)
    with create(1) have "model_pricing db' = model_pricing db" "pricing_id_seq db \<le> pricing_id_seq db'" "r' = r"
      by (auto simp: create_pricing_def Let_def split: sum.splits if_splits option.splits)
    with create(2) show ?thesis by (force simp: pricing_inv_def)
  qed
next
  case (update user i up db r res db' r')
  show ?case
  proof (cases "\<exists>row. res = Inr row")
    case True
    with update(1) obtain old row where o: "select_one (\<lambda>x. mp_id x = i) (model_pricing db) = Some old"
      and a: "apply_updates up old = Some row"
      and free: "\<not> (\<exists>x\<in>set (model_pricing db). mp_id x \<noteq> i \<and> price_key x = price_key row)"
      and db': "db' = db\<lparr>model_pricing := update_where (\<lambda>x. mp_id x = i) (\<lambda>_. row) (model_pricing db)\<rparr>"
      and r': "r' = invalidate_pricing_cache R (mp_provider row) (mp_model row) r"
      by (auto simp: update_pricing_def split: sum.splits if_splits option.splits)
    from select_one_SomeD [OF o] have "old \<in> set (model_pricing db)" "i = mp_id old" by auto
    with pricing_inv_replace [OF assms(1) update(2), of old row] apply_updates_names [OF a] free
    show ?thesis unfolding db' r' by blast
  next
    case False
    with update have "db' = db" "r' = r"
      by (auto simp: update_pricing_def split: sum.splits if_splits option.splits)
    with update show ?thesis by simp
  qed
next
  case (stop now user i at_end db r res db' r')
  show ?case
  proof (cases "\<exists>row. res = Inr row")
    case True
    define v where "v = (case at_end of None \<Rightarrow> now | Some t \<Rightarrow> t)"
    from True stop(1) obtain old where o: "select_one (\<lambda>x. mp_id x = i) (model_pricing db) = Some old"
      and db': "db' = db\<lparr>model_pricing := update_where (\<lambda>x. mp_id x = i) (\<lambda>x. x\<lparr>mp_valid_to := Some v\<rparr>) (model_pricing db)\<rparr>"
      and r': "r' = invalidate_pricing_cache R (mp_provider old) (mp_model old) r"
      by (auto simp: end_pricing_def Let_def v_def [symmetric] split: sum.splits if_splits option.splits)
    from select_one_SomeD [OF o] have old: "old \<in> set (model_pricing db)" "i = mp_id old" by auto
    have dist: "distinct (map mp_id (model_pricing db))" "distinct (map price_key (model_pricing db))"
      using stop(2) by (simp_all add: pricing_inv_def)
    then have "update_where (\<lambda>x. mp_id x = i) (\<lambda>x. x\<lparr>mp_valid_to := Some v\<rparr>) (model_pricing db) =
        update_where (\<lambda>x. mp_id x = mp_id old) (\<lambda>_. old\<lparr>mp_valid_to := Some v\<rparr>) (model_pricing db)"
      using old by (auto simp: update_where_def distinct_map inj_on_eq_iff dest: inj_onD)
    moreover have "price_key x \<noteq> price_key (old\<lparr>mp_valid_to := Some v\<rparr>)"
      if "x \<in> set (model_pricing db)" "mp_id x \<noteq> mp_id old" for x
      using that old(1) dist(2) by (auto simp: price_key_def [of "old\<lparr>mp_valid_to := Some v\<rparr>"]
        simp flip: price_key_def dest!: inj_onD simp: distinct_map)
    ultimately show ?thesis
      using pricing_inv_replace [OF assms(1) stop(2) old(1), of "old\<lparr>mp_valid_to := Some v\<rparr>"]
      unfolding db' r' by simp
  next
    case False
    with stop have "db' = db" "r' = r"
      by (auto simp: end_pricing_def Let_def split: sum.splits if_splits option.splits)
    with stop show ?thesis by simp
  qed
qed


section \<open>Overlapping intervals\<close>

text \<open>
  Creating prices in chronological order keeps the intervals of a model disjoint: when
  the new start is later than the start of every existing row of the model, the list after a
  successful \<^verbatim>\<open>create_pricing\<close> has at most one row per model and instant, if the list before
  had.
\<close>

theorem chronological_create_keeps_disjoint:
  assumes "disjoint_prices (model_pricing db)"
    and "create_pricing R now user body db r = (Inr row, db', r')"
    and "\<forall>x \<in> set (model_pricing db). mp_provider x = mp_provider row \<and> mp_model x = mp_model row \<longrightarrow>
           mp_valid_from x < mp_valid_from row"
  shows "disjoint_prices (model_pricing db')"
  using assms(2)
proof (cases rule: create_pricing_Inr)
  case (1 p m v)
  have cov: "row_covers (close_open p m v x) t \<Longrightarrow> row_covers x t" for x t
    using row_covers_close_open [of x p m v t] by (cases "mp_provider x = p \<and> mp_model x = m") auto
  have old: "x = y"
    if "x \<in> set (model_pricing db)" "y \<in> set (model_pricing db)" "mp_provider x = mp_provider y"
      "mp_model x = mp_model y" "row_covers (close_open p m v x) t" "row_covers (close_open p m v y) t" for x y t
    using disjoint_prices_unique [OF assms(1), of x "mp_provider y" "mp_model y" t y] that(1-4)
      cov [OF that(5)] cov [OF that(6)] by (simp add: set_price_candidates)
  have new: "t < v"
    if "x \<in> set (model_pricing db)" "mp_provider x = p" "mp_model x = m" "row_covers (close_open p m v x) t" for x t
    using that assms(3) row_covers_close_open [OF that(2,3), of v t] 1(6-8) by auto
  show ?thesis
  proof (rule disjoint_pricesI)
    fix a b t
    assume ab: "a \<in> set (model_pricing db')" "b \<in> set (model_pricing db')" "mp_provider a = mp_provider b"
      "mp_model a = mp_model b" "row_covers a t" "row_covers b t"
    have split: "z = row \<or> (\<exists>x \<in> set (model_pricing db). z = close_open p m v x)"
      if "z \<in> set (model_pricing db')" for z using that 1(15) by auto
    have late: "v \<le> t" if "row_covers row t" using that 1(8) by (simp add: row_covers_def)
    from split [OF ab(1)] split [OF ab(2)] show "a = b"
    proof (elim disjE bexE)
      fix x y assume "x \<in> set (model_pricing db)" "y \<in> set (model_pricing db)"
        "a = close_open p m v x" "b = close_open p m v y"
      with ab old [of x y t] show "a = b" by simp
    next
      fix x assume "x \<in> set (model_pricing db)" "a = close_open p m v x" "b = row"
      with ab late new [of x t] 1(6,7) show "a = b" by auto
    next
      fix x assume "x \<in> set (model_pricing db)" "b = close_open p m v x" "a = row"
      with ab late new [of x t] 1(6,7) show "a = b" by auto
    qed simp
  qed
qed

text \<open>
  A backdated price is cached beyond its end. When a price is created with a start
  before that of an existing row of the same model, its own end stays open. A look-up at its
  start caches the interval without end, and a look-up within the cache's lifetime, for an
  instant at which the existing row is in force according to the table, returns the
  backdated price instead.
\<close>

theorem backdated_price_is_cached_too_long:
  assumes "redis_store R" and "distinct (map price_key (model_pricing db))"
    and "create_pricing R now user body db r = (Inr row, db', r')"
    and "plain_names (mp_provider row) (mp_model row)"
    and "x \<in> set (model_pricing db)" and "mp_provider x = mp_provider row" and "mp_model x = mp_model row"
    and "mp_valid_from row < mp_valid_from x"
    and "select_pricing (model_pricing db') (mp_provider row) (mp_model row) t = Some x"
    and "get_pricing R now1 (model_pricing db') (mp_provider row) (mp_model row) (mp_valid_from row) r' = (first, r1)"
    and "now2 < now1 + seconds CACHE_TTL"
  shows "fst (get_pricing R now2 (model_pricing db') (mp_provider row) (mp_model row) t r1) = Some (pricing_of_row row)"
proof -
  have R: "redis_cache R" using assms(1) by (simp add: redis_store_def)
  let ?p = "mp_provider row" and ?m = "mp_model row" and ?v = "mp_valid_from row"
  have open_end: "mp_valid_to row = None" and r': "r' = invalidate_pricing_cache R ?p ?m r"
    and db': "model_pricing db' = map (close_open ?p ?m ?v) (model_pricing db) @ [row]"
    using assms(3) by (rule create_pricing_Inr, simp)+
  have "r_get R now1 (cache_key ?p ?m) r' = None"
    unfolding r' by (rule invalidated [OF R assms(4)])
  moreover have "select_pricing (model_pricing db') ?p ?m ?v = Some row"
  proof (rule select_pricing_eqI [OF create_pricing_distinct [OF assms(2,3)]])
    show "row \<in> set (price_candidates (model_pricing db') ?p ?m ?v)"
      using open_end by (simp add: set_price_candidates db' row_covers_def)
  qed (auto simp: set_price_candidates row_covers_def)
  ultimately have r1: "r1 = r_setex R now1 (cache_key ?p ?m) CACHE_TTL (pricing_of_row row) r'"
    using assms(10) by (simp add: get_pricing_def Let_def)
  have "mp_valid_from x \<le> t"
    using select_pricing_SomeD(1) [OF assms(9)] by (simp add: set_price_candidates row_covers_def)
  then have "row_covers row t" using assms(8) open_end by (simp add: row_covers_def)
  with redis_store.get_setex_live [OF assms(1,11)] show ?thesis
    by (simp add: get_pricing_def Let_def r1)
qed

section \<open>Examples\<close>

definition root_user :: current_user where
  "root_user = \<lparr>cu_sub = ''u1'', cu_org_id = ''o1'', cu_role = Some ''admin'', cu_is_platform_admin = Some True\<rparr>"

definition price_v1 :: model_price where
  "price_v1 = \<lparr>mp_id = 1, mp_provider = ''openai'', mp_model = ''gpt'', mp_input = 25000000, mp_output = 100000000,
     mp_valid_from = 1000, mp_valid_to = None\<rparr>"

definition price_body :: "time \<Rightarrow> pricing_create" where
  "price_body v = \<lparr>pc_provider = ''OpenAI '', pc_model = '' gpt'', pc_input = 1 / 500, pc_output = 1 / 100,
     pc_valid_from = Some v\<rparr>"

definition price_db1 :: pricing_db where
  "price_db1 = \<lparr>model_pricing = [price_v1], pricing_id_seq = 1\<rparr>"

definition price_new :: "time \<Rightarrow> model_price" where
  "price_new v = \<lparr>mp_id = 2, mp_provider = ''openai'', mp_model = ''gpt'', mp_input = 20000000, mp_output = 100000000,
     mp_valid_from = v, mp_valid_to = None\<rparr>"

lemma example_later:
  "create_pricing mem_redis 0 root_user (price_body 5000) price_db1 [] =
     (Inr (price_new 5000), \<lparr>model_pricing = [price_v1\<lparr>mp_valid_to := Some 5000\<rparr>, price_new 5000], pricing_id_seq = 2\<rparr>, [])"
  by code_simp

lemma example_backdated:
  "create_pricing mem_redis 0 root_user (price_body 500) price_db1 [] =
     (Inr (price_new 500), \<lparr>model_pricing = [price_v1, price_new 500], pricing_id_seq = 2\<rparr>, [])"
  by code_simp

lemma example_db:
  "distinct (map price_key (model_pricing price_db1))" "disjoint_prices (model_pricing price_db1)"
  by (simp_all add: price_db1_def disjoint_prices_def)

lemma cache_agrees_empty: "cache_agrees mem_redis N rows []"
  by (simp add: cache_agrees_def mem_get_def)


theorem span_cost_accurate_witness:
  "span_cost (Some (pricing_of_row price_v1)) 10 3 \<le> span_cost (Some (pricing_of_row price_v1)) 11 3"
  using span_cost_accurate [of "pricing_of_row price_v1" 10 11 3 3] by (simp add: pricing_of_row_def price_v1_def)

theorem create_pricing_takes_effect_witness:
  "price_at (model_pricing (fst (snd (create_pricing mem_redis 0 root_user (price_body 5000) price_db1 [])))) ''openai'' ''gpt'' 6000
     = Some (20000000, 100000000)"
proof -
  have "price_at (filter (\<lambda>x. (5000 :: int) < mp_valid_from x) (model_pricing price_db1)) ''openai'' ''gpt'' 6000 = None"
    by code_simp
  with create_pricing_takes_effect [OF example_db(1) example_later, of "''openai''" "''gpt''" 6000]
  show ?thesis unfolding example_later by (simp add: price_new_def)
qed

theorem chronological_create_keeps_disjoint_witness:
  "disjoint_prices (model_pricing (fst (snd (create_pricing mem_redis 0 root_user (price_body 5000) price_db1 []))))"
  using chronological_create_keeps_disjoint [OF example_db(2) example_later]
  by (simp add: example_later) (simp add: price_db1_def price_v1_def price_new_def)


theorem backdated_price_is_cached_too_long_witness:
  "fst (get_pricing mem_redis 20 [price_v1, price_new 500] ''openai'' ''gpt'' 2000
         (snd (get_pricing mem_redis 10 [price_v1, price_new 500] ''openai'' ''gpt'' 500 []))) =
     Some (pricing_of_row (price_new 500)) \<and>
   select_pricing [price_v1, price_new 500] ''openai'' ''gpt'' 2000 = Some price_v1"
proof -
  have sel: "select_pricing [price_v1, price_new 500] ''openai'' ''gpt'' 2000 = Some price_v1" by code_simp
  have plain: "plain_names (mp_provider (price_new 500)) (mp_model (price_new 500))" by code_simp
  obtain a r1 where g: "get_pricing mem_redis 10 [price_v1, price_new 500] ''openai'' ''gpt'' 500 [] = (a, r1)"
    by fastforce
  have "redis_store mem_redis" by unfold_locales
  from backdated_price_is_cached_too_long [OF this example_db(1) example_backdated plain, of price_v1 2000 10 a r1 20]
  show ?thesis using sel g by (simp add: price_new_def price_v1_def price_db1_def CACHE_TTL_def)
qed

text \<open>
  A model name with brackets, which the schema accepts: the \<^verbatim>\<open>SCAN\<close> pattern made from
  it does not match its own cache key, so after the price is ended the cached one is served for as
  long as it lives in the cache, although the table has no price any more.
\<close>

definition price_bracket :: model_price where
  "price_bracket = price_v1\<lparr>mp_model := ''gpt[1]''\<rparr>"

theorem ended_price_of_bracket_model_is_served:
  "let (_, r1) = get_pricing mem_redis 2000 [price_bracket] ''openai'' ''gpt[1]'' 2000 [];
       (res, db2, r2) = end_pricing mem_redis 3000 root_user 1 None \<lparr>model_pricing = [price_bracket], pricing_id_seq = 1\<rparr> r1
   in \<not> isl res \<and> select_pricing (model_pricing db2) ''openai'' ''gpt[1]'' 4000 = None \<and>
      fst (get_pricing mem_redis 4000 (model_pricing db2) ''openai'' ''gpt[1]'' 4000 r2) = Some (pricing_of_row price_bracket)"
  by code_simp

end
