(* ===== verification/Idempotency.thy ===== *)
theory Idempotency
  imports Obs_Prelude
begin

text \<open>
  Idempotency keys of the ingest API (\<^verbatim>\<open>backend/app/services/ingest.py\<close>).

  The protocol class \<^verbatim>\<open>IdempotencyStore\<close> is a record of operations; what a store promises is
  the locale \<^verbatim>\<open>idempotency_store\<close>, a simulation of a map from project and key to an entry.
  \<^verbatim>\<open>PostgresIdempotencyStore\<close> is modelled on the table \<^verbatim>\<open>idempotency_records\<close>, one definition per
  SQL statement so that the statements of two requests can be interleaved, and is shown to
  meet the contract when its operations run one after the other.
\<close>

section \<open>The contract\<close>

datatype idem_status = PENDING | COMMITTED | FAILED

datatype idem_error = IdempotencyConflictError | IdempotencyInProgressError | NoResultFound

type_synonym 'x entry = "string \<times> idem_status \<times> 'x option"
type_synonym 'x idem_map = "uuid \<times> string \<rightharpoonup> 'x entry"

record ('s, 'x) idem_ops =
  reserve_op :: "uuid \<Rightarrow> string \<Rightarrow> string \<Rightarrow> 'x \<Rightarrow> 's \<Rightarrow> (idem_error + 'x option) \<times> 's"
  commit_op :: "uuid \<Rightarrow> string \<Rightarrow> string \<Rightarrow> 'x \<Rightarrow> 's \<Rightarrow> 's"
  fail_op :: "uuid \<Rightarrow> string \<Rightarrow> string \<Rightarrow> 's \<Rightarrow> 's"

text \<open>The specification, on maps.\<close>

definition spec_reserve ::
  "uuid \<Rightarrow> string \<Rightarrow> string \<Rightarrow> 'x \<Rightarrow> 'x idem_map \<Rightarrow> (idem_error + 'x option) \<times> 'x idem_map" where
  "spec_reserve p k h x M =
     (case M (p, k) of
        None \<Rightarrow> (Inr None, M((p, k) \<mapsto> (h, PENDING, Some x)))
      | Some (h', st, res) \<Rightarrow>
          if h' \<noteq> h then (Inl IdempotencyConflictError, M)
          else (case st of
                  COMMITTED \<Rightarrow> (Inr res, M)
                | FAILED \<Rightarrow> (Inr None, M((p, k) \<mapsto> (h, PENDING, Some x)))
                | PENDING \<Rightarrow> (Inl IdempotencyInProgressError, M)))"

definition spec_set ::
  "uuid \<Rightarrow> string \<Rightarrow> string \<Rightarrow> idem_status \<Rightarrow> 'x option \<Rightarrow> 'x idem_map \<Rightarrow> 'x idem_map" where
  "spec_set p k h st res M =
     (case M (p, k) of
        None \<Rightarrow> M
      | Some (h', _, _) \<Rightarrow> if h' = h then M((p, k) \<mapsto> (h, st, res)) else M)"

locale idempotency_store =
  fixes S :: "('s, 'x) idem_ops"
    and view :: "'s \<Rightarrow> 'x idem_map"
    and invar :: "'s \<Rightarrow> bool"
  assumes reserve_fst: "invar s \<Longrightarrow> fst (reserve_op S p k h x s) = fst (spec_reserve p k h x (view s))"
    and reserve_snd: "invar s \<Longrightarrow> view (snd (reserve_op S p k h x s)) = snd (spec_reserve p k h x (view s))"
    and commit_view: "invar s \<Longrightarrow> view (commit_op S p k h x s) = spec_set p k h COMMITTED (Some x) (view s)"
    and fail_view: "invar s \<Longrightarrow> view (fail_op S p k h s) = spec_set p k h FAILED None (view s)"
    and invar_reserve: "invar s \<Longrightarrow> invar (snd (reserve_op S p k h x s))"
    and invar_commit: "invar s \<Longrightarrow> invar (commit_op S p k h x s)"
    and invar_fail: "invar s \<Longrightarrow> invar (fail_op S p k h s)"
begin

lemmas invars = invar_reserve invar_commit invar_fail

text \<open>A reservation that was granted owns its entry until it commits or fails.\<close>

lemma reserve_granted:
  assumes "invar s" and "reserve_op S p k h x s = (Inr None, s')" 
    and "view s (p, k) \<noteq> Some (h, COMMITTED, None)"
  shows "view s' = (view s)((p, k) \<mapsto> (h, PENDING, Some x)) \<and> invar s' \<and>
    (view s (p, k) = None \<or> (\<exists>r. view s (p, k) = Some (h, FAILED, r)))"
  using reserve_fst [OF assms(1), of p k h x] reserve_snd [OF assms(1), of p k h x]
    invar_reserve [OF assms(1), of p k h x] assms(2,3)
  by (auto simp: spec_reserve_def split: option.splits if_splits idem_status.splits)

lemma reserve_not_granted:
  assumes "invar s" and "reserve_op S p k h x s = (out, s')" and "out \<noteq> Inr None"
  shows "view s' = view s \<and> invar s'"
  using reserve_fst [OF assms(1), of p k h x] reserve_snd [OF assms(1), of p k h x]
    invar_reserve [OF assms(1), of p k h x] assms(2,3)
  by (auto simp: spec_reserve_def split: option.splits if_splits idem_status.splits prod.splits)

lemma reserve_committed:
  assumes "invar s" and "view s (p, k) = Some (h, COMMITTED, Some y)"
  shows "fst (reserve_op S p k h' x s) = (if h' = h then Inr (Some y) else Inl IdempotencyConflictError)"
  using reserve_fst [OF assms(1), of p k h' x] assms(2) by (auto simp: spec_reserve_def)

lemma reserve_pending:
  assumes "invar s" and "view s (p, k) = Some (h, PENDING, r)"
  shows "fst (reserve_op S p k h' x s) =
    Inl (if h' = h then IdempotencyInProgressError else IdempotencyConflictError)"
  using reserve_fst [OF assms(1), of p k h' x] assms(2) by (auto simp: spec_reserve_def)

lemma reserve_failed:
  assumes "invar s" and "view s (p, k) = Some (h, FAILED, r)"
  shows "fst (reserve_op S p k h' x s) = (if h' = h then Inr None else Inl IdempotencyConflictError)"
  using reserve_fst [OF assms(1), of p k h' x] assms(2) by (auto simp: spec_reserve_def)

end

section \<open>PostgresIdempotencyStore\<close>

record 'x idem_row =
  ir_project_id :: uuid
  ir_idempotency_key :: string
  ir_request_hash :: string
  ir_status :: idem_status
  ir_result :: "'x option"

definition idem_pk :: "'x idem_row \<Rightarrow> uuid \<times> string" where
  "idem_pk r = (ir_project_id r, ir_idempotency_key r)"

text \<open>The statements of \<^verbatim>\<open>reserve\<close>: the insertion, the selection with the decision that follows
  it, and the update of a failed record.\<close>

definition reserve_insert ::
  "uuid \<Rightarrow> string \<Rightarrow> string \<Rightarrow> 'x \<Rightarrow> 'x idem_row list \<Rightarrow> 'x idem_row list \<times> bool" where
  "reserve_insert project_id key request_hash result =
     insert_new idem_pk \<lparr>ir_project_id = project_id, ir_idempotency_key = key, ir_request_hash = request_hash,
       ir_status = PENDING, ir_result = Some result\<rparr>"

datatype 'x decision = Refuse idem_error | Replay "'x option" | Restart

definition reserve_select :: "uuid \<Rightarrow> string \<Rightarrow> string \<Rightarrow> 'x idem_row list \<Rightarrow> 'x decision" where
  "reserve_select project_id key request_hash rows =
     (case select_one (\<lambda>r. idem_pk r = (project_id, key)) rows of
        None \<Rightarrow> Refuse NoResultFound
      | Some row \<Rightarrow>
          if ir_request_hash row \<noteq> request_hash then Refuse IdempotencyConflictError
          else if ir_status row = COMMITTED then Replay (ir_result row)
          else if ir_status row = FAILED then Restart
          else Refuse IdempotencyInProgressError)"

definition reserve_restart :: "uuid \<Rightarrow> string \<Rightarrow> 'x \<Rightarrow> 'x idem_row list \<Rightarrow> 'x idem_row list" where
  "reserve_restart project_id key result =
     update_where (\<lambda>r. idem_pk r = (project_id, key)) (\<lambda>r. r\<lparr>ir_status := PENDING, ir_result := Some result\<rparr>)"

definition pg_reserve ::
  "uuid \<Rightarrow> string \<Rightarrow> string \<Rightarrow> 'x \<Rightarrow> 'x idem_row list \<Rightarrow> (idem_error + 'x option) \<times> 'x idem_row list" where
  "pg_reserve project_id key request_hash result rows =
     (case reserve_insert project_id key request_hash result rows of
        (rows', True) \<Rightarrow> (Inr None, rows')
      | (rows', False) \<Rightarrow>
          (case reserve_select project_id key request_hash rows' of
             Refuse e \<Rightarrow> (Inl e, rows')
           | Replay res \<Rightarrow> (Inr res, rows')
           | Restart \<Rightarrow> (Inr None, reserve_restart project_id key result rows')))"

definition pg_set_status ::
  "uuid \<Rightarrow> string \<Rightarrow> string \<Rightarrow> idem_status \<Rightarrow> 'x option \<Rightarrow> 'x idem_row list \<Rightarrow> 'x idem_row list" where
  "pg_set_status project_id key request_hash st result =
     update_where (\<lambda>r. idem_pk r = (project_id, key) \<and> ir_request_hash r = request_hash)
       (\<lambda>r. r\<lparr>ir_status := st, ir_result := result\<rparr>)"

definition pg_commit :: "uuid \<Rightarrow> string \<Rightarrow> string \<Rightarrow> 'x \<Rightarrow> 'x idem_row list \<Rightarrow> 'x idem_row list" where
  "pg_commit project_id key request_hash result = pg_set_status project_id key request_hash COMMITTED (Some result)"

definition pg_fail :: "uuid \<Rightarrow> string \<Rightarrow> string \<Rightarrow> 'x idem_row list \<Rightarrow> 'x idem_row list" where
  "pg_fail project_id key request_hash = pg_set_status project_id key request_hash FAILED None"

definition pg_store :: "('x idem_row list, 'x) idem_ops" where
  "pg_store = \<lparr>reserve_op = pg_reserve, commit_op = pg_commit, fail_op = pg_fail\<rparr>"

text \<open>The map a table stands for, and its well-formedness: the primary key is unique.\<close>

definition pg_view :: "'x idem_row list \<Rightarrow> 'x idem_map" where
  "pg_view rows pk =
     map_option (\<lambda>r. (ir_request_hash r, ir_status r, ir_result r)) (select_one (\<lambda>r. idem_pk r = pk) rows)"

definition pg_invar :: "'x idem_row list \<Rightarrow> bool" where
  "pg_invar rows \<longleftrightarrow> distinct (map idem_pk rows)"

lemma pg_store_simps [simp]:
  "reserve_op pg_store = pg_reserve" "commit_op pg_store = pg_commit" "fail_op pg_store = pg_fail"
  by (simp_all add: pg_store_def)

lemma pg_view_None: "pg_view rows pk = None \<longleftrightarrow> pk \<notin> idem_pk ` set rows"
  by (auto simp: pg_view_def select_one_None_iff)

lemma select_one_append:
  "select_one P (xs @ ys) = (case select_one P xs of None \<Rightarrow> select_one P ys | Some x \<Rightarrow> Some x)"
  by (induction xs) auto

lemma select_one_update_where:
  assumes "\<And>r. idem_pk (f r) = idem_pk r"
  shows "select_one (\<lambda>r. idem_pk r = pk) (update_where Q f rows) =
    map_option (\<lambda>r. if Q r then f r else r) (select_one (\<lambda>r. idem_pk r = pk) rows)"
  by (induction rows) (auto simp: update_where_Cons assms)

lemma pg_view_snoc:
  "idem_pk row \<notin> idem_pk ` set rows \<Longrightarrow>
     pg_view (rows @ [row]) = (pg_view rows)(idem_pk row \<mapsto> (ir_request_hash row, ir_status row, ir_result row))"
  by (rule ext, auto simp: pg_view_def select_one_append select_one_None_iff split: option.splits
      dest!: select_one_SomeD) (metis image_eqI)+

lemma pg_view_insert:
  assumes "reserve_insert p k h x rows = (rows', b)"
  shows "b = (pg_view rows (p, k) = None) \<and>
     pg_view rows' = (if b then (pg_view rows)((p, k) \<mapsto> (h, PENDING, Some x)) else pg_view rows)"
proof -
  let ?row = "\<lparr>ir_project_id = p, ir_idempotency_key = k, ir_request_hash = h, ir_status = PENDING, ir_result = Some x\<rparr>"
  have pk: "idem_pk ?row = (p, k)" by (simp add: idem_pk_def)
  show ?thesis
    using assms pg_view_snoc [of ?row rows] pg_view_None [of rows "(p, k)"]
    by (auto simp: reserve_insert_def insert_new_def pk split: if_splits)
qed

lemma pg_view_select:
  "reserve_select p k h rows =
     (case pg_view rows (p, k) of None \<Rightarrow> Refuse NoResultFound
      | Some (h', st, res) \<Rightarrow>
          if h' \<noteq> h then Refuse IdempotencyConflictError
          else (case st of COMMITTED \<Rightarrow> Replay res | FAILED \<Rightarrow> Restart | PENDING \<Rightarrow> Refuse IdempotencyInProgressError))"
  by (auto simp: reserve_select_def pg_view_def split: option.splits idem_status.splits)

lemma pg_view_restart:
  "pg_view (reserve_restart p k x rows) =
     (case pg_view rows (p, k) of None \<Rightarrow> pg_view rows
      | Some (h, _, _) \<Rightarrow> (pg_view rows)((p, k) \<mapsto> (h, PENDING, Some x)))"
proof
  fix pk
  have "pg_view (reserve_restart p k x rows) pk =
      map_option (\<lambda>r. (ir_request_hash r, ir_status r, ir_result r))
        (map_option (\<lambda>r. if idem_pk r = (p, k) then r\<lparr>ir_status := PENDING, ir_result := Some x\<rparr> else r)
           (select_one (\<lambda>r. idem_pk r = pk) rows))"
    unfolding pg_view_def reserve_restart_def
    by (subst select_one_update_where) (simp_all add: idem_pk_def)
  also have "\<dots> = (case pg_view rows (p, k) of None \<Rightarrow> pg_view rows
      | Some (h, _, _) \<Rightarrow> (pg_view rows)((p, k) \<mapsto> (h, PENDING, Some x))) pk"
    by (cases "select_one (\<lambda>r. idem_pk r = pk) rows"; cases "pk = (p, k)")
       (auto simp: pg_view_def dest: select_one_SomeD split: option.splits)
  finally show "pg_view (reserve_restart p k x rows) pk = \<dots>" .
qed

lemma pg_view_set_status: "pg_view (pg_set_status p k h st res rows) = spec_set p k h st res (pg_view rows)"
proof
  fix pk
  have "pg_view (pg_set_status p k h st res rows) pk =
      map_option (\<lambda>r. (ir_request_hash r, ir_status r, ir_result r))
        (map_option (\<lambda>r. if idem_pk r = (p, k) \<and> ir_request_hash r = h then r\<lparr>ir_status := st, ir_result := res\<rparr> else r)
           (select_one (\<lambda>r. idem_pk r = pk) rows))"
    unfolding pg_view_def pg_set_status_def
    by (subst select_one_update_where) (simp_all add: idem_pk_def)
  also have "\<dots> = spec_set p k h st res (pg_view rows) pk"
    by (cases "select_one (\<lambda>r. idem_pk r = pk) rows"; cases "pk = (p, k)")
       (auto simp: pg_view_def spec_set_def dest: select_one_SomeD split: option.splits)
  finally show "pg_view (pg_set_status p k h st res rows) pk = \<dots>" .
qed

lemma pg_invar_ops:
  "pg_invar rows \<Longrightarrow> pg_invar (fst (reserve_insert p k h x rows))"
  "pg_invar rows \<Longrightarrow> pg_invar (reserve_restart p k x rows)"
  "pg_invar rows \<Longrightarrow> pg_invar (pg_set_status p k h st res rows)"
  by (auto simp: pg_invar_def reserve_insert_def reserve_restart_def pg_set_status_def distinct_insert_new
      map_update_where_same idem_pk_def)

lemma pg_reserve_refines:
  "fst (pg_reserve p k h x rows) = fst (spec_reserve p k h x (pg_view rows)) \<and>
   pg_view (snd (pg_reserve p k h x rows)) = snd (spec_reserve p k h x (pg_view rows))"
proof -
  obtain rows' b where ins: "reserve_insert p k h x rows = (rows', b)" by fastforce
  note view = pg_view_insert [OF ins]
  show ?thesis
    using ins view
    by (cases "pg_view rows (p, k)")
       (auto simp: pg_reserve_def spec_reserve_def pg_view_select pg_view_restart
             split: idem_status.splits decision.splits if_splits)
qed

interpretation pg: idempotency_store pg_store pg_view pg_invar
proof unfold_locales
  show "pg_invar s \<Longrightarrow> pg_invar (snd (reserve_op pg_store p k h x s))" for s :: "'x idem_row list" and p k h x
    using pg_invar_ops(1) [of s p k h x] pg_invar_ops(2) [of s p k x]
    by (cases "reserve_insert p k h x s")
       (auto simp: pg_reserve_def reserve_insert_def insert_new_def split: bool.splits decision.splits if_splits)
qed (simp_all add: pg_reserve_refines pg_view_set_status pg_commit_def pg_fail_def pg_invar_ops)

end
