(* ===== verification/Ingest.thy ===== *)
theory Ingest
  imports Idempotency Redis_Client
begin

text \<open>
  The ingest API: \<^verbatim>\<open>backend/app/schemas/ingest.py\<close> (validation of a span),
  \<^verbatim>\<open>backend/app/services/ingest.py\<close> (batch status in Redis, accepting a batch) and
  \<^verbatim>\<open>backend/app/api/v1/ingest.py\<close> (the handlers), over the idempotency store.

  What the handler calls outside the repository is an argument: the Redis operations, the
  functions of the \<^verbatim>\<open>uuid\<close> and \<^verbatim>\<open>hashlib\<close> modules, and for each request the record
  \<^verbatim>\<open>ingest_env\<close> of what the clock, the UUID generator and the external calls do. A call that
  raises has no effect.
\<close>

section \<open>Validation\<close>

record raw_span =
  rs_span_id :: "string option"
  rs_trace_id :: string
  rs_parent_span_id :: "string option"
  rs_name :: "string option"
  rs_provider :: string
  rs_model :: string
  rs_input_messages :: "json list option"
  rs_output :: "string option"
  rs_error :: "string option"
  rs_input_tokens :: "int option"
  rs_output_tokens :: "int option"
  rs_latency_ms :: rat
  rs_started_at :: time
  rs_metadata :: "(string \<times> json) list option"

record span_schema =
  ss_span_id :: string
  ss_trace_id :: string
  ss_parent_span_id :: "string option"
  ss_name :: string
  ss_provider :: string
  ss_model :: string
  ss_input_messages :: "json list"
  ss_output :: "string option"
  ss_error :: "string option"
  ss_input_tokens :: int
  ss_output_tokens :: int
  ss_latency_ms :: rat
  ss_started_at :: time
  ss_metadata :: "(string \<times> json) list"

definition ALLOWED_PROVIDERS :: "string list" where
  "ALLOWED_PROVIDERS = [''openai'', ''anthropic'', ''gigachat'', ''yandexgpt'', ''ollama'', ''gemini'', ''mistral'',
     ''cohere'', ''custom'']"

text \<open>\<^verbatim>\<open>uuid5\<close> is \<^verbatim>\<open>str(uuid.uuid5(OTLP_ID_NAMESPACE, _))\<close>; \<^verbatim>\<open>uuid_str v\<close> is \<^verbatim>\<open>str(uuid.UUID(v))\<close>,
  \<open>None\<close> where that raises \<^verbatim>\<open>ValueError\<close>.\<close>

definition normalize_span_identifier ::
  "(string \<Rightarrow> string) \<Rightarrow> (string \<Rightarrow> string option) \<Rightarrow> string option \<Rightarrow> string \<Rightarrow> string + string option" where
  "normalize_span_identifier uuid5 uuid_str value field_name =
     (case value of None \<Rightarrow> Inr None
      | Some v0 \<Rightarrow>
          (let v = py_strip v0 in
           if v = [] then Inl (field_name @ '' cannot be empty'')
           else let lowered = py_lower v in
             if CHR ''-'' \<notin> set lowered \<and> length lowered \<in> {16, 32} \<and>
                (\<forall>c \<in> set lowered. c \<in> set ''0123456789abcdef'')
             then Inr (Some (uuid5 lowered))
             else (case uuid_str v of
                     Some w \<Rightarrow> Inr (Some w)
                   | None \<Rightarrow> Inl (field_name @ '' must be a valid UUID or OTLP hex ID''))))"

definition normalize_provider :: "string \<Rightarrow> string" where
  "normalize_provider v0 = (let v = py_strip (py_lower v0) in if v \<in> set ALLOWED_PROVIDERS then v else ''custom'')"

definition no_future_timestamps :: "time \<Rightarrow> time \<Rightarrow> string + time" where
  "no_future_timestamps now v =
     (if v > now + seconds 300 then Inl ''started_at cannot be in the future (max 5 min clock skew)'' else Inr v)"

text \<open>\<^verbatim>\<open>repr_len\<close> is the length of \<^verbatim>\<open>str(v)\<close>.\<close>

definition limit_metadata_size ::
  "((string \<times> json) list \<Rightarrow> nat) \<Rightarrow> (string \<times> json) list \<Rightarrow> string + (string \<times> json) list" where
  "limit_metadata_size repr_len v = (if repr_len v > 10000 then Inl ''metadata exceeds 10KB limit'' else Inr v)"

definition or_default :: "'a \<Rightarrow> 'a option \<Rightarrow> 'a" where
  "or_default d v = (case v of None \<Rightarrow> d | Some x \<Rightarrow> x)"

definition opt_max :: "nat \<Rightarrow> string option \<Rightarrow> bool" where
  "opt_max n v = (case v of None \<Rightarrow> True | Some s \<Rightarrow> length s \<le> n)"

text \<open>The constraints of the fields.\<close>

definition fields_ok :: "raw_span \<Rightarrow> bool" where
  "fields_ok r \<longleftrightarrow>
     1 \<le> length (rs_trace_id r) \<and> length (rs_trace_id r) \<le> 64 \<and> opt_max 64 (rs_parent_span_id r) \<and>
     opt_max 255 (rs_name r) \<and> length (rs_provider r) \<le> 50 \<and> length (rs_model r) \<le> 100 \<and>
     length (or_default [] (rs_input_messages r)) \<le> 1000 \<and> opt_max 100000 (rs_output r) \<and> opt_max 10000 (rs_error r) \<and>
     0 \<le> or_default 0 (rs_input_tokens r) \<and> or_default 0 (rs_input_tokens r) \<le> 10000000 \<and>
     0 \<le> or_default 0 (rs_output_tokens r) \<and> or_default 0 (rs_output_tokens r) \<le> 10000000 \<and>
     0 \<le> rs_latency_ms r \<and> rs_latency_ms r \<le> 3600000"

text \<open>\<^verbatim>\<open>SpanSchema(**raw)\<close>: \<open>None\<close> stands for the \<^verbatim>\<open>ValidationError\<close>, answered with status 422. The
  default of \<^verbatim>\<open>span_id\<close> is not validated.\<close>

definition validate_span ::
  "(string \<Rightarrow> string) \<Rightarrow> (string \<Rightarrow> string option) \<Rightarrow> ((string \<times> json) list \<Rightarrow> nat) \<Rightarrow> uuid \<Rightarrow> time \<Rightarrow> raw_span
     \<Rightarrow> span_schema option" where
  "validate_span uuid5 uuid_str repr_len uuid4 now r =
     (if \<not> fields_ok r then None
      else
        let norm = normalize_span_identifier uuid5 uuid_str in
        case (case rs_span_id r of None \<Rightarrow> Inr (Some uuid4) | Some s \<Rightarrow> norm (Some s) ''span_id'',
              norm (Some (rs_trace_id r)) ''trace_id'', norm (rs_parent_span_id r) ''parent_span_id'',
              no_future_timestamps now (rs_started_at r),
              limit_metadata_size repr_len (or_default [] (rs_metadata r))) of
          (Inr (Some sid), Inr (Some tid), Inr pid, Inr started, Inr meta) \<Rightarrow>
            Some \<lparr>ss_span_id = sid, ss_trace_id = tid, ss_parent_span_id = pid,
                  ss_name = or_default ''llm_call'' (rs_name r), ss_provider = normalize_provider (rs_provider r),
                  ss_model = rs_model r, ss_input_messages = or_default [] (rs_input_messages r),
                  ss_output = rs_output r, ss_error = rs_error r,
                  ss_input_tokens = or_default 0 (rs_input_tokens r),
                  ss_output_tokens = or_default 0 (rs_output_tokens r), ss_latency_ms = rs_latency_ms r,
                  ss_started_at = started, ss_metadata = meta\<rparr>
        | _ \<Rightarrow> None)"

record ingest_request =
  iq_spans :: "span_schema list"
  iq_idempotency_key :: "string option"

definition ingest_request_ok :: "ingest_request \<Rightarrow> bool" where
  "ingest_request_ok q \<longleftrightarrow> 1 \<le> length (iq_spans q) \<and> length (iq_spans q) \<le> 100 \<and> opt_max 128 (iq_idempotency_key q)"

record ingest_response =
  is_batch_id :: uuid
  is_accepted :: int

section \<open>Batch status\<close>

record batch_status =
  bs_batch_id :: uuid
  bs_status :: string
  bs_accepted :: int
  bs_processed :: int
  bs_failed :: int
  bs_error :: "string option"
  bs_created_at :: time
  bs_updated_at :: time

definition BATCH_STATUS_TTL :: int where "BATCH_STATUS_TTL = 86400"

definition status_key :: "uuid \<Rightarrow> uuid \<Rightarrow> string" where
  "status_key project_id batch_id = ''ingest_batch:'' @ project_id @ '':'' @ batch_id"

definition status_save :: "('r, batch_status) redis \<Rightarrow> time \<Rightarrow> uuid \<Rightarrow> uuid \<Rightarrow> batch_status \<Rightarrow> 'r \<Rightarrow> 'r" where
  "status_save R now project_id batch_id st = r_setex R now (status_key project_id batch_id) BATCH_STATUS_TTL st"

definition create_accepted :: "('r, batch_status) redis \<Rightarrow> time \<Rightarrow> uuid \<Rightarrow> uuid \<Rightarrow> int \<Rightarrow> 'r \<Rightarrow> 'r" where
  "create_accepted R now project_id batch_id accepted =
     status_save R now project_id batch_id
       \<lparr>bs_batch_id = batch_id, bs_status = ''accepted'', bs_accepted = accepted, bs_processed = 0, bs_failed = 0,
        bs_error = None, bs_created_at = now, bs_updated_at = now\<rparr>"

text \<open>\<^verbatim>\<open>_merge\<close>; every caller's updates set the status.\<close>

definition status_merge ::
  "('r, batch_status) redis \<Rightarrow> time \<Rightarrow> uuid \<Rightarrow> uuid \<Rightarrow> (batch_status \<Rightarrow> batch_status) \<Rightarrow> 'r \<Rightarrow> 'r" where
  "status_merge R now project_id batch_id updates r =
     (let st = (case r_get R now (status_key project_id batch_id) r of
                  Some existing \<Rightarrow> existing
                | None \<Rightarrow> \<lparr>bs_batch_id = batch_id, bs_status = [], bs_accepted = 0, bs_processed = 0, bs_failed = 0,
                           bs_error = None, bs_created_at = now, bs_updated_at = now\<rparr>)
      in status_save R now project_id batch_id ((updates st)\<lparr>bs_updated_at := now\<rparr>) r)"

definition mark_processing :: "('r, batch_status) redis \<Rightarrow> time \<Rightarrow> uuid \<Rightarrow> uuid \<Rightarrow> 'r \<Rightarrow> 'r" where
  "mark_processing R now project_id batch_id =
     status_merge R now project_id batch_id (\<lambda>st. st\<lparr>bs_status := ''processing'', bs_error := None\<rparr>)"

definition mark_finished :: "('r, batch_status) redis \<Rightarrow> time \<Rightarrow> uuid \<Rightarrow> uuid \<Rightarrow> int \<Rightarrow> int \<Rightarrow> 'r \<Rightarrow> 'r" where
  "mark_finished R now project_id batch_id processed failed =
     status_merge R now project_id batch_id
       (\<lambda>st. st\<lparr>bs_status := (if failed \<noteq> 0 then ''partial_failed'' else ''processed''), bs_processed := processed,
               bs_failed := failed, bs_error := None\<rparr>)"

definition mark_failed :: "('r, batch_status) redis \<Rightarrow> time \<Rightarrow> uuid \<Rightarrow> uuid \<Rightarrow> string \<Rightarrow> 'r \<Rightarrow> 'r" where
  "mark_failed R now project_id batch_id error =
     status_merge R now project_id batch_id (\<lambda>st. st\<lparr>bs_status := ''failed'', bs_error := Some (take 1000 error)\<rparr>)"

definition status_get :: "('r, batch_status) redis \<Rightarrow> time \<Rightarrow> uuid \<Rightarrow> uuid \<Rightarrow> 'r \<Rightarrow> batch_status option" where
  "status_get R now project_id batch_id r = r_get R now (status_key project_id batch_id) r"

section \<open>Accepting a batch\<close>

record batch_message =
  bm_batch_id :: uuid
  bm_project_id :: uuid
  bm_spans :: "span_schema list"

record ('s, 'r) ingest_state =
  in_store :: 's
  in_redis :: 'r
  in_queue :: "batch_message list"
  in_batches_accepted :: nat
  in_batches_failed :: nat

record ingest_env =
  en_now :: time
  en_uuid4 :: uuid
  en_rate_limit :: "http_error + unit"
  en_create_raises :: "string option"
  en_kiq_raises :: "string option"
  en_mark_raises :: "string option"
  en_fail_raises :: "string option"
  en_commit_raises :: "string option"

definition accept_batch ::
  "('r, batch_status) redis \<Rightarrow> ingest_env \<Rightarrow> uuid \<Rightarrow> span_schema list \<Rightarrow> uuid option \<Rightarrow> ('s, 'r) ingest_state
     \<Rightarrow> uuid outcome \<times> ('s, 'r) ingest_state" where
  "accept_batch R env project_id spans batch_id st =
     (let bid = (if truthy batch_id then the batch_id else en_uuid4 env)
      in case en_create_raises env of
           Some e \<Rightarrow> (Raise e, st)
         | None \<Rightarrow>
             (let st1 = st\<lparr>in_redis := create_accepted R (en_now env) project_id bid (int (length spans)) (in_redis st)\<rparr>
              in case en_kiq_raises env of
                   None \<Rightarrow>
                     (Ret bid,
                      st1\<lparr>in_queue := in_queue st1 @ [\<lparr>bm_batch_id = bid, bm_project_id = project_id, bm_spans = spans\<rparr>],
                          in_batches_accepted := in_batches_accepted st1 + 1\<rparr>)
                 | Some e \<Rightarrow>
                     (case en_mark_raises env of
                        Some e' \<Rightarrow> (Raise e', st1)
                      | None \<Rightarrow>
                          (Raise e,
                           st1\<lparr>in_redis := mark_failed R (en_now env) project_id bid e (in_redis st1),
                               in_batches_failed := in_batches_failed st1 + 1\<rparr>))))"

section \<open>The handlers\<close>

text \<open>\<^verbatim>\<open>hash_of\<close> is \<^verbatim>\<open>ingest_request_hash\<close>.\<close>

definition reserve_idempotency ::
  "('s, ingest_response) idem_ops \<Rightarrow> uuid \<Rightarrow> string \<Rightarrow> string \<Rightarrow> ingest_response \<Rightarrow> ('s, 'r) ingest_state
     \<Rightarrow> (http_error + ingest_response option) \<times> ('s, 'r) ingest_state" where
  "reserve_idempotency S project_id key request_hash result st =
     (case reserve_op S project_id key request_hash result (in_store st) of
        (Inr existing, s') \<Rightarrow> (Inr existing, st\<lparr>in_store := s'\<rparr>)
      | (Inl IdempotencyConflictError, s') \<Rightarrow>
          (Inl (HTTPException 409 ''Idempotency key was already used with a different request body''), st\<lparr>in_store := s'\<rparr>)
      | (Inl IdempotencyInProgressError, s') \<Rightarrow>
          (Inl (HTTPException 409 ''Idempotency key is already being processed''), st\<lparr>in_store := s'\<rparr>)
      | (Inl NoResultFound, s') \<Rightarrow> (Inl (Unhandled ''NoResultFound''), st\<lparr>in_store := s'\<rparr>))"

text \<open>What follows the reservation: the batch is accepted and the reservation settled. \<open>idem\<close>
  holds the key and the request hash when the request has a key.\<close>

definition accept_and_settle ::
  "('s, ingest_response) idem_ops \<Rightarrow> ('r, batch_status) redis \<Rightarrow> ingest_env \<Rightarrow> uuid \<Rightarrow> span_schema list
     \<Rightarrow> (string \<times> string) option \<Rightarrow> uuid option \<Rightarrow> ('s, 'r) ingest_state
     \<Rightarrow> (http_error + ingest_response) \<times> ('s, 'r) ingest_state" where
  "accept_and_settle S R env project_id spans idem batch_id st =
     (case accept_batch R env project_id spans batch_id st of
        (Raise e, st') \<Rightarrow>
          (case idem of
             None \<Rightarrow> (Inl (Unhandled e), st')
           | Some (key, request_hash) \<Rightarrow>
               (case en_fail_raises env of
                  Some e' \<Rightarrow> (Inl (Unhandled e'), st')
                | None \<Rightarrow> (Inl (Unhandled e), st'\<lparr>in_store := fail_op S project_id key request_hash (in_store st')\<rparr>)))
      | (Ret accepted_batch_id, st') \<Rightarrow>
          (let result = \<lparr>is_batch_id = accepted_batch_id, is_accepted = int (length spans)\<rparr>
           in case idem of
                None \<Rightarrow> (Inr result, st')
              | Some (key, request_hash) \<Rightarrow>
                  (case en_commit_raises env of
                     Some e \<Rightarrow> (Inl (Unhandled e), st')
                   | None \<Rightarrow> (Inr result, st'\<lparr>in_store := commit_op S project_id key request_hash result (in_store st')\<rparr>))))"

definition ingest_spans ::
  "('s, ingest_response) idem_ops \<Rightarrow> ('r, batch_status) redis \<Rightarrow> (span_schema list \<Rightarrow> string) \<Rightarrow> ingest_env \<Rightarrow> uuid
     \<Rightarrow> ingest_request \<Rightarrow> ('s, 'r) ingest_state \<Rightarrow> (http_error + ingest_response) \<times> ('s, 'r) ingest_state" where
  "ingest_spans S R hash_of env project_id payload st =
     (case en_rate_limit env of Inl e \<Rightarrow> (Inl e, st)
      | Inr _ \<Rightarrow>
          if truthy (iq_idempotency_key payload) then
            (let key = the (iq_idempotency_key payload);
                 batch_id = en_uuid4 env;
                 result = \<lparr>is_batch_id = batch_id, is_accepted = int (length (iq_spans payload))\<rparr>;
                 request_hash = hash_of (iq_spans payload)
             in case reserve_idempotency S project_id key request_hash result st of
                  (Inl e, st') \<Rightarrow> (Inl e, st')
                | (Inr (Some existing), st') \<Rightarrow> (Inr existing, st')
                | (Inr None, st') \<Rightarrow>
                    accept_and_settle S R env project_id (iq_spans payload) (Some (key, request_hash)) (Some batch_id) st')
          else accept_and_settle S R env project_id (iq_spans payload) None None st)"

definition get_ingest_batch_status ::
  "('r, batch_status) redis \<Rightarrow> time \<Rightarrow> uuid \<Rightarrow> uuid \<Rightarrow> ('s, 'r) ingest_state \<Rightarrow> http_error + batch_status" where
  "get_ingest_batch_status R now project_id batch_id st =
     (case status_get R now project_id batch_id (in_redis st) of
        None \<Rightarrow> Inl (HTTPException 404 ''Batch not found'')
      | Some s \<Rightarrow> Inr s)"

section \<open>Frame facts\<close>

lemma accept_batch_frame:
  assumes "accept_batch R env p spans bid st = (out, st')"
  shows "in_store st' = in_store st"
    and "in_queue st' = in_queue st @ (case out of Raise _ \<Rightarrow> []
           | Ret b \<Rightarrow> [\<lparr>bm_batch_id = b, bm_project_id = p, bm_spans = spans\<rparr>])"
    and "out = Ret b \<Longrightarrow> b = (if truthy bid then the bid else en_uuid4 env)"
  using assms by (auto simp: accept_batch_def Let_def split: option.splits)

lemma reserve_idempotency_frame:
  assumes "reserve_idempotency S p k h x st = (out, st')"
  shows "in_queue st' = in_queue st" and "in_redis st' = in_redis st"
    and "in_store st' = snd (reserve_op S p k h x (in_store st))"
    and "out = (case fst (reserve_op S p k h x (in_store st)) of
           Inr existing \<Rightarrow> Inr existing
         | Inl IdempotencyConflictError \<Rightarrow>
             Inl (HTTPException 409 ''Idempotency key was already used with a different request body'')
         | Inl IdempotencyInProgressError \<Rightarrow> Inl (HTTPException 409 ''Idempotency key is already being processed'')
         | Inl NoResultFound \<Rightarrow> Inl (Unhandled ''NoResultFound''))"
  using assms by (auto simp: reserve_idempotency_def split: prod.splits sum.splits idem_error.splits)

text \<open>A committed entry always carries its result.\<close>

definition settled :: "'x idem_map \<Rightarrow> bool" where
  "settled M \<longleftrightarrow> (\<forall>pk h. M pk \<noteq> Some (h, COMMITTED, None))"

lemma settled_upd: "settled M \<Longrightarrow> settled (M(pk \<mapsto> (h, st, Some x)))" "settled M \<Longrightarrow> settled (M(pk \<mapsto> (h, FAILED, r)))"
  by (auto simp: settled_def)

text \<open>Requests handled one after the other.\<close>

fun run_requests ::
  "('s, ingest_response) idem_ops \<Rightarrow> ('r, batch_status) redis \<Rightarrow> (span_schema list \<Rightarrow> string)
     \<Rightarrow> (ingest_env \<times> uuid \<times> ingest_request) list \<Rightarrow> ('s, 'r) ingest_state \<Rightarrow> ('s, 'r) ingest_state" where
  "run_requests S R hash_of [] st = st"
| "run_requests S R hash_of ((env, p, q) # reqs) st =
     run_requests S R hash_of reqs (snd (ingest_spans S R hash_of env p q st))"

text \<open>\<^verbatim>\<open>IngestService\<close> over any store that keeps the contract.\<close>

locale ingest_service = idempotency_store S view invar
  for S :: "('s, ingest_response) idem_ops" and view and invar
begin

text \<open>What one request does to the entries of the store, branch by branch.\<close>

lemma ingest_cases:
  assumes "invar (in_store st)" and "settled (view (in_store st))"
    and run: "ingest_spans S R hash_of env p q st = (out, st')"
  obtains
    (limited) e where "en_rate_limit env = Inl e" "out = Inl e" "st' = st"
  | (unkeyed) "\<not> truthy (iq_idempotency_key q)" "in_store st' = in_store st"
  | (refused) e k where "iq_idempotency_key q = Some k" "k \<noteq> []" "en_rate_limit env = Inr ()"
      "fst (reserve_op S p k (hash_of (iq_spans q)) \<lparr>is_batch_id = en_uuid4 env, is_accepted = int (length (iq_spans q))\<rparr>
         (in_store st)) = Inl e"
      "out = Inl (case e of
           IdempotencyConflictError \<Rightarrow> HTTPException 409 ''Idempotency key was already used with a different request body''
         | IdempotencyInProgressError \<Rightarrow> HTTPException 409 ''Idempotency key is already being processed''
         | NoResultFound \<Rightarrow> Unhandled ''NoResultFound'')"
      "view (in_store st') = view (in_store st)" "invar (in_store st')" "in_queue st' = in_queue st"
  | (replayed) x k where "iq_idempotency_key q = Some k" "k \<noteq> []"
      "view (in_store st) (p, k) = Some (hash_of (iq_spans q), COMMITTED, Some x)"
      "out = Inr x" "view (in_store st') = view (in_store st)" "invar (in_store st')" "in_queue st' = in_queue st"
  | (granted) k st1 where "iq_idempotency_key q = Some k" "k \<noteq> []"
      "view (in_store st) (p, k) = None \<or> (\<exists>r. view (in_store st) (p, k) = Some (hash_of (iq_spans q), FAILED, r))"
      "view (in_store st1) = (view (in_store st))((p, k) \<mapsto> (hash_of (iq_spans q), PENDING,
         Some \<lparr>is_batch_id = en_uuid4 env, is_accepted = int (length (iq_spans q))\<rparr>))"
      "invar (in_store st1)" "in_queue st1 = in_queue st"
      "accept_and_settle S R env p (iq_spans q) (Some (k, hash_of (iq_spans q))) (Some (en_uuid4 env)) st1 = (out, st')"
proof (cases "en_rate_limit env")
  case (Inl e)
  with run limited show ?thesis by (simp add: ingest_spans_def)
next
  case (Inr u)
  show ?thesis
  proof (cases "truthy (iq_idempotency_key q)")
    case False
    then have "in_store st' = in_store st"
      using run Inr by (auto simp: ingest_spans_def accept_and_settle_def Let_def
        split: prod.splits outcome.splits dest: accept_batch_frame(1))
    with False unkeyed show ?thesis by simp
  next
    case True
    then obtain k where k: "iq_idempotency_key q = Some k" "k \<noteq> []" by (cases "iq_idempotency_key q") auto
    let ?h = "hash_of (iq_spans q)"
    let ?x = "\<lparr>is_batch_id = en_uuid4 env, is_accepted = int (length (iq_spans q))\<rparr>"
    obtain o1 st1 where res: "reserve_idempotency S p k ?h ?x st = (o1, st1)" by fastforce
    note frame = reserve_idempotency_frame [OF res]
    obtain ro s1 where op: "reserve_op S p k ?h ?x (in_store st) = (ro, s1)" by fastforce
    show ?thesis
    proof (cases ro)
      case (Inl e)
      have "view s1 = view (in_store st) \<and> invar s1" using reserve_not_granted [OF assms(1) op] Inl by simp
      moreover have "o1 = Inl (case e of
           IdempotencyConflictError \<Rightarrow> HTTPException 409 ''Idempotency key was already used with a different request body''
         | IdempotencyInProgressError \<Rightarrow> HTTPException 409 ''Idempotency key is already being processed''
         | NoResultFound \<Rightarrow> Unhandled ''NoResultFound'')"
        using frame(4) op Inl by (auto split: idem_error.splits)
      ultimately show ?thesis
        using refused [OF k _ _ _ _ _ ] run res frame k op Inl \<open>en_rate_limit env = Inr u\<close>
        by (simp add: ingest_spans_def Let_def)
    next
      case (Inr existing)
      show ?thesis
      proof (cases existing)
        case (Some x)
        have "view s1 = view (in_store st) \<and> invar s1"
          using reserve_not_granted [OF assms(1) op] Inr Some by simp
        moreover have "view (in_store st) (p, k) = Some (?h, COMMITTED, Some x)"
          using reserve_fst [OF assms(1), of p k ?h ?x] op Inr Some
          by (auto simp: spec_reserve_def split: option.splits prod.splits if_splits idem_status.splits)
        ultimately show ?thesis
          using replayed [OF k] run res frame k op Inr Some \<open>en_rate_limit env = Inr u\<close>
          by (simp add: ingest_spans_def Let_def)
      next
        case None
        have "view s1 = (view (in_store st))((p, k) \<mapsto> (?h, PENDING, Some ?x)) \<and> invar s1 \<and>
            (view (in_store st) (p, k) = None \<or> (\<exists>r. view (in_store st) (p, k) = Some (?h, FAILED, r)))"
          using reserve_granted [OF assms(1), of p k ?h ?x s1] op Inr None assms(2)
          by (simp add: settled_def)
        then show ?thesis
          using granted [OF k, of st1] run res frame k op Inr None \<open>en_rate_limit env = Inr u\<close>
          by (simp add: ingest_spans_def Let_def)
      qed
    qed
  qed
qed

lemma settle_cases:
  assumes "invar (in_store st1)" and "view (in_store st1) (p, k) = Some (h, PENDING, x)"
    and run: "accept_and_settle S R env p spans (Some (k, h)) (Some b) st1 = (out, st')"
  obtains
    (ok) y where "out = Inr y" "view (in_store st') = (view (in_store st1))((p, k) \<mapsto> (h, COMMITTED, Some y))"
      "invar (in_store st')" "in_queue st' = in_queue st1 @ [\<lparr>bm_batch_id = is_batch_id y, bm_project_id = p, bm_spans = spans\<rparr>]"
      "en_commit_raises env = None"
  | (uncommitted) e where "out = Inl (Unhandled e)" "in_store st' = in_store st1"
      "en_commit_raises env = Some e" "en_kiq_raises env = None" "en_create_raises env = None"
  | (unmarked) e where "out = Inl (Unhandled e)" "in_store st' = in_store st1" "in_queue st' = in_queue st1"
      "en_fail_raises env = Some e" "en_kiq_raises env \<noteq> None \<or> en_create_raises env \<noteq> None"
  | (failed) e where "out = Inl (Unhandled e)" "view (in_store st') = (view (in_store st1))((p, k) \<mapsto> (h, FAILED, None))"
      "invar (in_store st')" "in_queue st' = in_queue st1" "en_fail_raises env = None"
      "en_kiq_raises env \<noteq> None \<or> en_create_raises env \<noteq> None"
proof -
  obtain a st2 where acc: "accept_batch R env p spans (Some b) st1 = (a, st2)" by fastforce
  note frame = accept_batch_frame [OF acc]
  have raised: "(en_kiq_raises env \<noteq> None \<or> en_create_raises env \<noteq> None) = (\<exists>e. a = Raise e)"
    using acc by (auto simp: accept_batch_def Let_def split: option.splits)
  have store: "invar (commit_op S p k h y (in_store st1))" "invar (fail_op S p k h (in_store st1))"
      "view (commit_op S p k h y (in_store st1)) = (view (in_store st1))((p, k) \<mapsto> (h, COMMITTED, Some y))"
      "view (fail_op S p k h (in_store st1)) = (view (in_store st1))((p, k) \<mapsto> (h, FAILED, None))" for y
    using assms(1,2) by (simp_all add: invars commit_view fail_view spec_set_def)
  show ?thesis
  proof (cases a)
    case (Raise e)
    then show ?thesis
      using run acc frame raised store unmarked failed
      by (cases "en_fail_raises env") (auto simp: accept_and_settle_def)
  next
    case (Ret bid)
    then show ?thesis
      using run acc frame raised store uncommitted
        ok [of "\<lparr>is_batch_id = bid, is_accepted = int (length spans)\<rparr>"]
      by (cases "en_commit_raises env") (auto simp: accept_and_settle_def Let_def)
  qed
qed

lemma ingest_invariant:
  assumes "invar (in_store st)" and "settled (view (in_store st))"
    and "ingest_spans S R hash_of env p q st = (out, st')"
  shows "invar (in_store st') \<and> settled (view (in_store st')) \<and>
    (view (in_store st) pk = Some (h, stt, r) \<and> stt \<noteq> FAILED \<longrightarrow> view (in_store st') pk = Some (h, stt, r))"
  using assms
proof (cases rule: ingest_cases)
  case (granted k st1)
  have pend: "view (in_store st1) (p, k) = Some (hash_of (iq_spans q), PENDING,
      Some \<lparr>is_batch_id = en_uuid4 env, is_accepted = int (length (iq_spans q))\<rparr>)"
    using granted(4) by simp
  from granted(5) pend granted(7) show ?thesis
    by (cases rule: settle_cases) (use granted(3-5) assms(2) in \<open>auto simp: settled_def\<close>)
qed (use assms in auto)

lemma run_invariant:
  assumes "invar (in_store st)" and "settled (view (in_store st))"
  shows "invar (in_store (run_requests S R hash_of reqs st)) \<and> settled (view (in_store (run_requests S R hash_of reqs st))) \<and>
    (view (in_store st) pk = Some (h, stt, r) \<and> stt \<noteq> FAILED \<longrightarrow>
       view (in_store (run_requests S R hash_of reqs st)) pk = Some (h, stt, r))"
  using assms
proof (induction reqs arbitrary: st)
  case (Cons x reqs)
  obtain env p q where x: "x = (env, p, q)" by (cases x)
  obtain out st1 where one: "ingest_spans S R hash_of env p q st = (out, st1)" by fastforce
  from ingest_invariant [OF Cons.prems one, of pk h stt r] Cons.IH [of st1] show ?case
    by (auto simp: x one)
qed simp

lemma replay_after_success:
  assumes "invar (in_store st)" and "settled (view (in_store st))" and "iq_idempotency_key q = Some k" and "k \<noteq> []"
    and first: "ingest_spans S R hash_of env p q st = (Inr resp, st1)"
    and "en_rate_limit env' = Inr ()" and key': "iq_idempotency_key q' = Some k"
    and again: "ingest_spans S R hash_of env' p q' (run_requests S R hash_of reqs st1) = (out, st3)"
  shows "in_queue st3 = in_queue (run_requests S R hash_of reqs st1) \<and>
    out = (if hash_of (iq_spans q') = hash_of (iq_spans q) then Inr resp
           else Inl (HTTPException 409 ''Idempotency key was already used with a different request body''))"
proof -
  let ?st2 = "run_requests S R hash_of reqs st1"
  have "view (in_store st1) (p, k) = Some (hash_of (iq_spans q), COMMITTED, Some resp)"
    using assms(1,2) first
  proof (cases rule: ingest_cases)
    case (granted k' st0)
    then have pend: "view (in_store st0) (p, k') = Some (hash_of (iq_spans q), PENDING,
        Some \<lparr>is_batch_id = en_uuid4 env, is_accepted = int (length (iq_spans q))\<rparr>)" by simp
    from granted(5) pend granted(7) show ?thesis
      by (cases rule: settle_cases) (use assms(3) granted(1) in auto)
  qed (use assms(3,4) in auto)
  with ingest_invariant [OF assms(1,2) first] run_invariant [of st1 R hash_of reqs "(p, k)" _ COMMITTED]
  have inv: "invar (in_store ?st2)" "settled (view (in_store ?st2))"
    and comm: "view (in_store ?st2) (p, k) = Some (hash_of (iq_spans q), COMMITTED, Some resp)" by auto
  note op = reserve_committed [OF inv(1) comm]
  from inv again show ?thesis
  proof (cases rule: ingest_cases)
    case (refused e k')
    then have "k' = k" using key' by simp
    with refused op show ?thesis by (auto split: if_splits)
  next
    case (replayed x k')
    then have "k' = k" using key' by simp
    with replayed comm show ?thesis by auto
  next
    case (granted k' st0)
    then have "k' = k" using key' by simp
    with granted(3) comm show ?thesis by auto
  qed (use assms(4,6) key' in auto)
qed

lemma pending_stays_refused:
  assumes "invar (in_store st)" and "settled (view (in_store st))" and "iq_idempotency_key q = Some k" and "k \<noteq> []"
    and first: "ingest_spans S R hash_of env p q st = (Inl (Unhandled e), st1)"
    and "en_commit_raises env = Some e" "en_kiq_raises env = None" "en_create_raises env = None"
    and "fst (reserve_op S p k (hash_of (iq_spans q))
           \<lparr>is_batch_id = en_uuid4 env, is_accepted = int (length (iq_spans q))\<rparr> (in_store st)) = Inr None"
    and "en_rate_limit env = Inr ()" "en_rate_limit env' = Inr ()"
    and again: "ingest_spans S R hash_of env' p q (run_requests S R hash_of reqs st1) = (out, st3)"
  shows "out = Inl (HTTPException 409 ''Idempotency key is already being processed'')"
proof -
  let ?st2 = "run_requests S R hash_of reqs st1"
  obtain x where "view (in_store st1) (p, k) = Some (hash_of (iq_spans q), PENDING, Some x)"
    using assms(1,2) first
  proof (cases rule: ingest_cases)
    case (granted k' st0)
    then have pend: "view (in_store st0) (p, k') = Some (hash_of (iq_spans q), PENDING,
        Some \<lparr>is_batch_id = en_uuid4 env, is_accepted = int (length (iq_spans q))\<rparr>)" by simp
    from granted(5) pend granted(7) show ?thesis
      by (cases rule: settle_cases) (use assms(3,7,8) granted(1) pend that in auto)
  qed (use assms in \<open>auto split: idem_error.splits\<close>)
  with ingest_invariant [OF assms(1,2) first] run_invariant [of st1 R hash_of reqs "(p, k)" _ PENDING]
  have inv: "invar (in_store ?st2)" "settled (view (in_store ?st2))"
    and pend: "view (in_store ?st2) (p, k) = Some (hash_of (iq_spans q), PENDING, Some x)" by auto
  note op = reserve_pending [OF inv(1) pend]
  from inv again show ?thesis
  proof (cases rule: ingest_cases)
    case (refused e k')
    then have "k' = k" using assms(3) by simp
    with refused op show ?thesis by auto
  next
    case (replayed x k')
    then have "k' = k" using assms(3) by simp
    with replayed pend show ?thesis by auto
  next
    case (granted k' st0)
    then have "k' = k" using assms(3) by simp
    with granted(3) pend show ?thesis by auto
  qed (use assms in auto)
qed

end

interpretation svc: ingest_service pg_store pg_view pg_invar
  by unfold_locales

section \<open>Idempotent requests\<close>

text \<open>
  C1: An accepted request can be repeated safely. Once \<^verbatim>\<open>POST /v1/ingest\<close> with an
  idempotency key has been answered with a batch id, then after any further sequence of
  requests, of this and other projects, whatever their external calls do, a request with the
  same key enqueues nothing: with the same body it gets the original answer, with another body
  (another hash) a 409.
\<close>

theorem ingest_replays_original_result:
  assumes "pg_invar (in_store st)" and "settled (pg_view (in_store st))"
    and "iq_idempotency_key q = Some k" and "k \<noteq> []" and "iq_idempotency_key q' = Some k"
    and "ingest_spans pg_store R hash_of env p q st = (Inr resp, st1)" and "en_rate_limit env' = Inr ()"
    and "ingest_spans pg_store R hash_of env' p q' (run_requests pg_store R hash_of reqs st1) = (out, st3)"
  shows "in_queue st3 = in_queue (run_requests pg_store R hash_of reqs st1) \<and>
    out = (if hash_of (iq_spans q') = hash_of (iq_spans q) then Inr resp
           else Inl (HTTPException 409 ''Idempotency key was already used with a different request body''))"
  by (rule svc.replay_after_success [OF assms(1-4,6,7,5,8)])

text \<open>
  A reservation that is never settled blocks its key. When the batch was enqueued but
  recording the result raised, the request fails, its record stays \<^verbatim>\<open>PENDING\<close>, and every later
  request with the same key and body is refused with a 409, after any sequence of requests:
  the client can neither obtain the batch id nor send the batch again under that key.
\<close>

theorem unsettled_key_is_refused_forever:
  assumes "pg_invar (in_store st)" and "settled (pg_view (in_store st))"
    and "iq_idempotency_key q = Some k" and "k \<noteq> []" and "pg_view (in_store st) (p, k) = None"
    and "en_rate_limit env = Inr ()" and "en_create_raises env = None" and "en_kiq_raises env = None"
    and "en_commit_raises env = Some e" and "en_rate_limit env' = Inr ()"
  shows "(let (out, st1) = ingest_spans pg_store R hash_of env p q st in
            out = Inl (Unhandled e) \<and> length (in_queue st1) = length (in_queue st) + 1 \<and>
            fst (ingest_spans pg_store R hash_of env' p q (run_requests pg_store R hash_of reqs st1)) =
              Inl (HTTPException 409 ''Idempotency key is already being processed''))"
proof -
  let ?x = "\<lparr>is_batch_id = en_uuid4 env, is_accepted = int (length (iq_spans q))\<rparr>"
  have granted: "fst (reserve_op pg_store p k (hash_of (iq_spans q)) ?x (in_store st)) = Inr None"
    using pg.reserve_fst [OF assms(1), of p k "hash_of (iq_spans q)" ?x] assms(5) by (simp add: spec_reserve_def)
  obtain out st1 where one: "ingest_spans pg_store R hash_of env p q st = (out, st1)" by fastforce
  obtain out3 st3 where again:
    "ingest_spans pg_store R hash_of env' p q (run_requests pg_store R hash_of reqs st1) = (out3, st3)" by fastforce
  have "out = Inl (Unhandled e) \<and> length (in_queue st1) = length (in_queue st) + 1"
    using one assms(3,4,6-9) granted
    by (auto simp: ingest_spans_def reserve_idempotency_def accept_and_settle_def accept_batch_def Let_def
        split: prod.splits)
  with svc.pending_stays_refused [OF assms(1-4) _ assms(9,8,7) granted assms(6,10) again] one again
  show ?thesis by simp
qed

text \<open>
  A failed enqueue can be retried. When the broker refuses a batch and the failure is
  recorded, the request fails and enqueues nothing; a repetition of the request whose calls
  succeed is accepted under a new batch id and enqueues exactly that batch.
\<close>

theorem failed_enqueue_can_be_retried:
  assumes "pg_invar (in_store st)" and "iq_idempotency_key q = Some k" and "k \<noteq> []"
    and "pg_view (in_store st) (p, k) = None"
    and "en_rate_limit env = Inr ()" and "en_kiq_raises env = Some e" and "en_create_raises env = None"
    and "en_mark_raises env = None" and "en_fail_raises env = None"
    and "en_rate_limit env' = Inr ()" and "en_create_raises env' = None" and "en_kiq_raises env' = None"
    and "en_commit_raises env' = None" and "en_uuid4 env' \<noteq> []"
  shows "(let (out, st1) = ingest_spans pg_store R hash_of env p q st;
              (out', st2) = ingest_spans pg_store R hash_of env' p q st1
          in out = Inl (Unhandled e) \<and> in_queue st1 = in_queue st \<and>
             out' = Inr \<lparr>is_batch_id = en_uuid4 env', is_accepted = int (length (iq_spans q))\<rparr> \<and>
             in_queue st2 = in_queue st @ [\<lparr>bm_batch_id = en_uuid4 env', bm_project_id = p, bm_spans = iq_spans q\<rparr>])"
proof -
  let ?h = "hash_of (iq_spans q)"
  let ?x = "\<lambda>env. \<lparr>is_batch_id = en_uuid4 env, is_accepted = int (length (iq_spans q))\<rparr>"
  obtain s1 where r1: "pg_reserve p k ?h (?x env) (in_store st) = (Inr None, s1)"
    and v1: "pg_view s1 (p, k) = Some (?h, PENDING, Some (?x env))" and i1: "pg_invar s1"
    using pg.reserve_granted [OF assms(1), of p k ?h "?x env"] pg.reserve_fst [OF assms(1), of p k ?h "?x env"] assms(4)
    by (cases "pg_reserve p k ?h (?x env) (in_store st)") (auto simp: spec_reserve_def)
  let ?s2 = "pg_fail p k ?h s1"
  have i2: "pg_invar ?s2" and "pg_view ?s2 (p, k) = Some (?h, FAILED, None)"
    using pg.fail_view [OF i1, of p k ?h] pg.invar_fail [OF i1, of p k ?h] v1 by (simp_all add: spec_set_def)
  from pg.reserve_failed [OF this, of ?h "?x env'"]
  obtain s3 where r3: "pg_reserve p k ?h (?x env') ?s2 = (Inr None, s3)"
    by (cases "pg_reserve p k ?h (?x env') ?s2") auto
  show ?thesis
    using assms r1 r3
    by (simp add: ingest_spans_def reserve_idempotency_def accept_and_settle_def accept_batch_def Let_def)
qed

section \<open>Batch status\<close>

text \<open>
  The status of a batch follows its processing. While the entry lives (24 hours after
  each write), a finished batch reports the number of spans accepted when it was created, the
  counts of the run and \<^verbatim>\<open>partial_failed\<close> exactly when a span failed. When the entry had
  expired before the worker finished, the counts are reported but the number of accepted
  spans is reset to 0.
\<close>

theorem batch_status_lifecycle:
  assumes "redis_store R" and "t1 < t0 + seconds BATCH_STATUS_TTL" and "t2 < t1 + seconds BATCH_STATUS_TTL"
    and "t3 < t2 + seconds BATCH_STATUS_TTL"
  shows "status_get R t3 p b (mark_finished R t2 p b n m (mark_processing R t1 p b (create_accepted R t0 p b k r))) =
      Some \<lparr>bs_batch_id = b, bs_status = (if m = 0 then ''processed'' else ''partial_failed''), bs_accepted = k,
            bs_processed = n, bs_failed = m, bs_error = None, bs_created_at = t0, bs_updated_at = t2\<rparr> \<and>
    (status_get R t2 p b r = None \<longrightarrow>
       map_option bs_accepted (status_get R t3 p b (mark_finished R t2 p b n m r)) = Some 0)"
  using assms redis_store.get_setex_live [OF assms(1)]
  by (simp add: status_get_def mark_finished_def mark_processing_def create_accepted_def status_merge_def
      status_save_def Let_def)

section \<open>Validated spans\<close>

text \<open>What the code relies on of Python's \<^verbatim>\<open>uuid\<close> module: both functions return the canonical
  text of a UUID, which contains a dash, has no white space around it and is read back
  unchanged.\<close>

definition canonical_uuids :: "(string \<Rightarrow> string) \<Rightarrow> (string \<Rightarrow> string option) \<Rightarrow> bool" where
  "canonical_uuids uuid5 uuid_str \<longleftrightarrow>
     (\<forall>v w. uuid_str v = Some w \<or> uuid5 v = w \<longrightarrow>
        CHR ''-'' \<in> set w \<and> py_strip w = w \<and> uuid_str w = Some w)"

lemma lower_dash: "CHR ''-'' \<in> set w \<Longrightarrow> CHR ''-'' \<in> set (py_lower w)"
proof -
  have "lower_char CHR ''-'' = CHR ''-''" by code_simp
  then show "CHR ''-'' \<in> set w \<Longrightarrow> ?thesis" by (force simp: py_lower_def)
qed

lemma normalize_span_identifier_fixed:
  assumes "canonical_uuids uuid5 uuid_str" and "normalize_span_identifier uuid5 uuid_str v f = Inr (Some w)"
  shows "normalize_span_identifier uuid5 uuid_str (Some w) g = Inr (Some w)"
proof -
  have "\<exists>v. uuid_str v = Some w \<or> uuid5 v = w"
    using assms(2) by (auto simp: normalize_span_identifier_def Let_def split: option.splits if_splits)
  with assms(1) have w: "CHR ''-'' \<in> set w" "py_strip w = w" "uuid_str w = Some w"
    unfolding canonical_uuids_def by blast+
  with lower_dash [OF w(1)] show ?thesis
    by (auto simp: normalize_span_identifier_def Let_def)
qed

lemma normalize_provider_allowed: "normalize_provider v \<in> set ALLOWED_PROVIDERS"
  by (simp add: normalize_provider_def Let_def ALLOWED_PROVIDERS_def)

text \<open>
  What passes validation is normalised and bounded: the provider is one of the known
  ones, token counts and latency are in range, the start is at most five minutes ahead, and
  the identifiers are canonical, so that normalising them again, as a later stage does, leaves
  them unchanged.
\<close>

theorem validated_span_is_normal:
  assumes "canonical_uuids uuid5 uuid_str" and "validate_span uuid5 uuid_str repr_len (uuid5 u) now raw = Some s"
  shows "ss_provider s \<in> set ALLOWED_PROVIDERS \<and>
    0 \<le> ss_input_tokens s \<and> ss_input_tokens s \<le> 10000000 \<and> 0 \<le> ss_output_tokens s \<and> ss_output_tokens s \<le> 10000000 \<and>
    0 \<le> ss_latency_ms s \<and> ss_latency_ms s \<le> 3600000 \<and> ss_started_at s \<le> now + seconds 300 \<and>
    (\<forall>i \<in> {Some (ss_span_id s), Some (ss_trace_id s), ss_parent_span_id s}.
       normalize_span_identifier uuid5 uuid_str i f = Inr i)"
proof -
  let ?norm = "normalize_span_identifier uuid5 uuid_str"
  have ok: "fields_ok raw" using assms(2) by (auto simp: validate_span_def split: if_splits)
  obtain sid tid pid started meta where
    sid: "(case rs_span_id raw of None \<Rightarrow> Inr (Some (uuid5 u)) | Some s \<Rightarrow> ?norm (Some s) ''span_id'') = Inr (Some sid)"
    and tid: "?norm (Some (rs_trace_id raw)) ''trace_id'' = Inr (Some tid)"
    and pid: "?norm (rs_parent_span_id raw) ''parent_span_id'' = Inr pid"
    and started: "no_future_timestamps now (rs_started_at raw) = Inr started"
    and s: "s = \<lparr>ss_span_id = sid, ss_trace_id = tid, ss_parent_span_id = pid,
                  ss_name = or_default ''llm_call'' (rs_name raw), ss_provider = normalize_provider (rs_provider raw),
                  ss_model = rs_model raw, ss_input_messages = or_default [] (rs_input_messages raw),
                  ss_output = rs_output raw, ss_error = rs_error raw,
                  ss_input_tokens = or_default 0 (rs_input_tokens raw),
                  ss_output_tokens = or_default 0 (rs_output_tokens raw), ss_latency_ms = rs_latency_ms raw,
                  ss_started_at = started, ss_metadata = meta\<rparr>"
    using assms(2) ok unfolding validate_span_def Let_def
    by (auto split: sum.splits option.splits intro: that)
  have "?norm (Some (uuid5 u)) f = Inr (Some (uuid5 u))"
  proof -
    have w: "CHR ''-'' \<in> set (uuid5 u)" "py_strip (uuid5 u) = uuid5 u" "uuid_str (uuid5 u) = Some (uuid5 u)"
      using assms(1) unfolding canonical_uuids_def by blast+
    with lower_dash [OF w(1)] show ?thesis by (auto simp: normalize_span_identifier_def Let_def)
  qed
  then have "?norm (Some sid) f = Inr (Some sid)"
    using sid normalize_span_identifier_fixed [OF assms(1)] by (auto split: option.splits)
  moreover have "?norm (Some tid) f = Inr (Some tid)"
    using tid by (rule normalize_span_identifier_fixed [OF assms(1)])
  moreover have "?norm pid f = Inr pid"
    using pid normalize_span_identifier_fixed [OF assms(1)]
    by (cases pid) (auto simp: normalize_span_identifier_def [of _ _ None])
  moreover have "started \<le> now + seconds 300" using started by (auto simp: no_future_timestamps_def split: if_splits)
  ultimately show ?thesis using ok by (simp add: s normalize_provider_allowed fields_ok_def)
qed

section \<open>Examples\<close>

definition ex_span :: "string \<Rightarrow> span_schema" where
  "ex_span i = \<lparr>ss_span_id = i, ss_trace_id = ''t-1'', ss_parent_span_id = None, ss_name = ''llm_call'',
     ss_provider = ''openai'', ss_model = ''gpt'', ss_input_messages = [], ss_output = Some ''hi'', ss_error = None,
     ss_input_tokens = 10, ss_output_tokens = 5, ss_latency_ms = 120, ss_started_at = 1000, ss_metadata = []\<rparr>"

definition ex_hash :: "span_schema list \<Rightarrow> string" where
  "ex_hash spans = concat (map ss_span_id spans)"

definition ex_request :: "string \<Rightarrow> ingest_request" where
  "ex_request i = \<lparr>iq_spans = [ex_span i], iq_idempotency_key = Some ''k1''\<rparr>"

definition ex_env :: "uuid \<Rightarrow> ingest_env" where
  "ex_env b = \<lparr>en_now = 2000, en_uuid4 = b, en_rate_limit = Inr (), en_create_raises = None, en_kiq_raises = None,
     en_mark_raises = None, en_fail_raises = None, en_commit_raises = None\<rparr>"

definition ex_empty :: "(ingest_response idem_row list, batch_status mem) ingest_state" where
  "ex_empty = \<lparr>in_store = [], in_redis = [], in_queue = [], in_batches_accepted = 0, in_batches_failed = 0\<rparr>"

lemma ex_empty_ok: "pg_invar (in_store ex_empty)" "settled (pg_view (in_store ex_empty))"
    "pg_view (in_store ex_empty) pk = None"
  by (simp_all add: ex_empty_def pg_invar_def settled_def pg_view_def)

theorem ingest_replays_original_result_witness:
  "fst (ingest_spans pg_store mem_redis ex_hash (ex_env ''b2'') ''p1'' (ex_request ''s-1'')
        (run_requests pg_store mem_redis ex_hash [(ex_env ''b3'', ''p1'', ex_request ''s-2'')]
          (snd (ingest_spans pg_store mem_redis ex_hash (ex_env ''b1'') ''p1'' (ex_request ''s-1'') ex_empty)))) =
     Inr \<lparr>is_batch_id = ''b1'', is_accepted = 1\<rparr>"
proof -
  obtain st1 where one: "ingest_spans pg_store mem_redis ex_hash (ex_env ''b1'') ''p1'' (ex_request ''s-1'') ex_empty =
      (Inr \<lparr>is_batch_id = ''b1'', is_accepted = 1\<rparr>, st1)"
  proof -
    have "fst (ingest_spans pg_store mem_redis ex_hash (ex_env ''b1'') ''p1'' (ex_request ''s-1'') ex_empty) =
        Inr \<lparr>is_batch_id = ''b1'', is_accepted = 1\<rparr>" by code_simp
    with that show ?thesis by (metis prod.collapse)
  qed
  let ?run = "ingest_spans pg_store mem_redis ex_hash (ex_env ''b2'') ''p1'' (ex_request ''s-1'')
        (run_requests pg_store mem_redis ex_hash [(ex_env ''b3'', ''p1'', ex_request ''s-2'')] st1)"
  have "?run = (fst ?run, snd ?run)" by simp
  from ingest_replays_original_result [OF ex_empty_ok(1,2) _ _ _ one _ this, of "''k1''"] show ?thesis
    unfolding one by (simp add: ex_request_def ex_env_def)
qed

theorem unsettled_key_is_refused_forever_witness:
  "fst (ingest_spans pg_store mem_redis ex_hash (ex_env ''b2'') ''p1'' (ex_request ''s-1'')
        (snd (ingest_spans pg_store mem_redis ex_hash ((ex_env ''b1'')\<lparr>en_commit_raises := Some ''OperationalError''\<rparr>)
                ''p1'' (ex_request ''s-1'') ex_empty))) =
     Inl (HTTPException 409 ''Idempotency key is already being processed'')"
  using unsettled_key_is_refused_forever [OF ex_empty_ok(1,2), of "ex_request ''s-1''" "''k1''" "''p1''"
    "(ex_env ''b1'')\<lparr>en_commit_raises := Some ''OperationalError''\<rparr>" "''OperationalError''" "ex_env ''b2''"
    mem_redis ex_hash "[]"] ex_empty_ok(3)
  by (simp add: ex_request_def ex_env_def split: prod.splits)

theorem failed_enqueue_can_be_retried_witness:
  "fst (ingest_spans pg_store mem_redis ex_hash (ex_env ''b2'') ''p1'' (ex_request ''s-1'')
        (snd (ingest_spans pg_store mem_redis ex_hash ((ex_env ''b1'')\<lparr>en_kiq_raises := Some ''ConnectionError''\<rparr>)
                ''p1'' (ex_request ''s-1'') ex_empty))) =
     Inr \<lparr>is_batch_id = ''b2'', is_accepted = 1\<rparr>"
  using failed_enqueue_can_be_retried [OF ex_empty_ok(1), of "ex_request ''s-1''" "''k1''" "''p1''"
    "(ex_env ''b1'')\<lparr>en_kiq_raises := Some ''ConnectionError''\<rparr>" "''ConnectionError''" "ex_env ''b2''"
    mem_redis ex_hash] ex_empty_ok(3)
  by (simp add: ex_request_def ex_env_def split: prod.splits)

theorem batch_status_lifecycle_witness:
  "map_option bs_status (status_get mem_redis 30 ''p'' ''b''
     (mark_finished mem_redis 20 ''p'' ''b'' 2 1 (mark_processing mem_redis 10 ''p'' ''b'' (create_accepted mem_redis 0 ''p'' ''b'' 3 []))))
   = Some ''partial_failed''"
proof -
  have "redis_store mem_redis" by unfold_locales
  from batch_status_lifecycle [OF this, of 10 0 20 30 "''p''" "''b''" 2 1 3 "[]"] show ?thesis
    by (simp add: BATCH_STATUS_TTL_def)
qed

definition ex_raw :: raw_span where
  "ex_raw = \<lparr>rs_span_id = Some '' s-1 '', rs_trace_id = ''0123456789ABCDEF'', rs_parent_span_id = None, rs_name = None,
     rs_provider = ''OpenAI'', rs_model = ''gpt'', rs_input_messages = None, rs_output = None, rs_error = None,
     rs_input_tokens = Some 7, rs_output_tokens = None, rs_latency_ms = 3, rs_started_at = 1000, rs_metadata = None\<rparr>"

theorem validated_span_is_normal_witness:
  "\<exists>s. validate_span (\<lambda>_. ''u-5'') (\<lambda>v. if CHR ''-'' \<in> set v \<and> py_strip v = v then Some v else None) length ''u-5'' 1000 ex_raw
       = Some s \<and> ss_provider s \<in> set ALLOWED_PROVIDERS"
proof -
  let ?uuid5 = "\<lambda>_ :: string. ''u-5''"
  let ?str = "\<lambda>v :: string. if CHR ''-'' \<in> set v \<and> py_strip v = v then Some v else None"
  have "py_strip ''u-5'' = ''u-5''" by code_simp
  then have canon: "canonical_uuids ?uuid5 ?str" by (auto simp: canonical_uuids_def)
  have ids: "normalize_span_identifier ?uuid5 ?str (Some '' s-1 '') ''span_id'' = Inr (Some ''s-1'')"
    "normalize_span_identifier ?uuid5 ?str (Some ''0123456789ABCDEF'') ''trace_id'' = Inr (Some ''u-5'')" by code_simp+
  have "fields_ok ex_raw" by (simp add: fields_ok_def ex_raw_def opt_max_def or_default_def)
  with ids have "validate_span ?uuid5 ?str length ''u-5'' 1000 ex_raw \<noteq> None"
    by (simp add: validate_span_def Let_def ex_raw_def no_future_timestamps_def limit_metadata_size_def or_default_def
        normalize_span_identifier_def [of _ _ None])
  then obtain s where s: "validate_span ?uuid5 ?str length ''u-5'' 1000 ex_raw = Some s" by auto
  with validated_span_is_normal [OF canon, of length 1000 ex_raw s] show ?thesis by simp
qed

end
