(* ===== verification/Ingest_Concurrency.thy ===== *)
theory Ingest_Concurrency
  imports Ingest
begin

text \<open>
  Concurrent ingest requests with idempotency keys. Each request runs the handler
  \<^verbatim>\<open>ingest_spans\<close> of \<^verbatim>\<open>backend/app/api/v1/ingest.py\<close>; between two of its database statements
  or calls any other request may run. A step executes one statement of
  \<^verbatim>\<open>PostgresIdempotencyStore.reserve\<close>, the enqueueing, or the settling of one request, using the
  same definitions the handler is composed of. Each SQL statement is atomic, as in the
  default isolation level of PostgreSQL, which the code does not change.
\<close>

section \<open>Requests and steps\<close>

record keyed_request =
  kr_project :: uuid
  kr_key :: string
  kr_hash :: string
  kr_batch :: uuid
  kr_spans :: "span_schema list"

definition kr_pk :: "keyed_request \<Rightarrow> uuid \<times> string" where
  "kr_pk q = (kr_project q, kr_key q)"

definition kr_result :: "keyed_request \<Rightarrow> ingest_response" where
  "kr_result q = \<lparr>is_batch_id = kr_batch q, is_accepted = int (length (kr_spans q))\<rparr>"

definition kr_message :: "keyed_request \<Rightarrow> batch_message" where
  "kr_message q = \<lparr>bm_batch_id = kr_batch q, bm_project_id = kr_project q, bm_spans = kr_spans q\<rparr>"

text \<open>Where a request is in the handler.\<close>

datatype phase =
    Arrived
  | Conflicted
  | Restarting
  | Reserved
  | Enqueued
  | Failing
  | Answered ingest_response
  | Rejected

record conc_state =
  cs_rows :: "ingest_response idem_row list"
  cs_queue :: "batch_message list"
  cs_phase :: "nat \<Rightarrow> phase"

inductive conc_step :: "(nat \<Rightarrow> keyed_request) \<Rightarrow> conc_state \<Rightarrow> conc_state \<Rightarrow> bool" for req where
  insert: "cs_phase c i = Arrived \<Longrightarrow>
    reserve_insert (kr_project (req i)) (kr_key (req i)) (kr_hash (req i)) (kr_result (req i)) (cs_rows c) = (rows', b) \<Longrightarrow>
    conc_step req c (c\<lparr>cs_rows := rows', cs_phase := (cs_phase c)(i := if b then Reserved else Conflicted)\<rparr>)"
| refuse: "cs_phase c i = Conflicted \<Longrightarrow>
    reserve_select (kr_project (req i)) (kr_key (req i)) (kr_hash (req i)) (cs_rows c) = Refuse e \<Longrightarrow>
    conc_step req c (c\<lparr>cs_phase := (cs_phase c)(i := Rejected)\<rparr>)"
| replay: "cs_phase c i = Conflicted \<Longrightarrow>
    reserve_select (kr_project (req i)) (kr_key (req i)) (kr_hash (req i)) (cs_rows c) = Replay (Some x) \<Longrightarrow>
    conc_step req c (c\<lparr>cs_phase := (cs_phase c)(i := Answered x)\<rparr>)"
| see_failed: "cs_phase c i = Conflicted \<Longrightarrow>
    reserve_select (kr_project (req i)) (kr_key (req i)) (kr_hash (req i)) (cs_rows c) = Restart \<Longrightarrow>
    conc_step req c (c\<lparr>cs_phase := (cs_phase c)(i := Restarting)\<rparr>)"
| restart: "cs_phase c i = Restarting \<Longrightarrow>
    conc_step req c (c\<lparr>cs_rows := reserve_restart (kr_project (req i)) (kr_key (req i)) (kr_result (req i)) (cs_rows c),
                      cs_phase := (cs_phase c)(i := Reserved)\<rparr>)"
| enqueue: "cs_phase c i = Reserved \<Longrightarrow>
    conc_step req c (c\<lparr>cs_queue := cs_queue c @ [kr_message (req i)], cs_phase := (cs_phase c)(i := Enqueued)\<rparr>)"
| broker_down: "cs_phase c i = Reserved \<Longrightarrow>
    conc_step req c (c\<lparr>cs_phase := (cs_phase c)(i := Failing)\<rparr>)"
| record_failure: "cs_phase c i = Failing \<Longrightarrow>
    conc_step req c (c\<lparr>cs_rows := pg_fail (kr_project (req i)) (kr_key (req i)) (kr_hash (req i)) (cs_rows c),
                      cs_phase := (cs_phase c)(i := Rejected)\<rparr>)"
| commit: "cs_phase c i = Enqueued \<Longrightarrow>
    conc_step req c (c\<lparr>cs_rows := pg_commit (kr_project (req i)) (kr_key (req i)) (kr_hash (req i)) (kr_result (req i)) (cs_rows c),
                      cs_phase := (cs_phase c)(i := Answered (kr_result (req i)))\<rparr>)"

inductive_cases conc_stepE: "conc_step req c c'"

definition conc_init :: conc_state where
  "conc_init = \<lparr>cs_rows = [], cs_queue = [], cs_phase = (\<lambda>_. Arrived)\<rparr>"

text \<open>The batches enqueued under a key.\<close>

definition batches_of :: "(nat \<Rightarrow> keyed_request) \<Rightarrow> uuid \<times> string \<Rightarrow> batch_message list \<Rightarrow> batch_message list" where
  "batches_of req pk queue = filter (\<lambda>m. \<exists>i. kr_pk (req i) = pk \<and> kr_batch (req i) = bm_batch_id m) queue"

section \<open>One batch per key\<close>

text \<open>The state of a key for which no enqueueing has failed: no record and no request past its
  insertion, or a record that belongs to one request, the owner.\<close>

definition owned :: "(nat \<Rightarrow> keyed_request) \<Rightarrow> conc_state \<Rightarrow> uuid \<times> string \<Rightarrow> nat \<Rightarrow> bool" where
  "owned req c pk w \<longleftrightarrow>
     kr_pk (req w) = pk \<and>
     (\<exists>st. pg_view (cs_rows c) pk = Some (kr_hash (req w), st, Some (kr_result (req w))) \<and>
        (st, cs_phase c w, batches_of req pk (cs_queue c)) \<in>
          {(PENDING, Reserved, []), (PENDING, Enqueued, [kr_message (req w)]),
           (COMMITTED, Answered (kr_result (req w)), [kr_message (req w)])} \<and>
        (\<forall>i. i \<noteq> w \<and> kr_pk (req i) = pk \<longrightarrow>
           cs_phase c i \<in> {Arrived, Conflicted, Rejected} \<or>
           st = COMMITTED \<and> cs_phase c i = Answered (kr_result (req w))))"

definition untouched :: "(nat \<Rightarrow> keyed_request) \<Rightarrow> conc_state \<Rightarrow> uuid \<times> string \<Rightarrow> bool" where
  "untouched req c pk \<longleftrightarrow>
     pg_view (cs_rows c) pk = None \<and> batches_of req pk (cs_queue c) = [] \<and>
     (\<forall>i. kr_pk (req i) = pk \<longrightarrow> cs_phase c i = Arrived)"

definition key_inv :: "(nat \<Rightarrow> keyed_request) \<Rightarrow> conc_state \<Rightarrow> uuid \<times> string \<Rightarrow> bool" where
  "key_inv req c pk \<longleftrightarrow> untouched req c pk \<or> (\<exists>w. owned req c pk w)"

text \<open>A run in which no enqueueing for the key fails.\<close>

definition fails_for :: "(nat \<Rightarrow> keyed_request) \<Rightarrow> uuid \<times> string \<Rightarrow> conc_state \<Rightarrow> bool" where
  "fails_for req pk c \<longleftrightarrow> (\<exists>i. kr_pk (req i) = pk \<and> cs_phase c i = Failing)"

inductive conc_run :: "(nat \<Rightarrow> keyed_request) \<Rightarrow> uuid \<times> string \<Rightarrow> conc_state \<Rightarrow> bool" for req pk where
  init: "conc_run req pk conc_init"
| step: "conc_run req pk c \<Longrightarrow> conc_step req c c' \<Longrightarrow> \<not> fails_for req pk c' \<Longrightarrow> conc_run req pk c'"

lemma batches_of_snoc:
  assumes "inj (\<lambda>i. kr_batch (req i))"
  shows "batches_of req pk (q @ [kr_message (req i)]) =
    batches_of req pk q @ (if kr_pk (req i) = pk then [kr_message (req i)] else [])"
  using assms by (auto simp: batches_of_def kr_message_def dest: injD)

lemma view_ops_other:
  assumes "kr_pk q \<noteq> pk"
  shows "reserve_insert (kr_project q) (kr_key q) h x rows = (rows', b) \<Longrightarrow> pg_view rows' pk = pg_view rows pk"
    and "pg_view (reserve_restart (kr_project q) (kr_key q) x rows) pk = pg_view rows pk"
    and "pg_view (pg_fail (kr_project q) (kr_key q) h rows) pk = pg_view rows pk"
    and "pg_view (pg_commit (kr_project q) (kr_key q) h x rows) pk = pg_view rows pk"
  using assms pg_view_insert [of "kr_project q" "kr_key q" h x rows rows' b]
  by (auto simp: kr_pk_def pg_view_restart pg_fail_def pg_commit_def pg_view_set_status spec_set_def
      split: option.splits)

text \<open>A step of a request with another key does not matter.\<close>

lemma key_inv_frame:
  assumes "key_inv req c pk" and "pg_view (cs_rows c') pk = pg_view (cs_rows c) pk"
    and "batches_of req pk (cs_queue c') = batches_of req pk (cs_queue c)"
    and "\<And>i. kr_pk (req i) = pk \<Longrightarrow> cs_phase c' i = cs_phase c i"
  shows "key_inv req c' pk"
  using assms unfolding key_inv_def untouched_def owned_def by metis

lemma key_inv_step:
  assumes inj: "inj (\<lambda>i. kr_batch (req i))" and step: "conc_step req c c'" and inv: "key_inv req c pk"
    and ok: "\<not> fails_for req pk c'"
  shows "key_inv req c' pk"
proof -
  have other: ?thesis if i: "kr_pk (req i) \<noteq> pk"
    and "pg_view (cs_rows c') pk = pg_view (cs_rows c) pk"
    and "batches_of req pk (cs_queue c') = batches_of req pk (cs_queue c)"
    and "\<And>j. j \<noteq> i \<Longrightarrow> cs_phase c' j = cs_phase c j" for i
    using key_inv_frame [OF inv that(2,3)] that(1,4) by metis
  have owner: P if "cs_phase c i = ph" "kr_pk (req i) = pk" "\<And>w. owned req c pk w \<Longrightarrow>
      (i \<noteq> w \<and> ph \<in> {Arrived, Conflicted, Rejected, Answered (kr_result (req w))} \<or>
       i = w \<and> ph \<in> {Reserved, Enqueued, Answered (kr_result (req w))}) \<Longrightarrow> P" "ph \<noteq> Arrived" for i ph P
  proof -
    from inv that(1,2,4) obtain w where w: "owned req c pk w" by (auto simp: key_inv_def untouched_def)
    then have "i \<noteq> w \<and> ph \<in> {Arrived, Conflicted, Rejected, Answered (kr_result (req w))} \<or>
       i = w \<and> ph \<in> {Reserved, Enqueued, Answered (kr_result (req w))}"
      using that(1,2) by (auto simp: owned_def)
    with w show P by (rule that(3))
  qed
  from step show ?thesis
  proof (cases rule: conc_step.cases)
    case (insert i rows' b)
    show ?thesis
    proof (cases "kr_pk (req i) = pk")
      case False
      with insert view_ops_other(1) [OF False insert(3)] show ?thesis by (intro other [of i]) auto
    next
      case True
      note v = pg_view_insert [OF insert(3)]
      have pk: "(kr_project (req i), kr_key (req i)) = pk" using True by (simp add: kr_pk_def)
      from inv show ?thesis unfolding key_inv_def
      proof (elim disjE exE)
        assume "untouched req c pk"
        then have "owned req c' pk i"
          using v True unfolding untouched_def owned_def insert(1) pk by simp
        then show "untouched req c' pk \<or> (\<exists>w. owned req c' pk w)" by blast
      next
        fix w assume w: "owned req c pk w"
        then have "i \<noteq> w" "\<not> b" using insert(2) v pk by (auto simp: owned_def)
        with w v have "owned req c' pk w" unfolding owned_def insert(1) pk by auto
        then show "untouched req c' pk \<or> (\<exists>w. owned req c' pk w)" by blast
      qed
    qed
  next
    case (refuse i e)
    show ?thesis
    proof (cases "kr_pk (req i) = pk")
      case True
      with refuse(2) obtain w where w: "owned req c pk w" and "i \<noteq> w" by (rule owner) auto
      then have "owned req c' pk w" unfolding owned_def refuse(1) by auto
      then show ?thesis by (auto simp: key_inv_def)
    qed (use refuse in \<open>intro other [of i], auto\<close>)
  next
    case (replay i x)
    show ?thesis
    proof (cases "kr_pk (req i) = pk")
      case True
      with replay(2) obtain w where w: "owned req c pk w" and "i \<noteq> w" by (rule owner) auto
      moreover have "x = kr_result (req w) \<and>
          pg_view (cs_rows c) pk = Some (kr_hash (req w), COMMITTED, Some (kr_result (req w)))"
        using w replay(3) True by (auto simp: owned_def pg_view_select kr_pk_def split: if_splits)
      ultimately have "owned req c' pk w" unfolding owned_def replay(1) by auto
      then show ?thesis by (auto simp: key_inv_def)
    qed (use replay in \<open>intro other [of i], auto\<close>)
  next
    case (see_failed i)
    show ?thesis
    proof (cases "kr_pk (req i) = pk")
      case True
      with see_failed(2) obtain w where w: "owned req c pk w" by (rule owner) auto
      with see_failed(3) True show ?thesis
        by (auto simp: owned_def pg_view_select kr_pk_def split: if_splits)
    qed (use see_failed in \<open>intro other [of i], auto\<close>)
  next
    case (restart i)
    show ?thesis
    proof (cases "kr_pk (req i) = pk")
      case True
      with restart(2) show ?thesis by (rule owner) auto
    next
      case False
      then show ?thesis using restart view_ops_other(2) [OF False] by (intro other [of i]) auto
    qed
  next
    case (enqueue i)
    show ?thesis
    proof (cases "kr_pk (req i) = pk")
      case True
      with enqueue(2) obtain w where w: "owned req c pk w" and "i = w" by (rule owner) auto
      with w enqueue(2) have "owned req c' pk w"
        unfolding owned_def enqueue(1) by (auto simp: batches_of_snoc [OF inj])
      then show ?thesis by (auto simp: key_inv_def)
    qed (use enqueue in \<open>intro other [of i], auto simp: batches_of_snoc [OF inj]\<close>)
  next
    case (broker_down i)
    show ?thesis
    proof (cases "kr_pk (req i) = pk")
      case True
      with broker_down ok show ?thesis by (auto simp: fails_for_def)
    qed (use broker_down in \<open>intro other [of i], auto\<close>)
  next
    case (record_failure i)
    show ?thesis
    proof (cases "kr_pk (req i) = pk")
      case True
      with record_failure(2) show ?thesis by (rule owner) auto
    next
      case False
      then show ?thesis using record_failure view_ops_other(3) [OF False] by (intro other [of i]) auto
    qed
  next
    case (commit i)
    show ?thesis
    proof (cases "kr_pk (req i) = pk")
      case True
      with commit(2) obtain w where w: "owned req c pk w" and "i = w" by (rule owner) auto
      with w commit(2) have "owned req c' pk w"
        unfolding owned_def commit(1)
        by (auto simp: pg_commit_def pg_view_set_status spec_set_def kr_pk_def)
      then show ?thesis by (auto simp: key_inv_def)
    next
      case False
      then show ?thesis using commit view_ops_other(4) [OF False] by (intro other [of i]) auto
    qed
  qed
qed

lemma conc_run_inv:
  assumes "inj (\<lambda>i. kr_batch (req i))" and "conc_run req pk c"
  shows "key_inv req c pk"
  using assms(2)
proof induction
  case init
  show ?case by (simp add: key_inv_def untouched_def conc_init_def pg_view_def batches_of_def)
next
  case (step c c')
  show ?case by (rule key_inv_step [OF assms(1) step.hyps(2) step.IH step.hyps(3)])
qed

text \<open>
  C2: One batch per idempotency key under concurrency. For any number of requests whose
  handlers interleave arbitrarily at their database statements, as long as no enqueueing under
  the key fails: at most one batch is enqueued for the key, and all requests that are answered
  get the same batch id, that of the enqueued batch.
\<close>

theorem concurrent_requests_enqueue_once:
  assumes "inj (\<lambda>i. kr_batch (req i))" and "conc_run req pk c"
  shows "length (batches_of req pk (cs_queue c)) \<le> 1 \<and>
    (\<forall>i x. kr_pk (req i) = pk \<and> cs_phase c i = Answered x \<longrightarrow>
       map bm_batch_id (batches_of req pk (cs_queue c)) = [is_batch_id x])"
proof -
  from conc_run_inv [OF assms] show ?thesis
    unfolding key_inv_def
  proof (elim disjE exE)
    assume "untouched req c pk"
    then show ?thesis by (auto simp: untouched_def)
  next
    fix w assume w: "owned req c pk w"
    then have len: "length (batches_of req pk (cs_queue c)) \<le> 1" by (auto simp: owned_def)
    have "map bm_batch_id (batches_of req pk (cs_queue c)) = [is_batch_id x]"
      if "kr_pk (req i) = pk" "cs_phase c i = Answered x" for i x
    proof -
      from w that have "x = kr_result (req w) \<and> batches_of req pk (cs_queue c) = [kr_message (req w)]"
        unfolding owned_def by (cases "i = w") auto
      then show ?thesis by (simp add: kr_message_def kr_result_def)
    qed
    with len show ?thesis by blast
  qed
qed

section \<open>Two batches after a failure\<close>

text \<open>
  Two concurrent retries after a failed attempt are both accepted. The record of a key is
  \<^verbatim>\<open>FAILED\<close> and two requests with that key and body run concurrently: both read the failed
  record before either resets it, both reset it, and both enqueue their batch, so that the same
  request is accepted twice under two batch ids.
\<close>

theorem concurrent_retries_enqueue_twice:
  assumes "kr_pk (req 1) = kr_pk (req 0)" and "kr_pk (req 2) = kr_pk (req 0)"
    and "kr_hash (req 1) = kr_hash (req 0)" and "kr_hash (req 2) = kr_hash (req 0)"
  shows "\<exists>c. (conc_step req)\<^sup>*\<^sup>* conc_init c \<and> cs_queue c = [kr_message (req 1), kr_message (req 2)] \<and>
    cs_phase c 1 = Answered (kr_result (req 1)) \<and> cs_phase c 2 = Answered (kr_result (req 2))"
proof -
  define p k h where "p = kr_project (req 0)" and "k = kr_key (req 0)" and "h = kr_hash (req 0)"
  define x where "x i = kr_result (req i)" for i
  define row where "row st y = \<lparr>ir_project_id = p, ir_idempotency_key = k, ir_request_hash = h, ir_status = st,
    ir_result = y\<rparr>" for st and y :: "ingest_response option"
  define c where "c rows qu a b d = \<lparr>cs_rows = rows, cs_queue = qu,
    cs_phase = ((\<lambda>_. Arrived)(0 := a, Suc 0 := b, Suc (Suc 0) := d))\<rparr>" for rows qu a b d
  have q: "kr_project (req 0) = p" "kr_key (req 0) = k" "kr_hash (req 0) = h"
      "kr_project (req (Suc 0)) = p" "kr_key (req (Suc 0)) = k" "kr_hash (req (Suc 0)) = h"
      "kr_project (req (Suc (Suc 0))) = p" "kr_key (req (Suc (Suc 0))) = k" "kr_hash (req (Suc (Suc 0))) = h"
    using assms by (simp_all add: p_def k_def h_def kr_pk_def numeral_2_eq_2)
  have ops: "reserve_insert p k h y [] = ([row PENDING (Some y)], True)"
      "reserve_insert p k h y [row st z] = ([row st z], False)"
      "reserve_select p k h [row FAILED z] = Restart"
      "reserve_restart p k y [row st z] = [row PENDING (Some y)]"
      "pg_fail p k h [row st z] = [row FAILED None]"
      "pg_commit p k h y [row st z] = [row COMMITTED (Some y)]" for y z st
    by (simp_all add: row_def reserve_insert_def insert_new_def reserve_select_def reserve_restart_def pg_fail_def
        pg_commit_def pg_set_status_def idem_pk_def update_where_Cons)
  note step_simps = c_def q ops x_def [symmetric] fun_eq_iff conc_init_def
  let ?S = "conc_step req"
  let ?m1 = "kr_message (req (Suc 0))" and ?m2 = "kr_message (req (Suc (Suc 0)))"
  have to: "?S s t" if "?S s t'" "t' = t" for s t t' using that by simp
  have "?S conc_init (c [row PENDING (Some (x 0))] [] Reserved Arrived Arrived)"
    by (rule to [OF conc_step.insert [where i = "0" and b = True]]) (simp_all add: step_simps)
  moreover have "?S (c [row PENDING (Some (x 0))] [] Reserved Arrived Arrived) (c [row PENDING (Some (x 0))] [] Failing Arrived Arrived)"
    by (rule to [OF conc_step.broker_down [where i = "0"]]) (simp_all add: step_simps)
  moreover have "?S (c [row PENDING (Some (x 0))] [] Failing Arrived Arrived) (c [row FAILED None] [] Rejected Arrived Arrived)"
    by (rule to [OF conc_step.record_failure [where i = "0"]]) (simp_all add: step_simps)
  moreover have "?S (c [row FAILED None] [] Rejected Arrived Arrived) (c [row FAILED None] [] Rejected Conflicted Arrived)"
    by (rule to [OF conc_step.insert [where i = "Suc 0" and b = False]]) (simp_all add: step_simps)
  moreover have "?S (c [row FAILED None] [] Rejected Conflicted Arrived) (c [row FAILED None] [] Rejected Conflicted Conflicted)"
    by (rule to [OF conc_step.insert [where i = "Suc (Suc 0)" and b = False]]) (simp_all add: step_simps)
  moreover have "?S (c [row FAILED None] [] Rejected Conflicted Conflicted) (c [row FAILED None] [] Rejected Restarting Conflicted)"
    by (rule to [OF conc_step.see_failed [where i = "Suc 0"]]) (simp_all add: step_simps)
  moreover have "?S (c [row FAILED None] [] Rejected Restarting Conflicted) (c [row FAILED None] [] Rejected Restarting Restarting)"
    by (rule to [OF conc_step.see_failed [where i = "Suc (Suc 0)"]]) (simp_all add: step_simps)
  moreover have "?S (c [row FAILED None] [] Rejected Restarting Restarting) (c [row PENDING (Some (x (Suc 0)))] [] Rejected Reserved Restarting)"
    by (rule to [OF conc_step.restart [where i = "Suc 0"]]) (simp_all add: step_simps)
  moreover have "?S (c [row PENDING (Some (x (Suc 0)))] [] Rejected Reserved Restarting) (c [row PENDING (Some (x (Suc (Suc 0))))] [] Rejected Reserved Reserved)"
    by (rule to [OF conc_step.restart [where i = "Suc (Suc 0)"]]) (simp_all add: step_simps)
  moreover have "?S (c [row PENDING (Some (x (Suc (Suc 0))))] [] Rejected Reserved Reserved) (c [row PENDING (Some (x (Suc (Suc 0))))] [?m1] Rejected Enqueued Reserved)"
    by (rule to [OF conc_step.enqueue [where i = "Suc 0"]]) (simp_all add: step_simps)
  moreover have "?S (c [row PENDING (Some (x (Suc (Suc 0))))] [?m1] Rejected Enqueued Reserved) (c [row PENDING (Some (x (Suc (Suc 0))))] [?m1, ?m2] Rejected Enqueued Enqueued)"
    by (rule to [OF conc_step.enqueue [where i = "Suc (Suc 0)"]]) (simp_all add: step_simps)
  moreover have "?S (c [row PENDING (Some (x (Suc (Suc 0))))] [?m1, ?m2] Rejected Enqueued Enqueued) (c [row COMMITTED (Some (x (Suc 0)))] [?m1, ?m2] Rejected (Answered (x (Suc 0))) Enqueued)"
    by (rule to [OF conc_step.commit [where i = "Suc 0"]]) (simp_all add: step_simps)
  moreover have "?S (c [row COMMITTED (Some (x (Suc 0)))] [?m1, ?m2] Rejected (Answered (x (Suc 0))) Enqueued) (c [row COMMITTED (Some (x (Suc (Suc 0))))] [?m1, ?m2] Rejected (Answered (x (Suc 0))) (Answered (x (Suc (Suc 0)))))"
    by (rule to [OF conc_step.commit [where i = "Suc (Suc 0)"]]) (simp_all add: step_simps)
  ultimately have "?S\<^sup>*\<^sup>* conc_init (c [row COMMITTED (Some (x (Suc (Suc 0))))] [?m1, ?m2] Rejected (Answered (x (Suc 0))) (Answered (x (Suc (Suc 0)))))"
    by (meson converse_rtranclp_into_rtranclp rtranclp.rtrancl_refl)
  moreover have "cs_queue (c rows qu a b d) = qu" "cs_phase (c rows qu a b d) 1 = b" "cs_phase (c rows qu a b d) 2 = d"
    for rows qu a b d by (simp_all add: c_def numeral_2_eq_2)
  ultimately show ?thesis by (metis One_nat_def numeral_2_eq_2 x_def)
qed

text \<open>Three requests with one key, for the examples.\<close>

definition ex_requests :: "nat \<Rightarrow> keyed_request" where
  "ex_requests i = \<lparr>kr_project = ''p1'', kr_key = ''k1'', kr_hash = ''h1'', kr_batch = replicate i CHR ''b'',
     kr_spans = [ex_span ''s-1'']\<rparr>"

theorem concurrent_requests_enqueue_once_witness:
  "length (batches_of ex_requests (''p1'', ''k1'') [kr_message (ex_requests 1)]) \<le> 1"
proof -
  let ?r = "\<lparr>ir_project_id = ''p1'', ir_idempotency_key = ''k1'', ir_request_hash = ''h1'', ir_status = PENDING,
      ir_result = Some (kr_result (ex_requests 1))\<rparr>"
  have inj: "inj (\<lambda>i. kr_batch (ex_requests i))"
  proof (rule injI)
    fix x y assume "kr_batch (ex_requests x) = kr_batch (ex_requests y)"
    then have "length (replicate x CHR ''b'') = length (replicate y CHR ''b'')" by (simp add: ex_requests_def)
    then show "x = y" by simp
  qed
  have s1: "conc_step ex_requests conc_init (conc_init\<lparr>cs_rows := [?r], cs_phase := (cs_phase conc_init)(1 := if True then Reserved else Conflicted)\<rparr>)"
    by (rule conc_step.insert) (simp_all add: conc_init_def reserve_insert_def insert_new_def ex_requests_def)
  define c1 where "c1 = conc_init\<lparr>cs_rows := [?r], cs_phase := (cs_phase conc_init)(1 := Reserved)\<rparr>"
  have c1: "conc_run ex_requests (''p1'', ''k1'') c1"
    using conc_run.step [OF conc_run.init s1] by (simp add: c1_def fails_for_def conc_init_def)
  have "conc_step ex_requests c1 (c1\<lparr>cs_queue := cs_queue c1 @ [kr_message (ex_requests 1)], cs_phase := (cs_phase c1)(1 := Enqueued)\<rparr>)"
    by (rule conc_step.enqueue) (simp add: c1_def)
  from conc_run.step [OF c1 this]
  have "conc_run ex_requests (''p1'', ''k1'')
      (c1\<lparr>cs_queue := cs_queue c1 @ [kr_message (ex_requests 1)], cs_phase := (cs_phase c1)(1 := Enqueued)\<rparr>)"
    by (simp add: fails_for_def c1_def conc_init_def)
  from concurrent_requests_enqueue_once [OF inj this] show ?thesis
    by (simp add: c1_def conc_init_def)
qed

theorem concurrent_retries_enqueue_twice_witness:
  "\<exists>c. (conc_step ex_requests)\<^sup>*\<^sup>* conc_init c \<and> length (cs_queue c) = 2"
proof -
  have "kr_pk (ex_requests i) = kr_pk (ex_requests 0)" "kr_hash (ex_requests i) = kr_hash (ex_requests 0)" for i
    by (simp_all add: ex_requests_def kr_pk_def)
  from concurrent_retries_enqueue_twice [of ex_requests] this show ?thesis by auto
qed

end
