(* ===== verification/Outbox.thy ===== *)
theory Outbox
  imports Obs_Prelude
begin

text \<open>
  The transactional outbox: \<^verbatim>\<open>backend/app/services/outbox.py\<close> and its consumer, the task
  \<^verbatim>\<open>deliver_span_outbox_events\<close> of \<^verbatim>\<open>backend/app/workers/process_span.py\<close>.

  The table \<^verbatim>\<open>outbox_events\<close> is a list of rows. \<^verbatim>\<open>FOR UPDATE SKIP LOCKED\<close> passes over the rows
  that other transactions hold at that moment, an argument of the claim. The Redis publication
  is a function on an abstract server that may raise. All statements of one run of the task see
  the same clock.
\<close>

section \<open>The table\<close>

datatype outbox_status = OutPending | OutProcessing | OutDelivered | OutFailed

record outbox_event =
  ob_id :: uuid
  ob_project_id :: uuid
  ob_event_type :: string
  ob_event_key :: string
  ob_payload :: json
  ob_status :: outbox_status
  ob_attempts :: int
  ob_available_at :: time
  ob_locked_at :: "time option"
  ob_delivered_at :: "time option"
  ob_last_error :: "string option"
  ob_created_at :: time
  ob_updated_at :: time

definition OUTBOX_SPAN_INSERTED :: string where "OUTBOX_SPAN_INSERTED = ''span.inserted''"
definition OUTBOX_MAX_ATTEMPTS :: int where "OUTBOX_MAX_ATTEMPTS = 5"

definition outbox_key :: "outbox_event \<Rightarrow> uuid \<times> string \<times> string" where
  "outbox_key r = (ob_project_id r, ob_event_type r, ob_event_key r)"

definition enqueue_outbox_event ::
  "time \<Rightarrow> uuid \<Rightarrow> uuid \<Rightarrow> string \<Rightarrow> string \<Rightarrow> json \<Rightarrow> outbox_event list \<Rightarrow> outbox_event list" where
  "enqueue_outbox_event now uuid4 project_id event_type event_key payload rows =
     fst (insert_new outbox_key
       \<lparr>ob_id = uuid4, ob_project_id = project_id, ob_event_type = event_type, ob_event_key = event_key,
        ob_payload = payload, ob_status = OutPending, ob_attempts = 0, ob_available_at = now, ob_locked_at = None,
        ob_delivered_at = None, ob_last_error = None, ob_created_at = now, ob_updated_at = now\<rparr> rows)"

definition claimable :: "time \<Rightarrow> string \<Rightarrow> uuid option \<Rightarrow> outbox_event \<Rightarrow> bool" where
  "claimable now event_type project_id r \<longleftrightarrow>
     ob_event_type r = event_type \<and> (ob_status r = OutPending \<or> ob_status r = OutFailed) \<and>
     ob_attempts r < OUTBOX_MAX_ATTEMPTS \<and> ob_available_at r \<le> now \<and>
     (case project_id of None \<Rightarrow> True | Some p \<Rightarrow> ob_project_id r = p)"

definition next_events ::
  "time \<Rightarrow> (uuid \<Rightarrow> bool) \<Rightarrow> string \<Rightarrow> uuid option \<Rightarrow> nat \<Rightarrow> outbox_event list \<Rightarrow> uuid list" where
  "next_events now locked event_type project_id limit rows =
     map ob_id (take limit (sort_key ob_created_at
       (filter (\<lambda>r. claimable now event_type project_id r \<and> \<not> locked (ob_id r)) rows)))"

definition claim_row :: "time \<Rightarrow> outbox_event \<Rightarrow> outbox_event" where
  "claim_row now r = r\<lparr>ob_status := OutProcessing, ob_attempts := ob_attempts r + 1, ob_locked_at := Some now,
     ob_updated_at := now\<rparr>"

definition claim_pending ::
  "time \<Rightarrow> (uuid \<Rightarrow> bool) \<Rightarrow> string \<Rightarrow> uuid option \<Rightarrow> nat \<Rightarrow> outbox_event list
     \<Rightarrow> outbox_event list \<times> outbox_event list" where
  "claim_pending now locked event_type project_id limit rows =
     (let ids = next_events now locked event_type project_id limit rows;
          rows' = update_where (\<lambda>r. ob_id r \<in> set ids) (claim_row now) rows
      in (filter (\<lambda>r. ob_id r \<in> set ids) rows', rows'))"

definition mark_delivered :: "time \<Rightarrow> uuid \<Rightarrow> outbox_event list \<Rightarrow> outbox_event list" where
  "mark_delivered now event_id =
     update_where (\<lambda>r. ob_id r = event_id)
       (\<lambda>r. r\<lparr>ob_status := OutDelivered, ob_delivered_at := Some now, ob_locked_at := None, ob_last_error := None,
               ob_updated_at := now\<rparr>)"

definition outbox_mark_failed :: "time \<Rightarrow> uuid \<Rightarrow> string \<Rightarrow> outbox_event list \<Rightarrow> outbox_event list" where
  "outbox_mark_failed now event_id error =
     update_where (\<lambda>r. ob_id r = event_id)
       (\<lambda>r. r\<lparr>ob_status := (if ob_attempts r \<ge> OUTBOX_MAX_ATTEMPTS then OutFailed else OutPending),
               ob_available_at := now + seconds (min 300 (ob_attempts r * 10)), ob_locked_at := None,
               ob_last_error := Some (take 1000 error), ob_updated_at := now\<rparr>)"

section \<open>The consumer\<close>

definition channel_of :: "outbox_event \<Rightarrow> string" where
  "channel_of e = ''project:'' @ ob_project_id e @ '':new_span''"

fun deliver_events ::
  "(string \<Rightarrow> json \<Rightarrow> 'w \<Rightarrow> string option \<times> 'w) \<Rightarrow> time \<Rightarrow> outbox_event list \<Rightarrow> outbox_event list \<times> 'w
     \<Rightarrow> unit outcome \<times> outbox_event list \<times> 'w" where
  "deliver_events publish now [] s = (Ret (), s)"
| "deliver_events publish now (e # es) (rows, w) =
     (case publish (channel_of e) (ob_payload e) w of
        (Some err, w') \<Rightarrow> (Raise err, outbox_mark_failed now (ob_id e) err rows, w')
      | (None, w') \<Rightarrow> deliver_events publish now es (mark_delivered now (ob_id e) rows, w'))"

definition deliver_span_outbox_events ::
  "(string \<Rightarrow> json \<Rightarrow> 'w \<Rightarrow> string option \<times> 'w) \<Rightarrow> time \<Rightarrow> (uuid \<Rightarrow> bool) \<Rightarrow> uuid option \<Rightarrow> nat
     \<Rightarrow> outbox_event list \<times> 'w \<Rightarrow> unit outcome \<times> outbox_event list \<times> 'w" where
  "deliver_span_outbox_events publish now locked project_id limit s =
     (case claim_pending now locked OUTBOX_SPAN_INSERTED project_id limit (fst s) of
        (events, rows') \<Rightarrow> deliver_events publish now events (rows', snd s))"

section \<open>Well-formed tables\<close>

definition outbox_ok :: "outbox_event list \<Rightarrow> bool" where
  "outbox_ok rows \<longleftrightarrow>
     distinct (map ob_id rows) \<and> distinct (map outbox_key rows) \<and>
     (\<forall>r \<in> set rows. 0 \<le> ob_attempts r \<and> ob_attempts r \<le> OUTBOX_MAX_ATTEMPTS \<and>
        (ob_status r = OutFailed \<longrightarrow> ob_attempts r = OUTBOX_MAX_ATTEMPTS))"

lemma outbox_ok_update:
  assumes "outbox_ok rows"
    and "\<And>r. ob_id (f r) = ob_id r" and "\<And>r. outbox_key (f r) = outbox_key r"
    and "\<And>r. r \<in> set rows \<Longrightarrow> P r \<Longrightarrow> 0 \<le> ob_attempts (f r) \<and> ob_attempts (f r) \<le> OUTBOX_MAX_ATTEMPTS \<and>
           (ob_status (f r) = OutFailed \<longrightarrow> ob_attempts (f r) = OUTBOX_MAX_ATTEMPTS)"
  shows "outbox_ok (update_where P f rows)"
  using assms by (auto simp: outbox_ok_def map_update_where_same in_update_where)

lemma outbox_key_simps [simp]:
  "outbox_key (claim_row now r) = outbox_key r" "ob_id (claim_row now r) = ob_id r"
  "ob_payload (claim_row now r) = ob_payload r" "channel_of (claim_row now r) = channel_of r"
  by (simp_all add: outbox_key_def claim_row_def channel_of_def)

lemma outbox_ok_mark_delivered: "outbox_ok rows \<Longrightarrow> outbox_ok (mark_delivered now i rows)"
  unfolding mark_delivered_def
  by (rule outbox_ok_update) (auto simp: outbox_key_def, auto simp: outbox_ok_def)

lemma outbox_ok_mark_failed: "outbox_ok rows \<Longrightarrow> outbox_ok (outbox_mark_failed now i e rows)"
  unfolding outbox_mark_failed_def
  by (rule outbox_ok_update) (auto simp: outbox_key_def, auto simp: outbox_ok_def)

lemma next_events_claimable:
  assumes "i \<in> set (next_events now locked ty p limit rows)"
  shows "\<exists>r \<in> set rows. ob_id r = i \<and> claimable now ty p r \<and> \<not> locked i"
  using assms by (auto simp: next_events_def dest!: in_set_takeD)

lemma claimed_row_claimable:
  assumes "outbox_ok rows" and "r \<in> set rows" and "ob_id r \<in> set (next_events now locked ty p limit rows)"
  shows "claimable now ty p r"
  using next_events_claimable [OF assms(3)] assms(1,2)
  by (auto simp: outbox_ok_def distinct_map dest: inj_onD)

lemma outbox_ok_claim: "outbox_ok rows \<Longrightarrow> outbox_ok (snd (claim_pending now locked ty p limit rows))"
  unfolding claim_pending_def Let_def snd_conv
proof (rule outbox_ok_update)
  fix r assume ok: "outbox_ok rows" "r \<in> set rows" "ob_id r \<in> set (next_events now locked ty p limit rows)"
  from claimed_row_claimable [OF this] ok
  show "0 \<le> ob_attempts (claim_row now r) \<and> ob_attempts (claim_row now r) \<le> OUTBOX_MAX_ATTEMPTS \<and>
      (ob_status (claim_row now r) = OutFailed \<longrightarrow> ob_attempts (claim_row now r) = OUTBOX_MAX_ATTEMPTS)"
    by (auto simp: claim_row_def claimable_def outbox_ok_def)
qed simp_all

lemma outbox_ok_deliver_events:
  "outbox_ok (fst s) \<Longrightarrow> outbox_ok (fst (snd (deliver_events publish now es s)))"
proof (induction es arbitrary: s)
  case (Cons e es)
  then show ?case
    by (cases s; cases "publish (channel_of e) (ob_payload e) (snd s)")
       (auto split: option.splits simp: outbox_ok_mark_failed outbox_ok_mark_delivered)
qed simp

section \<open>Runs\<close>

text \<open>The operations of the system on the outbox, in any order and with any outcome of the
  publications.\<close>

inductive outbox_step :: "outbox_event list \<times> 'w \<Rightarrow> outbox_event list \<times> 'w \<Rightarrow> bool" where
  enqueue: "i \<notin> ob_id ` set rows \<Longrightarrow>
    outbox_step (rows, w) (enqueue_outbox_event now i p ty k pl rows, w)"
| deliver: "outbox_step s (snd (deliver_span_outbox_events publish now locked p limit s))"

inductive_cases outbox_stepE: "outbox_step s s'"

lemma outbox_ok_enqueue:
  "outbox_ok rows \<Longrightarrow> i \<notin> ob_id ` set rows \<Longrightarrow> outbox_ok (enqueue_outbox_event now i p ty k pl rows)"
  by (auto simp: outbox_ok_def enqueue_outbox_event_def insert_new_def OUTBOX_MAX_ATTEMPTS_def)

lemma outbox_step_ok: "outbox_step s s' \<Longrightarrow> outbox_ok (fst s) \<Longrightarrow> outbox_ok (fst s')"
proof (induction rule: outbox_step.induct)
  case (deliver s publish now locked p limit)
  with outbox_ok_claim [of "fst s" now locked OUTBOX_SPAN_INSERTED p limit] show ?case
    by (auto simp: deliver_span_outbox_events_def split: prod.splits intro: outbox_ok_deliver_events)
qed (simp add: outbox_ok_enqueue)

text \<open>A run touches only rows that it claimed.\<close>

lemma deliver_events_frame:
  "r \<in> set (fst s) \<Longrightarrow> ob_id r \<notin> ob_id ` set es \<Longrightarrow> r \<in> set (fst (snd (deliver_events publish now es s)))"
proof (induction es arbitrary: s)
  case (Cons e es)
  obtain rows w where s: "s = (rows, w)" by (cases s)
  have "r \<in> set (mark_delivered now (ob_id e) rows)" "r \<in> set (outbox_mark_failed now (ob_id e) x rows)" for x
    using Cons.prems s by (auto simp: mark_delivered_def outbox_mark_failed_def in_update_where intro!: bexI [of _ r])
  with Cons show ?case
    by (cases "publish (channel_of e) (ob_payload e) w") (auto simp: s split: option.splits)
qed simp

lemma step_keeps_unclaimable:
  assumes "outbox_step s s'" and "outbox_ok (fst s)" and "r \<in> set (fst s)"
    and "ob_status r = OutProcessing \<or> ob_status r = OutDelivered \<or> ob_attempts r = OUTBOX_MAX_ATTEMPTS"
  shows "r \<in> set (fst s')"
  using assms
proof (cases rule: outbox_step.cases)
  case (enqueue i rows w now p ty k pl)
  with assms show ?thesis by (simp add: enqueue_outbox_event_def insert_new_def)
next
  case (deliver publish now locked p limit)
  let ?ids = "next_events now locked OUTBOX_SPAN_INSERTED p limit (fst s)"
  have "ob_id r \<notin> set ?ids"
    using claimed_row_claimable [OF assms(2,3)] assms(4) by (auto simp: claimable_def)
  then show ?thesis
    unfolding deliver deliver_span_outbox_events_def claim_pending_def Let_def prod.case
    by (intro deliver_events_frame) (use assms(3) in \<open>auto simp: in_update_where intro: bexI [of _ r]\<close>)
qed

text \<open>
  C8: The outbox delivers each event a bounded number of times and never again after
  success. In every state that enqueueing and delivery runs reach from a well-formed table,
  whatever the publications do: events are unique per project, type and key, none has been
  attempted more than five times, and a row that is delivered, or has used up its attempts, is
  still there unchanged.
\<close>

theorem outbox_attempts_bounded:
  assumes "outbox_step\<^sup>*\<^sup>* s s'" and "outbox_ok (fst s)"
  shows "distinct (map outbox_key (fst s')) \<and> (\<forall>r \<in> set (fst s'). ob_attempts r \<le> 5) \<and>
    (\<forall>r \<in> set (fst s). ob_status r = OutDelivered \<or> ob_attempts r = 5 \<longrightarrow> r \<in> set (fst s'))"
proof -
  have "outbox_ok (fst s') \<and> (\<forall>r \<in> set (fst s). ob_status r = OutDelivered \<or> ob_attempts r = OUTBOX_MAX_ATTEMPTS \<longrightarrow> r \<in> set (fst s'))"
    using assms
    by (induction rule: rtranclp_induct) (use outbox_step_ok step_keeps_unclaimable in blast)+
  then show ?thesis by (auto simp: outbox_ok_def OUTBOX_MAX_ATTEMPTS_def)
qed

section \<open>What a run delivers\<close>

text \<open>A server that accepts every publication and remembers them.\<close>

definition publish_log :: "string \<Rightarrow> json \<Rightarrow> (string \<times> json) list \<Rightarrow> string option \<times> (string \<times> json) list" where
  "publish_log ch msg w = (None, w @ [(ch, msg)])"

lemma deliver_events_success:
  assumes "\<And>ch msg w. publish ch msg w = (None, w @ [(ch, msg)])"
  shows "deliver_events publish now es (rows, w) =
    (Ret (), foldl (\<lambda>rs e. mark_delivered now (ob_id e) rs) rows es, w @ map (\<lambda>e. (channel_of e, ob_payload e)) es)"
  by (induction es arbitrary: rows w) (simp_all add: assms)

lemma map_id_foldl [simp]: "map ob_id (foldl (\<lambda>rs e. mark_delivered now (ob_id e) rs) rows es) = map ob_id rows"
  by (induction es arbitrary: rows) (simp_all add: mark_delivered_def map_update_where_same)

lemma foldl_mark_keeps:
  "d \<in> set rows \<Longrightarrow> ob_id d \<notin> ob_id ` set es \<Longrightarrow>
     d \<in> set (foldl (\<lambda>rs e. mark_delivered now (ob_id e) rs) rows es)"
proof (induction es arbitrary: rows)
  case (Cons e es)
  then have "d \<in> set (mark_delivered now (ob_id e) rows)"
    by (auto simp: mark_delivered_def in_update_where intro!: bexI [of _ d])
  with Cons show ?case by simp
qed simp

lemma claim_pending_facts:
  assumes "claim_pending now locked ty p limit rows = (events, rows')"
  shows "map ob_id rows' = map ob_id rows" and "set events \<subseteq> set rows'"
    and "ob_id ` set events = set (next_events now locked ty p limit rows)"
proof -
  show ids: "map ob_id rows' = map ob_id rows"
    using assms by (auto simp: claim_pending_def Let_def map_update_where_same)
  show "set events \<subseteq> set rows'" using assms by (auto simp: claim_pending_def Let_def)
  have "set (next_events now locked ty p limit rows) \<subseteq> ob_id ` set rows'"
    using next_events_claimable ids by (fastforce dest: arg_cong [where f = set])
  then show "ob_id ` set events = set (next_events now locked ty p limit rows)"
    using assms by (auto simp: claim_pending_def Let_def)
qed

lemma filter_update_claim:
  "filter (\<lambda>r. ob_id r \<in> I) (update_where (\<lambda>r. ob_id r \<in> I) (claim_row now) rows) =
     map (claim_row now) (filter (\<lambda>r. ob_id r \<in> I) rows)"
  by (induction rows) (auto simp: update_where_Cons)

text \<open>A claimed row after it has been delivered.\<close>

definition delivered_row :: "time \<Rightarrow> outbox_event \<Rightarrow> outbox_event" where
  "delivered_row now r = r\<lparr>ob_status := OutDelivered, ob_attempts := ob_attempts r + 1, ob_locked_at := None,
     ob_delivered_at := Some now, ob_last_error := None, ob_updated_at := now\<rparr>"

lemma foldl_mark_delivered:
  "foldl (\<lambda>rs e. mark_delivered now (ob_id e) rs) rows es =
     update_where (\<lambda>r. ob_id r \<in> ob_id ` set es)
       (\<lambda>r. r\<lparr>ob_status := OutDelivered, ob_delivered_at := Some now, ob_locked_at := None, ob_last_error := None,
               ob_updated_at := now\<rparr>) rows"
  by (induction es arbitrary: rows) (auto simp: mark_delivered_def update_where_def)

text \<open>The claim takes the oldest rows that are due, up to the limit.\<close>

definition outbox_due :: "time \<Rightarrow> (uuid \<Rightarrow> bool) \<Rightarrow> uuid option \<Rightarrow> outbox_event \<Rightarrow> bool" where
  "outbox_due now locked p r \<longleftrightarrow> claimable now OUTBOX_SPAN_INSERTED p r \<and> \<not> locked (ob_id r)"

lemma sorted_take_drop:
  assumes "sorted (map f xs)" and "x \<in> set (take n xs)" and "y \<in> set (drop n xs)"
  shows "f x \<le> f y"
proof -
  have "sorted (map f (take n xs) @ map f (drop n xs))" using assms(1) by (simp flip: map_append)
  with assms(2,3) show ?thesis by (simp only: sorted_append) auto
qed

lemma next_events_oldest:
  fixes now :: time and locked :: "uuid \<Rightarrow> bool" and p :: "uuid option" and limit :: nat
  assumes ok: "outbox_ok rows"
  defines "ids \<equiv> set (next_events now locked OUTBOX_SPAN_INSERTED p limit rows)"
  shows "r \<in> set rows \<Longrightarrow> ob_id r \<in> ids \<Longrightarrow> outbox_due now locked p r"
    and "length (filter (\<lambda>r. ob_id r \<in> ids) rows) = min limit (length (filter (outbox_due now locked p) rows))"
    and "r \<in> set rows \<Longrightarrow> ob_id r \<in> ids \<Longrightarrow> s \<in> set rows \<Longrightarrow> outbox_due now locked p s \<Longrightarrow> ob_id s \<notin> ids \<Longrightarrow>
      ob_created_at r \<le> ob_created_at s"
proof -
  define S where "S = sort_key ob_created_at (filter (outbox_due now locked p) rows)"
  have ids: "ids = ob_id ` set (take limit S)"
    by (simp add: ids_def next_events_def S_def outbox_due_def [abs_def])
  have set_S: "set S = {r \<in> set rows. outbox_due now locked p r}" by (simp add: S_def)
  have dist: "distinct rows" and inj: "inj_on ob_id (set rows)" using ok by (auto simp: outbox_ok_def distinct_map)
  have take: "ob_id r \<in> ids \<longleftrightarrow> r \<in> set (take limit S)" if "r \<in> set rows" for r
    using that set_S inj by (auto simp: ids dest: in_set_takeD inj_onD)
  show "outbox_due now locked p r" if "r \<in> set rows" "ob_id r \<in> ids"
    using that take set_S by (auto dest: in_set_takeD)
  have "distinct S" using dist by (simp add: S_def)
  have "set (filter (\<lambda>r. ob_id r \<in> ids) rows) = set (take limit S)"
    using take set_S by (auto dest: in_set_takeD)
  then have "length (filter (\<lambda>r. ob_id r \<in> ids) rows) = length (take limit S)"
    using dist \<open>distinct S\<close> by (metis distinct_card distinct_filter distinct_take)
  then show "length (filter (\<lambda>r. ob_id r \<in> ids) rows) = min limit (length (filter (outbox_due now locked p) rows))"
    by (simp add: S_def)
  show "ob_created_at r \<le> ob_created_at s"
    if "r \<in> set rows" "ob_id r \<in> ids" "s \<in> set rows" "outbox_due now locked p s" "ob_id s \<notin> ids"
  proof (rule sorted_take_drop [where f = ob_created_at and xs = S and n = limit])
    show "sorted (map ob_created_at S)" by (simp add: S_def)
    show "r \<in> set (take limit S)" using that take by blast
    show "s \<in> set (drop limit S)"
      using that take set_S set_append [of "take limit S" "drop limit S"] by auto
  qed
qed


section \<open>A failing publication\<close>

lemma deliver_events_failure:
  assumes "\<forall>e \<in> set es1. \<forall>w. fst (publish (channel_of e) (ob_payload e) w) = None"
    and "\<forall>w. fst (publish (channel_of e) (ob_payload e) w) = Some err"
  shows "\<exists>w'. deliver_events publish now (es1 @ e # es2) (rows, w) =
    (Raise err, outbox_mark_failed now (ob_id e) err (foldl (\<lambda>rs e. mark_delivered now (ob_id e) rs) rows es1), w')"
  using assms(1)
proof (induction es1 arbitrary: rows w)
  case Nil
  have "fst (publish (channel_of e) (ob_payload e) w) = Some err" using assms(2) by blast
  then show ?case by (cases "publish (channel_of e) (ob_payload e) w") simp
next
  case (Cons d ds)
  obtain w1 where "publish (channel_of d) (ob_payload d) w = (None, w1)"
    using Cons.prems by (metis list.set_intros(1) prod.collapse)
  with Cons show ?case by simp
qed

text \<open>
  A failed publication strands the rest of its run. When a run claims several events
  and the publication of one of them fails, the events after it have been claimed but are
  neither delivered nor failed: they stay \<^verbatim>\<open>PROCESSING\<close>, and no later sequence of enqueueing and
  delivery runs, successful or not, at any time, claims or delivers them.
\<close>

theorem failed_publish_strands_claimed_events:
  assumes "outbox_ok rows" and "claim_pending now locked OUTBOX_SPAN_INSERTED p limit rows = (es1 @ e # es2, rows1)"
    and "\<forall>d \<in> set es1. \<forall>w. fst (publish (channel_of d) (ob_payload d) w) = None"
    and "\<forall>w. fst (publish (channel_of e) (ob_payload e) w) = Some err"
    and "deliver_span_outbox_events publish now locked p limit (rows, w) = (out, s1)"
    and "outbox_step\<^sup>*\<^sup>* s1 s2"
  shows "out = Raise err \<and> (\<forall>d \<in> set es2. ob_status d = OutProcessing \<and> d \<in> set (fst s2))"
proof -
  obtain w' where run: "out = Raise err" "s1 =
      (outbox_mark_failed now (ob_id e) err (foldl (\<lambda>rs e. mark_delivered now (ob_id e) rs) rows1 es1), w')"
    using deliver_events_failure [OF assms(3,4), of now es2 rows1 w] assms(2,5)
    by (auto simp: deliver_span_outbox_events_def)
  have step1: "outbox_step (rows, w) s1"
    using outbox_step.deliver [of "(rows, w)" publish now locked p limit] assms(5) by simp
  have ok1: "outbox_ok (fst s1)" using outbox_step_ok [OF step1] assms(1) by simp
  have ok: "outbox_ok rows1" using outbox_ok_claim [OF assms(1), of now locked OUTBOX_SPAN_INSERTED p limit] assms(2) by simp
  have "distinct (map ob_id (es1 @ e # es2))"
  proof -
    have "\<exists>P. es1 @ e # es2 = filter P rows1" using assms(2) unfolding claim_pending_def Let_def by (metis Pair_inject)
    then obtain P where "es1 @ e # es2 = filter P rows1" by blast
    moreover have "distinct (map ob_id (filter P rows1))"
      using ok by (intro distinct_map_filter) (simp add: outbox_ok_def)
    ultimately show ?thesis by simp
  qed
  then have fresh: "ob_id d \<notin> ob_id ` set (es1 @ [e])" if "d \<in> set es2" for d
    using that by auto (metis disjoint_iff image_eqI)
  have fold: "d \<in> set (foldl (\<lambda>rs e. mark_delivered now (ob_id e) rs) rows1 es1)" if "d \<in> set es2" for d
  proof -
    have "d \<in> set rows1" using that claim_pending_facts(2) [OF assms(2)] by auto
    then show ?thesis by (rule foldl_mark_keeps) (use fresh [OF that] in auto)
  qed
  have here: "d \<in> set (fst s1) \<and> ob_status d = OutProcessing" if "d \<in> set es2" for d
  proof
    show "d \<in> set (fst s1)"
      using fold [OF that] fresh [OF that] by (auto simp: run outbox_mark_failed_def in_update_where intro!: bexI [of _ d])
    have "es1 @ e # es2 = map (claim_row now)
        (filter (\<lambda>r. ob_id r \<in> set (next_events now locked OUTBOX_SPAN_INSERTED p limit rows)) rows)"
      using assms(2) filter_update_claim [of _ now rows] by (simp add: claim_pending_def Let_def)
    then have "d \<in> claim_row now ` set rows" using that by (metis (no_types, lifting) Un_iff filter_is_subset
        image_mono list.set(2) list.set_map insert_iff set_append subsetD)
    then show "ob_status d = OutProcessing" by (auto simp: claim_row_def)
  qed
  have "outbox_ok (fst s2) \<and> (\<forall>d \<in> set es2. d \<in> set (fst s2))"
    using assms(6)
  proof (induction rule: rtranclp_induct)
    case base
    with ok1 here show ?case by simp
  next
    case (step s s')
    then show ?case using outbox_step_ok step_keeps_unclaimable here by blast
  qed
  with run(1) here show ?thesis by blast
qed

section \<open>Examples\<close>

definition ex_event :: "string \<Rightarrow> outbox_event" where
  "ex_event i = \<lparr>ob_id = i, ob_project_id = ''p1'', ob_event_type = ''span.inserted'', ob_event_key = i,
     ob_payload = JStr i, ob_status = OutPending, ob_attempts = 0, ob_available_at = 0, ob_locked_at = None,
     ob_delivered_at = None, ob_last_error = None, ob_created_at = 0, ob_updated_at = 0\<rparr>"

lemma ex_events_ok: "outbox_ok [ex_event ''e1'', ex_event ''e2'']"
  by (simp add: outbox_ok_def ex_event_def outbox_key_def OUTBOX_MAX_ATTEMPTS_def)

theorem outbox_attempts_bounded_witness:
  "list_all (\<lambda>r. ob_attempts r \<le> 5) (fst (snd (deliver_span_outbox_events publish_log 1 (\<lambda>_. False) None 100
       ([ex_event ''e1'', ex_event ''e2''], []))))"
  using outbox_attempts_bounded [OF r_into_rtranclp, OF outbox_step.deliver
    [of "([ex_event ''e1'', ex_event ''e2''], [])" publish_log 1 "\<lambda>_. False" None 100]] ex_events_ok
  by (simp add: list_all_iff)


theorem failed_publish_strands_claimed_events_witness:
  "\<exists>d \<in> set (fst (snd (deliver_span_outbox_events (\<lambda>_ _ w. (Some ''ConnectionError'', w)) 1 (\<lambda>_. False) None 100
       ([ex_event ''e1'', ex_event ''e2''], ())))). ob_status d = OutProcessing"
proof -
  let ?e = "\<lambda>i. claim_row 1 (ex_event i)"
  have claim: "claim_pending 1 (\<lambda>_. False) OUTBOX_SPAN_INSERTED None 100 [ex_event ''e1'', ex_event ''e2''] =
      ([] @ ?e ''e1'' # [?e ''e2''], [?e ''e1'', ?e ''e2''])"
    by code_simp
  obtain out s1 where d: "deliver_span_outbox_events (\<lambda>_ _ w. (Some ''ConnectionError'', w)) 1 (\<lambda>_. False) None 100
      ([ex_event ''e1'', ex_event ''e2''], ()) = (out, s1)" by (metis surj_pair)
  from failed_publish_strands_claimed_events [OF ex_events_ok claim _ _ d rtranclp.rtrancl_refl] show ?thesis
    by (auto simp: d)
qed

end
