(* ===== verification/Metric_Buckets.thy ===== *)
theory Metric_Buckets
  imports Payload_Storage "HOL-Library.AList"
begin

text \<open>
  The rows of the table \<^verbatim>\<open>spans\<close> (\<^verbatim>\<open>backend/app/models/span.py\<close>) and the minute buckets of
  \<^verbatim>\<open>backend/app/services/span_metric_buckets.py\<close> that are kept beside them.

  Costs are integers in units of \<open>10\<^sup>-\<^sup>8\<close>. The latency of a span is the exact decimal it was sent
  as; the column \<^verbatim>\<open>latency_sum_ms\<close> is a \<^verbatim>\<open>Numeric(18, 3)\<close>, kept as an integer number of
  \<open>10\<^sup>-\<^sup>3\<close> milliseconds, to which the engine rounds what is stored. Offsets of time zones are
  whole minutes, so the minute of an instant does not depend on them.
\<close>

section \<open>Spans\<close>

record span_row =
  sp_id :: uuid
  sp_trace_id :: uuid
  sp_project_id :: uuid
  sp_parent_span_id :: "uuid option"
  sp_name :: string
  sp_provider :: string
  sp_model :: string
  sp_input_tokens :: int
  sp_output_tokens :: int
  sp_cost_usd :: int
  sp_latency_ms :: rat
  sp_status :: string
  sp_error :: "string option"
  sp_started_at :: time
  sp_payload_s3_key :: "string option"
  sp_payload_status :: payload_status
  sp_payload_drop_reason :: "string option"
  sp_metadata :: json

text \<open>\<^verbatim>\<open>percentile_cont\<close>: linear interpolation between the neighbours of the sorted values.\<close>

definition percentile_cont :: "rat \<Rightarrow> rat list \<Rightarrow> rat option" where
  "percentile_cont q xs =
     (if xs = [] then None
      else
        (let ys = sort xs; pos = q * of_nat (length xs - 1); lo = nat \<lfloor>pos\<rfloor>; hi = nat \<lceil>pos\<rceil>
         in Some (ys ! lo + (pos - of_nat lo) * (ys ! hi - ys ! lo))))"

section \<open>Buckets of a batch\<close>

record metric_values =
  mv_span_count :: int
  mv_error_count :: int
  mv_total_cost_usd :: int
  mv_latency_sum_ms :: rat

definition floor_to_minute :: "time \<Rightarrow> time" where
  "floor_to_minute value = value - value mod seconds 60"

definition empty_values :: metric_values where
  "empty_values = \<lparr>mv_span_count = 0, mv_error_count = 0, mv_total_cost_usd = 0, mv_latency_sum_ms = 0\<rparr>"

definition add_span :: "span_row \<Rightarrow> metric_values \<Rightarrow> metric_values" where
  "add_span s v = \<lparr>mv_span_count = mv_span_count v + 1,
     mv_error_count = mv_error_count v + (if sp_status s = ''error'' then 1 else 0),
     mv_total_cost_usd = mv_total_cost_usd v + sp_cost_usd s,
     mv_latency_sum_ms = mv_latency_sum_ms v + sp_latency_ms s\<rparr>"

text \<open>The \<^verbatim>\<open>defaultdict\<close> of the loop over the spans.\<close>

type_synonym buckets = "(time \<times> metric_values) list"

definition bucket_get :: "time \<Rightarrow> buckets \<Rightarrow> metric_values" where
  "bucket_get t b = (case map_of b t of None \<Rightarrow> empty_values | Some v \<Rightarrow> v)"

definition collect_span :: "span_row \<Rightarrow> buckets \<Rightarrow> buckets" where
  "collect_span s b =
     (let t = floor_to_minute (sp_started_at s) in AList.update t (add_span s (bucket_get t b)) b)"

definition collect_buckets :: "span_row list \<Rightarrow> buckets" where
  "collect_buckets spans = fold collect_span spans []"

text \<open>The rows sent to the database, sorted by their start.\<close>

definition bucket_payload :: "buckets \<Rightarrow> buckets" where
  "bucket_payload b = sort_key fst b"

section \<open>The table\<close>

record metric_bucket =
  mb_project_id :: uuid
  mb_bucket_start :: time
  mb_span_count :: int
  mb_error_count :: int
  mb_total_cost_usd :: int
  mb_latency_sum_ms :: int

definition bucket_pk :: "metric_bucket \<Rightarrow> uuid \<times> time" where
  "bucket_pk b = (mb_project_id b, mb_bucket_start b)"

definition to_milli :: "rat \<Rightarrow> int" where
  "to_milli x = \<lfloor>x * 1000 + 1 / 2\<rfloor>"

definition upsert_bucket :: "uuid \<Rightarrow> time \<times> metric_values \<Rightarrow> metric_bucket list \<Rightarrow> metric_bucket list" where
  "upsert_bucket project_id r rows =
     (let excluded = \<lparr>mb_project_id = project_id, mb_bucket_start = fst r, mb_span_count = mv_span_count (snd r),
            mb_error_count = mv_error_count (snd r), mb_total_cost_usd = mv_total_cost_usd (snd r),
            mb_latency_sum_ms = to_milli (mv_latency_sum_ms (snd r))\<rparr>
      in if bucket_pk excluded \<in> bucket_pk ` set rows
         then update_where (\<lambda>b. bucket_pk b = bucket_pk excluded)
           (\<lambda>b. b\<lparr>mb_span_count := mb_span_count b + mb_span_count excluded,
                   mb_error_count := mb_error_count b + mb_error_count excluded,
                   mb_total_cost_usd := mb_total_cost_usd b + mb_total_cost_usd excluded,
                   mb_latency_sum_ms := mb_latency_sum_ms b + mb_latency_sum_ms excluded\<rparr>) rows
         else rows @ [excluded])"

definition update_span_metric_buckets :: "uuid \<Rightarrow> span_row list \<Rightarrow> metric_bucket list \<Rightarrow> metric_bucket list" where
  "update_span_metric_buckets project_id spans rows =
     (if spans = [] then rows
      else fold (upsert_bucket project_id) (bucket_payload (collect_buckets spans)) rows)"

text \<open>\<^verbatim>\<open>query_bucketed_alert_value\<close>: a value and a sample count. \<open>Inl\<close> is the \<^verbatim>\<open>ValueError\<close>.\<close>

definition query_bucketed_alert_value ::
  "time \<Rightarrow> uuid \<Rightarrow> string \<Rightarrow> int \<Rightarrow> metric_bucket list \<Rightarrow> string + rat \<times> int" where
  "query_bucketed_alert_value now project_id metric window_minutes rows =
     (let hits = filter (\<lambda>b. mb_project_id b = project_id \<and>
                   floor_to_minute (now - seconds (60 * window_minutes)) \<le> mb_bucket_start b) rows;
          spans = sum_list (map mb_span_count hits);
          errors = sum_list (map mb_error_count hits)
      in if metric = ''error_rate'' then
           Inr (if spans = 0 then 0 else (of_int errors / of_int spans) * 100, spans)
         else if metric = ''cost_hourly'' then
           Inr (of_int (sum_list (map mb_total_cost_usd hits)) / 10 ^ 8, spans)
         else Inl (''Unsupported bucketed alert metric: '' @ metric))"

section \<open>What the buckets hold\<close>

definition in_minute :: "uuid \<Rightarrow> time \<Rightarrow> span_row \<Rightarrow> bool" where
  "in_minute p t s \<longleftrightarrow> sp_project_id s = p \<and> floor_to_minute (sp_started_at s) = t"

definition at_minute :: "time \<Rightarrow> span_row \<Rightarrow> bool" where
  "at_minute t s \<longleftrightarrow> floor_to_minute (sp_started_at s) = t"

text \<open>The specification of one minute: sums over its spans.\<close>

definition values_of :: "span_row list \<Rightarrow> metric_values" where
  "values_of ss = \<lparr>mv_span_count = int (length ss),
     mv_error_count = int (length (filter (\<lambda>s. sp_status s = ''error'') ss)),
     mv_total_cost_usd = sum_list (map sp_cost_usd ss), mv_latency_sum_ms = sum_list (map sp_latency_ms ss)\<rparr>"

lemma values_of_snoc: "values_of (ss @ [s]) = add_span s (values_of ss)"
  by (simp add: values_of_def add_span_def)

lemma values_of_Nil: "values_of [] = empty_values"
  by (simp add: values_of_def empty_values_def)

lemma map_of_collect:
  "map_of (collect_buckets ss) t =
     (if filter (at_minute t) ss = [] then None else Some (values_of (filter (at_minute t) ss)))"
proof (induction ss arbitrary: t rule: rev_induct)
  case Nil
  show ?case by (simp add: collect_buckets_def)
next
  case (snoc s ss)
  let ?t = "floor_to_minute (sp_started_at s)"
  have get: "bucket_get ?t (collect_buckets ss) = values_of (filter (at_minute ?t) ss)"
    by (simp add: bucket_get_def snoc values_of_Nil)
  have "collect_buckets (ss @ [s]) = AList.update ?t (add_span s (bucket_get ?t (collect_buckets ss))) (collect_buckets ss)"
    by (simp add: collect_buckets_def collect_span_def Let_def)
  then have "map_of (collect_buckets (ss @ [s])) t =
      (if t = ?t then Some (add_span s (values_of (filter (at_minute ?t) ss))) else map_of (collect_buckets ss) t)"
    by (simp add: update_conv' get)
  moreover have "at_minute t s = (t = ?t)" by (auto simp: at_minute_def)
  ultimately show ?case by (auto simp: snoc values_of_snoc)
qed

lemma distinct_collect: "distinct (map fst (collect_buckets ss))"
  by (induction ss rule: rev_induct)
    (simp_all add: collect_buckets_def collect_span_def Let_def distinct_update)

text \<open>One column of the bucket of a project and minute, 0 where there is none.\<close>

definition cell :: "(metric_bucket \<Rightarrow> int) \<Rightarrow> metric_bucket list \<Rightarrow> uuid \<times> time \<Rightarrow> int" where
  "cell f rows pk = (case select_one (\<lambda>b. bucket_pk b = pk) rows of None \<Rightarrow> 0 | Some b \<Rightarrow> f b)"

text \<open>The columns and the values they accumulate.\<close>

inductive column :: "(metric_bucket \<Rightarrow> int) \<Rightarrow> (metric_values \<Rightarrow> int) \<Rightarrow> bool" where
  "column mb_span_count mv_span_count"
| "column mb_error_count mv_error_count"
| "column mb_total_cost_usd mv_total_cost_usd"
| "column mb_latency_sum_ms (\<lambda>v. to_milli (mv_latency_sum_ms v))"

lemma select_one_upsert_update:
  assumes "\<And>b. bucket_pk (g b) = bucket_pk b"
  shows "select_one (\<lambda>b. bucket_pk b = pk) (update_where Q g rows) =
    map_option (\<lambda>b. if Q b then g b else b) (select_one (\<lambda>b. bucket_pk b = pk) rows)"
  by (induction rows) (auto simp: update_where_Cons assms)

lemma select_one_snoc:
  "select_one P (xs @ [x]) = (case select_one P xs of None \<Rightarrow> if P x then Some x else None | Some y \<Rightarrow> Some y)"
  by (induction xs) auto

lemma cell_upsert:
  assumes "column f g"
  shows "cell f (upsert_bucket p (t, v) rows) pk = cell f rows pk + (if pk = (p, t) then g v else 0)"
proof (cases "(p, t) \<in> bucket_pk ` set rows")
  case True
  let ?upd = "\<lambda>b. b\<lparr>mb_span_count := mb_span_count b + mv_span_count v,
                   mb_error_count := mb_error_count b + mv_error_count v,
                   mb_total_cost_usd := mb_total_cost_usd b + mv_total_cost_usd v,
                   mb_latency_sum_ms := mb_latency_sum_ms b + to_milli (mv_latency_sum_ms v)\<rparr>"
  have pk: "bucket_pk (?upd b) = bucket_pk b" for b by (simp add: bucket_pk_def)
  have "upsert_bucket p (t, v) rows = update_where (\<lambda>b. bucket_pk b = (p, t)) ?upd rows"
    using True by (simp add: upsert_bucket_def bucket_pk_def)
  then have "cell f (upsert_bucket p (t, v) rows) pk =
      (case map_option (\<lambda>b. if bucket_pk b = (p, t) then ?upd b else b) (select_one (\<lambda>b. bucket_pk b = pk) rows) of
         None \<Rightarrow> 0 | Some b \<Rightarrow> f b)"
    unfolding cell_def by (simp only: select_one_upsert_update [OF pk])
  moreover have "select_one (\<lambda>b. bucket_pk b = pk) rows \<noteq> None" if "pk = (p, t)"
    using that True by (auto simp: select_one_None_iff)
  moreover have "f (?upd b) = f b + g v" for b using assms by cases simp_all
  ultimately show ?thesis
    by (auto simp: cell_def dest: select_one_SomeD split: option.splits)
next
  case False
  let ?new = "\<lparr>mb_project_id = p, mb_bucket_start = t, mb_span_count = mv_span_count v, mb_error_count = mv_error_count v,
    mb_total_cost_usd = mv_total_cost_usd v, mb_latency_sum_ms = to_milli (mv_latency_sum_ms v)\<rparr>"
  have "upsert_bucket p (t, v) rows = rows @ [?new]" using False by (simp add: upsert_bucket_def bucket_pk_def)
  moreover have "bucket_pk ?new = (p, t)" by (simp add: bucket_pk_def)
  moreover have "f ?new = g v" using assms by cases simp_all
  moreover have "select_one (\<lambda>b. bucket_pk b = (p, t)) rows = None"
    using False by (force simp: select_one_None_iff)
  ultimately show ?thesis by (auto simp: cell_def select_one_snoc split: option.splits)
qed

lemma cell_upserts:
  assumes "column f g" and "distinct (map fst b)"
  shows "cell f (fold (upsert_bucket p) b rows) (q, t) =
    cell f rows (q, t) + (if q = p then (case map_of b t of None \<Rightarrow> 0 | Some v \<Rightarrow> g v) else 0)"
  using assms(2)
proof (induction b arbitrary: rows)
  case (Cons x b)
  obtain t' v where x: "x = (t', v)" by (cases x)
  from Cons.prems x have "map_of b t' = None" by (auto simp: map_of_eq_None_iff)
  with Cons x show ?case by (auto simp: cell_upsert [OF assms(1)])
qed simp

lemma g_empty: "column f g \<Longrightarrow> g empty_values = 0"
  by (erule column.cases) (simp_all add: empty_values_def to_milli_def floor_eq_iff)

text \<open>How each column of the table changes; the theorem after it puts the columns together.\<close>

lemma update_buckets_cell:
  assumes "column f g"
  shows "cell f (update_span_metric_buckets p spans rows) (q, t) =
    cell f rows (q, t) + (if q = p then g (values_of (filter (at_minute t) spans)) else 0)"
proof (cases "spans = []")
  case True
  with g_empty [OF assms] show ?thesis by (simp add: update_span_metric_buckets_def values_of_Nil)
next
  case False
  have dist: "distinct (map fst (bucket_payload (collect_buckets spans)))"
    using distinct_collect [of spans] by (simp add: bucket_payload_def distinct_map)
  have "map_of (bucket_payload (collect_buckets spans)) = map_of (collect_buckets spans)"
    using dist distinct_collect by (intro map_of_eqI) (auto simp: bucket_payload_def)
  with False g_empty [OF assms] show ?thesis
    by (simp add: update_span_metric_buckets_def cell_upserts [OF assms dist] map_of_collect values_of_Nil)
qed

lemmas bucket_columns = column.intros [THEN update_buckets_cell]

text \<open>
  Updating the buckets adds exactly the sums over the given spans. The bucket of the
  project and a minute grows by the number of spans in that minute, of those with an error, by
  their cost, and by their latencies (summed exactly and rounded once, to a thousandth); the
  buckets of other projects and minutes keep their values.
\<close>

theorem buckets_add_span_sums:
  "let rows' = update_span_metric_buckets p spans rows; ss = (if q = p then filter (at_minute t) spans else []) in
     cell mb_span_count rows' (q, t) = cell mb_span_count rows (q, t) + int (length ss) \<and>
     cell mb_error_count rows' (q, t) = cell mb_error_count rows (q, t) + int (length (filter (\<lambda>s. sp_status s = ''error'') ss)) \<and>
     cell mb_total_cost_usd rows' (q, t) = cell mb_total_cost_usd rows (q, t) + sum_list (map sp_cost_usd ss) \<and>
     cell mb_latency_sum_ms rows' (q, t) = cell mb_latency_sum_ms rows (q, t) + to_milli (sum_list (map sp_latency_ms ss))"
  using g_empty [OF column.intros(4)] by (simp add: bucket_columns values_of_def empty_values_def)

end
