(* ===== verification/Span_Pipeline.thy ===== *)
theory Span_Pipeline
  imports Pricing Ingest Outbox Metric_Buckets
begin

text \<open>
  The worker that turns an accepted batch into rows: \<^verbatim>\<open>backend/app/workers/process_span.py\<close>
  (\<^verbatim>\<open>process_span_batch\<close>, \<^verbatim>\<open>ensure_trace_row\<close>, \<^verbatim>\<open>update_trace_aggregates\<close>) and \<^verbatim>\<open>bulk_insert_spans\<close>
  of \<^verbatim>\<open>backend/app/services/ingest.py\<close>, composed from the pricing, payload, outbox, bucket and
  batch-status components.

  What is outside the repository is the record \<^verbatim>\<open>worker_env\<close>: the date parser, UUID parsing,
  the JSON encoder, compression, the object store, and which external calls raise in this run.
  The statements between the start of the session and \<^verbatim>\<open>commit\<close> are one transaction. Metrics
  and log lines are left out.
\<close>

section \<open>Messages and failures\<close>

text \<open>
  A span as the task receives it; \<open>None\<close> is a missing key. The messages come from
  \<^verbatim>\<open>model_dump\<close> of the schema, which writes every key, null only for the parent, the output and
  the error, which the task reads with \<^verbatim>\<open>get\<close>, so there null is \<open>None\<close> too.
  Instants are points of the time line: that a timestamp without zone cannot be compared with one
  that has a zone is part of \<open>we_cost_raises\<close>.
\<close>

record span_msg =
  sm_span_id :: "string option"
  sm_trace_id :: "string option"
  sm_parent_span_id :: "string option"
  sm_name :: "string option"
  sm_provider :: "string option"
  sm_model :: "string option"
  sm_input_messages :: "json list option"
  sm_output :: "string option"
  sm_error :: "string option"
  sm_input_tokens :: "int option"
  sm_output_tokens :: "int option"
  sm_latency_ms :: "rat option"
  sm_started_at :: "string option"
  sm_metadata :: "json option"

text \<open>The exceptions the loop can catch. \<^verbatim>\<open>Transient\<close> are those of \<^verbatim>\<open>TRANSIENT_SPAN_ERRORS\<close>.\<close>

datatype proc_exn = Transient string | ParserError | KeyError | InvalidOperation | TypeErr | ValueErr | OtherExn

definition is_transient_span_processing_error :: "proc_exn \<Rightarrow> bool" where
  "is_transient_span_processing_error e = (case e of Transient _ \<Rightarrow> True | _ \<Rightarrow> False)"

definition classify_span_processing_failure :: "proc_exn \<Rightarrow> string" where
  "classify_span_processing_failure e =
     (case e of ParserError \<Rightarrow> ''invalid_timestamp'' | KeyError \<Rightarrow> ''missing_required_field''
      | InvalidOperation \<Rightarrow> ''invalid_numeric_field'' | TypeErr \<Rightarrow> ''invalid_field'' | ValueErr \<Rightarrow> ''invalid_field''
      | _ \<Rightarrow> ''processing_error'')"

record ('r, 'b, 'z, 's) worker_env =
  we_now :: time
  we_pricing :: "('r, pricing) redis"
  we_prices :: "model_price list"
  we_cost_raises :: "span_msg \<Rightarrow> proc_exn option"
  we_parse_dt :: "string \<Rightarrow> proc_exn + time"
  we_uuid :: "string \<Rightarrow> uuid option"
  we_dumps :: "json \<Rightarrow> 'b list option"
  we_json_text :: "json \<Rightarrow> string"
  we_compress :: "'b list \<Rightarrow> 'z"
  we_put :: "'s \<Rightarrow> string \<Rightarrow> 'z \<Rightarrow> string option \<times> 's"
  we_event_id :: "uuid \<Rightarrow> uuid"
  we_db_raises :: "string option"
  we_kiq_deliver :: "string option"
  we_kiq_aggregate :: "uuid \<Rightarrow> string option"
  we_kiq_anomaly :: "string option"

text \<open>What preparing a span may change: the caches of prices and the object store.\<close>

record ('r, 's) prep_world =
  pw_intervals :: batch_intervals
  pw_redis :: 'r
  pw_s3 :: 's

section \<open>Preparing the rows\<close>

definition required :: "'a option \<Rightarrow> proc_exn + 'a" where
  "required v = (case v of None \<Rightarrow> Inl KeyError | Some x \<Rightarrow> Inr x)"

definition to_uuid :: "('r, 'b, 'z, 's) worker_env \<Rightarrow> string \<Rightarrow> proc_exn + uuid" where
  "to_uuid env v = (case we_uuid env v of None \<Rightarrow> Inl ValueErr | Some u \<Rightarrow> Inr u)"

definition store_span_payload ::
  "('r, 'b, 'z, 's) worker_env \<Rightarrow> payload_privacy_settings \<Rightarrow> uuid \<Rightarrow> span_msg \<Rightarrow> 's
     \<Rightarrow> (proc_exn + payload_storage_result) \<times> 's" where
  "store_span_payload env priv project_id m s3 =
     (if should_store_payload (pp_storage_mode priv) (truthy (sm_error m))
      then case sm_span_id m of
             None \<Rightarrow> (Inl KeyError, s3)
           | Some sid \<Rightarrow>
               (case store_payload (we_dumps env) (we_compress env) (we_put env) project_id sid
                       (or_default [] (sm_input_messages m))
                       (case sm_output m of None \<Rightarrow> JNull | Some s \<Rightarrow> JStr s)
                       (Some (pp_max_bytes priv)) (parse_redact_keys (Some (pp_redact_keys priv))) s3 of
                  (Ret res, s3') \<Rightarrow> (Inr res, s3')
                | (Raise _, s3') \<Rightarrow> (Inl ValueErr, s3'))
      else (Inr (skipped_payload_result (pp_storage_mode priv)), s3))"

text \<open>
  The dictionary appended to \<^verbatim>\<open>prepared_spans\<close>, its entries evaluated in order. The metadata are
  serialised here, so what the JSON column gets is a string with JSON text in it.
\<close>

definition build_row ::
  "('r, 'b, 'z, 's) worker_env \<Rightarrow> payload_privacy_settings \<Rightarrow> uuid \<Rightarrow> span_msg \<Rightarrow> time \<Rightarrow> int
     \<Rightarrow> payload_storage_result \<Rightarrow> proc_exn + span_row" where
  "build_row env priv project_id m started_at cost res =
     (case required (sm_span_id m) of Inl e \<Rightarrow> Inl e | Inr sid0 \<Rightarrow>
      (case to_uuid env sid0 of Inl e \<Rightarrow> Inl e | Inr sid \<Rightarrow>
      (case required (sm_trace_id m) of Inl e \<Rightarrow> Inl e | Inr tid0 \<Rightarrow>
      (case to_uuid env tid0 of Inl e \<Rightarrow> Inl e | Inr tid \<Rightarrow>
      (case to_uuid env project_id of Inl e \<Rightarrow> Inl e | Inr pid \<Rightarrow>
      (case (if truthy (sm_parent_span_id m)
             then (case to_uuid env (the (sm_parent_span_id m)) of Inl e \<Rightarrow> Inl e | Inr u \<Rightarrow> Inr (Some u))
             else Inr None) of Inl e \<Rightarrow> Inl e | Inr parent \<Rightarrow>
      (case required (sm_provider m) of Inl e \<Rightarrow> Inl e | Inr provider \<Rightarrow>
      (case required (sm_model m) of Inl e \<Rightarrow> Inl e | Inr model \<Rightarrow>
      (case required (sm_input_tokens m) of Inl e \<Rightarrow> Inl e | Inr it \<Rightarrow>
      (case required (sm_output_tokens m) of Inl e \<Rightarrow> Inl e | Inr ot \<Rightarrow>
      (case required (sm_latency_ms m) of Inl e \<Rightarrow> Inl e | Inr latency \<Rightarrow>
       Inr \<lparr>sp_id = sid, sp_trace_id = tid, sp_project_id = pid, sp_parent_span_id = parent,
            sp_name = or_default ''llm_call'' (sm_name m), sp_provider = provider, sp_model = model,
            sp_input_tokens = it, sp_output_tokens = ot, sp_cost_usd = cost, sp_latency_ms = latency,
            sp_status = (if truthy (sm_error m) then ''error'' else ''ok''), sp_error = sm_error m,
            sp_started_at = started_at, sp_payload_s3_key = ps_s3_key res, sp_payload_status = ps_status res,
            sp_payload_drop_reason = ps_drop_reason res,
            sp_metadata = JStr (we_json_text env (JObj (sanitize_span_metadata (or_default (JObj []) (sm_metadata m))
                            (parse_redact_keys (Some (pp_redact_keys priv))))))\<rparr>)))))))))))"

definition prepare_span ::
  "('r, 'b, 'z, 's) worker_env \<Rightarrow> payload_privacy_settings \<Rightarrow> uuid \<Rightarrow> span_msg \<Rightarrow> ('r, 's) prep_world
     \<Rightarrow> (proc_exn + span_row) \<times> ('r, 's) prep_world" where
  "prepare_span env priv project_id m w =
     (case required (sm_started_at m) of Inl e \<Rightarrow> (Inl e, w) | Inr txt \<Rightarrow>
      (case we_parse_dt env txt of Inl e \<Rightarrow> (Inl e, w) | Inr started_at \<Rightarrow>
      (case (sm_provider m, sm_model m, sm_input_tokens m, sm_output_tokens m) of
         (Some provider, Some model, Some it, Some ot) \<Rightarrow>
           (case we_cost_raises env m of Some e \<Rightarrow> (Inl e, w) | None \<Rightarrow>
            (case calculate (we_pricing env) (we_now env) (we_prices env) provider model it ot (Some started_at)
                    (pw_intervals w) (pw_redis w) of
               (cost, b', r') \<Rightarrow>
                 (case store_span_payload env priv project_id m (pw_s3 w) of
                    (Inl e, s3') \<Rightarrow> (Inl e, \<lparr>pw_intervals = b', pw_redis = r', pw_s3 = s3'\<rparr>)
                  | (Inr res, s3') \<Rightarrow>
                      (build_row env priv project_id m started_at cost res,
                       \<lparr>pw_intervals = b', pw_redis = r', pw_s3 = s3'\<rparr>))))
       | _ \<Rightarrow> (Inl KeyError, w))))"

text \<open>The loop: the prepared rows and the number of failed spans, or the transient error that
  is raised again.\<close>

fun prepare_spans ::
  "('r, 'b, 'z, 's) worker_env \<Rightarrow> payload_privacy_settings \<Rightarrow> uuid \<Rightarrow> span_msg list \<Rightarrow> ('r, 's) prep_world
     \<Rightarrow> (string + span_row list \<times> nat) \<times> ('r, 's) prep_world" where
  "prepare_spans env priv project_id [] w = (Inr ([], 0), w)"
| "prepare_spans env priv project_id (m # ms) w =
     (case prepare_span env priv project_id m w of
        (Inl (Transient e), w') \<Rightarrow> (Inl e, w')
      | (Inl _, w') \<Rightarrow>
          (case prepare_spans env priv project_id ms w' of
             (Inl e, w'') \<Rightarrow> (Inl e, w'')
           | (Inr (rows, failed), w'') \<Rightarrow> (Inr (rows, failed + 1), w''))
      | (Inr row, w') \<Rightarrow>
          (case prepare_spans env priv project_id ms w' of
             (Inl e, w'') \<Rightarrow> (Inl e, w'')
           | (Inr (rows, failed), w'') \<Rightarrow> (Inr (row # rows, failed), w'')))"

section \<open>Writing the batch\<close>

type_synonym span_identity = "uuid \<times> time"

definition span_identity :: "span_row \<Rightarrow> span_identity" where
  "span_identity s = (sp_id s, sp_started_at s)"

text \<open>\<^verbatim>\<open>INSERT \<dots> ON CONFLICT (id, started_at) DO NOTHING RETURNING id, started_at\<close>\<close>

fun bulk_insert_spans :: "span_row list \<Rightarrow> span_row list \<Rightarrow> span_identity list \<times> span_row list" where
  "bulk_insert_spans [] rows = ([], rows)"
| "bulk_insert_spans (s # ss) rows =
     (case insert_new span_identity s rows of
        (rows', inserted) \<Rightarrow>
          (case bulk_insert_spans ss rows' of
             (ids, rows'') \<Rightarrow> (if inserted then span_identity s # ids else ids, rows'')))"

fun select_remaining :: "span_row list \<Rightarrow> span_identity multiset \<Rightarrow> span_row list" where
  "select_remaining [] remaining = []"
| "select_remaining (s # ss) remaining =
     (if count remaining (span_identity s) = 0 then select_remaining ss remaining
      else s # select_remaining ss (remaining - {#span_identity s#}))"

definition select_inserted_spans :: "span_row list \<Rightarrow> span_identity list \<Rightarrow> span_row list" where
  "select_inserted_spans prepared_spans inserted_identities =
     select_remaining prepared_spans (mset inserted_identities)"

text \<open>The earliest inserted span of every trace, in the order of first appearance.\<close>

type_synonym trace_map = "(uuid \<times> span_row) list"

definition trace_map_add :: "span_row \<Rightarrow> trace_map \<Rightarrow> trace_map" where
  "trace_map_add s tm =
     (case map_of tm (sp_trace_id s) of
        None \<Rightarrow> AList.update (sp_trace_id s) s tm
      | Some s0 \<Rightarrow> if sp_started_at s < sp_started_at s0 then AList.update (sp_trace_id s) s tm else tm)"

definition build_trace_map :: "span_row list \<Rightarrow> trace_map" where
  "build_trace_map inserted = fold trace_map_add inserted []"

record trace_row =
  tr_id :: uuid
  tr_project_id :: uuid
  tr_started_at :: time
  tr_ended_at :: "time option"
  tr_total_tokens :: int
  tr_total_cost_usd :: int
  tr_span_count :: int
  tr_status :: string

definition trace_pk :: "trace_row \<Rightarrow> uuid \<times> time" where
  "trace_pk r = (tr_id r, tr_started_at r)"

text \<open>\<^verbatim>\<open>ensure_trace_row\<close>: the start of the trace and the new table; \<open>None\<close> when the update
  would give two rows the same primary key, which the engine refuses.\<close>

definition ensure_trace_row ::
  "uuid \<Rightarrow> uuid \<Rightarrow> time \<Rightarrow> string \<Rightarrow> trace_row list \<Rightarrow> (time \<times> trace_row list) option" where
  "ensure_trace_row project_id trace_id started_at status rows =
     (let own = (\<lambda>r. tr_project_id r = project_id \<and> tr_id r = trace_id)
      in case sort_key tr_started_at (filter own rows) of
           [] \<Rightarrow> Some (started_at, fst (insert_new trace_pk
                   \<lparr>tr_id = trace_id, tr_project_id = project_id, tr_started_at = started_at, tr_ended_at = None,
                    tr_total_tokens = 0, tr_total_cost_usd = 0, tr_span_count = 0, tr_status = status\<rparr> rows))
         | r # _ \<Rightarrow>
             if tr_started_at r \<le> started_at then Some (tr_started_at r, rows)
             else if \<exists>x \<in> set rows. \<not> own x \<and> trace_pk x = (trace_id, started_at) then None
             else Some (started_at,
                    update_where (\<lambda>x. own x \<and> tr_started_at x = tr_started_at r)
                      (\<lambda>x. x\<lparr>tr_started_at := started_at\<rparr>) rows))"

fun ensure_trace_rows ::
  "uuid \<Rightarrow> trace_map \<Rightarrow> trace_row list \<Rightarrow> ((uuid \<times> time) list \<times> trace_row list) option" where
  "ensure_trace_rows project_id [] rows = Some ([], rows)"
| "ensure_trace_rows project_id ((tid, s) # tm) rows =
     (case ensure_trace_row project_id tid (sp_started_at s) (sp_status s) rows of
        None \<Rightarrow> None
      | Some (start, rows') \<Rightarrow>
          (case ensure_trace_rows project_id tm rows' of
             None \<Rightarrow> None
           | Some (starts, rows'') \<Rightarrow> Some ((tid, start) # starts, rows'')))"

record span_db =
  sd_spans :: "span_row list"
  sd_traces :: "trace_row list"
  sd_outbox :: "outbox_event list"
  sd_buckets :: "metric_bucket list"

definition span_event_payload :: "span_row \<Rightarrow> json" where
  "span_event_payload s = JObj [(''span_id'', JStr (sp_id s)), (''name'', JStr (sp_name s)),
     (''latency_ms'', JFloat (sp_latency_ms s)), (''status'', JStr (sp_status s))]"

text \<open>Everything between the loop and \<^verbatim>\<open>commit\<close>: the inserted spans, the starts of their
  traces, and the new tables.\<close>

definition write_batch ::
  "('r, 'b, 'z, 's) worker_env \<Rightarrow> uuid \<Rightarrow> span_row list \<Rightarrow> span_db
     \<Rightarrow> (span_row list \<times> (uuid \<times> time) list \<times> span_db) option" where
  "write_batch env project_id prepared db =
     (case bulk_insert_spans prepared (sd_spans db) of
        (ids, spans') \<Rightarrow>
          (let inserted = select_inserted_spans prepared ids
           in case ensure_trace_rows project_id (build_trace_map inserted) (sd_traces db) of
                None \<Rightarrow> None
              | Some (starts, traces') \<Rightarrow>
                  Some (inserted, starts,
                    \<lparr>sd_spans = spans', sd_traces = traces',
                     sd_outbox = fold (\<lambda>s. enqueue_outbox_event (we_now env) (we_event_id env (sp_id s)) project_id
                                         OUTBOX_SPAN_INSERTED (sp_id s) (span_event_payload s)) inserted (sd_outbox db),
                     sd_buckets = update_span_metric_buckets project_id inserted (sd_buckets db)\<rparr>)))"

section \<open>The task\<close>

datatype worker_task =
    DeliverOutbox uuid
  | UpdateAggregates uuid uuid time
  | CheckAnomalies uuid "span_msg list"

record ('r, 'q, 's) worker_state =
  ws_db :: span_db
  ws_status :: 'q
  ws_redis :: 'r
  ws_s3 :: 's
  ws_tasks :: "worker_task list"

fun enqueue_aggregates ::
  "(uuid \<Rightarrow> string option) \<Rightarrow> uuid \<Rightarrow> (uuid \<times> time) list \<Rightarrow> worker_task list \<Rightarrow> string option \<times> worker_task list" where
  "enqueue_aggregates kiq project_id [] tasks = (None, tasks)"
| "enqueue_aggregates kiq project_id ((tid, start) # rest) tasks =
     (case kiq tid of
        Some e \<Rightarrow> (Some e, tasks)
      | None \<Rightarrow> enqueue_aggregates kiq project_id rest (tasks @ [UpdateAggregates project_id tid start]))"

definition fail_batch ::
  "('q, batch_status) redis \<Rightarrow> time \<Rightarrow> uuid \<Rightarrow> uuid \<Rightarrow> string \<Rightarrow> ('r, 'q, 's) worker_state
     \<Rightarrow> unit outcome \<times> ('r, 'q, 's) worker_state" where
  "fail_batch Q now project_id batch_id e st =
     (Raise e, st\<lparr>ws_status := Ingest.mark_failed Q now project_id batch_id e (ws_status st)\<rparr>)"

text \<open>What follows the commit.\<close>

definition after_commit ::
  "('q, batch_status) redis \<Rightarrow> ('r, 'b, 'z, 's) worker_env \<Rightarrow> uuid \<Rightarrow> uuid \<Rightarrow> span_msg list \<Rightarrow> span_row list
     \<Rightarrow> (uuid \<times> time) list \<Rightarrow> nat \<Rightarrow> ('r, 'q, 's) worker_state \<Rightarrow> unit outcome \<times> ('r, 'q, 's) worker_state" where
  "after_commit Q env project_id batch_id spans inserted starts failed st =
     (let tasks1 = (if inserted \<noteq> [] \<and> we_kiq_deliver env = None then ws_tasks st @ [DeliverOutbox project_id]
                    else ws_tasks st)
      in case enqueue_aggregates (we_kiq_aggregate env) project_id starts tasks1 of
           (Some e, tasks2) \<Rightarrow> fail_batch Q (we_now env) project_id batch_id e (st\<lparr>ws_tasks := tasks2\<rparr>)
         | (None, tasks2) \<Rightarrow>
             (case we_kiq_anomaly env of
                Some e \<Rightarrow> fail_batch Q (we_now env) project_id batch_id e (st\<lparr>ws_tasks := tasks2\<rparr>)
              | None \<Rightarrow>
                  (Ret (), st\<lparr>ws_tasks := tasks2 @ [CheckAnomalies project_id spans],
                     ws_status := mark_finished Q (we_now env) project_id batch_id (int (length inserted)) (int failed)
                                    (ws_status st)\<rparr>)))"

definition process_span_batch ::
  "('q, batch_status) redis \<Rightarrow> ('r, 'b, 'z, 's) worker_env \<Rightarrow> payload_privacy_settings option \<Rightarrow> uuid \<Rightarrow> uuid
     \<Rightarrow> span_msg list \<Rightarrow> ('r, 'q, 's) worker_state \<Rightarrow> unit outcome \<times> ('r, 'q, 's) worker_state" where
  "process_span_batch Q env settings_row batch_id project_id spans st0 =
     (let st = st0\<lparr>ws_status := mark_processing Q (we_now env) project_id batch_id (ws_status st0)\<rparr>
      in case prepare_spans env (load_payload_privacy_settings settings_row) project_id spans
                \<lparr>pw_intervals = (\<lambda>_. []), pw_redis = ws_redis st, pw_s3 = ws_s3 st\<rparr> of
           (res, w) \<Rightarrow>
             (let st1 = st\<lparr>ws_redis := pw_redis w, ws_s3 := pw_s3 w\<rparr>
              in case res of
                   Inl e \<Rightarrow> fail_batch Q (we_now env) project_id batch_id e st1
                 | Inr (prepared, failed) \<Rightarrow>
                     (case write_batch env project_id prepared (ws_db st1) of
                        None \<Rightarrow> fail_batch Q (we_now env) project_id batch_id ''IntegrityError'' st1
                      | Some (inserted, starts, db') \<Rightarrow>
                          (case we_db_raises env of
                             Some e \<Rightarrow> fail_batch Q (we_now env) project_id batch_id e st1
                           | None \<Rightarrow> after_commit Q env project_id batch_id spans inserted starts failed
                                       (st1\<lparr>ws_db := db'\<rparr>)))))"

section \<open>Trace aggregates\<close>

definition span_end :: "span_row \<Rightarrow> time" where
  "span_end s = sp_started_at s + \<lfloor>sp_latency_ms s * 1000 + 1 / 2\<rfloor>"

definition update_trace_aggregates :: "uuid \<Rightarrow> uuid \<Rightarrow> time \<Rightarrow> span_db \<Rightarrow> span_db" where
  "update_trace_aggregates project_id trace_id started_at db =
     (let own = filter (\<lambda>s. sp_project_id s = project_id \<and> sp_trace_id s = trace_id \<and> started_at \<le> sp_started_at s)
                  (sd_spans db)
      in db\<lparr>sd_traces := update_where
            (\<lambda>r. tr_project_id r = project_id \<and> tr_id r = trace_id \<and> tr_started_at r = started_at)
            (\<lambda>r. r\<lparr>tr_total_cost_usd := sum_list (map sp_cost_usd own),
                    tr_total_tokens := sum_list (map (\<lambda>s. sp_input_tokens s + sp_output_tokens s) own),
                    tr_span_count := int (length own),
                    tr_ended_at := (if own = [] then None else Some (Max (set (map span_end own)))),
                    tr_status := (if \<exists>s \<in> set own. sp_status s = ''error'' then ''error'' else ''ok'')\<rparr>)
            (sd_traces db)\<rparr>)"

section \<open>The inserted spans\<close>

text \<open>Specification: the prepared spans whose identity is new, the first of each identity.\<close>

fun fresh_spans :: "span_row list \<Rightarrow> span_identity set \<Rightarrow> span_row list" where
  "fresh_spans [] seen = []"
| "fresh_spans (s # ss) seen =
     (if span_identity s \<in> seen then fresh_spans ss seen
      else s # fresh_spans ss (insert (span_identity s) seen))"

definition identities :: "span_row list \<Rightarrow> span_identity set" where
  "identities rows = span_identity ` set rows"

lemma identities_simps [simp]:
  "identities [] = {}" "identities (s # ss) = insert (span_identity s) (identities ss)"
  "identities (xs @ ys) = identities xs \<union> identities ys"
  by (auto simp: identities_def)

lemma fresh_spans_identities: "identities (fresh_spans ss seen) = identities ss - seen"
  by (induction ss arbitrary: seen) auto

lemma fresh_spans_distinct: "distinct (map span_identity (fresh_spans ss seen))"
proof (induction ss arbitrary: seen)
  case (Cons s ss)
  have "span_identity s \<notin> span_identity ` set (fresh_spans ss (insert (span_identity s) seen))"
    using fresh_spans_identities [of ss "insert (span_identity s) seen"] by (auto simp: identities_def)
  with Cons show ?case by simp
qed simp

lemma set_fresh_spans: "set (fresh_spans ss seen) \<subseteq> set ss"
  by (induction ss arbitrary: seen) (auto split: if_splits)

lemma length_fresh_spans: "length (fresh_spans ss seen) \<le> length ss"
  by (induction ss arbitrary: seen) (auto intro: le_SucI)

lemma fresh_spans_none: "identities ss \<subseteq> seen \<Longrightarrow> fresh_spans ss seen = []"
  by (induction ss arbitrary: seen) auto

lemma bulk_insert_fresh:
  "bulk_insert_spans ss rows =
     (map span_identity (fresh_spans ss (identities rows)), rows @ fresh_spans ss (identities rows))"
  by (induction ss arbitrary: rows) (auto simp: insert_new_def identities_def [symmetric] Un_commute)

lemma select_remaining_fresh:
  assumes "\<And>i. count M i = (if i \<in> identities ss - seen then 1 else 0)"
  shows "select_remaining ss M = fresh_spans ss seen"
  using assms
proof (induction ss arbitrary: M seen)
  case (Cons s ss)
  show ?case
  proof (cases "span_identity s \<in> seen")
    case True
    with Cons.prems [of "span_identity s"] have "count M (span_identity s) = 0" by simp
    moreover have "count M i = (if i \<in> identities ss - seen then 1 else 0)" for i
      using Cons.prems [of i] True by auto
    ultimately show ?thesis using Cons.IH [of M seen] True by simp
  next
    case False
    with Cons.prems [of "span_identity s"] have "count M (span_identity s) \<noteq> 0" by simp
    moreover have "count (M - {#span_identity s#}) i = (if i \<in> identities ss - insert (span_identity s) seen then 1 else 0)" for i
      using Cons.prems [of i] False by auto
    ultimately show ?thesis using Cons.IH [of "M - {#span_identity s#}" "insert (span_identity s) seen"] False by (simp flip: not_in_iff)
  qed
qed simp

lemma select_inserted_fresh:
  "select_inserted_spans ss (map span_identity (fresh_spans ss seen)) = fresh_spans ss seen"
  unfolding select_inserted_spans_def
proof (rule select_remaining_fresh)
  fix i
  let ?xs = "map span_identity (fresh_spans ss seen)"
  have mem: "i \<in> set ?xs \<longleftrightarrow> i \<in> identities ss - seen"
    using fresh_spans_identities [of ss seen] by (simp add: identities_def)
  have "\<forall>a. count (mset ?xs) a = (if a \<in> set ?xs then 1 else 0)"
    by (rule iffD1 [OF distinct_count_atmost_1 fresh_spans_distinct])
  then show "count (mset ?xs) i = (if i \<in> identities ss - seen then 1 else 0)"
    unfolding mem [symmetric] by blast
qed

text \<open>What \<^verbatim>\<open>write_batch\<close> does to the tables.\<close>

lemma write_batch_SomeD:
  assumes "write_batch env p prepared db = Some (inserted, starts, db')"
  shows "inserted = fresh_spans prepared (identities (sd_spans db))"
    and "sd_spans db' = sd_spans db @ inserted"
    and "ensure_trace_rows p (build_trace_map inserted) (sd_traces db) = Some (starts, sd_traces db')"
    and "sd_outbox db' = fold (\<lambda>s. enqueue_outbox_event (we_now env) (we_event_id env (sp_id s)) p
           OUTBOX_SPAN_INSERTED (sp_id s) (span_event_payload s)) inserted (sd_outbox db)"
    and "sd_buckets db' = update_span_metric_buckets p inserted (sd_buckets db)"
  using assms by (auto simp: write_batch_def bulk_insert_fresh select_inserted_fresh Let_def split: option.splits)

lemma after_commit_db:
  assumes "after_commit Q env p b spans inserted starts failed st = (out, st')"
  shows "ws_db st' = ws_db st"
  using assms by (auto simp: after_commit_def fail_batch_def Let_def split: prod.splits option.splits)

text \<open>The outcomes of a run.\<close>

lemma process_cases:
  assumes "process_span_batch Q env row b p spans st = (out, st')"
  obtains
    (uncommitted) e where "out = Raise e" "ws_db st' = ws_db st"
      "ws_status st' = Ingest.mark_failed Q (we_now env) p b e (mark_processing Q (we_now env) p b (ws_status st))"
  | (committed) prepared failed inserted starts w st1 where
      "prepare_spans env (load_payload_privacy_settings row) p spans
         \<lparr>pw_intervals = (\<lambda>_. []), pw_redis = ws_redis st, pw_s3 = ws_s3 st\<rparr> = (Inr (prepared, failed), w)"
      "write_batch env p prepared (ws_db st) = Some (inserted, starts, ws_db st')"
      "after_commit Q env p b spans inserted starts failed st1 = (out, st')"
      "ws_status st1 = mark_processing Q (we_now env) p b (ws_status st)"
proof -
  obtain res w where prep: "prepare_spans env (load_payload_privacy_settings row) p spans
      \<lparr>pw_intervals = (\<lambda>_. []), pw_redis = ws_redis st, pw_s3 = ws_s3 st\<rparr> = (res, w)" by fastforce
  show ?thesis
  proof (cases res)
    case (Inl e)
    with assms prep uncommitted [of e] show ?thesis by (auto simp: process_span_batch_def Let_def fail_batch_def)
  next
    case (Inr pf)
    obtain prepared failed where pf: "pf = (prepared, failed)" by (cases pf)
    show ?thesis
    proof (cases "write_batch env p prepared (ws_db st)")
      case None
      with assms prep Inr pf uncommitted [of "''IntegrityError''"] show ?thesis
        by (auto simp: process_span_batch_def Let_def fail_batch_def)
    next
      case (Some t)
      obtain inserted starts db' where t: "t = (inserted, starts, db')" by (cases t)
      show ?thesis
      proof (cases "we_db_raises env")
        case (Some e)
        with assms prep Inr pf \<open>write_batch _ _ _ _ = Some t\<close> t uncommitted [of e] show ?thesis
          by (auto simp: process_span_batch_def Let_def fail_batch_def)
      next
        case None
        define st1 where "st1 = st\<lparr>ws_status := mark_processing Q (we_now env) p b (ws_status st),
          ws_redis := pw_redis w, ws_s3 := pw_s3 w, ws_db := db'\<rparr>"
        have "after_commit Q env p b spans inserted starts failed st1 = (out, st')"
          using assms prep Inr pf Some t None by (simp add: process_span_batch_def Let_def st1_def)
        with committed [OF prep [unfolded Inr pf], of inserted starts st1] after_commit_db [OF this] Some t show ?thesis
          by (simp add: st1_def)
      qed
    qed
  qed
qed

text \<open>Every message is prepared or counted as failed.\<close>

lemma prepare_spans_length:
  "prepare_spans env priv p ms w = (Inr (rows, n), w') \<Longrightarrow> length rows + n = length ms"
  by (induction ms arbitrary: rows n w w') (fastforce split: prod.splits sum.splits proc_exn.splits)+

section \<open>Processing a batch again\<close>

text \<open>The identity a message has, from its own fields only.\<close>

definition msg_identity :: "('r, 'b, 'z, 's) worker_env \<Rightarrow> span_msg \<Rightarrow> span_identity option" where
  "msg_identity env m =
     (case (sm_span_id m, sm_started_at m) of
        (Some i, Some txt) \<Rightarrow>
          (case (we_uuid env i, we_parse_dt env txt) of (Some u, Inr t) \<Rightarrow> Some (u, t) | _ \<Rightarrow> None)
      | _ \<Rightarrow> None)"

lemma build_row_Inr:
  assumes "build_row env priv p m t c res = Inr row"
  shows "\<exists>i. sm_span_id m = Some i \<and> we_uuid env i = Some (sp_id row)"
    and "sp_started_at row = t" and "we_uuid env p = Some (sp_project_id row)"
  using assms by (auto simp: build_row_def required_def to_uuid_def split: sum.splits option.splits)

lemma prepare_span_Inr:
  assumes "prepare_span env priv p m w = (Inr row, w')"
  shows "msg_identity env m = Some (span_identity row) \<and> we_uuid env p = Some (sp_project_id row)"
proof -
  obtain x t c res where "sm_started_at m = Some x" "we_parse_dt env x = Inr t"
      and row: "build_row env priv p m t c res = Inr row"
    using assms by (auto simp: prepare_span_def required_def split: sum.splits option.splits prod.splits)
  with build_row_Inr [OF row] show ?thesis
    by (auto simp: msg_identity_def span_identity_def)
qed

lemma prepare_spans_Inr:
  "prepare_spans env priv p ms w = (Inr (rows, n), w') \<Longrightarrow>
     Some ` identities rows \<subseteq> msg_identity env ` set ms \<and>
     (n = 0 \<longrightarrow> msg_identity env ` set ms = Some ` identities rows) \<and>
     (\<forall>row \<in> set rows. we_uuid env p = Some (sp_project_id row))"
proof (induction ms arbitrary: rows n w w')
  case (Cons m ms)
  obtain x w1 where one: "prepare_span env priv p m w = (x, w1)" by fastforce
  obtain y w2 where rest: "prepare_spans env priv p ms w1 = (y, w2)" by fastforce
  show ?case
  proof (cases x)
    case (Inl e)
    then obtain rows' n' where "y = Inr (rows', n')" "rows = rows'" "n = Suc n'"
      using Cons.prems one rest by (cases e; cases y) auto
    with Cons.IH [of w1 rows' n' w2] rest show ?thesis by auto
  next
    case (Inr row)
    then obtain rows' where "y = Inr (rows', n)" "rows = row # rows'"
      using Cons.prems one rest by (cases y) auto
    with Cons.IH [of w1 rows' n w2] rest prepare_span_Inr [of env priv p m w row w1] one Inr show ?thesis
      by auto
  qed
qed simp

lemma prepare_spans_trace_ids:
  "prepare_spans env priv p ms w = (Inr (rows, n), w') \<Longrightarrow>
     \<forall>row \<in> set rows. \<exists>m \<in> set ms. \<exists>i. sm_trace_id m = Some i \<and> we_uuid env i = Some (sp_trace_id row)"
proof (induction ms arbitrary: rows n w w')
  case (Cons m ms)
  obtain x w1 where one: "prepare_span env priv p m w = (x, w1)" by fastforce
  obtain y w2 where rest: "prepare_spans env priv p ms w1 = (y, w2)" by fastforce
  show ?case
  proof (cases x)
    case (Inl e)
    then obtain n' where "y = Inr (rows, n')" using Cons.prems one rest by (cases e; cases y) auto
    with Cons.IH [of w1 rows n' w2] rest show ?thesis by auto
  next
    case (Inr row)
    then obtain rows' where "y = Inr (rows', n)" "rows = row # rows'"
      using Cons.prems one rest by (cases y) auto
    moreover have "\<exists>i. sm_trace_id m = Some i \<and> we_uuid env i = Some (sp_trace_id row)"
      using one Inr by (auto simp: prepare_span_def build_row_def required_def to_uuid_def
        split: sum.splits option.splits prod.splits)
    ultimately show ?thesis using Cons.IH [of w1 rows' n w2] rest by auto
  qed
qed simp

lemma ensure_nothing: "build_trace_map [] = []"
  by (simp add: build_trace_map_def)

text \<open>When every identity of the batch is there, the tables do not change.\<close>

lemma process_known_spans:
  assumes "process_span_batch Q env row b p spans st = (out, st')"
    and "msg_identity env ` set spans \<subseteq> Some ` identities (sd_spans (ws_db st))"
  shows "ws_db st' = ws_db st"
  using assms(1)
proof (cases rule: process_cases)
  case (committed prepared failed inserted starts w st1)
  have "Some ` identities prepared \<subseteq> msg_identity env ` set spans"
    using prepare_spans_Inr [OF committed(1)] by blast
  with assms(2) have "identities prepared \<subseteq> identities (sd_spans (ws_db st))" by blast
  then have "inserted = []" using write_batch_SomeD(1) [OF committed(2)] fresh_spans_none by simp
  with write_batch_SomeD [OF committed(2)] show ?thesis
    by (simp add: ensure_nothing update_span_metric_buckets_def)
qed simp

text \<open>
  C14: Processing is idempotent. After a batch was processed without failed spans, any
  later run over the same messages, under another batch id, at other prices, with other
  settings and whatever its external calls do, leaves every table as it is: no span is counted
  twice in the buckets, no event is enqueued again.
\<close>

theorem reprocessing_changes_nothing:
  assumes "process_span_batch Q env row b p spans st = (Ret (), st')"
    and "fst (prepare_spans env (load_payload_privacy_settings row) p spans
         \<lparr>pw_intervals = (\<lambda>_. []), pw_redis = ws_redis st, pw_s3 = ws_s3 st\<rparr>) = Inr (prepared, 0)"
    and "we_parse_dt env2 = we_parse_dt env" and "we_uuid env2 = we_uuid env"
    and "ws_db st1 = ws_db st'"
    and "process_span_batch Q2 env2 row2 b2 p spans st1 = (out2, st2)"
  shows "ws_db st2 = ws_db st'"
proof -
  from assms(1) have "msg_identity env ` set spans \<subseteq> Some ` identities (sd_spans (ws_db st'))"
  proof (cases rule: process_cases)
    case (uncommitted e)
    then show ?thesis by simp
  next
    case (committed prepared' failed inserted starts w st1)
    have "prepared' = prepared" "failed = 0" using committed(1) assms(2) by auto
    with prepare_spans_Inr [OF committed(1)] have "msg_identity env ` set spans = Some ` identities prepared" by simp
    also have "\<dots> \<subseteq> Some ` identities (sd_spans (ws_db st'))"
      using write_batch_SomeD(1,2) [OF committed(2)] fresh_spans_identities [of prepared "identities (sd_spans (ws_db st))"]
        \<open>prepared' = prepared\<close> by auto
    finally show ?thesis .
  qed
  moreover have "msg_identity env2 = msg_identity env" 
    by (rule ext) (simp add: msg_identity_def assms(3,4) split: option.split)
  ultimately show ?thesis using process_known_spans [OF assms(6)] assms(5) by simp
qed

section \<open>Buckets and spans agree\<close>

definition buckets_match :: "span_db \<Rightarrow> bool" where
  "buckets_match db \<longleftrightarrow>
     (\<forall>q t. let v = values_of (filter (in_minute q t) (sd_spans db)) in
        cell mb_span_count (sd_buckets db) (q, t) = mv_span_count v \<and>
        cell mb_error_count (sd_buckets db) (q, t) = mv_error_count v \<and>
        cell mb_total_cost_usd (sd_buckets db) (q, t) = mv_total_cost_usd v)"

lemma write_batch_buckets:
  assumes "write_batch env p prepared db = Some (inserted, starts, db')" and "buckets_match db"
    and "\<And>s. s \<in> set inserted \<Longrightarrow> sp_project_id s = p"
  shows "buckets_match db'"
  unfolding buckets_match_def Let_def
proof (intro allI)
  fix q t
  have "filter (in_minute q t) inserted = (if q = p then filter (at_minute t) inserted else [])"
    using assms(3) by (auto simp: in_minute_def at_minute_def filter_empty_conv intro!: filter_cong)
  with assms(2) show "cell mb_span_count (sd_buckets db') (q, t) = mv_span_count (values_of (filter (in_minute q t) (sd_spans db'))) \<and>
      cell mb_error_count (sd_buckets db') (q, t) = mv_error_count (values_of (filter (in_minute q t) (sd_spans db'))) \<and>
      cell mb_total_cost_usd (sd_buckets db') (q, t) = mv_total_cost_usd (values_of (filter (in_minute q t) (sd_spans db')))"
    unfolding write_batch_SomeD(2,5) [OF assms(1)] bucket_columns
    by (simp add: buckets_match_def Let_def values_of_def)
qed

text \<open>
  C15: The minute buckets always agree with the spans. Whatever a run of the worker does,
  raise or commit, insert or skip, the counts, error counts and costs of the buckets of every
  project and minute equal those computed from the span rows, if they did before.
\<close>

theorem process_keeps_buckets_exact:
  assumes "process_span_batch Q env row b p spans st = (out, st')" and "buckets_match (ws_db st)"
    and "we_uuid env p = Some p"
  shows "buckets_match (ws_db st')"
  using assms(1)
proof (cases rule: process_cases)
  case (committed prepared failed inserted starts w st1)
  have "sp_project_id s = p" if "s \<in> set inserted" for s
    using that prepare_spans_Inr [OF committed(1)] write_batch_SomeD(1) [OF committed(2)]
      set_fresh_spans [of prepared] assms(3) by force
  with write_batch_buckets [OF committed(2) assms(2)] show ?thesis by blast
qed (use assms(2) in simp)

text \<open>
  Retention deletes spans and leaves their buckets. What remains is the agreement for one project from
  some minute on; the worker preserves that as well.
\<close>

definition buckets_match_since :: "time \<Rightarrow> uuid \<Rightarrow> span_db \<Rightarrow> bool" where
  "buckets_match_since c q db \<longleftrightarrow>
     (\<forall>t \<ge> c. let v = values_of (filter (in_minute q t) (sd_spans db)) in
        cell mb_span_count (sd_buckets db) (q, t) = mv_span_count v \<and>
        cell mb_error_count (sd_buckets db) (q, t) = mv_error_count v \<and>
        cell mb_total_cost_usd (sd_buckets db) (q, t) = mv_total_cost_usd v)"

lemma buckets_match_everywhere: "buckets_match db \<Longrightarrow> buckets_match_since c q db"
  by (simp add: buckets_match_def buckets_match_since_def)

theorem process_keeps_recent_buckets:
  assumes "process_span_batch Q env row b p spans st = (out, st')" and "buckets_match_since c q (ws_db st)"
    and "we_uuid env p = Some p"
  shows "buckets_match_since c q (ws_db st')"
  using assms(1)
proof (cases rule: process_cases)
  case (committed prepared failed inserted starts w st1)
  have "sp_project_id s = p" if "s \<in> set inserted" for s
    using that prepare_spans_Inr [OF committed(1)] write_batch_SomeD(1) [OF committed(2)]
      set_fresh_spans [of prepared] assms(3) by force
  then have "filter (in_minute q t) inserted = (if q = p then filter (at_minute t) inserted else [])" for t
    by (auto simp: in_minute_def at_minute_def filter_empty_conv intro!: filter_cong)
  with assms(2) show ?thesis
    unfolding buckets_match_since_def Let_def write_batch_SomeD(2,5) [OF committed(2)] bucket_columns
    by (simp add: values_of_def)
qed (use assms(2) in simp)

section \<open>The reported status\<close>

text \<open>
  The batch status tells what was written. When the task returns, the status of the
  batch reports as processed exactly the number of rows added to the table, as failed the
  number of messages that could not be prepared, and is \<^verbatim>\<open>partial_failed\<close> exactly when there
  are such.
\<close>

theorem status_reports_inserted_rows:
  assumes "redis_store Q" and "process_span_batch Q env row b p spans st = (Ret (), st')"
  shows "\<exists>bs inserted. status_get Q (we_now env) p b (ws_status st') = Some bs \<and>
    sd_spans (ws_db st') = sd_spans (ws_db st) @ inserted \<and>
    bs_processed bs = int (length inserted) \<and> bs_processed bs + bs_failed bs \<le> int (length spans) \<and> 0 \<le> bs_failed bs \<and>
    bs_status bs = (if bs_failed bs = 0 then ''processed'' else ''partial_failed'')"
  using assms(2)
proof (cases rule: process_cases)
  case (committed prepared failed inserted starts w st1)
  have status: "ws_status st' = mark_finished Q (we_now env) p b (int (length inserted)) (int failed)
      (mark_processing Q (we_now env) p b (ws_status st))"
    using committed(3,4) by (auto simp: after_commit_def fail_batch_def Let_def split: prod.splits option.splits)
  have live: "r_get Q (we_now env) k (r_setex Q (we_now env) k BATCH_STATUS_TTL v r) = Some v" for k v r
    by (rule redis_store.get_setex_live [OF assms(1)]) (simp add: BATCH_STATUS_TTL_def)
  obtain bs where bs: "status_get Q (we_now env) p b (ws_status st') = Some bs"
      "bs_processed bs = int (length inserted)" "bs_failed bs = int failed"
      "bs_status bs = (if failed = 0 then ''processed'' else ''partial_failed'')"
    unfolding status by (simp add: status_get_def mark_finished_def status_merge_def status_save_def live)
  have "length inserted \<le> length prepared"
    using write_batch_SomeD(1) [OF committed(2)]
    by (metis (no_types) length_fresh_spans)
  with prepare_spans_length [OF committed(1)] bs write_batch_SomeD(2) [OF committed(2)] show ?thesis by auto
qed simp

section \<open>Trace rows\<close>

definition own_traces :: "uuid \<Rightarrow> uuid \<Rightarrow> trace_row list \<Rightarrow> trace_row list" where
  "own_traces p tid rows = filter (\<lambda>r. tr_project_id r = p \<and> tr_id r = tid) rows"

definition trace_start :: "uuid \<Rightarrow> uuid \<Rightarrow> trace_row list \<Rightarrow> time option" where
  "trace_start p tid rows = (case own_traces p tid rows of [] \<Rightarrow> None | r # _ \<Rightarrow> Some (tr_started_at r))"

definition span_starts :: "uuid \<Rightarrow> uuid \<Rightarrow> span_row list \<Rightarrow> time set" where
  "span_starts p tid ss = sp_started_at ` {s \<in> set ss. sp_project_id s = p \<and> sp_trace_id s = tid}"

text \<open>Each trace has one row, which starts when its earliest span starts.\<close>

definition traces_match :: "span_db \<Rightarrow> bool" where
  "traces_match db \<longleftrightarrow>
     (\<forall>p tid. length (own_traces p tid (sd_traces db)) \<le> 1 \<and>
        trace_start p tid (sd_traces db) =
          (let T = span_starts p tid (sd_spans db) in if T = {} then None else Some (Min T)))"

definition ids_separate :: "uuid \<Rightarrow> uuid set \<Rightarrow> trace_row list \<Rightarrow> bool" where
  "ids_separate p tids rows \<longleftrightarrow> (\<forall>r \<in> set rows. tr_id r \<in> tids \<longrightarrow> tr_project_id r = p)"

lemma ids_separate_alt:
  "ids_separate p T rows \<longleftrightarrow> list_all (\<lambda>k. fst k \<in> T \<longrightarrow> snd k = p) (map (\<lambda>r. (tr_id r, tr_project_id r)) rows)"
  by (auto simp: ids_separate_def list_all_iff)

lemma own_traces_single:
  assumes "length (own_traces p tid rows) \<le> 1" and "own_traces p tid rows = r # rs"
  shows "rs = []" and "x \<in> set rows \<Longrightarrow> tr_project_id x = p \<Longrightarrow> tr_id x = tid \<Longrightarrow> x = r"
proof -
  show "rs = []" using assms by simp
  assume "x \<in> set rows" "tr_project_id x = p" "tr_id x = tid"
  then have "x \<in> set (own_traces p tid rows)" by (simp add: own_traces_def)
  then show "x = r" using assms \<open>rs = []\<close> by simp
qed

lemma own_traces_update_start:
  "own_traces q u (update_where (\<lambda>x. tr_project_id x = p \<and> tr_id x = tid \<and> tr_started_at x = t0)
      (\<lambda>x. x\<lparr>tr_started_at := t\<rparr>) rows) =
    (if (q, u) = (p, tid) then map (\<lambda>x. if tr_started_at x = t0 then x\<lparr>tr_started_at := t\<rparr> else x) (own_traces p tid rows)
     else own_traces q u rows)"
  unfolding own_traces_def by (induction rows) (auto simp: update_where_Cons)

lemma ensure_trace_row_effect:
  assumes single: "length (own_traces p tid rows) \<le> 1" and sep: "ids_separate p T rows" and "tid \<in> T"
    and start_def: "start = (case trace_start p tid rows of None \<Rightarrow> t | Some t0 \<Rightarrow> min t0 t)"
  shows "\<exists>rows'. ensure_trace_row p tid t st rows = Some (start, rows') \<and>
    length (own_traces p tid rows') = 1 \<and> trace_start p tid rows' = Some start \<and> ids_separate p T rows' \<and>
    (\<forall>q u. (q, u) \<noteq> (p, tid) \<longrightarrow> own_traces q u rows' = own_traces q u rows)"
proof (cases "own_traces p tid rows")
  case Nil
  let ?new = "\<lparr>tr_id = tid, tr_project_id = p, tr_started_at = t, tr_ended_at = None, tr_total_tokens = 0,
    tr_total_cost_usd = 0, tr_span_count = 0, tr_status = st\<rparr>"
  have "trace_pk ?new \<notin> trace_pk ` set rows"
  proof
    assume "trace_pk ?new \<in> trace_pk ` set rows"
    then obtain x where "x \<in> set rows" "tr_id x = tid" by (auto simp: trace_pk_def)
    with sep \<open>tid \<in> T\<close> Nil show False by (auto simp: ids_separate_def own_traces_def filter_empty_conv)
  qed
  then have "ensure_trace_row p tid t st rows = Some (t, rows @ [?new])"
    using Nil by (simp add: ensure_trace_row_def own_traces_def insert_new_def)
  then show ?thesis
    using Nil sep by (auto simp: start_def trace_start_def own_traces_def ids_separate_def)
next
  case (Cons r rs)
  note r = own_traces_single [OF single Cons]
  have own: "filter (\<lambda>r. tr_project_id r = p \<and> tr_id r = tid) rows = [r]"
    using Cons r(1) by (simp add: own_traces_def)
  have start: "start = min (tr_started_at r) t" using Cons by (simp add: start_def trace_start_def)
  show ?thesis
  proof (cases "tr_started_at r \<le> t")
    case True
    then have "ensure_trace_row p tid t st rows = Some (start, rows)"
      using own start by (simp add: ensure_trace_row_def)
    with Cons r(1) sep True start show ?thesis by (simp add: trace_start_def)
  next
    case False
    have free: "\<not> (\<exists>x \<in> set rows. \<not> (tr_project_id x = p \<and> tr_id x = tid) \<and> trace_pk x = (tid, t))"
      using sep \<open>tid \<in> T\<close> by (auto simp: ids_separate_def trace_pk_def)
    let ?rows' = "update_where (\<lambda>x. tr_project_id x = p \<and> tr_id x = tid \<and> tr_started_at x = tr_started_at r)
        (\<lambda>x. x\<lparr>tr_started_at := t\<rparr>) rows"
    have "ensure_trace_row p tid t st rows = Some (start, ?rows')"
      unfolding ensure_trace_row_def Let_def own using free start False by simp
    moreover have "own_traces p tid ?rows' = [r\<lparr>tr_started_at := t\<rparr>]"
      using Cons r(1) by (simp add: own_traces_update_start)
    moreover have "ids_separate p T ?rows'"
      using sep by (simp add: ids_separate_alt map_update_where_same)
    moreover have "own_traces q u ?rows' = own_traces q u rows" if "(q, u) \<noteq> (p, tid)" for q u
      using that by (auto simp: own_traces_update_start)
    ultimately show ?thesis using start False by (simp add: trace_start_def)
  qed
qed

lemma ensure_trace_rows_effect:
  assumes "distinct (map fst tm)" and "fst ` set tm \<subseteq> T" and "ids_separate p T rows"
    and "\<forall>q u. length (own_traces q u rows) \<le> 1"
  shows "\<exists>starts rows'. ensure_trace_rows p tm rows = Some (starts, rows') \<and>
    (\<forall>q u. length (own_traces q u rows') \<le> 1) \<and>
    (\<forall>q u. trace_start q u rows' =
       (case (if q = p then map_of tm u else None) of None \<Rightarrow> trace_start q u rows
        | Some s \<Rightarrow> Some (case trace_start q u rows of None \<Rightarrow> sp_started_at s | Some t0 \<Rightarrow> min t0 (sp_started_at s)))) \<and>
    (\<forall>u. map_of starts u = (case map_of tm u of None \<Rightarrow> None | Some s \<Rightarrow> trace_start p u rows'))"
  using assms
proof (induction tm arbitrary: rows)
  case Nil
  then show ?case by simp
next
  case (Cons x tm)
  obtain tid s where x: "x = (tid, s)" by (cases x)
  have tid: "tid \<in> T" "tid \<notin> fst ` set tm" using Cons.prems x by auto
  define t1 where "t1 = (case trace_start p tid rows of None \<Rightarrow> sp_started_at s | Some t0 \<Rightarrow> min t0 (sp_started_at s))"
  obtain rows1 where one: "ensure_trace_row p tid (sp_started_at s) (sp_status s) rows = Some (t1, rows1)"
    and own1: "length (own_traces p tid rows1) = 1" "trace_start p tid rows1 = Some t1" "ids_separate p T rows1"
    and others: "\<And>q u. (q, u) \<noteq> (p, tid) \<Longrightarrow> own_traces q u rows1 = own_traces q u rows"
    using ensure_trace_row_effect [where t = "sp_started_at s" and st = "sp_status s" and p = p and tid = tid
      and rows = rows and T = T and start = t1] Cons.prems tid(1) t1_def
    by blast
  have single1: "\<forall>q u. length (own_traces q u rows1) \<le> 1"
  proof (intro allI)
    fix q u show "length (own_traces q u rows1) \<le> 1"
      using own1(1) others [of q u] Cons.prems(4) by (cases "(q, u) = (p, tid)") auto
  qed
  have start1: "trace_start q u rows1 = (if (q, u) = (p, tid) then Some t1 else trace_start q u rows)" for q u
    using own1(2) others [of q u] by (auto simp: trace_start_def)
  obtain starts rows' where rest: "ensure_trace_rows p tm rows1 = Some (starts, rows')"
    and single: "\<forall>q u. length (own_traces q u rows') \<le> 1"
    and start: "\<And>q u. trace_start q u rows' =
       (case (if q = p then map_of tm u else None) of None \<Rightarrow> trace_start q u rows1
        | Some s \<Rightarrow> Some (case trace_start q u rows1 of None \<Rightarrow> sp_started_at s | Some t0 \<Rightarrow> min t0 (sp_started_at s)))"
    and starts: "\<And>u. map_of starts u = (case map_of tm u of None \<Rightarrow> None | Some s \<Rightarrow> trace_start p u rows')"
    using Cons.IH [of rows1] Cons.prems single1 own1(3) by auto
  have none: "map_of tm tid = None" using tid(2) by (simp add: map_of_eq_None_iff)
  have "trace_start q u rows' =
       (case (if q = p then map_of (x # tm) u else None) of None \<Rightarrow> trace_start q u rows
        | Some s \<Rightarrow> Some (case trace_start q u rows of None \<Rightarrow> sp_started_at s | Some t0 \<Rightarrow> min t0 (sp_started_at s)))" for q u
    using start [of q u] start1 [of q u] none by (auto simp: x t1_def split: option.splits)
  moreover have "map_of ((tid, t1) # starts) u = (case map_of (x # tm) u of None \<Rightarrow> None | Some s \<Rightarrow> trace_start p u rows')" for u
    using starts [of u] start [of p tid] start1 [of p tid] none by (auto simp: x)
  ultimately show ?case using one rest single x by auto
qed

lemma build_trace_map_spec:
  "distinct (map fst (build_trace_map ss)) \<and>
   (case map_of (build_trace_map ss) tid of
      None \<Rightarrow> \<forall>s \<in> set ss. sp_trace_id s \<noteq> tid
    | Some s0 \<Rightarrow> s0 \<in> set ss \<and> sp_trace_id s0 = tid \<and>
        (\<forall>s \<in> set ss. sp_trace_id s = tid \<longrightarrow> sp_started_at s0 \<le> sp_started_at s))"
proof (induction ss arbitrary: tid rule: rev_induct)
  case Nil
  show ?case by (simp add: build_trace_map_def)
next
  case (snoc s ss)
  let ?tm = "build_trace_map ss"
  have step: "build_trace_map (ss @ [s]) = trace_map_add s ?tm" by (simp add: build_trace_map_def)
  have "distinct (map fst (trace_map_add s ?tm))"
    using snoc [of tid] by (auto simp: trace_map_add_def distinct_update split: option.splits)
  moreover have "map_of (trace_map_add s ?tm) tid =
      (if sp_trace_id s = tid then
         (case map_of ?tm tid of None \<Rightarrow> Some s
          | Some s0 \<Rightarrow> Some (if sp_started_at s < sp_started_at s0 then s else s0))
       else map_of ?tm tid)"
    by (auto simp: trace_map_add_def update_conv' split: option.splits)
  ultimately show ?case
    using snoc [of tid] unfolding step
    by (cases "map_of ?tm tid"; cases "sp_trace_id s = tid") (fastforce simp: not_less)+
qed

lemma span_starts_append: "span_starts p tid (xs @ ys) = span_starts p tid xs \<union> span_starts p tid ys"
  by (auto simp: span_starts_def)

lemma finite_span_starts [simp]: "finite (span_starts p tid ss)"
  by (simp add: span_starts_def)

lemma write_batch_traces:
  assumes w: "write_batch env p prepared db = Some (inserted, starts, db')" and inv: "traces_match db"
    and proj: "\<And>s. s \<in> set inserted \<Longrightarrow> sp_project_id s = p"
    and sep: "ids_separate p (sp_trace_id ` set inserted) (sd_traces db)"
  shows "traces_match db' \<and> (\<forall>u. map_of starts u \<in> {None, trace_start p u (sd_traces db')})"
proof -
  let ?tm = "build_trace_map inserted"
  have keys: "fst ` set ?tm \<subseteq> sp_trace_id ` set inserted"
  proof
    fix u assume "u \<in> fst ` set ?tm"
    then obtain s where "map_of ?tm u = Some s" by (metis map_of_eq_None_iff not_None_eq)
    with build_trace_map_spec [of inserted u] show "u \<in> sp_trace_id ` set inserted" by auto
  qed
  have "distinct (map fst ?tm)" using build_trace_map_spec by blast
  from ensure_trace_rows_effect [OF this keys sep] inv write_batch_SomeD(3) [OF w]
  have single: "\<And>q u. length (own_traces q u (sd_traces db')) \<le> 1"
    and start: "\<And>q u. trace_start q u (sd_traces db') =
       (case (if q = p then map_of ?tm u else None) of None \<Rightarrow> trace_start q u (sd_traces db)
        | Some s \<Rightarrow> Some (case trace_start q u (sd_traces db) of None \<Rightarrow> sp_started_at s | Some t0 \<Rightarrow> min t0 (sp_started_at s)))"
    and starts: "\<And>u. map_of starts u = (case map_of ?tm u of None \<Rightarrow> None | Some s \<Rightarrow> trace_start p u (sd_traces db'))"
    by (auto simp: traces_match_def)
  have "trace_start q u (sd_traces db') =
      (let T = span_starts q u (sd_spans db') in if T = {} then None else Some (Min T))" for q u
  proof -
    let ?old = "span_starts q u (sd_spans db)" and ?new = "span_starts q u inserted"
    have old: "trace_start q u (sd_traces db) = (if ?old = {} then None else Some (Min ?old))"
      using inv by (simp add: traces_match_def Let_def)
    show ?thesis
    proof (cases "if q = p then map_of ?tm u else None")
      case None
      then have "?new = {}" using build_trace_map_spec [of inserted u] proj by (auto simp: span_starts_def split: if_splits)
      with None old start [of q u] show ?thesis by (simp add: write_batch_SomeD(2) [OF w] span_starts_append)
    next
      case (Some s)
      then have "q = p" "map_of ?tm u = Some s" by (auto split: if_splits)
      with build_trace_map_spec [of inserted u]
      have s: "s \<in> set inserted" "sp_trace_id s = u" "\<forall>x \<in> set inserted. sp_trace_id x = u \<longrightarrow> sp_started_at s \<le> sp_started_at x"
        by auto
      have "sp_started_at s \<in> ?new" using s(1,2) proj \<open>q = p\<close> by (auto simp: span_starts_def)
      moreover have "\<forall>t \<in> ?new. sp_started_at s \<le> t" using s(3) by (auto simp: span_starts_def)
      ultimately have "Min ?new = sp_started_at s" "?new \<noteq> {}" by (auto intro: Min_eqI)
      with Some old start [of q u] show ?thesis
        by (auto simp: write_batch_SomeD(2) [OF w] span_starts_append Min_Un)
    qed
  qed
  with single starts show ?thesis by (auto simp: traces_match_def split: option.splits)
qed

text \<open>The rows of the traces written by a batch are kept, with an earlier start at most; all other
  rows stay as they are; and the batch's traces have a row that is not later than their spans.\<close>

definition trace_covered :: "uuid \<Rightarrow> time \<Rightarrow> trace_row list \<Rightarrow> bool" where
  "trace_covered tid t rows \<longleftrightarrow> (\<exists>r \<in> set rows. tr_id r = tid \<and> tr_started_at r \<le> t)"

definition traces_kept :: "trace_row list \<Rightarrow> trace_row list \<Rightarrow> bool" where
  "traces_kept rows rows' \<longleftrightarrow>
     (\<forall>r \<in> set rows. \<exists>t \<le> tr_started_at r. r\<lparr>tr_started_at := t\<rparr> \<in> set rows')"

definition other_traces :: "uuid \<Rightarrow> uuid set \<Rightarrow> trace_row list \<Rightarrow> trace_row list" where
  "other_traces p T rows = filter (\<lambda>r. \<not> (tr_project_id r = p \<and> tr_id r \<in> T)) rows"

lemma traces_kept_refl: "traces_kept rows rows"
  unfolding traces_kept_def
proof
  fix r :: trace_row assume "r \<in> set rows"
  then have "r\<lparr>tr_started_at := tr_started_at r\<rparr> \<in> set rows" by simp
  then show "\<exists>t \<le> tr_started_at r. r\<lparr>tr_started_at := t\<rparr> \<in> set rows" by blast
qed

lemma traces_kept_trans: "traces_kept a b \<Longrightarrow> traces_kept b c \<Longrightarrow> traces_kept a c"
  unfolding traces_kept_def
proof
  fix r assume ab: "\<forall>r \<in> set a. \<exists>t \<le> tr_started_at r. r\<lparr>tr_started_at := t\<rparr> \<in> set b"
    and bc: "\<forall>r \<in> set b. \<exists>t \<le> tr_started_at r. r\<lparr>tr_started_at := t\<rparr> \<in> set c" and r: "r \<in> set a"
  from ab r obtain t where t: "t \<le> tr_started_at r" "r\<lparr>tr_started_at := t\<rparr> \<in> set b" by blast
  with bc obtain u where "u \<le> t" "r\<lparr>tr_started_at := u\<rparr> \<in> set c" by fastforce
  with t(1) show "\<exists>t \<le> tr_started_at r. r\<lparr>tr_started_at := t\<rparr> \<in> set c" by (auto intro: order_trans)
qed

lemma trace_covered_kept: "trace_covered u v rows \<Longrightarrow> traces_kept rows rows' \<Longrightarrow> trace_covered u v rows'"
  unfolding trace_covered_def traces_kept_def
proof (elim bexE conjE)
  fix r assume kept: "\<forall>r \<in> set rows. \<exists>t \<le> tr_started_at r. r\<lparr>tr_started_at := t\<rparr> \<in> set rows'"
    and r: "r \<in> set rows" "tr_id r = u" "tr_started_at r \<le> v"
  from kept r(1) obtain t where "t \<le> tr_started_at r" "r\<lparr>tr_started_at := t\<rparr> \<in> set rows'" by blast
  with r(2,3) show "\<exists>r \<in> set rows'. tr_id r = u \<and> tr_started_at r \<le> v"
    by (intro bexI [of _ "r\<lparr>tr_started_at := t\<rparr>"]) simp_all
qed

lemma ensure_trace_row_frame:
  assumes "ensure_trace_row p tid t st rows = Some (start, rows')" and "tid \<in> T"
  shows "other_traces p T rows' = other_traces p T rows \<and> traces_kept rows rows' \<and> trace_covered tid t rows'"
proof -
  let ?own = "\<lambda>r. tr_project_id r = p \<and> tr_id r = tid"
  show ?thesis
  proof (cases "sort_key tr_started_at (filter ?own rows)")
    case Nil
    with assms(1) have rows': "rows' = fst (insert_new trace_pk \<lparr>tr_id = tid, tr_project_id = p, tr_started_at = t, tr_ended_at = None,
        tr_total_tokens = 0, tr_total_cost_usd = 0, tr_span_count = 0, tr_status = st\<rparr> rows)"
      by (auto simp: ensure_trace_row_def)
    show ?thesis
      using assms(2) traces_kept_refl [of rows] unfolding rows'
      by (auto simp: insert_new_def other_traces_def trace_covered_def trace_pk_def traces_kept_def)
  next
    case (Cons r rs)
    have "r \<in> set (sort_key tr_started_at (filter ?own rows))" unfolding Cons by simp
    then have r: "r \<in> set rows" "?own r" by simp_all
    show ?thesis
    proof (cases "tr_started_at r \<le> t")
      case True
      with assms(1) Cons r show ?thesis
        by (auto simp: ensure_trace_row_def trace_covered_def traces_kept_refl)
    next
      case False
      with assms(1) Cons have rows': "rows' = update_where (\<lambda>x. ?own x \<and> tr_started_at x = tr_started_at r)
          (\<lambda>x. x\<lparr>tr_started_at := t\<rparr>) rows"
        by (auto simp: ensure_trace_row_def split: if_splits)
      have "other_traces p T rows' = other_traces p T rows"
        using assms(2) unfolding rows' other_traces_def by (induction rows) (auto simp: update_where_Cons)
      moreover have "traces_kept rows rows'"
        unfolding traces_kept_def
      proof
        fix x assume x: "x \<in> set rows"
        show "\<exists>u \<le> tr_started_at x. x\<lparr>tr_started_at := u\<rparr> \<in> set rows'"
        proof (cases "?own x \<and> tr_started_at x = tr_started_at r")
          case True
          with x False show ?thesis by (intro exI [of _ t]) (auto simp: rows' in_update_where)
        next
          case False
          then have "x\<lparr>tr_started_at := tr_started_at x\<rparr> \<in> set rows'"
            using x by (auto simp: rows' in_update_where intro!: bexI [of _ x])
          then show ?thesis by blast
        qed
      qed
      moreover have "r\<lparr>tr_started_at := t\<rparr> \<in> set rows'"
        using r by (auto simp: rows' in_update_where)
      then have "trace_covered tid t rows'" 
        using r(2) unfolding trace_covered_def by (intro bexI [of _ "r\<lparr>tr_started_at := t\<rparr>"]) simp_all
      ultimately show ?thesis by blast
    qed
  qed
qed

lemma ensure_trace_rows_frame:
  "ensure_trace_rows p tm rows = Some (starts, rows') \<Longrightarrow> fst ` set tm \<subseteq> T \<Longrightarrow>
   other_traces p T rows' = other_traces p T rows \<and> traces_kept rows rows' \<and>
   (\<forall>(tid, s) \<in> set tm. trace_covered tid (sp_started_at s) rows')"
proof (induction tm arbitrary: rows starts)
  case Nil
  then show ?case by (simp add: traces_kept_refl)
next
  case (Cons x tm)
  obtain tid s where x: "x = (tid, s)" by (cases x)
  with Cons.prems(1) obtain start rows1 starts1
    where one: "ensure_trace_row p tid (sp_started_at s) (sp_status s) rows = Some (start, rows1)"
      and rest: "ensure_trace_rows p tm rows1 = Some (starts1, rows')"
    by (auto split: option.splits)
  have "tid \<in> T" using Cons.prems(2) x by simp
  from ensure_trace_row_frame [OF one this] Cons.IH [OF rest] Cons.prems(2) x show ?case
    by (auto intro: traces_kept_trans trace_covered_kept)
qed

text \<open>What a written batch leaves in the four tables.\<close>

definition batch_written :: "uuid \<Rightarrow> span_row list \<Rightarrow> span_db \<Rightarrow> span_db \<Rightarrow> bool" where
  "batch_written p inserted db db' \<longleftrightarrow>
     sd_spans db' = sd_spans db @ inserted \<and>
     (\<exists>events. sd_outbox db' = sd_outbox db @ events \<and> distinct (map outbox_key events) \<and>
        outbox_key ` set events = (\<lambda>s. (p, OUTBOX_SPAN_INSERTED, sp_id s)) ` set inserted - outbox_key ` set (sd_outbox db) \<and>
        (\<forall>e \<in> set events. ob_status e = OutPending \<and> ob_attempts e = 0 \<and>
           (\<exists>s \<in> set inserted. ob_event_key e = sp_id s \<and> ob_payload e = span_event_payload s))) \<and>
     sd_buckets db' = update_span_metric_buckets p inserted (sd_buckets db) \<and>
     other_traces p (sp_trace_id ` set inserted) (sd_traces db') = other_traces p (sp_trace_id ` set inserted) (sd_traces db) \<and>
     traces_kept (sd_traces db) (sd_traces db') \<and>
     (\<forall>s \<in> set inserted. trace_covered (sp_trace_id s) (sp_started_at s) (sd_traces db'))"

lemma fold_enqueue_events:
  "\<exists>events. fold (\<lambda>s. enqueue_outbox_event now (ids (sp_id s)) p OUTBOX_SPAN_INSERTED (sp_id s) (span_event_payload s)) ss rows =
      rows @ events \<and> distinct (map outbox_key events) \<and>
     outbox_key ` set events = (\<lambda>s. (p, OUTBOX_SPAN_INSERTED, sp_id s)) ` set ss - outbox_key ` set rows \<and>
     (\<forall>e \<in> set events. ob_status e = OutPending \<and> ob_attempts e = 0 \<and>
        (\<exists>s \<in> set ss. ob_event_key e = sp_id s \<and> ob_payload e = span_event_payload s))"
proof (induction ss arbitrary: rows)
  case (Cons s ss)
  let ?k = "(p, OUTBOX_SPAN_INSERTED, sp_id s)"
  let ?e = "\<lparr>ob_id = ids (sp_id s), ob_project_id = p, ob_event_type = OUTBOX_SPAN_INSERTED, ob_event_key = sp_id s,
        ob_payload = span_event_payload s, ob_status = OutPending, ob_attempts = 0, ob_available_at = now, ob_locked_at = None,
        ob_delivered_at = None, ob_last_error = None, ob_created_at = now, ob_updated_at = now\<rparr>"
  have key: "outbox_key ?e = ?k" by (simp add: outbox_key_def)
  define new where "new = (if ?k \<in> outbox_key ` set rows then [] else [?e])"
  have one: "enqueue_outbox_event now (ids (sp_id s)) p OUTBOX_SPAN_INSERTED (sp_id s) (span_event_payload s) rows = rows @ new"
    by (simp add: enqueue_outbox_event_def insert_new_def key new_def)
  from Cons.IH [of "rows @ new"] obtain events where
    ev: "fold (\<lambda>s. enqueue_outbox_event now (ids (sp_id s)) p OUTBOX_SPAN_INSERTED (sp_id s) (span_event_payload s)) ss (rows @ new) =
      (rows @ new) @ events" "distinct (map outbox_key events)"
      "outbox_key ` set events = (\<lambda>s. (p, OUTBOX_SPAN_INSERTED, sp_id s)) ` set ss - outbox_key ` set (rows @ new)"
      "\<forall>e \<in> set events. ob_status e = OutPending \<and> ob_attempts e = 0 \<and>
        (\<exists>s \<in> set ss. ob_event_key e = sp_id s \<and> ob_payload e = span_event_payload s)" by blast
  show ?case
  proof (intro exI [of _ "new @ events"] conjI)
    show "distinct (map outbox_key (new @ events))"
    proof -
      have "?k \<notin> outbox_key ` set events" if "new = [?e]" using ev(3) that key by auto
      then show ?thesis using ev(2) by (cases "?k \<in> outbox_key ` set rows") (auto simp: new_def key)
    qed
    show "outbox_key ` set (new @ events) = (\<lambda>s. (p, OUTBOX_SPAN_INSERTED, sp_id s)) ` set (s # ss) - outbox_key ` set rows"
      using ev(3) by (auto simp: new_def key split: if_splits)
    show "\<forall>e \<in> set (new @ events). ob_status e = OutPending \<and> ob_attempts e = 0 \<and>
        (\<exists>s \<in> set (s # ss). ob_event_key e = sp_id s \<and> ob_payload e = span_event_payload s)"
      using ev(4) by (auto simp: new_def)
  qed (simp add: one ev(1))
qed simp

lemma write_batch_written:
  assumes "write_batch env p prepared db = Some (inserted, starts, db')"
  shows "batch_written p inserted db db'"
proof -
  let ?tm = "build_trace_map inserted" and ?T = "sp_trace_id ` set inserted"
  have keys: "fst ` set ?tm \<subseteq> ?T"
  proof
    fix u assume "u \<in> fst ` set ?tm"
    then obtain s where "map_of ?tm u = Some s" by (metis map_of_eq_None_iff not_None_eq)
    with build_trace_map_spec [of inserted u] show "u \<in> ?T" by auto
  qed
  note frame = ensure_trace_rows_frame [OF write_batch_SomeD(3) [OF assms] keys]
  have "trace_covered (sp_trace_id s) (sp_started_at s) (sd_traces db')" if s: "s \<in> set inserted" for s
  proof -
    from build_trace_map_spec [of inserted "sp_trace_id s"] s
    obtain s0 where "map_of ?tm (sp_trace_id s) = Some s0" "sp_started_at s0 \<le> sp_started_at s"
      by (auto split: option.splits)
    with frame show ?thesis by (force simp: trace_covered_def dest: map_of_SomeD)
  qed
  with frame show ?thesis
    unfolding batch_written_def write_batch_SomeD(2,4,5) [OF assms]
    using fold_enqueue_events [of "we_now env" "we_event_id env" p inserted "sd_outbox db"] by blast
qed

text \<open>
  C13: A batch is written completely or not at all, in all four tables. When the run does not
  commit it raises and spans, traces, outbox and buckets are what they were. Otherwise, also when
  a later step raises, the spans table gains exactly the prepared spans whose id and start were not
  there, each once; every one of them has its event in the outbox, pending or there before, and no
  other event is added; the buckets are updated by exactly these spans; each of their traces has a
  row that starts no later; and all other rows are untouched.
\<close>

theorem batch_inserts_exactly_new_spans:
  assumes "process_span_batch Q env row b p spans st = (out, st')"
  shows "(\<exists>e. out = Raise e) \<and> ws_db st' = ws_db st \<or>
    (\<exists>prepared inserted.
       batch_written p inserted (ws_db st) (ws_db st') \<and> set inserted \<subseteq> set prepared \<and>
       distinct (map span_identity inserted) \<and>
       identities inserted = identities prepared - identities (sd_spans (ws_db st)) \<and>
       fst (prepare_spans env (load_payload_privacy_settings row) p spans
         \<lparr>pw_intervals = (\<lambda>_. []), pw_redis = ws_redis st, pw_s3 = ws_s3 st\<rparr>) = Inr (prepared, length spans - length prepared))"
  using assms
proof (cases rule: process_cases)
  case (uncommitted e)
  then show ?thesis by blast
next
  case (committed prepared failed inserted starts w st1)
  have "failed = length spans - length prepared" using prepare_spans_length [OF committed(1)] by simp
  with committed(1) write_batch_written [OF committed(2)] write_batch_SomeD(1) [OF committed(2)]
    fresh_spans_distinct set_fresh_spans fresh_spans_identities
  show ?thesis by (intro disjI2 exI [of _ prepared] exI [of _ inserted]) auto
qed

text \<open>
  C16: Every trace keeps exactly one row, which starts when its earliest span starts. A
  run of the worker preserves this, in whatever order and batches the spans of a trace arrive
  and whatever the outcome, provided no other project has a trace with an id of this batch.
\<close>

theorem process_keeps_trace_starts:
  assumes "process_span_batch Q env row b p spans st = (out, st')" and "traces_match (ws_db st)"
    and "we_uuid env p = Some p"
    and "ids_separate p {tid. \<exists>m \<in> set spans. \<exists>i. sm_trace_id m = Some i \<and> we_uuid env i = Some tid} (sd_traces (ws_db st))"
  shows "traces_match (ws_db st')"
  using assms(1)
proof (cases rule: process_cases)
  case (committed prepared failed inserted starts w st1)
  have ins: "set inserted \<subseteq> set prepared" using write_batch_SomeD(1) [OF committed(2)] set_fresh_spans by simp
  then have "sp_project_id s = p" if "s \<in> set inserted" for s
    using that prepare_spans_Inr [OF committed(1)] assms(3) by force
  moreover have "ids_separate p (sp_trace_id ` set inserted) (sd_traces (ws_db st))"
    using assms(4) ins prepare_spans_trace_ids [OF committed(1)] by (fastforce simp: ids_separate_def)
  ultimately show ?thesis using write_batch_traces [OF committed(2) assms(2)] by blast
qed (use assms(2) in simp)

text \<open>
  The aggregates of a trace cover all its spans. When traces and spans agree, the
  task \<^verbatim>\<open>update_trace_aggregates\<close>, given the start of the trace's row, sets the span count,
  tokens, cost and status of that row to those of all spans of the trace, keeps the agreement
  and changes no other trace.
\<close>

theorem trace_totals_cover_all_spans:
  assumes "traces_match db" and "trace_start p tid (sd_traces db) = Some t0"
  defines "db' \<equiv> update_trace_aggregates p tid t0 db"
    and "own \<equiv> filter (\<lambda>s. sp_project_id s = p \<and> sp_trace_id s = tid) (sd_spans db)"
  shows "traces_match db' \<and>
    map (\<lambda>r. (tr_span_count r, tr_total_tokens r, tr_total_cost_usd r, tr_status r)) (own_traces p tid (sd_traces db')) =
      [(int (length own), sum_list (map (\<lambda>s. sp_input_tokens s + sp_output_tokens s) own),
        sum_list (map sp_cost_usd own), if \<exists>s \<in> set own. sp_status s = ''error'' then ''error'' else ''ok'')] \<and>
    (\<forall>q u. (q, u) \<noteq> (p, tid) \<longrightarrow> own_traces q u (sd_traces db') = own_traces q u (sd_traces db))"
proof -
  let ?T = "span_starts p tid (sd_spans db)"
  have t0: "?T \<noteq> {}" "t0 = Min ?T" using assms(1,2) by (auto simp: traces_match_def Let_def split: if_splits)
  have "t0 \<le> sp_started_at s" if "s \<in> set (sd_spans db)" "sp_project_id s = p" "sp_trace_id s = tid" for s
    unfolding t0(2) using that by (intro Min_le) (auto simp: span_starts_def)
  then have own: "filter (\<lambda>s. sp_project_id s = p \<and> sp_trace_id s = tid \<and> t0 \<le> sp_started_at s) (sd_spans db) = own"
    unfolding own_def by (intro filter_cong) auto
  define f where "f = (\<lambda>r. r\<lparr>tr_total_cost_usd := sum_list (map sp_cost_usd own),
      tr_total_tokens := sum_list (map (\<lambda>s. sp_input_tokens s + sp_output_tokens s) own),
      tr_span_count := int (length own),
      tr_ended_at := (if own = [] then None else Some (Max (set (map span_end own)))),
      tr_status := (if \<exists>s \<in> set own. sp_status s = ''error'' then ''error'' else ''ok'')\<rparr> :: trace_row)"
  have db': "db' = db\<lparr>sd_traces := update_where
      (\<lambda>r. tr_project_id r = p \<and> tr_id r = tid \<and> tr_started_at r = t0) f (sd_traces db)\<rparr>"
    by (simp add: db'_def update_trace_aggregates_def own f_def)
  have fid: "tr_project_id (f r) = tr_project_id r" "tr_id (f r) = tr_id r" for r by (simp_all add: f_def)
  have own': "own_traces q u (update_where (\<lambda>r. tr_project_id r = p \<and> tr_id r = tid \<and> tr_started_at r = t0) f rows) =
      (if (q, u) = (p, tid) then map (\<lambda>r. if tr_started_at r = t0 then f r else r) (own_traces p tid rows)
       else own_traces q u rows)" for q u rows
    unfolding own_traces_def by (induction rows) (auto simp: update_where_Cons fid)
  obtain r where r: "own_traces p tid (sd_traces db) = [r]" "tr_started_at r = t0"
  proof (cases "own_traces p tid (sd_traces db)")
    case Nil
    with assms(2) show ?thesis by (simp add: trace_start_def)
  next
    case (Cons r rs)
    moreover have "rs = []" by (rule own_traces_single(1) [OF _ Cons]) (use assms(1) in \<open>simp add: traces_match_def\<close>)
    ultimately show ?thesis using that assms(2) by (simp add: trace_start_def)
  qed
  have "trace_start q u (sd_traces db') = trace_start q u (sd_traces db) \<and>
      length (own_traces q u (sd_traces db')) = length (own_traces q u (sd_traces db))" for q u
    using r by (simp add: db' trace_start_def own') (simp add: f_def)
  then have "traces_match db'" using assms(1) by (simp add: traces_match_def db')
  then show ?thesis using r by (simp add: db' own') (simp add: f_def)
qed

section \<open>Examples\<close>

definition ex_worker :: "(pricing mem, unit, unit, unit) worker_env" where
  "ex_worker = \<lparr>we_now = 100, we_pricing = mem_redis, we_prices = [price_v1], we_cost_raises = (\<lambda>_. None),
     we_parse_dt = (\<lambda>_. Inr 61000000), we_uuid = Some, we_dumps = (\<lambda>_. Some []), we_json_text = (\<lambda>_. ''{}''), we_compress = (\<lambda>_. ()),
     we_put = (\<lambda>s _ _. (None, s)), we_event_id = (\<lambda>i. i), we_db_raises = None, we_kiq_deliver = None,
     we_kiq_aggregate = (\<lambda>_. None), we_kiq_anomaly = None\<rparr>"

definition ex_msg :: "string \<Rightarrow> span_msg" where
  "ex_msg i = \<lparr>sm_span_id = Some i, sm_trace_id = Some ''t1'', sm_parent_span_id = None, sm_name = None,
     sm_provider = Some ''openai'', sm_model = Some ''gpt'', sm_input_messages = None, sm_output = None,
     sm_error = Some ''boom'', sm_input_tokens = Some 120, sm_output_tokens = Some 30, sm_latency_ms = Some 250,
     sm_started_at = Some ''1970-01-01T00:01:01'', sm_metadata = None\<rparr>"

definition ex_db :: span_db where
  "ex_db = \<lparr>sd_spans = [], sd_traces = [], sd_outbox = [], sd_buckets = []\<rparr>"

definition ex_ws :: "(pricing mem, batch_status mem, unit) worker_state" where
  "ex_ws = \<lparr>ws_db = ex_db, ws_status = [], ws_redis = [], ws_s3 = (), ws_tasks = []\<rparr>"

definition ex_batch :: "span_msg list" where
  "ex_batch = [ex_msg ''s1'', ex_msg ''s2'', ex_msg ''s1'']"

definition ex_run :: "unit outcome \<times> (pricing mem, batch_status mem, unit) worker_state" where
  "ex_run = process_span_batch mem_redis ex_worker None ''b1'' ''p1'' ex_batch ex_ws"

definition ex_after :: "(pricing mem, batch_status mem, unit) worker_state" where
  "ex_after = snd ex_run"

lemma ex_run_returns: "process_span_batch mem_redis ex_worker None ''b1'' ''p1'' ex_batch ex_ws = (Ret (), ex_after)"
proof -
  have "fst ex_run = Ret ()" by code_simp
  then show ?thesis unfolding ex_after_def ex_run_def by (metis prod.collapse)
qed

lemma ex_run_costs: "map sp_cost_usd (sd_spans (ws_db ex_after)) = [60000, 60000]"
  by code_simp

lemma ex_db_ok: "buckets_match (ws_db ex_ws)" "traces_match (ws_db ex_ws)" "ids_separate p T (sd_traces (ws_db ex_ws))"
  "we_uuid ex_worker p = Some p"
  by (simp_all add: ex_ws_def ex_db_def ex_worker_def buckets_match_def cell_def values_of_def traces_match_def
      own_traces_def trace_start_def span_starts_def ids_separate_def)

theorem batch_inserts_exactly_new_spans_witness:
  "distinct (map span_identity (sd_spans (ws_db ex_after)))"
  using batch_inserts_exactly_new_spans [OF ex_run_returns] by (auto simp: ex_ws_def ex_db_def batch_written_def)

theorem reprocessing_changes_nothing_witness:
  "ws_db (snd (process_span_batch mem_redis (ex_worker\<lparr>we_now := 900, we_prices := []\<rparr>) None ''b2'' ''p1'' ex_batch ex_after))
     = ws_db ex_after"
proof -
  let ?prep = "fst (prepare_spans ex_worker (load_payload_privacy_settings None) ''p1'' ex_batch
         \<lparr>pw_intervals = (\<lambda>_. []), pw_redis = ws_redis ex_ws, pw_s3 = ws_s3 ex_ws\<rparr>)"
  have "(case ?prep of Inl _ \<Rightarrow> False | Inr (_, n) \<Rightarrow> n = 0)" by code_simp
  then obtain prepared where prep: "?prep = Inr (prepared, 0)" by (auto split: sum.splits)
  let ?run = "process_span_batch mem_redis (ex_worker\<lparr>we_now := 900, we_prices := []\<rparr>) None ''b2'' ''p1'' ex_batch ex_after"
  have run: "?run = (fst ?run, snd ?run)" by simp
  show ?thesis
    by (rule reprocessing_changes_nothing [OF ex_run_returns prep _ _ refl run]) simp_all
qed

theorem process_keeps_buckets_exact_witness:
  "cell mb_span_count (sd_buckets (ws_db ex_after)) (''p1'', 60000000) = 2"
proof -
  have "buckets_match (ws_db ex_after)"
    by (rule process_keeps_buckets_exact [OF ex_run_returns ex_db_ok(1) ex_db_ok(4)])
  then have "cell mb_span_count (sd_buckets (ws_db ex_after)) (''p1'', 60000000) =
      mv_span_count (values_of (filter (in_minute ''p1'' 60000000) (sd_spans (ws_db ex_after))))"
    by (simp add: buckets_match_def Let_def)
  also have "\<dots> = 2" by code_simp
  finally show ?thesis .
qed

theorem status_reports_inserted_rows_witness:
  "\<exists>bs. status_get mem_redis 100 ''p1'' ''b1'' (ws_status ex_after) = Some bs \<and> bs_processed bs = 2"
proof -
  have "redis_store mem_redis" by unfold_locales
  from status_reports_inserted_rows [OF this ex_run_returns] ex_run_costs show ?thesis
    by (auto simp: ex_ws_def ex_db_def ex_worker_def dest: arg_cong [where f = length])
qed

theorem process_keeps_trace_starts_witness:
  "trace_start ''p1'' ''t1'' (sd_traces (ws_db ex_after)) = Some 61000000"
proof -
  have "traces_match (ws_db ex_after)"
    by (rule process_keeps_trace_starts [OF ex_run_returns ex_db_ok(2) ex_db_ok(4) ex_db_ok(3)])
  moreover have "map (\<lambda>s. (sp_project_id s, sp_trace_id s, sp_started_at s)) (sd_spans (ws_db ex_after)) =
      [(''p1'', ''t1'', 61000000), (''p1'', ''t1'', 61000000)]" by code_simp
  then have "span_starts ''p1'' ''t1'' (sd_spans (ws_db ex_after)) = {61000000}"
    by (auto simp: span_starts_def)
  ultimately show ?thesis by (simp add: traces_match_def Let_def)
qed

theorem trace_totals_cover_all_spans_witness:
  "map tr_span_count (own_traces ''p1'' ''t1'' (sd_traces (update_trace_aggregates ''p1'' ''t1'' 61000000 (ws_db ex_after)))) = [2]"
proof -
  have "traces_match (ws_db ex_after)"
    unfolding traces_match_def Let_def
  proof (intro allI)
    fix p tid
    have t: "map (\<lambda>r. (tr_project_id r, tr_id r, tr_started_at r)) (sd_traces (ws_db ex_after)) = [(''p1'', ''t1'', 61000000)]"
      and s: "map (\<lambda>s. (sp_project_id s, sp_trace_id s, sp_started_at s)) (sd_spans (ws_db ex_after)) =
        [(''p1'', ''t1'', 61000000), (''p1'', ''t1'', 61000000)]" by code_simp+
    from s have "span_starts p tid (sd_spans (ws_db ex_after)) = (if p = ''p1'' \<and> tid = ''t1'' then {61000000} else {})"
      by (auto simp: span_starts_def)
    with t show "length (own_traces p tid (sd_traces (ws_db ex_after))) \<le> 1 \<and>
        trace_start p tid (sd_traces (ws_db ex_after)) =
          (if span_starts p tid (sd_spans (ws_db ex_after)) = {} then None
           else Some (Min (span_starts p tid (sd_spans (ws_db ex_after)))))"
      by (auto simp: own_traces_def trace_start_def)
  qed
  moreover have "trace_start ''p1'' ''t1'' (sd_traces (ws_db ex_after)) = Some 61000000" by code_simp
  ultimately have "map (\<lambda>r. (tr_span_count r, tr_total_tokens r, tr_total_cost_usd r, tr_status r))
      (own_traces ''p1'' ''t1'' (sd_traces (update_trace_aggregates ''p1'' ''t1'' 61000000 (ws_db ex_after)))) =
    (let own = filter (\<lambda>s. sp_project_id s = ''p1'' \<and> sp_trace_id s = ''t1'') (sd_spans (ws_db ex_after)) in
      [(int (length own), sum_list (map (\<lambda>s. sp_input_tokens s + sp_output_tokens s) own),
        sum_list (map sp_cost_usd own), if \<exists>s \<in> set own. sp_status s = ''error'' then ''error'' else ''ok'')])"
    unfolding Let_def using trace_totals_cover_all_spans [of "ws_db ex_after" "''p1''" "''t1''" 61000000] by blast
  moreover have "length (filter (\<lambda>s. sp_project_id s = ''p1'' \<and> sp_trace_id s = ''t1'') (sd_spans (ws_db ex_after))) = 2"
    by code_simp
  ultimately show ?thesis by (auto simp: Let_def)
qed

end
