(* ===== verification/Rate_Limit.thy ===== *)
theory Rate_Limit
  imports Obs_Prelude
begin

text \<open>
  The sliding-window limiters of \<^verbatim>\<open>backend/app/core/ratelimit.py\<close>. Each request is a member of a
  sorted set in Redis, scored by its time; one transaction drops the members older than the
  window, adds the request and counts. The server's commands are a parameter, a record of
  operations; the locale states what Redis documents of them over the set of entries a key
  has at an instant. The reference instance keeps entries and expiry times in a list.
\<close>

section \<open>Sorted sets\<close>

record 'z zset_ops =
  z_remrangebyscore :: "time \<Rightarrow> string \<Rightarrow> time \<Rightarrow> time \<Rightarrow> 'z \<Rightarrow> 'z"
  z_add :: "time \<Rightarrow> string \<Rightarrow> string \<Rightarrow> time \<Rightarrow> 'z \<Rightarrow> 'z"
  z_card :: "time \<Rightarrow> string \<Rightarrow> 'z \<Rightarrow> nat"
  z_expire :: "time \<Rightarrow> string \<Rightarrow> int \<Rightarrow> 'z \<Rightarrow> 'z"

type_synonym zentry = "string \<times> time"

locale redis_zset =
  fixes Z :: "'z zset_ops" and entries :: "time \<Rightarrow> string \<Rightarrow> 'z \<Rightarrow> zentry set"
  assumes entries_finite: "finite (entries now k z)"
    and entries_rem: "entries now k (z_remrangebyscore Z now k lo hi z) = {e \<in> entries now k z. \<not> (lo \<le> snd e \<and> snd e \<le> hi)}"
    and entries_add: "entries now k (z_add Z now k m s z) = insert (m, s) {e \<in> entries now k z. fst e \<noteq> m}"
    and card_entries: "z_card Z now k z = card (entries now k z)"
    and entries_expire: "now \<le> now' \<Longrightarrow>
          entries now' k (z_expire Z now k ttl z) = (if now' < now + seconds ttl then entries now k z else {})"
    and entries_other: "k' \<noteq> k \<Longrightarrow> entries now' k' (z_remrangebyscore Z now k lo hi z) = entries now' k' z"
      "k' \<noteq> k \<Longrightarrow> entries now' k' (z_add Z now k m s z) = entries now' k' z"
      "k' \<noteq> k \<Longrightarrow> entries now' k' (z_expire Z now k ttl z) = entries now' k' z"

section \<open>The limiters\<close>

record limit_headers =
  rh_limit :: int
  rh_remaining :: int

text \<open>The member \<^verbatim>\<open>f"{now}:{id(object())}"\<close> is given by the caller.\<close>

definition sliding_check ::
  "'z zset_ops \<Rightarrow> string \<Rightarrow> int \<Rightarrow> int \<Rightarrow> time \<Rightarrow> string \<Rightarrow> 'z \<Rightarrow> (http_error + unit) \<times> limit_headers \<times> 'z" where
  "sliding_check Z key window limit now member z =
     (let z1 = z_remrangebyscore Z now key 0 (now - seconds window) z;
          z2 = z_add Z now key member now z1;
          count = int (z_card Z now key z2);
          z3 = z_expire Z now key (window + 1) z2;
          headers = \<lparr>rh_limit = limit, rh_remaining = max 0 (limit - count)\<rparr>
      in ((if count > limit then Inl (HTTPException 429 ''rate_limit_exceeded'') else Inr ()), headers, z3))"

definition project_limit_key :: "uuid \<Rightarrow> string" where
  "project_limit_key project_id = ''ratelimit:'' @ project_id"

definition rate_limiter_check ::
  "'z zset_ops \<Rightarrow> int \<Rightarrow> time \<Rightarrow> string \<Rightarrow> uuid \<Rightarrow> 'z \<Rightarrow> (http_error + unit) \<times> limit_headers \<times> 'z" where
  "rate_limiter_check Z limit now member project_id = sliding_check Z (project_limit_key project_id) 60 limit now member"

definition auth_limit_key :: "(string \<Rightarrow> string) \<Rightarrow> string \<Rightarrow> string \<Rightarrow> string" where
  "auth_limit_key sha action identifier = ''ratelimit:auth:'' @ action @ '':'' @ sha identifier"

definition auth_rate_limiter_check ::
  "'z zset_ops \<Rightarrow> (string \<Rightarrow> string) \<Rightarrow> int \<Rightarrow> int \<Rightarrow> time \<Rightarrow> string \<Rightarrow> string \<Rightarrow> string \<Rightarrow> 'z
     \<Rightarrow> (http_error + unit) \<times> limit_headers \<times> 'z" where
  "auth_rate_limiter_check Z sha window limit now member identifier action =
     sliding_check Z (auth_limit_key sha action identifier) window limit now member"

section \<open>What is admitted\<close>

text \<open>A request: its key, time and member. \<open>run_limiter\<close> collects the decisions of a sequence.\<close>

type_synonym limit_request = "string \<times> time \<times> string"

fun run_limiter :: "'z zset_ops \<Rightarrow> int \<Rightarrow> int \<Rightarrow> limit_request list \<Rightarrow> 'z \<Rightarrow> bool list" where
  "run_limiter Z window limit [] z = []"
| "run_limiter Z window limit ((k, t, m) # rs) z =
     (case sliding_check Z k window limit t m z of
        (res, headers, z') \<Rightarrow> (res = Inr ()) # run_limiter Z window limit rs z')"

text \<open>Specification: a request is admitted when fewer than \<open>limit\<close> requests of its key, admitted or
  not, came within the window before it.\<close>

definition in_window :: "int \<Rightarrow> string \<Rightarrow> time \<Rightarrow> limit_request \<Rightarrow> bool" where
  "in_window window k t r \<longleftrightarrow> fst r = k \<and> t - seconds window < fst (snd r)"

fun window_decisions :: "int \<Rightarrow> int \<Rightarrow> limit_request list \<Rightarrow> limit_request list \<Rightarrow> bool list" where
  "window_decisions window limit past [] = []"
| "window_decisions window limit past ((k, t, m) # rs) =
     (int (length (filter (in_window window k t) past)) < limit)
       # window_decisions window limit (past @ [(k, t, m)]) rs"

context redis_zset begin

text \<open>What a key holds after the requests \<open>past\<close>: inside the window, exactly those.\<close>

definition tracks :: "int \<Rightarrow> limit_request list \<Rightarrow> time \<Rightarrow> 'z \<Rightarrow> bool" where
  "tracks window past recent z \<longleftrightarrow>
     (\<forall>now k. recent \<le> now \<longrightarrow> entries now k z \<subseteq> {(m, t). (k, t, m) \<in> set past} \<and>
        {(m, t). (k, t, m) \<in> set past \<and> now - seconds window < t} \<subseteq> entries now k z)"

lemma tracks_window:
  assumes "tracks window past recent z" and "recent \<le> now" and "\<forall>r \<in> set past. 0 \<le> fst (snd r)"
  shows "entries now k (z_remrangebyscore Z now k 0 (now - seconds window) z) =
    {(m, t). (k, t, m) \<in> set past \<and> now - seconds window < t}"
  using assms unfolding entries_rem tracks_def by fastforce

lemma tracks_step:
  assumes "tracks window past recent z" and "recent \<le> t" and "0 \<le> window"
    and "\<forall>r \<in> set past. 0 \<le> fst (snd r) \<and> fst (snd r) \<le> t \<and> snd (snd r) \<noteq> m"
    and "sliding_check Z k window limit t m z = (res, headers, z')"
    and "distinct (map (\<lambda>r. snd (snd r)) past)"
  shows "tracks window (past @ [(k, t, m)]) t z'" and "(res = Inr ()) = (int (length (filter (in_window window k t) past)) < limit)"
proof -
  define z1 where "z1 = z_remrangebyscore Z t k 0 (t - seconds window) z"
  have e1: "entries t k z1 = {(n, u). (k, u, n) \<in> set past \<and> t - seconds window < u}"
    unfolding z1_def by (rule tracks_window [OF assms(1,2)]) (use assms(4) in blast)
  have new: "m \<notin> fst ` entries t k z1" unfolding e1 using assms(4) by force
  define z2 where "z2 = z_add Z t k m t z1"
  have e2: "entries t k z2 = insert (m, t) (entries t k z1)"
    unfolding z2_def entries_add using new by force
  have z': "z' = z_expire Z t k (window + 1) z2"
    using assms(5) by (simp add: sliding_check_def z1_def z2_def Let_def)
  show "tracks window (past @ [(k, t, m)]) t z'"
    unfolding tracks_def
  proof (intro allI impI)
    fix now k' assume now: "t \<le> now"
    show "entries now k' z' \<subseteq> {(n, u). (k', u, n) \<in> set (past @ [(k, t, m)])} \<and>
        {(n, u). (k', u, n) \<in> set (past @ [(k, t, m)]) \<and> now - seconds window < u} \<subseteq> entries now k' z'"
    proof (cases "k' = k")
      case False
      then have "entries now k' z' = entries now k' z"
        by (simp add: z' z2_def z1_def entries_other)
      with False assms(1,2) now show ?thesis by (auto simp: tracks_def)
    next
      case True
      have "entries now k z' = (if now < t + seconds (window + 1) then entries t k z2 else {})"
        using now by (simp add: z' entries_expire)
      moreover have "u \<le> t" if "(k, u, n) \<in> set past" for u n using that assms(4) by force
      ultimately show ?thesis using True now unfolding e2 e1 by (auto split: if_splits) force+
    qed
  qed
  let ?sel = "filter (in_window window k t) past"
  have img: "(\<lambda>r. (snd (snd r), fst (snd r))) ` set ?sel = entries t k z1"
    unfolding e1 by (force simp: in_window_def)
  have inj: "inj_on (\<lambda>r. (snd (snd r), fst (snd r))) (set ?sel)"
    by (auto simp: inj_on_def in_window_def)
  have "distinct ?sel" using assms(6) by (simp add: distinct_map)
  then have "card (entries t k z1) = length ?sel"
    unfolding img [symmetric] card_image [OF inj] by (rule distinct_card)
  moreover have "card (entries t k z2) = Suc (card (entries t k z1))"
    unfolding e2 using new entries_finite by (subst card_insert_disjoint) force+
  ultimately show "(res = Inr ()) = (int (length (filter (in_window window k t) past)) < limit)"
    using assms(5) by (auto simp: sliding_check_def z1_def [symmetric] z2_def [symmetric] card_entries Let_def split: if_splits)
qed

lemma run_limiter_decides:
  assumes "tracks window past recent z" and "0 \<le> window"
    and "sorted (map (\<lambda>r. fst (snd r)) rs)" and "\<forall>r \<in> set rs. 0 \<le> fst (snd r) \<and> recent \<le> fst (snd r)"
    and "\<forall>r \<in> set past. 0 \<le> fst (snd r) \<and> fst (snd r) \<le> recent"
    and "distinct (map (\<lambda>r. snd (snd r)) (past @ rs))"
  shows "run_limiter Z window limit rs z = window_decisions window limit past rs"
  using assms
proof (induction rs arbitrary: past recent z)
  case (Cons r rs)
  obtain k t m where r: "r = (k, t, m)" by (cases r)
  obtain res headers z' where s: "sliding_check Z k window limit t m z = (res, headers, z')" by (cases "sliding_check Z k window limit t m z")
  have past: "\<forall>r \<in> set past. 0 \<le> fst (snd r) \<and> fst (snd r) \<le> t \<and> snd (snd r) \<noteq> m"
  proof
    fix q assume q: "q \<in> set past"
    with Cons.prems(5) have "0 \<le> fst (snd q)" "fst (snd q) \<le> recent" by blast+
    moreover have "recent \<le> t" using Cons.prems(4) r by simp
    moreover have "snd (snd q) \<noteq> m" using Cons.prems(6) q r by auto
    ultimately show "0 \<le> fst (snd q) \<and> fst (snd q) \<le> t \<and> snd (snd q) \<noteq> m" by simp
  qed
  have recent: "recent \<le> t" and dist: "distinct (map (\<lambda>r. snd (snd r)) past)" using Cons.prems(4,6) r by auto
  note step = tracks_step [OF Cons.prems(1) recent Cons.prems(2) past s dist]
  have "run_limiter Z window limit rs z' = window_decisions window limit (past @ [(k, t, m)]) rs"
    by (rule Cons.IH [OF step(1) Cons.prems(2)]) (use Cons.prems past r in auto)
  with step(2) show ?case by (simp add: r s)
qed simp

lemma limiter_correct:
  assumes "\<And>now k. entries now k z = {}" and "0 \<le> window"
    and "sorted (map (\<lambda>r. fst (snd r)) rs)" and "\<forall>r \<in> set rs. 0 \<le> fst (snd r)" and "distinct (map (\<lambda>r. snd (snd r)) rs)"
  shows "run_limiter Z window limit rs z = window_decisions window limit [] rs"
  by (rule run_limiter_decides [where recent = 0]) (use assms in \<open>auto simp: tracks_def\<close>)

end

section \<open>Reference instance\<close>

type_synonym mem_zset = "(string \<times> zentry list \<times> time option) list"

definition mz_live :: "time \<Rightarrow> string \<Rightarrow> mem_zset \<Rightarrow> zentry list" where
  "mz_live now k z =
     (case map_of z k of None \<Rightarrow> []
      | Some (es, None) \<Rightarrow> es
      | Some (es, Some t) \<Rightarrow> if now < t then es else [])"

definition mz_ttl :: "time \<Rightarrow> string \<Rightarrow> mem_zset \<Rightarrow> time option" where
  "mz_ttl now k z =
     (case map_of z k of Some (es, Some t) \<Rightarrow> if now < t then Some t else None | _ \<Rightarrow> None)"

definition mem_zset_ops :: "mem_zset zset_ops" where
  "mem_zset_ops =
     \<lparr>z_remrangebyscore = (\<lambda>now k lo hi z. (k, filter (\<lambda>e. \<not> (lo \<le> snd e \<and> snd e \<le> hi)) (mz_live now k z), mz_ttl now k z) # z),
      z_add = (\<lambda>now k m s z. (k, (m, s) # filter (\<lambda>e. fst e \<noteq> m) (mz_live now k z), mz_ttl now k z) # z),
      z_card = (\<lambda>now k z. length (remdups (mz_live now k z))),
      z_expire = (\<lambda>now k ttl z. (k, mz_live now k z, Some (now + seconds ttl)) # z)\<rparr>"

definition mz_entries :: "time \<Rightarrow> string \<Rightarrow> mem_zset \<Rightarrow> zentry set" where
  "mz_entries now k z = set (mz_live now k z)"

lemma mz_ttl_later: "mz_ttl now k z = Some t \<Longrightarrow> now < t"
  by (auto simp: mz_ttl_def split: option.splits if_splits)

lemma mz_live_Cons [simp]:
  "mz_live now' k' ((k, es, ttl) # z) =
     (if k' = k then (case ttl of None \<Rightarrow> es | Some t \<Rightarrow> if now' < t then es else []) else mz_live now' k' z)"
  by (simp add: mz_live_def split: option.split)

interpretation mz: redis_zset mem_zset_ops mz_entries
  by unfold_locales
     (auto simp: mem_zset_ops_def mz_entries_def length_remdups_card_conv split: option.split dest: mz_ttl_later)


text \<open>
  C40: The limiter admits a request exactly when fewer than the limit came before it in the
  window. For requests of any keys, in the order of their times and with distinct members, on a
  server with no entries, the decisions are those of counting the earlier requests of the same
  key in the recent \<open>window\<close> seconds, rejected ones included.
\<close>

theorem limiter_counts_the_window:
  assumes "redis_zset Z entries" and "\<And>now k. entries now k z = {}" and "0 \<le> window"
    and "sorted (map (\<lambda>r. fst (snd r)) rs)" and "list_all (\<lambda>r. 0 \<le> fst (snd r)) rs"
    and "distinct (map (\<lambda>r. snd (snd r)) rs)"
  shows "run_limiter Z window limit rs z = window_decisions window limit [] rs"
  using redis_zset.limiter_correct [OF assms(1), of z window rs limit] assms(2-)
  by (simp add: list_all_iff)

theorem limiter_counts_the_window_witness:
  "run_limiter mem_zset_ops 60 1 [(''a'', 0, ''x''), (''b'', 5, ''y''), (''a'', 9, ''z''), (''a'', seconds 70, ''w'')] [] =
     [True, True, False, True]"
proof -
  have "run_limiter mem_zset_ops 60 1 [(''a'', 0, ''x''), (''b'', 5, ''y''), (''a'', 9, ''z''), (''a'', seconds 70, ''w'')] [] =
      window_decisions 60 1 [] [(''a'', 0, ''x''), (''b'', 5, ''y''), (''a'', 9, ''z''), (''a'', seconds 70, ''w'')]"
    by (rule limiter_counts_the_window [OF mz.redis_zset_axioms]) (simp_all add: mz_entries_def mz_live_def)
  then show ?thesis by (simp add: in_window_def)
qed

end
