(* ===== verification/Org_Tables.thy ===== *)
theory Org_Tables
  imports Obs_Prelude "HOL-Library.List_Lexorder" "HOL-Library.Char_ord"
begin

text \<open>
  The tables of organizations, users, projects, API keys, memberships, invites and the
  audit log (\<^verbatim>\<open>backend/app/models\<close> and the migrations that create the tables without a model
  class), and \<^verbatim>\<open>log_audit\<close> of \<^verbatim>\<open>backend/app/services/audit.py\<close> in the form all handlers use
  it, inside their transaction.
\<close>

record org_row =
  og_id :: uuid
  og_name :: string
  og_slug :: string

record user_row =
  us_id :: uuid
  us_org_id :: uuid
  us_email :: string
  us_password_hash :: string
  us_role :: string
  us_is_active :: bool
  us_is_platform_admin :: bool
  us_created_at :: time

record project_row =
  pj_id :: uuid
  pj_org_id :: uuid
  pj_name :: string
  pj_api_key_hash :: string
  pj_retention_days :: int
  pj_payload_storage_mode :: string
  pj_payload_max_bytes :: int
  pj_payload_redact_keys :: string
  pj_is_active :: bool
  pj_created_at :: time

record api_key_row =
  ak_id :: uuid
  ak_project_id :: uuid
  ak_name :: string
  ak_description :: "string option"
  ak_key_hash :: string
  ak_scope :: string
  ak_is_active :: bool
  ak_created_at :: time
  ak_last_used_at :: "time option"
  ak_revoked_at :: "time option"

record membership_row =
  pm_id :: uuid
  pm_project_id :: uuid
  pm_user_id :: uuid
  pm_role :: string
  pm_created_at :: time
  pm_updated_at :: time

record invite_row =
  iv_id :: uuid
  iv_org_id :: uuid
  iv_email :: string
  iv_role :: string
  iv_token_hash :: string
  iv_expires_at :: time
  iv_accepted_at :: "time option"
  iv_created_by_user_id :: "uuid option"
  iv_project_assignments :: json

record audit_row =
  au_org_id :: uuid
  au_user_id :: "uuid option"
  au_action :: string
  au_resource_id :: "uuid option"
  au_metadata :: "(string \<times> json) list"

record org_db =
  od_orgs :: "org_row list"
  od_users :: "user_row list"
  od_projects :: "project_row list"
  od_api_keys :: "api_key_row list"
  od_memberships :: "membership_row list"
  od_invites :: "invite_row list"
  od_audit :: "audit_row list"

definition log_audit ::
  "uuid \<Rightarrow> string \<Rightarrow> uuid option \<Rightarrow> uuid option \<Rightarrow> (string \<times> json) list \<Rightarrow> org_db \<Rightarrow> org_db" where
  "log_audit org_id action user_id resource_id metadata db =
     db\<lparr>od_audit := od_audit db @ [\<lparr>au_org_id = org_id, au_user_id = user_id, au_action = action,
          au_resource_id = resource_id, au_metadata = metadata\<rparr>]\<rparr>"

lemma log_audit_simps [simp]:
  "od_orgs (log_audit o' a u r m db) = od_orgs db" "od_users (log_audit o' a u r m db) = od_users db"
  "od_projects (log_audit o' a u r m db) = od_projects db" "od_api_keys (log_audit o' a u r m db) = od_api_keys db"
  "od_memberships (log_audit o' a u r m db) = od_memberships db" "od_invites (log_audit o' a u r m db) = od_invites db"
  by (simp_all add: log_audit_def)

text \<open>\<^verbatim>\<open>INSERT INTO project_memberships \<dots> ON CONFLICT (project_id, user_id) DO UPDATE\<close>\<close>

definition upsert_membership ::
  "time \<Rightarrow> uuid \<Rightarrow> uuid \<Rightarrow> uuid \<Rightarrow> string \<Rightarrow> membership_row list \<Rightarrow> membership_row list" where
  "upsert_membership now new_id project_id user_id role rows =
     (let hit = (\<lambda>m. pm_project_id m = project_id \<and> pm_user_id m = user_id)
      in if \<exists>m \<in> set rows. hit m
         then update_where hit (\<lambda>m. m\<lparr>pm_role := role, pm_updated_at := now\<rparr>) rows
         else rows @ [\<lparr>pm_id = new_id, pm_project_id = project_id, pm_user_id = user_id, pm_role = role,
                       pm_created_at = now, pm_updated_at = now\<rparr>])"

section \<open>Constraints and transactions\<close>

text \<open>The unique, foreign-key and check constraints of the tables.\<close>

definition constraints_ok :: "org_db \<Rightarrow> bool" where
  "constraints_ok db \<longleftrightarrow>
     distinct (map og_id (od_orgs db)) \<and> distinct (map og_slug (od_orgs db)) \<and>
     distinct (map us_id (od_users db)) \<and> distinct (map us_email (od_users db)) \<and>
     distinct (map pj_id (od_projects db)) \<and> distinct (map pj_api_key_hash (od_projects db)) \<and>
     distinct (map (\<lambda>p. (pj_org_id p, pj_name p)) (od_projects db)) \<and>
     distinct (map ak_id (od_api_keys db)) \<and> distinct (map ak_key_hash (od_api_keys db)) \<and>
     distinct (map pm_id (od_memberships db)) \<and>
     distinct (map (\<lambda>m. (pm_project_id m, pm_user_id m)) (od_memberships db)) \<and>
     distinct (map iv_id (od_invites db)) \<and> distinct (map iv_token_hash (od_invites db)) \<and>
     list_all (\<lambda>u. us_org_id u \<in> set (map og_id (od_orgs db)) \<and> us_role u \<in> {''admin'', ''member'', ''viewer''}) (od_users db) \<and>
     list_all (\<lambda>p. pj_org_id p \<in> set (map og_id (od_orgs db))) (od_projects db) \<and>
     list_all (\<lambda>k. ak_project_id k \<in> set (map pj_id (od_projects db)) \<and>
        ak_scope k \<in> {''ingest'', ''read'', ''read_write''}) (od_api_keys db) \<and>
     list_all (\<lambda>m. pm_project_id m \<in> set (map pj_id (od_projects db)) \<and>
        pm_user_id m \<in> set (map us_id (od_users db)) \<and> pm_role m \<in> {''member'', ''viewer''}) (od_memberships db) \<and>
     list_all (\<lambda>i. iv_org_id i \<in> set (map og_id (od_orgs db)) \<and> iv_role i \<in> {''admin'', ''member'', ''viewer''}) (od_invites db)"

lemma constraints_okD:
  assumes "constraints_ok db"
  shows "distinct (map us_id (od_users db))" "distinct (map us_email (od_users db))"
    "distinct (map pj_id (od_projects db))" "distinct (map pj_api_key_hash (od_projects db))"
    "distinct (map ak_id (od_api_keys db))" "distinct (map ak_key_hash (od_api_keys db))"
    "distinct (map iv_id (od_invites db))" "distinct (map iv_token_hash (od_invites db))"
    "distinct (map (\<lambda>m. (pm_project_id m, pm_user_id m)) (od_memberships db))"
  using assms by (simp_all add: constraints_ok_def)

lemma constraints_ok_refs:
  assumes "constraints_ok db"
  shows "m \<in> set (od_memberships db) \<Longrightarrow> pm_user_id m \<in> set (map us_id (od_users db))"
    and "k \<in> set (od_api_keys db) \<Longrightarrow> ak_project_id k \<in> set (map pj_id (od_projects db))"
  using assms unfolding constraints_ok_def list_all_iff by blast+

text \<open>
  \<^verbatim>\<open>async with db.begin()\<close>: the block's result and database, or its exception and the database
  before. A statement that violates a constraint raises \<^verbatim>\<open>IntegrityError\<close>, which no handler
  catches; the model raises it at the end of the block, where the rows are the same as at the
  statement, since no block deletes what it inserted.
\<close>

definition transact :: "org_db \<Rightarrow> http_error + 'a \<times> org_db \<Rightarrow> (http_error + 'a) \<times> org_db" where
  "transact db r =
     (case r of
        Inl e \<Rightarrow> (Inl e, db)
      | Inr (a, db') \<Rightarrow> if constraints_ok db' then (Inr a, db') else (Inl (Unhandled ''IntegrityError''), db))"

lemma transact_keeps: "constraints_ok db \<Longrightarrow> transact db r = (res, db') \<Longrightarrow> constraints_ok db'"
  by (auto simp: transact_def split: sum.splits prod.splits if_splits)

lemma transact_cases:
  assumes "transact db r = (res, db')"
  obtains (rolled_back) e where "res = Inl e" "db' = db"
    | (committed) a where "r = Inr (a, db')" "res = Inr a" "constraints_ok db'"
  using assms by (auto simp: transact_def split: sum.splits prod.splits if_splits)

lemma transact_Inr: "transact db r = (Inr a, db') \<longleftrightarrow> r = Inr (a, db') \<and> constraints_ok db'"
  by (auto simp: transact_def split: sum.splits prod.splits if_splits)

end
