(* ===== verification/Access_Control.thy ===== *)
theory Access_Control
  imports Org_Tables Rbac Redis_Client
begin

text \<open>
  Authentication and authorization: \<^verbatim>\<open>backend/app/core/auth.py\<close>. Tokens are encoded and
  decoded by the \<^verbatim>\<open>jose\<close> library, a parameter (\<open>decode now token\<close> is \<open>None\<close> where it raises
  \<^verbatim>\<open>JWTError\<close>, on an invalid signature or after the expiry); key hashes are SHA-256, the
  parameter \<open>sha\<close>. A project context is what a request authenticated by an API key carries.
\<close>

section \<open>Tokens\<close>

record claims =
  cl_sub :: "string option"
  cl_org_id :: string
  cl_role :: string
  cl_exp :: time
  cl_iat :: time

definition create_access_token :: "(claims \<Rightarrow> string) \<Rightarrow> int \<Rightarrow> time \<Rightarrow> uuid \<Rightarrow> uuid \<Rightarrow> string \<Rightarrow> string" where
  "create_access_token encode expire_minutes now user_id org_id role =
     encode \<lparr>cl_sub = Some user_id, cl_org_id = org_id, cl_role = role,
             cl_exp = now + seconds (60 * expire_minutes), cl_iat = now\<rparr>"

definition load_current_user_from_token ::
  "(time \<Rightarrow> string \<Rightarrow> claims option) \<Rightarrow> time \<Rightarrow> string \<Rightarrow> org_db \<Rightarrow> http_error + current_user" where
  "load_current_user_from_token decode now token db =
     (case decode now token of
        None \<Rightarrow> Inl (HTTPException 401 ''Invalid or expired token'')
      | Some payload \<Rightarrow>
          if \<not> truthy (cl_sub payload) then Inl (HTTPException 401 ''Unauthorized'')
          else case select_one (\<lambda>u. us_id u = the (cl_sub payload) \<and> us_is_active u) (od_users db) of
                 None \<Rightarrow> Inl (HTTPException 401 ''Invalid or expired token'')
               | Some user \<Rightarrow> Inr \<lparr>cu_sub = us_id user, cu_org_id = us_org_id user, cu_role = Some (us_role user),
                                 cu_is_platform_admin = Some (us_is_platform_admin user)\<rparr>)"

definition get_current_user ::
  "(time \<Rightarrow> string \<Rightarrow> claims option) \<Rightarrow> time \<Rightarrow> string option \<Rightarrow> org_db \<Rightarrow> http_error + current_user" where
  "get_current_user decode now creds db =
     (case creds of None \<Rightarrow> Inl (HTTPException 401 ''Not authenticated'')
      | Some token \<Rightarrow> load_current_user_from_token decode now token db)"

section \<open>API keys\<close>

definition PROJECT_ROLE_LEVELS :: "string \<rightharpoonup> int" where
  "PROJECT_ROLE_LEVELS = [''viewer'' \<mapsto> 0, ''member'' \<mapsto> 1]"

definition api_key_allows :: "string option \<Rightarrow> string \<Rightarrow> bool" where
  "api_key_allows scope required_scope = (scope = Some ''read_write'' \<or> scope = Some required_scope)"

definition project_role_allows :: "string option \<Rightarrow> string \<Rightarrow> bool" where
  "project_role_allows role required_role =
     (let current_level = (case role of None \<Rightarrow> -1 | Some r \<Rightarrow> (case PROJECT_ROLE_LEVELS r of None \<Rightarrow> -1 | Some l \<Rightarrow> l));
          required_level = the (PROJECT_ROLE_LEVELS required_role)
      in current_level \<ge> required_level)"

record project_context =
  pc_id :: uuid
  pc_org_id :: uuid
  pc_name :: string
  pc_scope :: "string option"
  pc_api_key_id :: "uuid option"
  pc_legacy :: bool

text \<open>The query by key hash. A hash is in at most one of the two tables, as hashes of fresh
  random keys; the legacy row is taken first.\<close>

definition find_project_by_hash :: "string \<Rightarrow> org_db \<Rightarrow> project_context option" where
  "find_project_by_hash h db =
     (case select_one (\<lambda>p. pj_api_key_hash p = h \<and> pj_is_active p) (od_projects db) of
        Some p \<Rightarrow> Some \<lparr>pc_id = pj_id p, pc_org_id = pj_org_id p, pc_name = pj_name p, pc_scope = Some ''read_write'',
                       pc_api_key_id = None, pc_legacy = True\<rparr>
      | None \<Rightarrow>
          (case select_one (\<lambda>k. ak_key_hash k = h \<and> ak_is_active k \<and> ak_revoked_at k = None \<and>
                    (\<exists>p \<in> set (od_projects db). pj_id p = ak_project_id k \<and> pj_is_active p)) (od_api_keys db) of
             None \<Rightarrow> None
           | Some k \<Rightarrow>
               (case select_one (\<lambda>p. pj_id p = ak_project_id k \<and> pj_is_active p) (od_projects db) of
                  None \<Rightarrow> None
                | Some p \<Rightarrow> Some \<lparr>pc_id = pj_id p, pc_org_id = pj_org_id p, pc_name = pj_name p,
                                pc_scope = Some (ak_scope k), pc_api_key_id = Some (ak_id k), pc_legacy = False\<rparr>)))"

definition touch_api_key :: "time \<Rightarrow> uuid \<Rightarrow> org_db \<Rightarrow> org_db" where
  "touch_api_key now key_id db =
     db\<lparr>od_api_keys := update_where (\<lambda>k. ak_id k = key_id) (\<lambda>k. k\<lparr>ak_last_used_at := Some now\<rparr>) (od_api_keys db)\<rparr>"

definition apikey_cache_key :: "string \<Rightarrow> string" where
  "apikey_cache_key h = ''apikey:'' @ h"

definition get_project_from_api_key ::
  "('r, project_context) redis \<Rightarrow> (string \<Rightarrow> string) \<Rightarrow> time \<Rightarrow> string option \<Rightarrow> string option \<Rightarrow> string
     \<Rightarrow> org_db \<Rightarrow> 'r \<Rightarrow> (http_error + project_context) \<times> org_db \<times> 'r" where
  "get_project_from_api_key R sha now creds x_api_key required_scope db r =
     (let api_key = (if truthy x_api_key then x_api_key else creds)
      in if \<not> truthy api_key then (Inl (HTTPException 401 ''API key required''), db, r)
         else
           let key_hash = sha (the api_key);
               ck = apikey_cache_key key_hash
           in case r_get R now ck r of
                Some cached \<Rightarrow>
                  if \<not> api_key_allows (pc_scope cached) required_scope
                  then (Inl (HTTPException 403 ''API key scope denied''), db, r)
                  else (Inr cached, db, r)
              | None \<Rightarrow>
                  (case find_project_by_hash key_hash db of
                     None \<Rightarrow> (Inl (HTTPException 401 ''Invalid API key''), db, r)
                   | Some pd \<Rightarrow>
                       (let db' = (case pc_api_key_id pd of None \<Rightarrow> db | Some i \<Rightarrow> touch_api_key now i db)
                        in if \<not> api_key_allows (pc_scope pd) required_scope
                           then (Inl (HTTPException 403 ''API key scope denied''), db', r)
                           else (Inr pd, db', r_setex R now ck 60 pd r))))"

section \<open>Project access of users\<close>

record user_project =
  up_id :: uuid
  up_org_id :: uuid
  up_name :: string
  up_project_role :: "string option"

definition get_project_for_user :: "uuid \<Rightarrow> current_user \<Rightarrow> string \<Rightarrow> org_db \<Rightarrow> http_error + user_project" where
  "get_project_for_user project_id user required_role db =
     (case select_one (\<lambda>p. pj_id p = project_id \<and> pj_org_id p = cu_org_id user \<and> pj_is_active p) (od_projects db) of
        None \<Rightarrow> Inl (HTTPException 404 ''Project not found'')
      | Some p \<Rightarrow>
          (let role = map_option pm_role (select_one (\<lambda>m. pm_project_id m = pj_id p \<and> pm_user_id m = cu_sub user)
                        (od_memberships db));
               result = \<lparr>up_id = pj_id p, up_org_id = pj_org_id p, up_name = pj_name p, up_project_role = role\<rparr>
           in if cu_role user = Some ''admin'' then Inr (result\<lparr>up_project_role := Some ''admin''\<rparr>)
              else if \<not> project_role_allows role required_role then Inl (HTTPException 403 ''Project access denied'')
              else Inr result))"

text \<open>The context of a read request: a project context or a user's project.\<close>

definition get_project_from_token_or_api_key ::
  "('r, project_context) redis \<Rightarrow> (string \<Rightarrow> string) \<Rightarrow> (time \<Rightarrow> string \<Rightarrow> claims option) \<Rightarrow> time
     \<Rightarrow> string option \<Rightarrow> string option \<Rightarrow> string option \<Rightarrow> org_db \<Rightarrow> 'r
     \<Rightarrow> (http_error + project_context + user_project) \<times> org_db \<times> 'r" where
  "get_project_from_token_or_api_key R sha decode now creds x_api_key project_id db r =
     (if truthy x_api_key then
        (case get_project_from_api_key R sha now None x_api_key ''read'' db r of
           (Inl e, s) \<Rightarrow> (Inl e, s) | (Inr c, s) \<Rightarrow> (Inr (Inl c), s))
      else if creds \<noteq> None \<and> truthy project_id then
        (case load_current_user_from_token decode now (the creds) db of
           Inl e \<Rightarrow> (Inl e, db, r)
         | Inr user \<Rightarrow>
             (case get_project_for_user (the project_id) user ''viewer'' db of
                Inl e \<Rightarrow> (Inl e, db, r) | Inr p \<Rightarrow> (Inr (Inr p), db, r)))
      else (Inl (HTTPException 401 ''Authentication required''), db, r))"

section \<open>Who gets access\<close>

lemma project_role_allows_viewer [simp]:
  "project_role_allows role ''viewer'' \<longleftrightarrow> role = Some ''viewer'' \<or> role = Some ''member''"
  by (auto simp: project_role_allows_def PROJECT_ROLE_LEVELS_def split: option.splits if_splits)

lemma project_role_allows_member [simp]:
  "project_role_allows role ''member'' \<longleftrightarrow> role = Some ''member''"
  by (auto simp: project_role_allows_def PROJECT_ROLE_LEVELS_def split: option.splits if_splits)

text \<open>The keys of the tables are unique.\<close>

definition org_keys_ok :: "org_db \<Rightarrow> bool" where
  "org_keys_ok db \<longleftrightarrow> distinct (map us_id (od_users db)) \<and> distinct (map pj_id (od_projects db)) \<and>
     distinct (map (\<lambda>m. (pm_project_id m, pm_user_id m)) (od_memberships db))"

lemma load_current_user_Inr:
  assumes "org_keys_ok db"
  shows "load_current_user_from_token decode now token db = Inr cu \<longleftrightarrow>
    (\<exists>c u. decode now token = Some c \<and> truthy (cl_sub c) \<and> u \<in> set (od_users db) \<and>
       us_id u = the (cl_sub c) \<and> us_is_active u \<and>
       cu = \<lparr>cu_sub = us_id u, cu_org_id = us_org_id u, cu_role = Some (us_role u),
             cu_is_platform_admin = Some (us_is_platform_admin u)\<rparr>)"
    (is "_ \<longleftrightarrow> ?rhs")
proof
  assume "load_current_user_from_token decode now token db = Inr cu"
  then show ?rhs
    by (auto simp: load_current_user_from_token_def split: option.splits if_splits dest: select_one_SomeD)
next
  assume ?rhs
  then obtain c u where h: "decode now token = Some c" "truthy (cl_sub c)" "u \<in> set (od_users db)"
    "us_id u = the (cl_sub c)" "us_is_active u"
    "cu = \<lparr>cu_sub = us_id u, cu_org_id = us_org_id u, cu_role = Some (us_role u),
           cu_is_platform_admin = Some (us_is_platform_admin u)\<rparr>" by blast
  have "select_one (\<lambda>u. us_id u = the (cl_sub c) \<and> us_is_active u) (od_users db) = Some u"
    by (rule select_one_unique [where key = us_id]) (use assms h in \<open>auto simp: org_keys_ok_def\<close>)
  with h show "load_current_user_from_token decode now token db = Inr cu"
    by (simp add: load_current_user_from_token_def)
qed

lemma get_project_for_user_Inr:
  assumes "org_keys_ok db"
  shows "(\<exists>up. get_project_for_user pid user req db = Inr up) \<longleftrightarrow>
    (\<exists>p. p \<in> set (od_projects db) \<and> pj_id p = pid \<and> pj_is_active p \<and> pj_org_id p = cu_org_id user \<and>
       (cu_role user = Some ''admin'' \<or>
        project_role_allows (map_option pm_role (select_one (\<lambda>m. pm_project_id m = pid \<and> pm_user_id m = cu_sub user)
          (od_memberships db))) req))"
    (is "?lhs \<longleftrightarrow> ?rhs")
proof
  assume ?lhs
  then show ?rhs
    by (auto simp: get_project_for_user_def Let_def split: option.splits if_splits dest!: select_one_SomeD)
next
  assume ?rhs
  then obtain p where h: "p \<in> set (od_projects db)" "pj_id p = pid" "pj_is_active p" "pj_org_id p = cu_org_id user"
    and a: "cu_role user = Some ''admin'' \<or>
        project_role_allows (map_option pm_role (select_one (\<lambda>m. pm_project_id m = pid \<and> pm_user_id m = cu_sub user)
          (od_memberships db))) req" by blast
  have "select_one (\<lambda>p. pj_id p = pid \<and> pj_org_id p = cu_org_id user \<and> pj_is_active p) (od_projects db) = Some p"
    by (rule select_one_unique [where key = pj_id]) (use assms h in \<open>auto simp: org_keys_ok_def\<close>)
  with h a show ?lhs by (auto simp: get_project_for_user_def Let_def)
qed

lemma get_project_for_user_id:
  "get_project_for_user pid user req db = Inr up \<Longrightarrow> up_id up = pid"
  by (auto simp: get_project_for_user_def Let_def split: option.splits if_splits dest!: select_one_SomeD)

lemma membership_role:
  assumes "org_keys_ok db"
  shows "map_option pm_role (select_one (\<lambda>m. pm_project_id m = pid \<and> pm_user_id m = uid) (od_memberships db)) = Some r
    \<longleftrightarrow> (\<exists>m \<in> set (od_memberships db). pm_project_id m = pid \<and> pm_user_id m = uid \<and> pm_role m = r)"
    (is "?lhs \<longleftrightarrow> ?rhs")
proof
  assume ?lhs
  then show ?rhs by (auto dest!: select_one_SomeD)
next
  assume ?rhs
  then obtain m where h: "m \<in> set (od_memberships db)" "pm_project_id m = pid" "pm_user_id m = uid" "pm_role m = r" by blast
  have "select_one (\<lambda>m. pm_project_id m = pid \<and> pm_user_id m = uid) (od_memberships db) = Some m"
    by (rule select_one_unique [where key = "\<lambda>m. (pm_project_id m, pm_user_id m)"])
       (use assms h in \<open>auto simp: org_keys_ok_def\<close>)
  with h show ?lhs by simp
qed

text \<open>
  C17: A user reaches a project only inside the own organization. A request authenticated
  by a token is given a project exactly when the token is valid, its user is active, the
  project is active and belongs to the user's organization according to the table, and the user
  is an administrator there or a member or viewer of the project; the role is read from the
  table, not from the token.
\<close>

theorem token_access_is_confined:
  assumes "org_keys_ok db" and "pid \<noteq> []"
  shows "(\<exists>up. fst (get_project_from_token_or_api_key R sha decode now (Some token) None (Some pid) db r) = Inr (Inr up) \<and> up_id up = pid)
    \<longleftrightarrow> (\<exists>c u p. decode now token = Some c \<and> truthy (cl_sub c) \<and>
          u \<in> set (od_users db) \<and> us_id u = the (cl_sub c) \<and> us_is_active u \<and>
          p \<in> set (od_projects db) \<and> pj_id p = pid \<and> pj_is_active p \<and> pj_org_id p = us_org_id u \<and>
          (us_role u = ''admin'' \<or>
           (\<exists>m \<in> set (od_memberships db). pm_project_id m = pid \<and> pm_user_id m = us_id u \<and> pm_role m \<in> {''viewer'', ''member''})))"
    (is "?lhs \<longleftrightarrow> ?rhs")
proof -
  have "?lhs \<longleftrightarrow> (\<exists>cu. load_current_user_from_token decode now token db = Inr cu \<and>
          (\<exists>up. get_project_for_user pid cu ''viewer'' db = Inr up))"
    using assms(2) by (auto simp: get_project_from_token_or_api_key_def get_project_for_user_id
        split: sum.splits)
  also have "\<dots> \<longleftrightarrow> ?rhs"
    unfolding load_current_user_Inr [OF assms(1)] get_project_for_user_Inr [OF assms(1)]
      project_role_allows_viewer membership_role [OF assms(1)]
    by fastforce
  finally show ?thesis .
qed

definition example_access_db :: org_db where
  "example_access_db =
     \<lparr>od_orgs = [],
      od_users = [\<lparr>us_id = ''u1'', us_org_id = ''o1'', us_email = ''a@x'', us_password_hash = ''h'', us_role = ''member'',
        us_is_active = True, us_is_platform_admin = False, us_created_at = 0\<rparr>],
      od_projects = [\<lparr>pj_id = ''p1'', pj_org_id = ''o1'', pj_name = ''P'', pj_api_key_hash = ''h1'', pj_retention_days = 90,
        pj_payload_storage_mode = ''full'', pj_payload_max_bytes = 65536, pj_payload_redact_keys = [],
        pj_is_active = True, pj_created_at = 0\<rparr>],
      od_api_keys = [],
      od_memberships = [\<lparr>pm_id = ''m1'', pm_project_id = ''p1'', pm_user_id = ''u1'', pm_role = ''viewer'',
        pm_created_at = 0, pm_updated_at = 0\<rparr>],
      od_invites = [], od_audit = []\<rparr>"

theorem token_access_is_confined_witness:
  "\<exists>up. fst (get_project_from_token_or_api_key (mem_redis :: (project_context mem, project_context) redis) id
      (\<lambda>now t. if t = ''tok'' then Some \<lparr>cl_sub = Some ''u1'', cl_org_id = ''o1'', cl_role = ''member'', cl_exp = 10, cl_iat = 0\<rparr> else None)
      5 (Some ''tok'') None (Some ''p1'') example_access_db []) = Inr (Inr up) \<and> up_id up = ''p1''"
proof -
  have ok: "org_keys_ok example_access_db" by (simp add: org_keys_ok_def example_access_db_def)
  show ?thesis
    by (subst token_access_is_confined [OF ok]) (simp_all add: example_access_db_def)
qed

end
