(* ===== verification/Accounts.thy ===== *)
theory Accounts
  imports Access_Control Rate_Limit
begin

text \<open>
  Registration, login, invites, roles and deletion of users: \<^verbatim>\<open>backend/app/api/v1/auth.py\<close> and
  \<^verbatim>\<open>backend/app/api/v1/users.py\<close> with their request schemas. Each handler is a function of the
  authenticated user, the request and the tables; a transaction block is \<^const>\<open>transact\<close>.

  Random values, the clock, hashing, token coding and the settings read are the record
  \<^verbatim>\<open>account_env\<close>; \<open>ae_uuid n\<close> is the \<open>n\<close>-th \<^verbatim>\<open>uuid4()\<close> of the request. Identifiers in requests
  are texts of UUIDs in canonical form (the engine rejects other texts with an error).
  A query with \<^verbatim>\<open>LIMIT 1\<close> and no order takes the first row of the table.
\<close>

section \<open>Environment and requests\<close>

record account_env =
  ae_now :: time
  ae_uuid :: "nat \<Rightarrow> uuid"
  ae_token_urlsafe :: string
  ae_sha :: "string \<Rightarrow> string"
  ae_hash_password :: "string \<Rightarrow> string"
  ae_verify_password :: "string \<Rightarrow> string \<Rightarrow> bool"
  ae_encode :: "claims \<Rightarrow> string"
  ae_expire_minutes :: int
  ae_public_registration_enabled :: bool
  ae_bootstrap_admin_token :: "string option"
  ae_auth_window :: int
  ae_auth_limit :: int
  ae_client_host :: "string option"
  ae_request_member :: string

record register_request =
  rr_email :: string
  rr_password :: string
  rr_org_name :: string
  rr_bootstrap_token :: "string option"

definition length_between :: "nat \<Rightarrow> nat \<Rightarrow> string \<Rightarrow> bool" where
  "length_between lo hi s \<longleftrightarrow> lo \<le> length s \<and> length s \<le> hi"

definition register_request_ok :: "(string \<Rightarrow> bool) \<Rightarrow> register_request \<Rightarrow> bool" where
  "register_request_ok is_email b \<longleftrightarrow>
     is_email (rr_email b) \<and> length_between 8 128 (rr_password b) \<and> length_between 2 100 (rr_org_name b) \<and>
     (case rr_bootstrap_token b of None \<Rightarrow> True | Some t \<Rightarrow> length_between 1 512 t)"

record login_request =
  lr_email :: string
  lr_password :: string

record register_response =
  rs_access_token :: string
  rs_role :: string
  rs_api_key :: string
  rs_project_id :: uuid

record login_response =
  ls_access_token :: string
  ls_role :: string
  ls_project_id :: "uuid option"

record project_assignment =
  pa_project_id :: string
  pa_role :: string

record invite_create =
  ic_email :: string
  ic_role :: string
  ic_project_assignments :: "project_assignment list"

definition invite_create_ok :: "(string \<Rightarrow> bool) \<Rightarrow> invite_create \<Rightarrow> bool" where
  "invite_create_ok is_email b \<longleftrightarrow>
     is_email (ic_email b) \<and> ic_role b \<in> {''admin'', ''member'', ''viewer''} \<and>
     list_all (\<lambda>a. pa_role a \<in> {''member'', ''viewer''}) (ic_project_assignments b) \<and>
     distinct (map pa_project_id (ic_project_assignments b))"

record invite_accept =
  ia_token :: string
  ia_password :: string

definition invite_accept_ok :: "invite_accept \<Rightarrow> bool" where
  "invite_accept_ok b \<longleftrightarrow> 32 \<le> length (ia_token b) \<and> length_between 8 128 (ia_password b)"

section \<open>Registration and login\<close>

definition auth_rate_limit_identifier :: "account_env \<Rightarrow> string \<Rightarrow> string" where
  "auth_rate_limit_identifier env action =
     action @ '':'' @ (case ae_client_host env of None \<Rightarrow> ''unknown'' | Some h \<Rightarrow> h)"

definition is_valid_bootstrap_token :: "string option \<Rightarrow> string option \<Rightarrow> bool" where
  "is_valid_bootstrap_token configured token =
     (case configured of None \<Rightarrow> False | Some c \<Rightarrow> (case token of None \<Rightarrow> [] | Some t \<Rightarrow> t) = c)"

definition is_slug_char :: "char \<Rightarrow> bool" where
  "is_slug_char c = (let n = (of_char c :: nat) in 97 \<le> n \<and> n \<le> 122 \<or> 48 \<le> n \<and> n \<le> 57)"

definition org_slug :: "string \<Rightarrow> uuid \<Rightarrow> string" where
  "org_slug name u =
     take 40 (map (\<lambda>c. if is_slug_char c then c else CHR ''-'') (py_lower name)) @ ''-'' @
     take 6 (filter (\<lambda>c. c \<noteq> CHR ''-'') u)"

definition new_user :: "account_env \<Rightarrow> uuid \<Rightarrow> uuid \<Rightarrow> string \<Rightarrow> string \<Rightarrow> string \<Rightarrow> user_row" where
  "new_user env user_id org_id email password role =
     \<lparr>us_id = user_id, us_org_id = org_id, us_email = email, us_password_hash = ae_hash_password env password,
      us_role = role, us_is_active = True, us_is_platform_admin = False, us_created_at = ae_now env\<rparr>"

definition project_defaults :: "time \<Rightarrow> uuid \<Rightarrow> uuid \<Rightarrow> string \<Rightarrow> string \<Rightarrow> int \<Rightarrow> project_row" where
  "project_defaults now project_id org_id name h retention_days =
     \<lparr>pj_id = project_id, pj_org_id = org_id, pj_name = name, pj_api_key_hash = h, pj_retention_days = retention_days,
      pj_payload_storage_mode = ''all'', pj_payload_max_bytes = 262144,
      pj_payload_redact_keys = ''api_key,password,secret,token,authorization'', pj_is_active = True, pj_created_at = now\<rparr>"

definition raw_api_key :: "account_env \<Rightarrow> string" where
  "raw_api_key env = ''llmobs_'' @ ae_token_urlsafe env"

definition register_tx :: "account_env \<Rightarrow> register_request \<Rightarrow> org_db \<Rightarrow> http_error + register_response \<times> org_db" where
  "register_tx env body db =
     (if \<not> ae_public_registration_enabled env \<and> od_users db \<noteq> [] then
        Inl (HTTPException 403 ''Registration is disabled'')
      else if \<not> ae_public_registration_enabled env \<and>
              \<not> is_valid_bootstrap_token (ae_bootstrap_admin_token env) (rr_bootstrap_token body) then
        Inl (HTTPException 403 ''Invalid bootstrap token'')
      else if \<exists>u \<in> set (od_users db). us_email u = rr_email body then
        Inl (HTTPException 409 ''Email already registered'')
      else
        (let org_id = ae_uuid env 0; user_id = ae_uuid env 2; project_id = ae_uuid env 3; raw_key = raw_api_key env
         in Inr (\<lparr>rs_access_token = create_access_token (ae_encode env) (ae_expire_minutes env) (ae_now env) user_id org_id ''admin'',
                  rs_role = ''admin'', rs_api_key = raw_key, rs_project_id = project_id\<rparr>,
              db\<lparr>od_orgs := od_orgs db @ [\<lparr>og_id = org_id, og_name = rr_org_name body,
                     og_slug = org_slug (rr_org_name body) (ae_uuid env 1)\<rparr>],
                 od_users := od_users db @ [new_user env user_id org_id (rr_email body) (rr_password body) ''admin''],
                 od_projects := od_projects db @ [project_defaults (ae_now env) project_id org_id ''Default'' (ae_sha env raw_key) 90]\<rparr>)))"

definition auth_limited ::
  "'z zset_ops \<Rightarrow> account_env \<Rightarrow> string \<Rightarrow> 'z \<Rightarrow> (http_error + unit) \<times> limit_headers \<times> 'z" where
  "auth_limited Z env action z =
     auth_rate_limiter_check Z (ae_sha env) (ae_auth_window env) (ae_auth_limit env) (ae_now env) (ae_request_member env)
       (auth_rate_limit_identifier env action) action z"

definition register ::
  "'z zset_ops \<Rightarrow> account_env \<Rightarrow> register_request \<Rightarrow> org_db \<Rightarrow> 'z \<Rightarrow> (http_error + register_response) \<times> org_db \<times> 'z" where
  "register Z env body db z =
     (case auth_limited Z env ''register'' z of
        (Inl e, _, z') \<Rightarrow> (Inl e, db, z')
      | (Inr _, _, z') \<Rightarrow> (case transact db (register_tx env body db) of (res, db') \<Rightarrow> (res, db', z')))"

definition dummy_password_hash :: string where
  "dummy_password_hash = ''$2b$12$dummyhashtopreventtimingattacks000000000000000000000000''"

definition login ::
  "'z zset_ops \<Rightarrow> account_env \<Rightarrow> login_request \<Rightarrow> org_db \<Rightarrow> 'z \<Rightarrow> (http_error + login_response) \<times> 'z" where
  "login Z env body db z =
     (case auth_limited Z env ''login'' z of
        (Inl e, _, z') \<Rightarrow> (Inl e, z')
      | (Inr _, _, z') \<Rightarrow>
          (let user = select_one (\<lambda>u. us_email u = lr_email body \<and> us_is_active u) (od_users db);
               is_valid = ae_verify_password env (lr_password body)
                 (case user of None \<Rightarrow> dummy_password_hash | Some u \<Rightarrow> us_password_hash u)
           in case user of
                None \<Rightarrow> (Inl (HTTPException 401 ''Invalid credentials''), z')
              | Some u \<Rightarrow>
                  if \<not> is_valid then (Inl (HTTPException 401 ''Invalid credentials''), z')
                  else (Inr \<lparr>ls_access_token = create_access_token (ae_encode env) (ae_expire_minutes env) (ae_now env)
                               (us_id u) (us_org_id u) (us_role u),
                             ls_role = us_role u,
                             ls_project_id = map_option pj_id
                               (select_one (\<lambda>p. pj_org_id p = us_org_id u \<and> pj_is_active p) (od_projects db))\<rparr>, z')))"

section \<open>Invites\<close>

definition INVITE_TTL_HOURS :: int where "INVITE_TTL_HOURS = 24"

definition hash_invite_token :: "account_env \<Rightarrow> string \<Rightarrow> string" where
  "hash_invite_token env token = ae_sha env token"

fun py_falsy :: "json \<Rightarrow> bool" where
  "py_falsy JNull = True" | "py_falsy (JBool b) = (\<not> b)" | "py_falsy (JInt i) = (i = 0)"
| "py_falsy (JFloat x) = (x = 0)" | "py_falsy (JStr s) = (s = [])" | "py_falsy (JArr xs) = (xs = [])"
| "py_falsy (JObj kvs) = (kvs = [])"

text \<open>One element of the list. A role that is a list or an object cannot be looked up in the set.\<close>

definition serialize_assignment :: "json \<Rightarrow> http_error + project_assignment" where
  "serialize_assignment item =
     (let bad = Inl (HTTPException 400 ''Invite project assignments are invalid'')
      in case item of
           JObj kvs \<Rightarrow>
             (case map_of kvs ''project_id'' of
                Some (JStr project_id) \<Rightarrow>
                  (case map_of kvs ''role'' of
                     Some (JStr role) \<Rightarrow>
                       if role \<in> {''member'', ''viewer''} then Inr \<lparr>pa_project_id = project_id, pa_role = role\<rparr> else bad
                   | Some (JArr _) \<Rightarrow> Inl (Unhandled ''TypeError'')
                   | Some (JObj _) \<Rightarrow> Inl (Unhandled ''TypeError'')
                   | _ \<Rightarrow> bad)
              | _ \<Rightarrow> bad)
         | _ \<Rightarrow> bad)"

fun serialize_assignments :: "json list \<Rightarrow> http_error + project_assignment list" where
  "serialize_assignments [] = Inr []"
| "serialize_assignments (item # items) =
     (case serialize_assignment item of
        Inl e \<Rightarrow> Inl e
      | Inr a \<Rightarrow> (case serialize_assignments items of Inl e \<Rightarrow> Inl e | Inr as \<Rightarrow> Inr (a # as)))"

definition serialize_project_assignments :: "json \<Rightarrow> http_error + project_assignment list" where
  "serialize_project_assignments value =
     (if py_falsy value then Inr []
      else case value of
             JArr items \<Rightarrow> serialize_assignments items
           | _ \<Rightarrow> Inl (HTTPException 400 ''Invite project assignments are invalid''))"

definition dump_assignments :: "project_assignment list \<Rightarrow> json" where
  "dump_assignments as = JArr (map (\<lambda>a. JObj [(''project_id'', JStr (pa_project_id a)), (''role'', JStr (pa_role a))]) as)"

definition validate_invite_project_assignments ::
  "org_db \<Rightarrow> invite_create \<Rightarrow> uuid \<Rightarrow> http_error + project_assignment list" where
  "validate_invite_project_assignments db body org_id =
     (let assignments = ic_project_assignments body;
          project_ids = map pa_project_id assignments;
          found = map pj_id (filter (\<lambda>p. pj_org_id p = org_id \<and> pj_is_active p \<and> pj_id p \<in> set project_ids) (od_projects db))
      in if assignments = [] then Inr []
         else if set found \<noteq> set project_ids then Inl (HTTPException 400 ''One or more selected projects are invalid'')
         else Inr assignments)"

record invite_response =
  ir_id :: uuid
  ir_email :: string
  ir_role :: string
  ir_project_assignments :: "project_assignment list"
  ir_expires_at :: time
  ir_invite_token :: string

definition create_invite_tx ::
  "account_env \<Rightarrow> current_user \<Rightarrow> invite_create \<Rightarrow> org_db \<Rightarrow> http_error + invite_response \<times> org_db" where
  "create_invite_tx env user body db =
     (if \<exists>u \<in> set (od_users db). us_email u = ic_email body then Inl (HTTPException 409 ''Email already registered'')
      else case validate_invite_project_assignments db body (cu_org_id user) of
             Inl e \<Rightarrow> Inl e
           | Inr assignments \<Rightarrow>
               (let raw_token = ae_token_urlsafe env;
                    row = \<lparr>iv_id = ae_uuid env 0, iv_org_id = cu_org_id user, iv_email = ic_email body, iv_role = ic_role body,
                      iv_token_hash = hash_invite_token env raw_token,
                      iv_expires_at = ae_now env + seconds (3600 * INVITE_TTL_HOURS), iv_accepted_at = None,
                      iv_created_by_user_id = Some (cu_sub user), iv_project_assignments = dump_assignments assignments\<rparr>
                in case serialize_project_assignments (iv_project_assignments row) of
                     Inl e \<Rightarrow> Inl e
                   | Inr as \<Rightarrow>
                       Inr (\<lparr>ir_id = iv_id row, ir_email = iv_email row, ir_role = iv_role row, ir_project_assignments = as,
                             ir_expires_at = iv_expires_at row, ir_invite_token = raw_token\<rparr>,
                            log_audit (cu_org_id user) ''user.invite.create'' (Some (cu_sub user)) (Some (iv_id row))
                              [(''email'', JStr (ic_email body)), (''role'', JStr (ic_role body)),
                               (''project_assignment_count'', JInt (int (length as)))]
                              (db\<lparr>od_invites := od_invites db @ [row]\<rparr>))))"

definition create_invite ::
  "account_env \<Rightarrow> current_user \<Rightarrow> invite_create \<Rightarrow> org_db \<Rightarrow> (http_error + invite_response) \<times> org_db" where
  "create_invite env user body db =
     (case require_admin user of
        Inl e \<Rightarrow> (Inl e, db)
      | Inr _ \<Rightarrow> transact db (create_invite_tx env user body db))"

text \<open>The loop over the assignments; \<open>n\<close> counts the identifiers drawn.\<close>

fun assign_memberships ::
  "account_env \<Rightarrow> nat \<Rightarrow> uuid \<Rightarrow> project_assignment list \<Rightarrow> membership_row list \<Rightarrow> membership_row list" where
  "assign_memberships env n user_id [] rows = rows"
| "assign_memberships env n user_id (a # as) rows =
     assign_memberships env (n + 1) user_id as
       (upsert_membership (ae_now env) (ae_uuid env n) (pa_project_id a) user_id (pa_role a) rows)"

record accept_response =
  ac_access_token :: string
  ac_role :: string
  ac_project_id :: "uuid option"

definition accept_invite_tx :: "account_env \<Rightarrow> invite_accept \<Rightarrow> org_db \<Rightarrow> http_error + accept_response \<times> org_db" where
  "accept_invite_tx env body db =
     (case select_one (\<lambda>i. iv_token_hash i = hash_invite_token env (ia_token body) \<and> iv_accepted_at i = None) (od_invites db) of
        None \<Rightarrow> Inl (HTTPException 400 ''Invite is invalid or already accepted'')
      | Some invite \<Rightarrow>
          if iv_expires_at invite \<le> ae_now env then Inl (HTTPException 400 ''Invite has expired'')
          else if \<exists>u \<in> set (od_users db). us_email u = iv_email invite then
            Inl (HTTPException 409 ''Email already registered'')
          else
            (let user_id = ae_uuid env 0
             in case serialize_project_assignments (iv_project_assignments invite) of
                  Inl e \<Rightarrow> Inl e
                | Inr as \<Rightarrow>
                    (let default_project = map_option pj_id
                           (select_one (\<lambda>p. pj_org_id p = iv_org_id invite \<and> pj_is_active p) (od_projects db))
                     in Inr (\<lparr>ac_access_token = create_access_token (ae_encode env) (ae_expire_minutes env) (ae_now env)
                                 user_id (iv_org_id invite) (iv_role invite),
                              ac_role = iv_role invite,
                              ac_project_id = (case as of a # _ \<Rightarrow> Some (pa_project_id a) | [] \<Rightarrow> default_project)\<rparr>,
                          log_audit (iv_org_id invite) ''user.invite.accept'' (Some user_id) (Some (iv_id invite))
                            [(''email'', JStr (iv_email invite)), (''role'', JStr (iv_role invite)),
                             (''project_assignment_count'', JInt (int (length as)))]
                            (db\<lparr>od_users := od_users db @
                                  [new_user env user_id (iv_org_id invite) (iv_email invite) (ia_password body) (iv_role invite)],
                                od_memberships := assign_memberships env 1 user_id as (od_memberships db),
                                od_invites := update_where (\<lambda>i. iv_id i = iv_id invite)
                                  (\<lambda>i. i\<lparr>iv_accepted_at := Some (ae_now env)\<rparr>) (od_invites db)\<rparr>)))))"

definition accept_invite :: "account_env \<Rightarrow> invite_accept \<Rightarrow> org_db \<Rightarrow> (http_error + accept_response) \<times> org_db" where
  "accept_invite env body db = transact db (accept_invite_tx env body db)"

section \<open>Users of an organization\<close>

definition list_users :: "current_user \<Rightarrow> org_db \<Rightarrow> http_error + user_row list" where
  "list_users user db =
     (case require_admin user of
        Inl e \<Rightarrow> Inl e
      | Inr _ \<Rightarrow> Inr (sort_key us_created_at (sort_key us_email (filter (\<lambda>u. us_org_id u = cu_org_id user) (od_users db)))))"

definition find_org_user :: "uuid \<Rightarrow> uuid \<Rightarrow> org_db \<Rightarrow> user_row option" where
  "find_org_user user_id org_id db =
     select_one (\<lambda>u. us_id u = user_id \<and> us_org_id u = org_id \<and> us_is_active u) (od_users db)"

record project_access =
  px_project_id :: uuid
  px_project_name :: string
  px_project_role :: "string option"
  px_is_active :: bool
  px_retention_days :: int

definition list_user_project_access :: "current_user \<Rightarrow> uuid \<Rightarrow> org_db \<Rightarrow> http_error + project_access list" where
  "list_user_project_access user user_id db =
     (case require_admin user of
        Inl e \<Rightarrow> Inl e
      | Inr _ \<Rightarrow>
          (case find_org_user user_id (cu_org_id user) db of
             None \<Rightarrow> Inl (HTTPException 404 ''User not found'')
           | Some target \<Rightarrow>
               Inr (map (\<lambda>p. \<lparr>px_project_id = pj_id p, px_project_name = pj_name p,
                       px_project_role = (if us_role target = ''admin'' then Some ''admin''
                         else map_option pm_role
                           (select_one (\<lambda>m. pm_project_id m = pj_id p \<and> pm_user_id m = user_id) (od_memberships db))),
                       px_is_active = pj_is_active p, px_retention_days = pj_retention_days p\<rparr>)
                 (sort_key pj_created_at (sort_key pj_name
                    (filter (\<lambda>p. pj_org_id p = cu_org_id user \<and> pj_is_active p) (od_projects db)))))))"

definition active_admins :: "uuid \<Rightarrow> org_db \<Rightarrow> user_row list" where
  "active_admins org_id db = filter (\<lambda>u. us_org_id u = org_id \<and> us_role u = ''admin'' \<and> us_is_active u) (od_users db)"

text \<open>
  The handlers that take a role away are split where another transaction can come between:
  the queries, up to and including the count of administrators, and the write with its audit
  event. The lock the first query takes is on the row of the target only.
\<close>

definition role_check :: "current_user \<Rightarrow> uuid \<Rightarrow> string \<Rightarrow> org_db \<Rightarrow> http_error + user_row" where
  "role_check user user_id role db =
     (case find_org_user user_id (cu_org_id user) db of
        None \<Rightarrow> Inl (HTTPException 404 ''User not found'')
      | Some target \<Rightarrow>
          if us_role target = ''admin'' \<and> role \<noteq> ''admin'' \<and> length (active_admins (cu_org_id user) db) \<le> 1
          then Inl (HTTPException 400 ''Organization must keep at least one admin'')
          else Inr target)"

definition role_write :: "current_user \<Rightarrow> uuid \<Rightarrow> string \<Rightarrow> user_row \<Rightarrow> org_db \<Rightarrow> org_db" where
  "role_write user user_id role target db =
     log_audit (cu_org_id user) ''user.role.update'' (Some (cu_sub user)) (Some user_id)
       [(''email'', JStr (us_email target)), (''old_role'', JStr (us_role target)), (''new_role'', JStr role)]
       (db\<lparr>od_users := update_where (\<lambda>u. us_id u = user_id \<and> us_org_id u = cu_org_id user) (\<lambda>u. u\<lparr>us_role := role\<rparr>)
             (od_users db)\<rparr>)"

definition update_user_role_tx :: "current_user \<Rightarrow> uuid \<Rightarrow> string \<Rightarrow> org_db \<Rightarrow> http_error + user_row \<times> org_db" where
  "update_user_role_tx user user_id role db =
     (case role_check user user_id role db of
        Inl e \<Rightarrow> Inl e
      | Inr target \<Rightarrow> Inr (target\<lparr>us_role := role\<rparr>, role_write user user_id role target db))"

definition update_user_role ::
  "current_user \<Rightarrow> uuid \<Rightarrow> string \<Rightarrow> org_db \<Rightarrow> (http_error + user_row) \<times> org_db" where
  "update_user_role user user_id role db =
     (case require_admin user of
        Inl e \<Rightarrow> (Inl e, db)
      | Inr _ \<Rightarrow>
          if user_id = cu_sub user \<and> role \<noteq> ''admin'' then (Inl (HTTPException 400 ''Cannot remove your own admin role''), db)
          else transact db (update_user_role_tx user user_id role db))"

definition delete_check :: "current_user \<Rightarrow> uuid \<Rightarrow> org_db \<Rightarrow> http_error + user_row" where
  "delete_check user user_id db =
     (case find_org_user user_id (cu_org_id user) db of
        None \<Rightarrow> Inl (HTTPException 404 ''User not found'')
      | Some target \<Rightarrow>
          if us_role target = ''admin'' \<and> length (active_admins (cu_org_id user) db) \<le> 1
          then Inl (HTTPException 400 ''Organization must keep at least one admin'')
          else Inr target)"

text \<open>Deleting the row deletes the user's memberships (\<^verbatim>\<open>ON DELETE CASCADE\<close>).\<close>

definition delete_write :: "current_user \<Rightarrow> uuid \<Rightarrow> user_row \<Rightarrow> org_db \<Rightarrow> org_db" where
  "delete_write user user_id target db =
     log_audit (cu_org_id user) ''user.delete'' (Some (cu_sub user)) (Some user_id)
       [(''email'', JStr (us_email target)), (''role'', JStr (us_role target))]
       (db\<lparr>od_users := delete_where (\<lambda>u. us_id u = user_id \<and> us_org_id u = cu_org_id user) (od_users db),
           od_memberships := delete_where (\<lambda>m. pm_user_id m = user_id) (od_memberships db)\<rparr>)"

definition delete_user :: "current_user \<Rightarrow> uuid \<Rightarrow> org_db \<Rightarrow> (http_error + unit) \<times> org_db" where
  "delete_user user user_id db =
     (case require_admin user of
        Inl e \<Rightarrow> (Inl e, db)
      | Inr _ \<Rightarrow>
          if user_id = cu_sub user then (Inl (HTTPException 400 ''Cannot delete your own user''), db)
          else transact db
            (case delete_check user user_id db of
               Inl e \<Rightarrow> Inl e
             | Inr target \<Rightarrow>
                 if \<not> (\<exists>u \<in> set (od_users db). us_id u = user_id \<and> us_org_id u = cu_org_id user)
                 then Inl (HTTPException 404 ''User not found'')
                 else Inr ((), delete_write user user_id target db)))"

end
