(* ===== verification/Projects.thy ===== *)
theory Projects
  imports Accounts
begin

text \<open>
  Projects, their members, API keys and settings: \<^verbatim>\<open>backend/app/api/v1/projects.py\<close> with its
  request schemas. A handler is a function of the authenticated user, the request, the tables
  and, where it invalidates cached keys, the Redis server. The conversions of identifiers to
  text are left out.
\<close>

section \<open>Requests and responses\<close>

record project_create =
  pr_name :: string
  pr_retention_days :: int
  pr_payload_storage_mode :: string
  pr_payload_max_bytes :: int
  pr_payload_redact_keys :: string

definition payload_storage_modes :: "string list" where
  "payload_storage_modes = [''all'', ''errors'', ''none'']"

definition project_create_ok :: "project_create \<Rightarrow> bool" where
  "project_create_ok b \<longleftrightarrow>
     length_between 1 255 (pr_name b) \<and> 7 \<le> pr_retention_days b \<and> pr_retention_days b \<le> 365 \<and>
     pr_payload_storage_mode b \<in> set payload_storage_modes \<and>
     0 \<le> pr_payload_max_bytes b \<and> pr_payload_max_bytes b \<le> 10 * 1024 * 1024 \<and> length (pr_payload_redact_keys b) \<le> 1000"

text \<open>A field of the settings update is absent, null or a value.\<close>

record settings_update =
  su_retention_days :: "int option option"
  su_payload_storage_mode :: "string option option"
  su_payload_max_bytes :: "int option option"
  su_payload_redact_keys :: "string option option"

definition settings_update_ok :: "settings_update \<Rightarrow> bool" where
  "settings_update_ok b \<longleftrightarrow>
     (case su_retention_days b of Some (Some d) \<Rightarrow> 7 \<le> d \<and> d \<le> 365 | _ \<Rightarrow> True) \<and>
     (case su_payload_storage_mode b of Some (Some m) \<Rightarrow> m \<in> set payload_storage_modes | _ \<Rightarrow> True) \<and>
     (case su_payload_max_bytes b of Some (Some n) \<Rightarrow> 0 \<le> n \<and> n \<le> 10 * 1024 * 1024 | _ \<Rightarrow> True) \<and>
     (case su_payload_redact_keys b of Some (Some s) \<Rightarrow> length s \<le> 1000 | _ \<Rightarrow> True)"

record project_settings =
  st_retention_days :: int
  st_payload_storage_mode :: string
  st_payload_max_bytes :: int
  st_payload_redact_keys :: string

definition project_settings_of :: "project_row \<Rightarrow> project_settings" where
  "project_settings_of p =
     \<lparr>st_retention_days = pj_retention_days p, st_payload_storage_mode = pj_payload_storage_mode p,
      st_payload_max_bytes = pj_payload_max_bytes p, st_payload_redact_keys = pj_payload_redact_keys p\<rparr>"

record api_key_create =
  kc_name :: string
  kc_description :: "string option"
  kc_scope :: string

definition api_key_create_ok :: "api_key_create \<Rightarrow> bool" where
  "api_key_create_ok b \<longleftrightarrow>
     length_between 1 100 (kc_name b) \<and> (case kc_description b of None \<Rightarrow> True | Some d \<Rightarrow> length d \<le> 500) \<and>
     kc_scope b \<in> {''ingest'', ''read'', ''read_write''}"

record member_record =
  mr_user_id :: uuid
  mr_email :: string
  mr_org_role :: string
  mr_project_role :: string
  mr_is_active :: bool
  mr_created_at :: time
  mr_updated_at :: time

section \<open>Projects\<close>

definition ensure_project_in_org :: "org_db \<Rightarrow> uuid \<Rightarrow> uuid \<Rightarrow> http_error + unit" where
  "ensure_project_in_org db project_id org_id =
     (if \<exists>p \<in> set (od_projects db). pj_id p = project_id \<and> pj_org_id p = org_id \<and> pj_is_active p
      then Inr () else Inl (HTTPException 404 ''Project not found''))"

definition list_projects :: "current_user \<Rightarrow> org_db \<Rightarrow> http_error + project_row list" where
  "list_projects user db =
     (case require_admin user of
        Inl e \<Rightarrow> Inl e
      | Inr _ \<Rightarrow> Inr (sort_key pj_created_at (sort_key pj_name (filter (\<lambda>p. pj_org_id p = cu_org_id user) (od_projects db)))))"

text \<open>The rows with the role of the user in the project.\<close>

definition list_accessible_projects :: "current_user \<Rightarrow> org_db \<Rightarrow> (project_row \<times> string) list" where
  "list_accessible_projects user db =
     (if cu_role user = Some ''admin'' then
        map (\<lambda>p. (p, ''admin'')) (sort_key pj_created_at (sort_key pj_name
          (filter (\<lambda>p. pj_org_id p = cu_org_id user \<and> pj_is_active p) (od_projects db))))
      else
        sort_key (\<lambda>x. pj_created_at (fst x)) (sort_key (\<lambda>x. pj_name (fst x))
          (concat (map (\<lambda>m. map (\<lambda>p. (p, pm_role m))
             (filter (\<lambda>p. pj_id p = pm_project_id m \<and> pj_org_id p = cu_org_id user \<and> pj_is_active p) (od_projects db)))
           (filter (\<lambda>m. pm_user_id m = cu_sub user) (od_memberships db))))))"

definition create_project_tx ::
  "account_env \<Rightarrow> current_user \<Rightarrow> string \<Rightarrow> project_create \<Rightarrow> org_db \<Rightarrow> http_error + (project_row \<times> string) \<times> org_db" where
  "create_project_tx env user name body db =
     (if \<exists>p \<in> set (od_projects db). pj_org_id p = cu_org_id user \<and> pj_name p = name
      then Inl (HTTPException 409 ''Project already exists'')
      else
        (let raw_key = raw_api_key env;
             row = \<lparr>pj_id = ae_uuid env 0, pj_org_id = cu_org_id user, pj_name = name, pj_api_key_hash = ae_sha env raw_key,
               pj_retention_days = pr_retention_days body, pj_payload_storage_mode = pr_payload_storage_mode body,
               pj_payload_max_bytes = pr_payload_max_bytes body,
               pj_payload_redact_keys = py_strip (pr_payload_redact_keys body), pj_is_active = True, pj_created_at = ae_now env\<rparr>
         in Inr ((row, raw_key),
              log_audit (cu_org_id user) ''project.create'' (Some (cu_sub user)) (Some (pj_id row)) [(''name'', JStr name)]
                (db\<lparr>od_projects := od_projects db @ [row]\<rparr>))))"

definition create_project ::
  "account_env \<Rightarrow> current_user \<Rightarrow> project_create \<Rightarrow> org_db \<Rightarrow> (http_error + project_row \<times> string) \<times> org_db" where
  "create_project env user body db =
     (case require_admin user of
        Inl e \<Rightarrow> (Inl e, db)
      | Inr _ \<Rightarrow>
          (let name = py_strip (pr_name body)
           in if name = [] then (Inl (HTTPException 400 ''Project name is required''), db)
              else transact db (create_project_tx env user name body db)))"

text \<open>The transaction returns the hash it replaces.\<close>

definition rotate_api_key_tx ::
  "account_env \<Rightarrow> current_user \<Rightarrow> uuid \<Rightarrow> org_db \<Rightarrow> http_error + string \<times> org_db" where
  "rotate_api_key_tx env user project_id db =
     (case select_one (\<lambda>p. pj_id p = project_id \<and> pj_org_id p = cu_org_id user) (od_projects db) of
        None \<Rightarrow> Inl (HTTPException 404 ''Project not found'')
      | Some project \<Rightarrow>
          Inr (pj_api_key_hash project,
            log_audit (cu_org_id user) ''api_key.rotate'' (Some (cu_sub user)) (Some project_id) []
              (db\<lparr>od_projects := update_where (\<lambda>p. pj_id p = project_id \<and> pj_org_id p = cu_org_id user)
                    (\<lambda>p. p\<lparr>pj_api_key_hash := ae_sha env (raw_api_key env)\<rparr>) (od_projects db)\<rparr>)))"

definition rotate_api_key ::
  "('r, project_context) redis \<Rightarrow> account_env \<Rightarrow> current_user \<Rightarrow> uuid \<Rightarrow> org_db \<Rightarrow> 'r
     \<Rightarrow> (http_error + string) \<times> org_db \<times> 'r" where
  "rotate_api_key R env user project_id db r =
     (case require_admin user of
        Inl e \<Rightarrow> (Inl e, db, r)
      | Inr _ \<Rightarrow>
          (case transact db (rotate_api_key_tx env user project_id db) of
             (Inl e, db') \<Rightarrow> (Inl e, db', r)
           | (Inr old_hash, db') \<Rightarrow>
               (Inr (raw_api_key env), db',
                r_delete R [apikey_cache_key (ae_sha env (raw_api_key env))] (r_delete R [apikey_cache_key old_hash] r))))"

section \<open>Members\<close>

definition member_of :: "membership_row \<Rightarrow> user_row \<Rightarrow> member_record" where
  "member_of m u =
     \<lparr>mr_user_id = us_id u, mr_email = us_email u, mr_org_role = us_role u, mr_project_role = pm_role m,
      mr_is_active = us_is_active u, mr_created_at = pm_created_at m, mr_updated_at = pm_updated_at m\<rparr>"

definition list_project_members :: "current_user \<Rightarrow> uuid \<Rightarrow> org_db \<Rightarrow> http_error + member_record list" where
  "list_project_members user project_id db =
     (case require_admin user of
        Inl e \<Rightarrow> Inl e
      | Inr _ \<Rightarrow>
          (case ensure_project_in_org db project_id (cu_org_id user) of
             Inl e \<Rightarrow> Inl e
           | Inr _ \<Rightarrow> Inr (sort_key mr_email (concat (map (\<lambda>m. map (member_of m)
                (filter (\<lambda>u. us_id u = pm_user_id m \<and> us_org_id u = cu_org_id user) (od_users db)))
               (filter (\<lambda>m. pm_project_id m = project_id) (od_memberships db)))))))"

definition assign_member_tx ::
  "account_env \<Rightarrow> current_user \<Rightarrow> uuid \<Rightarrow> uuid \<Rightarrow> string \<Rightarrow> org_db \<Rightarrow> http_error + member_record \<times> org_db" where
  "assign_member_tx env user project_id target_id role db =
     (case ensure_project_in_org db project_id (cu_org_id user) of
        Inl e \<Rightarrow> Inl e
      | Inr _ \<Rightarrow>
          (case find_org_user target_id (cu_org_id user) db of
             None \<Rightarrow> Inl (HTTPException 404 ''User not found'')
           | Some target \<Rightarrow>
               (let rows = upsert_membership (ae_now env) (ae_uuid env 0) project_id target_id role (od_memberships db)
                in case select_one (\<lambda>m. pm_project_id m = project_id \<and> pm_user_id m = target_id) rows of
                     None \<Rightarrow> Inl (Unhandled ''NoResultFound'')
                   | Some m \<Rightarrow>
                       Inr (member_of m target,
                         log_audit (cu_org_id user) ''project.member.assign'' (Some (cu_sub user)) (Some project_id)
                           [(''target_user_id'', JStr target_id), (''role'', JStr role)] (db\<lparr>od_memberships := rows\<rparr>)))))"

definition assign_project_member ::
  "account_env \<Rightarrow> current_user \<Rightarrow> uuid \<Rightarrow> uuid \<Rightarrow> string \<Rightarrow> org_db \<Rightarrow> (http_error + member_record) \<times> org_db" where
  "assign_project_member env user project_id target_id role db =
     (case require_admin user of
        Inl e \<Rightarrow> (Inl e, db)
      | Inr _ \<Rightarrow> transact db (assign_member_tx env user project_id target_id role db))"

definition remove_member_tx :: "current_user \<Rightarrow> uuid \<Rightarrow> uuid \<Rightarrow> org_db \<Rightarrow> http_error + unit \<times> org_db" where
  "remove_member_tx user project_id target_id db =
     (case ensure_project_in_org db project_id (cu_org_id user) of
        Inl e \<Rightarrow> Inl e
      | Inr _ \<Rightarrow>
          if find_org_user target_id (cu_org_id user) db = None then Inl (HTTPException 404 ''User not found'')
          else
            (let hit = (\<lambda>m. pm_project_id m = project_id \<and> pm_user_id m = target_id)
             in if \<not> (\<exists>m \<in> set (od_memberships db). hit m) then Inl (HTTPException 404 ''Project membership not found'')
                else Inr ((), log_audit (cu_org_id user) ''project.member.remove'' (Some (cu_sub user)) (Some project_id)
                       [(''target_user_id'', JStr target_id)]
                       (db\<lparr>od_memberships := delete_where hit (od_memberships db)\<rparr>))))"

definition remove_project_member ::
  "current_user \<Rightarrow> uuid \<Rightarrow> uuid \<Rightarrow> org_db \<Rightarrow> (http_error + unit) \<times> org_db" where
  "remove_project_member user project_id target_id db =
     (case require_admin user of
        Inl e \<Rightarrow> (Inl e, db)
      | Inr _ \<Rightarrow> transact db (remove_member_tx user project_id target_id db))"

section \<open>API keys\<close>

definition org_project_exists :: "org_db \<Rightarrow> uuid \<Rightarrow> uuid \<Rightarrow> bool" where
  "org_project_exists db project_id org_id \<longleftrightarrow>
     (\<exists>p \<in> set (od_projects db). pj_id p = project_id \<and> pj_org_id p = org_id)"

definition list_api_keys :: "current_user \<Rightarrow> uuid \<Rightarrow> org_db \<Rightarrow> http_error + api_key_row list" where
  "list_api_keys user project_id db =
     (case require_admin user of
        Inl e \<Rightarrow> Inl e
      | Inr _ \<Rightarrow>
          if \<not> org_project_exists db project_id (cu_org_id user) then Inl (HTTPException 404 ''Project not found'')
          else Inr (sort_key (\<lambda>k. - ak_created_at k) (filter (\<lambda>k. ak_project_id k = project_id) (od_api_keys db))))"

definition create_api_key_tx ::
  "account_env \<Rightarrow> current_user \<Rightarrow> uuid \<Rightarrow> api_key_create \<Rightarrow> org_db \<Rightarrow> http_error + (api_key_row \<times> string) \<times> org_db" where
  "create_api_key_tx env user project_id body db =
     (if \<not> org_project_exists db project_id (cu_org_id user) then Inl (HTTPException 404 ''Project not found'')
      else
        (let raw_key = raw_api_key env;
             row = \<lparr>ak_id = ae_uuid env 0, ak_project_id = project_id, ak_name = py_strip (kc_name body),
               ak_description = (if truthy (kc_description body) then map_option py_strip (kc_description body) else None),
               ak_key_hash = ae_sha env raw_key, ak_scope = kc_scope body, ak_is_active = True, ak_created_at = ae_now env,
               ak_last_used_at = None, ak_revoked_at = None\<rparr>
         in Inr ((row, raw_key),
              log_audit (cu_org_id user) ''api_key.create'' (Some (cu_sub user)) (Some project_id)
                [(''name'', JStr (kc_name body)), (''scope'', JStr (kc_scope body))]
                (db\<lparr>od_api_keys := od_api_keys db @ [row]\<rparr>))))"

definition create_api_key ::
  "account_env \<Rightarrow> current_user \<Rightarrow> uuid \<Rightarrow> api_key_create \<Rightarrow> org_db \<Rightarrow> (http_error + api_key_row \<times> string) \<times> org_db" where
  "create_api_key env user project_id body db =
     (case require_admin user of
        Inl e \<Rightarrow> (Inl e, db)
      | Inr _ \<Rightarrow> transact db (create_api_key_tx env user project_id body db))"

definition revoke_hit :: "current_user \<Rightarrow> uuid \<Rightarrow> uuid \<Rightarrow> org_db \<Rightarrow> api_key_row \<Rightarrow> bool" where
  "revoke_hit user project_id key_id db k \<longleftrightarrow>
     ak_id k = key_id \<and> ak_project_id k = project_id \<and> org_project_exists db project_id (cu_org_id user)"

text \<open>The transaction returns the hash of the key.\<close>

definition revoke_api_key_tx ::
  "account_env \<Rightarrow> current_user \<Rightarrow> uuid \<Rightarrow> uuid \<Rightarrow> org_db \<Rightarrow> http_error + string \<times> org_db" where
  "revoke_api_key_tx env user project_id key_id db =
     (case select_one (revoke_hit user project_id key_id db) (od_api_keys db) of
        None \<Rightarrow> Inl (HTTPException 404 ''API key not found'')
      | Some k \<Rightarrow>
          Inr (ak_key_hash k,
            log_audit (cu_org_id user) ''api_key.revoke'' (Some (cu_sub user)) (Some project_id) [(''key_id'', JStr key_id)]
              (db\<lparr>od_api_keys := update_where (revoke_hit user project_id key_id db)
                    (\<lambda>k. k\<lparr>ak_is_active := False,
                            ak_revoked_at := Some (case ak_revoked_at k of None \<Rightarrow> ae_now env | Some t \<Rightarrow> t)\<rparr>)
                    (od_api_keys db)\<rparr>)))"

definition revoke_api_key ::
  "('r, project_context) redis \<Rightarrow> account_env \<Rightarrow> current_user \<Rightarrow> uuid \<Rightarrow> uuid \<Rightarrow> org_db \<Rightarrow> 'r
     \<Rightarrow> (http_error + bool) \<times> org_db \<times> 'r" where
  "revoke_api_key R env user project_id key_id db r =
     (case require_admin user of
        Inl e \<Rightarrow> (Inl e, db, r)
      | Inr _ \<Rightarrow>
          (case transact db (revoke_api_key_tx env user project_id key_id db) of
             (Inl e, db') \<Rightarrow> (Inl e, db', r)
           | (Inr key_hash, db') \<Rightarrow> (Inr True, db', r_delete R [apikey_cache_key key_hash] r)))"

section \<open>Settings\<close>

definition get_settings :: "current_user \<Rightarrow> uuid \<Rightarrow> org_db \<Rightarrow> http_error + project_settings" where
  "get_settings user project_id db =
     (case require_admin user of
        Inl e \<Rightarrow> Inl e
      | Inr _ \<Rightarrow>
          (case select_one (\<lambda>p. pj_id p = project_id \<and> pj_org_id p = cu_org_id user) (od_projects db) of
             None \<Rightarrow> Inl (HTTPException 404 ''Project not found'')
           | Some p \<Rightarrow> Inr (project_settings_of p)))"

text \<open>One column of the update: kept when the field is absent, \<open>None\<close> when it is set to null.\<close>

definition set_column :: "'a option option \<Rightarrow> 'a \<Rightarrow> 'a option" where
  "set_column v old = (case v of None \<Rightarrow> Some old | Some new \<Rightarrow> new)"

definition settings_values :: "settings_update \<Rightarrow> settings_update" where
  "settings_values b = b\<lparr>su_payload_redact_keys := map_option (map_option py_strip) (su_payload_redact_keys b)\<rparr>"

definition no_settings :: "settings_update \<Rightarrow> bool" where
  "no_settings b \<longleftrightarrow> su_retention_days b = None \<and> su_payload_storage_mode b = None \<and>
     su_payload_max_bytes b = None \<and> su_payload_redact_keys b = None"

definition apply_settings :: "settings_update \<Rightarrow> project_row \<Rightarrow> project_row option" where
  "apply_settings v p =
     (case (set_column (su_retention_days v) (pj_retention_days p),
            set_column (su_payload_storage_mode v) (pj_payload_storage_mode p),
            set_column (su_payload_max_bytes v) (pj_payload_max_bytes p),
            set_column (su_payload_redact_keys v) (pj_payload_redact_keys p)) of
        (Some d, Some m, Some n, Some k) \<Rightarrow>
          Some (p\<lparr>pj_retention_days := d, pj_payload_storage_mode := m, pj_payload_max_bytes := n,
                   pj_payload_redact_keys := k\<rparr>)
      | _ \<Rightarrow> None)"

definition json_field :: "string \<Rightarrow> ('a \<Rightarrow> json) \<Rightarrow> 'a option option \<Rightarrow> (string \<times> json) list" where
  "json_field name f v =
     (case v of None \<Rightarrow> [] | Some None \<Rightarrow> [(name, JNull)] | Some (Some x) \<Rightarrow> [(name, f x)])"

definition settings_metadata :: "settings_update \<Rightarrow> (string \<times> json) list" where
  "settings_metadata v =
     json_field ''retention_days'' JInt (su_retention_days v) @
     json_field ''payload_storage_mode'' JStr (su_payload_storage_mode v) @
     json_field ''payload_max_bytes'' JInt (su_payload_max_bytes v) @
     json_field ''payload_redact_keys'' JStr (su_payload_redact_keys v)"

definition update_settings_tx ::
  "current_user \<Rightarrow> uuid \<Rightarrow> settings_update \<Rightarrow> org_db \<Rightarrow> http_error + project_settings \<times> org_db" where
  "update_settings_tx user project_id v db =
     (let hit = (\<lambda>p. pj_id p = project_id \<and> pj_org_id p = cu_org_id user)
      in case select_one hit (od_projects db) of
           None \<Rightarrow> Inl (HTTPException 404 ''Project not found'')
         | Some p \<Rightarrow>
             (case apply_settings v p of
                None \<Rightarrow> Inl (Unhandled ''IntegrityError'')
              | Some p' \<Rightarrow>
                  Inr (project_settings_of p',
                    log_audit (cu_org_id user) ''project.settings.update'' (Some (cu_sub user)) (Some project_id)
                      (settings_metadata v) (db\<lparr>od_projects := update_where hit (\<lambda>_. p') (od_projects db)\<rparr>))))"

definition update_settings ::
  "current_user \<Rightarrow> uuid \<Rightarrow> settings_update \<Rightarrow> org_db \<Rightarrow> (http_error + project_settings) \<times> org_db" where
  "update_settings user project_id body db =
     (case require_admin user of
        Inl e \<Rightarrow> (Inl e, db)
      | Inr _ \<Rightarrow>
          if no_settings body then (Inl (HTTPException 400 ''No settings provided''), db)
          else transact db (update_settings_tx user project_id (settings_values body) db))"

end
