(* ===== verification/Org_System.thy ===== *)
theory Org_System
  imports Projects
begin

text \<open>
  The handlers of accounts and projects together with authentication by API key, as steps of
  one system over the tables and the key cache, and the invariants of its reachable states.
  A handler runs alone here; \<open>role_check\<close> and \<open>role_write\<close> of two transactions interleave in the
  last section. Newly generated keys are fresh: their hash is in neither table.
\<close>

section \<open>The step relation\<close>

definition fresh_hash :: "string \<Rightarrow> org_db \<Rightarrow> bool" where
  "fresh_hash h db \<longleftrightarrow> h \<notin> set (map pj_api_key_hash (od_projects db)) \<and> h \<notin> set (map ak_key_hash (od_api_keys db))"

inductive org_step ::
  "'z zset_ops \<Rightarrow> ('r, project_context) redis \<Rightarrow> (string \<Rightarrow> string) \<Rightarrow> org_db \<times> 'r \<Rightarrow> org_db \<times> 'r \<Rightarrow> bool"
  for Z R sha where
  step_register: "register Z env body db z = (res, db', z') \<Longrightarrow> ae_sha env = sha \<Longrightarrow> fresh_hash (sha (raw_api_key env)) db \<Longrightarrow>
     org_step Z R sha (db, r) (db', r)"
| step_create_invite: "create_invite env user ibody db = (ires, db') \<Longrightarrow> ae_sha env = sha \<Longrightarrow> org_step Z R sha (db, r) (db', r)"
| step_accept_invite: "accept_invite env abody db = (ares, db') \<Longrightarrow> ae_sha env = sha \<Longrightarrow> org_step Z R sha (db, r) (db', r)"
| step_update_role: "update_user_role user user_id role db = (ures, db') \<Longrightarrow> org_step Z R sha (db, r) (db', r)"
| step_delete_user: "delete_user user user_id db = (dres, db') \<Longrightarrow> org_step Z R sha (db, r) (db', r)"
| step_create_project: "create_project env user pbody db = (pres, db') \<Longrightarrow> ae_sha env = sha \<Longrightarrow>
     project_create_ok pbody \<Longrightarrow> fresh_hash (sha (raw_api_key env)) db \<Longrightarrow> org_step Z R sha (db, r) (db', r)"
| step_rotate: "rotate_api_key R env user project_id db r = (rres, db', r') \<Longrightarrow> ae_sha env = sha \<Longrightarrow>
     fresh_hash (sha (raw_api_key env)) db \<Longrightarrow> org_step Z R sha (db, r) (db', r')"
| step_assign: "assign_project_member env user project_id user_id role db = (mres, db') \<Longrightarrow> org_step Z R sha (db, r) (db', r)"
| step_remove: "remove_project_member user project_id user_id db = (dres, db') \<Longrightarrow> org_step Z R sha (db, r) (db', r)"
| step_create_key: "create_api_key env user project_id kbody db = (kres, db') \<Longrightarrow> ae_sha env = sha \<Longrightarrow>
     fresh_hash (sha (raw_api_key env)) db \<Longrightarrow> org_step Z R sha (db, r) (db', r)"
| step_revoke: "revoke_api_key R env user project_id key_id db r = (vres, db', r') \<Longrightarrow> org_step Z R sha (db, r) (db', r')"
| step_settings: "update_settings user project_id sbody db = (sres, db') \<Longrightarrow> settings_update_ok sbody \<Longrightarrow>
     org_step Z R sha (db, r) (db', r)"
| step_authenticate: "get_project_from_api_key R sha now creds x_api_key scope db r = (gres, db', r') \<Longrightarrow>
     org_step Z R sha (db, r) (db', r')"

inductive org_run ::
  "'z zset_ops \<Rightarrow> ('r, project_context) redis \<Rightarrow> (string \<Rightarrow> string) \<Rightarrow> org_db \<times> 'r \<Rightarrow> org_db \<times> 'r \<Rightarrow> bool"
  for Z R sha where
  run_refl: "org_run Z R sha s s"
| run_step: "org_run Z R sha s s' \<Longrightarrow> org_step Z R sha s' s'' \<Longrightarrow> org_run Z R sha s s''"

lemma org_run_invariant:
  assumes "org_run Z R sha s s'" and "P s" and "\<And>a b. org_step Z R sha a b \<Longrightarrow> P a \<Longrightarrow> P b"
  shows "P s'"
  using assms by (induction rule: org_run.induct) auto

section \<open>What the handlers leave alone\<close>

lemmas handler_splits = sum.splits prod.splits if_splits

lemma create_invite_frame:
  "create_invite env user b db = (res, db') \<Longrightarrow> od_orgs db' = od_orgs db \<and> od_users db' = od_users db \<and>
     od_projects db' = od_projects db \<and> od_api_keys db' = od_api_keys db"
  by (auto simp: create_invite_def create_invite_tx_def transact_def Let_def split: handler_splits)

lemma accept_invite_frame:
  "accept_invite env b db = (res, db') \<Longrightarrow> od_orgs db' = od_orgs db \<and>
     od_projects db' = od_projects db \<and> od_api_keys db' = od_api_keys db"
  by (auto simp: accept_invite_def accept_invite_tx_def transact_def Let_def split: handler_splits option.splits)

lemma update_user_role_frame:
  "update_user_role user uid role db = (res, db') \<Longrightarrow> od_orgs db' = od_orgs db \<and>
     od_projects db' = od_projects db \<and> od_api_keys db' = od_api_keys db \<and> od_invites db' = od_invites db"
  by (auto simp: update_user_role_def update_user_role_tx_def role_write_def transact_def split: handler_splits)

lemma delete_user_frame:
  "delete_user user uid db = (res, db') \<Longrightarrow> od_orgs db' = od_orgs db \<and>
     od_projects db' = od_projects db \<and> od_api_keys db' = od_api_keys db \<and> od_invites db' = od_invites db"
  by (auto simp: delete_user_def delete_write_def transact_def split: handler_splits)

lemma create_project_frame:
  "create_project env user b db = (res, db') \<Longrightarrow> od_orgs db' = od_orgs db \<and> od_users db' = od_users db \<and>
     od_api_keys db' = od_api_keys db \<and> od_invites db' = od_invites db"
  by (auto simp: create_project_def create_project_tx_def transact_def Let_def split: handler_splits)

lemma rotate_frame:
  "rotate_api_key R env user pid db r = (res, db', r') \<Longrightarrow> od_orgs db' = od_orgs db \<and> od_users db' = od_users db \<and>
     od_api_keys db' = od_api_keys db \<and> od_invites db' = od_invites db"
  by (auto simp: rotate_api_key_def rotate_api_key_tx_def transact_def split: handler_splits option.splits)

lemma assign_frame:
  "assign_project_member env user pid uid role db = (res, db') \<Longrightarrow> od_orgs db' = od_orgs db \<and> od_users db' = od_users db \<and>
     od_projects db' = od_projects db \<and> od_api_keys db' = od_api_keys db \<and> od_invites db' = od_invites db"
  by (auto simp: assign_project_member_def assign_member_tx_def transact_def Let_def split: handler_splits option.splits)

lemma remove_frame:
  "remove_project_member user pid uid db = (res, db') \<Longrightarrow> od_orgs db' = od_orgs db \<and> od_users db' = od_users db \<and>
     od_projects db' = od_projects db \<and> od_api_keys db' = od_api_keys db \<and> od_invites db' = od_invites db"
  by (auto simp: remove_project_member_def remove_member_tx_def transact_def Let_def split: handler_splits)

lemma create_key_frame:
  "create_api_key env user pid b db = (res, db') \<Longrightarrow> od_orgs db' = od_orgs db \<and> od_users db' = od_users db \<and>
     od_projects db' = od_projects db \<and> od_invites db' = od_invites db"
  by (auto simp: create_api_key_def create_api_key_tx_def transact_def Let_def split: handler_splits)

lemma revoke_frame:
  "revoke_api_key R env user pid kid db r = (res, db', r') \<Longrightarrow> od_orgs db' = od_orgs db \<and> od_users db' = od_users db \<and>
     od_projects db' = od_projects db \<and> od_invites db' = od_invites db"
  by (auto simp: revoke_api_key_def revoke_api_key_tx_def transact_def split: handler_splits option.splits)

lemma settings_frame:
  "update_settings user pid b db = (res, db') \<Longrightarrow> od_orgs db' = od_orgs db \<and> od_users db' = od_users db \<and>
     od_api_keys db' = od_api_keys db \<and> od_invites db' = od_invites db"
  by (auto simp: update_settings_def update_settings_tx_def transact_def Let_def split: handler_splits option.splits)

lemma authenticate_db:
  assumes "get_project_from_api_key R sha now creds x scope db r = (res, db', r')"
  obtains "db' = db" | i where "db' = touch_api_key now i db"
  using assms by (auto simp: get_project_from_api_key_def Let_def split: handler_splits option.splits)

lemma touch_frame [simp]:
  "od_orgs (touch_api_key now i db) = od_orgs db" "od_users (touch_api_key now i db) = od_users db"
  "od_projects (touch_api_key now i db) = od_projects db" "od_invites (touch_api_key now i db) = od_invites db"
  "od_memberships (touch_api_key now i db) = od_memberships db"
  by (simp_all add: touch_api_key_def)

lemmas frames = create_invite_frame accept_invite_frame update_user_role_frame delete_user_frame create_project_frame
  rotate_frame assign_frame remove_frame create_key_frame revoke_frame settings_frame

section \<open>The constraints hold throughout\<close>

lemma touch_constraints: "constraints_ok db \<Longrightarrow> constraints_ok (touch_api_key now i db)"
proof -
  assume ok: "constraints_ok db"
  have m: "map f (od_api_keys (touch_api_key now i db)) = map f (od_api_keys db)"
    if "\<And>k. f (k\<lparr>ak_last_used_at := Some now\<rparr>) = f k" for f :: "api_key_row \<Rightarrow> 'b"
    unfolding touch_api_key_def using that by (simp add: update_where_def)
  have l: "list_all P (od_api_keys (touch_api_key now i db)) = list_all P (od_api_keys db)"
    if "\<And>k. P (k\<lparr>ak_last_used_at := Some now\<rparr>) = P k" for P :: "api_key_row \<Rightarrow> bool"
    by (simp add: touch_api_key_def list_all_update_where that)
  with ok show ?thesis by (simp add: constraints_ok_def m l)
qed

lemma step_constraints:
  assumes "org_step Z R sha s s'" and "constraints_ok (fst s)"
  shows "constraints_ok (fst s')"
  using assms
proof cases
  case (step_authenticate now creds x scope db r gres db' r')
  with assms(2) show ?thesis by (auto intro: touch_constraints elim: authenticate_db)
qed (auto simp: register_def create_invite_def accept_invite_def update_user_role_def delete_user_def create_project_def
    rotate_api_key_def assign_project_member_def remove_project_member_def create_api_key_def revoke_api_key_def
    update_settings_def Let_def split: handler_splits intro: transact_keeps)

section \<open>Every organization keeps an administrator\<close>

definition admins_kept :: "org_db \<Rightarrow> bool" where
  "admins_kept db \<longleftrightarrow> (\<forall>org \<in> set (od_orgs db). active_admins (og_id org) db \<noteq> [])"

lemma admins_kept_frame:
  "od_orgs db' = od_orgs db \<and> od_users db' = od_users db \<Longrightarrow> admins_kept db \<Longrightarrow> admins_kept db'"
  by (simp add: admins_kept_def active_admins_def)

lemma register_admins:
  assumes "register Z env b db z = (res, db', z')" and "admins_kept db"
  shows "admins_kept db'"
proof (cases "db' = db")
  case False
  with assms(1) obtain resp where "register_tx env b db = Inr (resp, db')"
    by (auto simp: register_def split: handler_splits elim: transact_cases)
  with assms(2) show ?thesis
    by (auto simp: register_tx_def admins_kept_def active_admins_def new_user_def Let_def split: if_splits)
qed (use assms in simp)

lemma accept_admins:
  assumes "accept_invite env b db = (res, db')" and "admins_kept db"
  shows "admins_kept db'"
proof -
  have "\<exists>us. od_users db' = od_users db @ us"
    using assms(1) by (auto simp: accept_invite_def accept_invite_tx_def transact_def Let_def split: handler_splits option.splits)
  with assms(2) accept_invite_frame [OF assms(1)] show ?thesis
    by (auto simp: admins_kept_def active_admins_def)
qed

text \<open>Two administrators are two users.\<close>

lemma other_admin:
  assumes "constraints_ok db" and "\<not> length (active_admins oid db) \<le> 1"
  shows "\<exists>u \<in> set (active_admins oid db). us_id u \<noteq> uid"
proof (rule ccontr)
  assume "\<not> ?thesis"
  then have all: "us_id u = uid" if "u \<in> set (active_admins oid db)" for u using that by blast
  have "active_admins oid db = filter (\<lambda>u. us_org_id u = oid \<and> us_role u = ''admin'' \<and> us_is_active u \<and> us_id u = uid) (od_users db)"
    unfolding active_admins_def by (rule filter_cong) (use all in \<open>auto simp: active_admins_def\<close>)
  also have "length \<dots> \<le> 1"
    by (rule filter_unique_key [OF constraints_okD(1) [OF assms(1)], where k = uid]) simp
  finally show False using assms(2) by simp
qed

lemma demote_admins:
  assumes "constraints_ok db" and "admins_kept db" and "role_check user uid role db = Inr target"
  shows "admins_kept (role_write user uid role target db)"
  unfolding admins_kept_def
proof
  let ?oid = "cu_org_id user" and ?db' = "role_write user uid role target db"
  fix org assume "org \<in> set (od_orgs ?db')"
  then have "active_admins (og_id org) db \<noteq> []" using assms(2) by (simp add: role_write_def admins_kept_def)
  then obtain a where a: "a \<in> set (active_admins (og_id org) db)" by (cases "active_admins (og_id org) db") auto
  have keep: "active_admins (og_id org) ?db' \<noteq> []" if "u \<in> set (active_admins (og_id org) db)" "us_id u \<noteq> uid \<or> us_org_id u \<noteq> ?oid \<or> role = ''admin''" for u
  proof -
    define u' where "u' = (if us_id u = uid \<and> us_org_id u = ?oid then u\<lparr>us_role := role\<rparr> else u)"
    have "u' \<in> set (od_users ?db')"
      using that(1) by (simp add: u'_def role_write_def update_where_def active_admins_def)
    moreover have "us_org_id u' = og_id org" "us_role u' = ''admin''" "us_is_active u'"
      using that by (auto simp: u'_def active_admins_def)
    ultimately show ?thesis by (auto simp: active_admins_def filter_empty_conv)
  qed
  show "active_admins (og_id org) ?db' \<noteq> []"
  proof (cases "us_id a \<noteq> uid \<or> us_org_id a \<noteq> ?oid \<or> role = ''admin''")
    case True
    with keep a show ?thesis by blast
  next
    case False
    have "target = a"
    proof -
      have "find_org_user uid ?oid db = Some a"
        unfolding find_org_user_def
        by (rule select_one_unique [where key = us_id]) (use False a assms(1) in \<open>auto simp: active_admins_def constraints_ok_def\<close>)
      with assms(3) show ?thesis by (auto simp: role_check_def split: if_splits)
    qed
    with False a assms(3) have "\<not> length (active_admins (og_id org) db) \<le> 1"
      by (auto simp: role_check_def active_admins_def split: option.splits if_splits)
    from other_admin [OF assms(1) this, of uid] keep show ?thesis by blast
  qed
qed

lemma delete_admins:
  assumes "constraints_ok db" and "admins_kept db" and "delete_check user uid db = Inr target"
  shows "admins_kept (delete_write user uid target db)"
  unfolding admins_kept_def
proof
  let ?oid = "cu_org_id user" and ?db' = "delete_write user uid target db"
  fix org assume "org \<in> set (od_orgs ?db')"
  then have "active_admins (og_id org) db \<noteq> []" using assms(2) by (simp add: delete_write_def admins_kept_def)
  then obtain a where a: "a \<in> set (active_admins (og_id org) db)" by (cases "active_admins (og_id org) db") auto
  have keep: "active_admins (og_id org) ?db' \<noteq> []" if "u \<in> set (active_admins (og_id org) db)" "us_id u \<noteq> uid \<or> us_org_id u \<noteq> ?oid" for u
  proof -
    have "u \<in> set (active_admins (og_id org) ?db')"
      using that by (auto simp: active_admins_def delete_write_def)
    then show ?thesis by force
  qed
  show "active_admins (og_id org) ?db' \<noteq> []"
  proof (cases "us_id a \<noteq> uid \<or> us_org_id a \<noteq> ?oid")
    case True
    with keep a show ?thesis by blast
  next
    case False
    have "target = a"
    proof -
      have "find_org_user uid ?oid db = Some a"
        unfolding find_org_user_def
        by (rule select_one_unique [where key = us_id]) (use False a assms(1) in \<open>auto simp: active_admins_def constraints_ok_def\<close>)
      with assms(3) show ?thesis by (auto simp: delete_check_def split: if_splits)
    qed
    with False a assms(3) have "\<not> length (active_admins (og_id org) db) \<le> 1"
      by (auto simp: delete_check_def active_admins_def split: option.splits if_splits)
    from other_admin [OF assms(1) this, of uid] keep show ?thesis by blast
  qed
qed

lemma step_admins:
  assumes "org_step Z R sha s s'" and "constraints_ok (fst s)" and "admins_kept (fst s)"
  shows "admins_kept (fst s')"
  using assms(1)
proof cases
  case (step_register env b db z res db' z' r)
  with register_admins assms(3) show ?thesis by fastforce
next
  case (step_accept_invite env b db ares db' r)
  with accept_admins assms(3) show ?thesis by fastforce
next
  case (step_update_role user uid role db ures db' r)
  then show ?thesis
    using assms(2,3) by (auto simp: update_user_role_def update_user_role_tx_def transact_def intro: demote_admins split: handler_splits)
next
  case (step_delete_user user uid db dres db' r)
  then show ?thesis
    using assms(2,3) by (auto simp: delete_user_def transact_def intro: delete_admins split: handler_splits)
next
  case (step_authenticate now creds x scope db r gres db' r')
  with assms(3) show ?thesis
    by (auto elim!: authenticate_db intro: admins_kept_frame [of "touch_api_key _ _ db" db])
qed (use assms(3) in \<open>auto dest!: frames intro: admins_kept_frame\<close>)

text \<open>
  C21: An organization never loses its last administrator. In every run of the handlers, each
  one alone, every organization has an active administrator: registration creates one, and
  neither a change of role nor a deletion removes the last one.
\<close>

theorem organizations_keep_an_admin:
  assumes "org_run Z R sha (db, r) (db', r')" and "constraints_ok db" and "admins_kept db" and "org \<in> set (od_orgs db')"
  shows "\<exists>u \<in> set (od_users db'). us_org_id u = og_id org \<and> us_role u = ''admin'' \<and> us_is_active u"
proof -
  have "constraints_ok (fst (db', r')) \<and> admins_kept (fst (db', r'))"
    by (rule org_run_invariant [OF assms(1)]) (use assms(2,3) step_constraints step_admins in \<open>auto\<close>)
  with assms(4) show ?thesis by (auto simp: admins_kept_def active_admins_def filter_empty_conv)
qed

section \<open>Invites\<close>

definition invite_used :: "string \<Rightarrow> org_db \<Rightarrow> bool" where
  "invite_used h db \<longleftrightarrow> (\<exists>i \<in> set (od_invites db). iv_token_hash i = h \<and> iv_accepted_at i \<noteq> None)"

lemma create_invite_used: "create_invite env user b db = (res, db') \<Longrightarrow> invite_used h db \<Longrightarrow> invite_used h db'"
  by (auto simp: invite_used_def create_invite_def create_invite_tx_def transact_def Let_def split: handler_splits)

lemma invite_used_update:
  "invite_used h db \<Longrightarrow> od_invites db' = update_where P (\<lambda>i. i\<lparr>iv_accepted_at := Some t\<rparr>) (od_invites db) \<Longrightarrow> invite_used h db'"
  unfolding invite_used_def
proof (elim bexE conjE)
  fix i assume upd: "od_invites db' = update_where P (\<lambda>i. i\<lparr>iv_accepted_at := Some t\<rparr>) (od_invites db)"
    and i: "i \<in> set (od_invites db)" "iv_token_hash i = h" "iv_accepted_at i \<noteq> None"
  let ?i = "if P i then i\<lparr>iv_accepted_at := Some t\<rparr> else i"
  have "?i \<in> set (od_invites db')" unfolding upd in_update_where using i(1) by blast
  moreover have "iv_token_hash ?i = h" "iv_accepted_at ?i \<noteq> None" using i by simp_all
  ultimately show "\<exists>i \<in> set (od_invites db'). iv_token_hash i = h \<and> iv_accepted_at i \<noteq> None" by blast
qed

lemma accept_tx_shape:
  assumes "accept_invite_tx env b db = Inr (resp, db')"
  obtains i as where "i \<in> set (od_invites db)" "iv_token_hash i = hash_invite_token env (ia_token b)"
    "iv_accepted_at i = None" "ae_now env < iv_expires_at i"
    "serialize_project_assignments (iv_project_assignments i) = Inr as"
    "od_users db' = od_users db @ [new_user env (ae_uuid env 0) (iv_org_id i) (iv_email i) (ia_password b) (iv_role i)]"
    "od_memberships db' = assign_memberships env 1 (ae_uuid env 0) as (od_memberships db)"
    "od_invites db' = update_where (\<lambda>j. iv_id j = iv_id i) (\<lambda>j. j\<lparr>iv_accepted_at := Some (ae_now env)\<rparr>) (od_invites db)"
proof -
  obtain i where i: "select_one (\<lambda>i. iv_token_hash i = hash_invite_token env (ia_token b) \<and> iv_accepted_at i = None)
      (od_invites db) = Some i" using assms by (auto simp: accept_invite_tx_def split: option.splits)
  obtain as where as: "serialize_project_assignments (iv_project_assignments i) = Inr as"
    using assms by (auto simp: accept_invite_tx_def i Let_def split: handler_splits)
  have "ae_now env < iv_expires_at i"
    "od_users db' = od_users db @ [new_user env (ae_uuid env 0) (iv_org_id i) (iv_email i) (ia_password b) (iv_role i)]"
    "od_memberships db' = assign_memberships env 1 (ae_uuid env 0) as (od_memberships db)"
    "od_invites db' = update_where (\<lambda>j. iv_id j = iv_id i) (\<lambda>j. j\<lparr>iv_accepted_at := Some (ae_now env)\<rparr>) (od_invites db)"
    using assms by (auto simp: accept_invite_tx_def i as Let_def split: if_splits)
  with that as select_one_SomeD [OF i] show ?thesis by blast
qed

lemma accept_invite_used:
  assumes "accept_invite env b db = (res, db')" and "invite_used h db"
  shows "invite_used h db'"
  using assms(1) unfolding accept_invite_def
proof (cases rule: transact_cases)
  case (committed a)
  from committed(1) show ?thesis
    by (rule accept_tx_shape) (use assms(2) invite_used_update in blast)
qed (use assms(2) in simp)

lemma register_invites: "register Z env b db z = (res, db', z') \<Longrightarrow> od_invites db' = od_invites db"
  by (auto simp: register_def register_tx_def transact_def Let_def split: handler_splits)

lemma step_invite_used:
  assumes "org_step Z R sha s s'" and "invite_used h (fst s)"
  shows "invite_used h (fst s')"
  using assms(1)
proof cases
  case (step_create_invite env user ibody db ires db' r)
  with create_invite_used assms(2) show ?thesis by fastforce
next
  case (step_accept_invite env abody db ares db' r)
  with accept_invite_used assms(2) show ?thesis by fastforce
next
  case (step_authenticate now creds x scope db r gres db' r')
  with assms(2) show ?thesis by (auto elim!: authenticate_db simp: invite_used_def)
qed (use assms(2) in \<open>auto dest!: frames register_invites simp: invite_used_def\<close>)

lemma used_invite_refused:
  assumes "constraints_ok db" and "invite_used (hash_invite_token env (ia_token b)) db"
  shows "accept_invite env b db = (Inl (HTTPException 400 ''Invite is invalid or already accepted''), db)"
proof -
  obtain i where i: "i \<in> set (od_invites db)" "iv_token_hash i = hash_invite_token env (ia_token b)" "iv_accepted_at i \<noteq> None"
    using assms(2) by (auto simp: invite_used_def)
  have "\<not> (iv_token_hash j = hash_invite_token env (ia_token b) \<and> iv_accepted_at j = None)" if "j \<in> set (od_invites db)" for j
    using that i constraints_okD(8) [OF assms(1)] by (metis distinct_map inj_onD)
  then have "select_one (\<lambda>i. iv_token_hash i = hash_invite_token env (ia_token b) \<and> iv_accepted_at i = None) (od_invites db) = None"
    by (simp add: select_one_None_iff)
  then show ?thesis by (simp add: accept_invite_def accept_invite_tx_def transact_def)
qed

text \<open>What the loop over the assignments leaves.\<close>

definition memberships_of :: "uuid \<Rightarrow> membership_row list \<Rightarrow> (uuid \<times> string) list" where
  "memberships_of uid rows = map (\<lambda>m. (pm_project_id m, pm_role m)) (filter (\<lambda>m. pm_user_id m = uid) rows)"

lemma upsert_memberships_of:
  "set (memberships_of uid (upsert_membership now i pid uid role rows)) =
     insert (pid, role) {x \<in> set (memberships_of uid rows). fst x \<noteq> pid}"
proof (cases "\<exists>m \<in> set rows. pm_project_id m = pid \<and> pm_user_id m = uid")
  case True
  define g :: "membership_row \<Rightarrow> membership_row" where "g = (\<lambda>m. if pm_project_id m = pid \<and> pm_user_id m = uid then m\<lparr>pm_role := role, pm_updated_at := now\<rparr> else m)"
  have up: "upsert_membership now i pid uid role rows = map g rows"
    using True by (simp add: upsert_membership_def update_where_def g_def)
  have g: "pm_user_id (g m) = pm_user_id m" "pm_project_id (g m) = pm_project_id m"
    "pm_role (g m) = (if pm_project_id m = pid \<and> pm_user_id m = uid then role else pm_role m)" for m by (simp_all add: g_def)
  have "memberships_of uid (map g rows) =
      map (\<lambda>m. (pm_project_id m, if pm_project_id m = pid then role else pm_role m)) (filter (\<lambda>m. pm_user_id m = uid) rows)"
    by (induction rows) (simp_all add: memberships_of_def g)
  with True up show ?thesis by (auto simp: memberships_of_def image_iff)
next
  case False
  then have "upsert_membership now i pid uid role rows = rows @
      [\<lparr>pm_id = i, pm_project_id = pid, pm_user_id = uid, pm_role = role, pm_created_at = now, pm_updated_at = now\<rparr>]"
    unfolding upsert_membership_def Let_def by auto
  with False show ?thesis by (auto simp: memberships_of_def)
qed

lemma assign_memberships_of:
  "set (memberships_of uid (assign_memberships env n uid as rows)) \<subseteq>
     set (memberships_of uid rows) \<union> set (map (\<lambda>a. (pa_project_id a, pa_role a)) as) \<and>
   fst ` set (memberships_of uid (assign_memberships env n uid as rows)) =
     fst ` set (memberships_of uid rows) \<union> set (map pa_project_id as)"
proof (induction as arbitrary: n rows)
  case (Cons a as)
  let ?rows = "upsert_membership (ae_now env) (ae_uuid env n) (pa_project_id a) uid (pa_role a) rows"
  have "set (memberships_of uid ?rows) \<subseteq> set (memberships_of uid rows) \<union> {(pa_project_id a, pa_role a)}"
    "fst ` set (memberships_of uid ?rows) = insert (pa_project_id a) (fst ` set (memberships_of uid rows))"
    unfolding upsert_memberships_of by force+
  with Cons [of "n + 1" ?rows] show ?case by auto
qed simp

lemma accepted_invite:
  assumes "constraints_ok db" and "accept_invite env b db = (Inr resp, db')"
  obtains i u as where "i \<in> set (od_invites db)" "iv_token_hash i = hash_invite_token env (ia_token b)"
    "iv_accepted_at i = None" "ae_now env < iv_expires_at i" "od_users db' = od_users db @ [u]"
    "us_email u = iv_email i" "us_org_id u = iv_org_id i" "us_role u = iv_role i"
    "serialize_project_assignments (iv_project_assignments i) = Inr as"
    "set (memberships_of (us_id u) (od_memberships db')) \<subseteq> set (map (\<lambda>a. (pa_project_id a, pa_role a)) as)"
    "fst ` set (memberships_of (us_id u) (od_memberships db')) = set (map pa_project_id as)"
    "invite_used (iv_token_hash i) db'"
proof -
  have tx: "accept_invite_tx env b db = Inr (resp, db')" and ok: "constraints_ok db'"
    using assms(2) by (auto simp: accept_invite_def transact_Inr)
  obtain i as where mem: "i \<in> set (od_invites db)" "iv_token_hash i = hash_invite_token env (ia_token b)"
      "iv_accepted_at i = None" and t: "ae_now env < iv_expires_at i"
    and as: "serialize_project_assignments (iv_project_assignments i) = Inr as"
    and db0: "od_users db' = od_users db @ [new_user env (ae_uuid env 0) (iv_org_id i) (iv_email i) (ia_password b) (iv_role i)]"
    "od_memberships db' = assign_memberships env 1 (ae_uuid env 0) as (od_memberships db)"
    and inv: "od_invites db' = update_where (\<lambda>j. iv_id j = iv_id i) (\<lambda>j. j\<lparr>iv_accepted_at := Some (ae_now env)\<rparr>) (od_invites db)"
    by (rule accept_tx_shape [OF tx])
  define u where "u = new_user env (ae_uuid env 0) (iv_org_id i) (iv_email i) (ia_password b) (iv_role i)"
  have db': "od_users db' = od_users db @ [u]" "od_memberships db' = assign_memberships env 1 (us_id u) as (od_memberships db)"
    using db0 by (simp_all add: u_def new_user_def)
  have "us_id u \<notin> set (map us_id (od_users db))" using ok db'(1) by (auto simp: constraints_ok_def)
  then have none: "memberships_of (us_id u) (od_memberships db) = []"
    using constraints_ok_refs(1) [OF assms(1)] unfolding memberships_of_def map_is_Nil_conv filter_empty_conv by metis
  have used: "invite_used (iv_token_hash i) db'"
    unfolding invite_used_def inv by (rule bexI [OF _ update_whereI [OF mem(1)]]) simp
  have e: "us_email u = iv_email i" "us_org_id u = iv_org_id i" "us_role u = iv_role i"
    by (simp_all add: u_def new_user_def)
  have m: "set (memberships_of (us_id u) (od_memberships db')) \<subseteq> set (map (\<lambda>a. (pa_project_id a, pa_role a)) as)"
    "fst ` set (memberships_of (us_id u) (od_memberships db')) = set (map pa_project_id as)"
    using assign_memberships_of [of "us_id u" env 1 as "od_memberships db"] none by (simp_all add: db'(2))
  show ?thesis by (rule that [OF mem t db'(1) e as m used])
qed

text \<open>
  C22: An invite works once, in time, and for what it says. When it is accepted, it was not
  accepted before and had not expired; exactly one user is added, with the invite's address,
  organization and role, and memberships in exactly the assigned projects. After any later run
  of the handlers the same token is refused and changes nothing.
\<close>

theorem invite_is_single_use:
  assumes "constraints_ok db" and "accept_invite env body db = (Inr resp, db')" and "ae_sha env = sha"
    and "org_run Z R sha (db', r) (db'', r'')" and "ae_sha env2 = sha" and "ia_token body2 = ia_token body"
  shows "(\<exists>i u as. i \<in> set (od_invites db) \<and> iv_token_hash i = sha (ia_token body) \<and> iv_accepted_at i = None \<and>
      ae_now env < iv_expires_at i \<and> od_users db' = od_users db @ [u] \<and> us_email u = iv_email i \<and>
      us_org_id u = iv_org_id i \<and> us_role u = iv_role i \<and>
      serialize_project_assignments (iv_project_assignments i) = Inr as \<and>
      set (memberships_of (us_id u) (od_memberships db')) \<subseteq> set (map (\<lambda>a. (pa_project_id a, pa_role a)) as) \<and>
      fst ` set (memberships_of (us_id u) (od_memberships db')) = set (map pa_project_id as)) \<and>
    accept_invite env2 body2 db'' = (Inl (HTTPException 400 ''Invite is invalid or already accepted''), db'')"
proof -
  obtain i u as where i: "i \<in> set (od_invites db)" "iv_token_hash i = hash_invite_token env (ia_token body)"
    "iv_accepted_at i = None" "ae_now env < iv_expires_at i" "od_users db' = od_users db @ [u]"
    "us_email u = iv_email i" "us_org_id u = iv_org_id i" "us_role u = iv_role i"
    "serialize_project_assignments (iv_project_assignments i) = Inr as"
    "set (memberships_of (us_id u) (od_memberships db')) \<subseteq> set (map (\<lambda>a. (pa_project_id a, pa_role a)) as)"
    "fst ` set (memberships_of (us_id u) (od_memberships db')) = set (map pa_project_id as)"
    and used: "invite_used (iv_token_hash i) db'"
    by (rule accepted_invite [OF assms(1,2)])
  have ok: "constraints_ok db'" using assms(1,2) by (auto simp: accept_invite_def intro: transact_keeps)
  have "constraints_ok (fst (db'', r'')) \<and> invite_used (iv_token_hash i) (fst (db'', r''))"
    by (rule org_run_invariant [OF assms(4)]) (use ok used step_constraints step_invite_used in \<open>auto\<close>)
  with i(2) assms(3,5,6) have "accept_invite env2 body2 db'' = (Inl (HTTPException 400 ''Invite is invalid or already accepted''), db'')"
    by (intro used_invite_refused) (simp_all add: hash_invite_token_def)
  with i assms(3) show ?thesis by (auto simp: hash_invite_token_def)
qed

section \<open>Settings\<close>

text \<open>The values the schemas allow.\<close>

definition settings_valid :: "project_settings \<Rightarrow> bool" where
  "settings_valid s \<longleftrightarrow>
     7 \<le> st_retention_days s \<and> st_retention_days s \<le> 365 \<and> st_payload_storage_mode s \<in> set payload_storage_modes \<and>
     0 \<le> st_payload_max_bytes s \<and> st_payload_max_bytes s \<le> 10 * 1024 * 1024 \<and> length (st_payload_redact_keys s) \<le> 1000"

text \<open>What the handlers do to the projects and keys.\<close>

lemma register_shape:
  assumes "register Z env b db z = (res, db', z')"
  obtains "db' = db" | p where "od_projects db' = od_projects db @ [p]" "od_api_keys db' = od_api_keys db"
    "pj_api_key_hash p = ae_sha env (raw_api_key env)" "settings_valid (project_settings_of p)"
  using assms by (auto simp: register_def settings_valid_def project_settings_of_def payload_storage_modes_def register_tx_def transact_def project_defaults_def Let_def split: handler_splits)

lemma create_project_shape:
  assumes "create_project env user b db = (res, db')"
  obtains "db' = db" | p where "od_projects db' = od_projects db @ [p]" "pj_api_key_hash p = ae_sha env (raw_api_key env)"
    "project_settings_of p = \<lparr>st_retention_days = pr_retention_days b, st_payload_storage_mode = pr_payload_storage_mode b,
       st_payload_max_bytes = pr_payload_max_bytes b, st_payload_redact_keys = py_strip (pr_payload_redact_keys b)\<rparr>"
  using assms by (auto simp: project_settings_of_def create_project_def create_project_tx_def transact_def Let_def split: handler_splits)

lemma create_key_shape:
  assumes "create_api_key env user pid b db = (res, db')"
  obtains "db' = db" | k where "od_api_keys db' = od_api_keys db @ [k]" "ak_key_hash k = ae_sha env (raw_api_key env)"
  using assms by (auto simp: create_api_key_def create_api_key_tx_def transact_def Let_def split: handler_splits)

lemma apply_settings_keeps:
  "apply_settings v p = Some p' \<Longrightarrow> pj_id p' = pj_id p \<and> pj_org_id p' = pj_org_id p \<and> pj_name p' = pj_name p \<and>
     pj_is_active p' = pj_is_active p \<and> pj_api_key_hash p' = pj_api_key_hash p"
  by (auto simp: apply_settings_def split: option.splits)

lemma settings_shape:
  assumes "update_settings user pid b db = (res, db')"
  obtains "db' = db" | p p' where "select_one (\<lambda>p. pj_id p = pid \<and> pj_org_id p = cu_org_id user) (od_projects db) = Some p"
    "apply_settings (settings_values b) p = Some p'" "res = Inr (project_settings_of p')"
    "od_projects db' = update_where (\<lambda>p. pj_id p = pid \<and> pj_org_id p = cu_org_id user) (\<lambda>_. p') (od_projects db)"
proof -
  consider "db' = db" | a where "update_settings_tx user pid (settings_values b) db = Inr (a, db')" "res = Inr a"
    using assms by (auto simp: update_settings_def transact_def split: handler_splits)
  then show ?thesis
  proof cases
    case (2 a)
    obtain p where p: "select_one (\<lambda>p. pj_id p = pid \<and> pj_org_id p = cu_org_id user) (od_projects db) = Some p"
      using 2(1) by (auto simp: update_settings_tx_def Let_def split: option.splits)
    obtain p' where p': "apply_settings (settings_values b) p = Some p'"
      using 2(1) by (auto simp: update_settings_tx_def Let_def p split: option.splits)
    have "a = project_settings_of p'"
      "od_projects db' = update_where (\<lambda>p. pj_id p = pid \<and> pj_org_id p = cu_org_id user) (\<lambda>_. p') (od_projects db)"
      using 2(1) by (auto simp: update_settings_tx_def Let_def p p')
    with that(2) p p' 2(2) show ?thesis by blast
  qed (rule that(1))
qed

lemma settings_map:
  assumes "update_settings user pid b db = (res, db')" and "constraints_ok db"
  obtains g where "od_projects db' = map g (od_projects db)"
    "\<And>p. p \<in> set (od_projects db) \<Longrightarrow> g p = p \<or> apply_settings (settings_values b) p = Some (g p)"
  using assms(1)
proof (cases rule: settings_shape)
  case 1
  with that [of id] show ?thesis by simp
next
  case (2 p p')
  let ?hit = "\<lambda>q. pj_id q = pid \<and> pj_org_id q = cu_org_id user"
  have "q = p" if "q \<in> set (od_projects db)" "?hit q" for q
    using that select_one_SomeD [OF 2(1)] constraints_okD(3) [OF assms(2)] by (metis distinct_map inj_onD)
  then show ?thesis by (intro that [of "\<lambda>q. if ?hit q then p' else q"]) (use 2(2,4) in \<open>auto simp: update_where_def\<close>)
qed

lemma length_py_strip: "length s \<le> n \<Longrightarrow> length (py_strip s) \<le> n"
  unfolding py_strip_def by (metis length_dropWhile_le length_rev order_trans)

lemma apply_settings_valid:
  assumes "settings_update_ok v" and "settings_valid (project_settings_of p)" and "apply_settings (settings_values v) p = Some p'"
  shows "settings_valid (project_settings_of p')"
  using assms
  by (auto simp: settings_update_ok_def settings_valid_def apply_settings_def settings_values_def project_settings_of_def
      set_column_def split: option.splits intro: length_py_strip)

definition all_settings_valid :: "org_db \<Rightarrow> bool" where
  "all_settings_valid db \<longleftrightarrow> (\<forall>p \<in> set (od_projects db). settings_valid (project_settings_of p))"

lemma step_settings_valid:
  assumes "org_step Z R sha s s'" and "constraints_ok (fst s)" and "all_settings_valid (fst s)"
  shows "all_settings_valid (fst s')"
  using assms(1)
proof cases
  case (step_register env b db z res db' z' r)
  from step_register(3) show ?thesis
    by (rule register_shape) (use step_register assms(3) in \<open>auto simp: all_settings_valid_def\<close>)
next
  case (step_create_project env user b db pres db' r)
  from step_create_project(3) show ?thesis
    by (rule create_project_shape)
       (use step_create_project assms(3) in
         \<open>auto simp: all_settings_valid_def settings_valid_def project_create_ok_def intro: length_py_strip\<close>)
next
  case (step_rotate env user pid db r rres db' r')
  have "od_projects db' = od_projects db \<or> od_projects db' = map (\<lambda>p. if pj_id p = pid \<and> pj_org_id p = cu_org_id user
      then p\<lparr>pj_api_key_hash := ae_sha env (raw_api_key env)\<rparr> else p) (od_projects db)"
    using step_rotate(3) by (auto simp: rotate_api_key_def rotate_api_key_tx_def transact_def update_where_def
        split: handler_splits option.splits)
  with step_rotate assms(3) show ?thesis by (auto simp: all_settings_valid_def project_settings_of_def)
next
  case (step_settings user pid b db sres db' r)
  from assms(2) step_settings have ok0: "constraints_ok db" by simp
  obtain g where "od_projects db' = map g (od_projects db)"
    "\<And>p. p \<in> set (od_projects db) \<Longrightarrow> g p = p \<or> apply_settings (settings_values b) p = Some (g p)"
    using settings_map [OF step_settings(3) ok0] by blast
  with step_settings assms(3) show ?thesis
    by (auto simp: all_settings_valid_def) (metis apply_settings_valid)
next
  case (step_authenticate now creds x scope db r gres db' r')
  with assms(3) show ?thesis by (auto elim!: authenticate_db simp: all_settings_valid_def)
qed (use assms(3) in \<open>auto dest!: frames simp: all_settings_valid_def\<close>)

text \<open>
  C23: The settings of a project are always in their ranges: retention from 7 to 365 days, a
  known storage mode, a payload limit from 0 to 10 MiB and at most 1000 characters of redacted
  keys, whatever run of the handlers (over validated bodies) led there, and these are the
  settings the administrator reads.
\<close>

theorem project_settings_stay_valid:
  assumes "org_run Z R sha (db, r) (db', r')" and "constraints_ok db" and "all_settings_valid db"
    and "get_settings user pid db' = Inr s"
  shows "settings_valid s"
proof -
  have "constraints_ok (fst (db', r')) \<and> all_settings_valid (fst (db', r'))"
    by (rule org_run_invariant [OF assms(1)]) (use assms(2,3) step_constraints step_settings_valid in auto)
  with assms(4) show ?thesis
    by (auto simp: get_settings_def all_settings_valid_def split: sum.splits option.splits dest!: select_one_SomeD)
qed

text \<open>A setting sent as null passes the schema and violates the column's constraint.\<close>

lemma null_setting_is_unhandled:
  assumes "cu_role user = Some ''admin''" and "p \<in> set (od_projects db)" and "pj_org_id p = cu_org_id user"
    and "su_retention_days body = Some None" and "settings_update_ok body" and "constraints_ok db"
  shows "update_settings user (pj_id p) body db = (Inl (Unhandled ''IntegrityError''), db)"
proof -
  have admin: "require_admin user = Inr ()" using assms(1) by simp
  have "select_one (\<lambda>q. pj_id q = pj_id p \<and> pj_org_id q = cu_org_id user) (od_projects db) = Some p"
    by (rule select_one_unique [where key = pj_id]) (use assms constraints_okD(3) in auto)
  moreover have "apply_settings (settings_values body) p = None"
    using assms(4) by (simp add: apply_settings_def settings_values_def set_column_def)
  ultimately show ?thesis
    unfolding update_settings_def admin using assms(4)
    by (simp add: update_settings_tx_def no_settings_def transact_def Let_def)
qed

section \<open>Two transactions at once\<close>

lemma find_org_user_Some:
  assumes "constraints_ok db" and "u \<in> set (od_users db)" and "us_org_id u = oid" and "us_is_active u"
  shows "find_org_user (us_id u) oid db = Some u"
  unfolding find_org_user_def
  by (rule select_one_unique [where key = us_id]) (use assms constraints_okD(1) in auto)

lemma demoted_admins:
  assumes "role \<noteq> ''admin''"
  shows "active_admins (cu_org_id user) (role_write user uid role t db) =
    filter (\<lambda>u. us_id u \<noteq> uid) (active_admins (cu_org_id user) db)"
proof -
  have "filter (\<lambda>u. us_org_id u = oid \<and> us_role u = ''admin'' \<and> us_is_active u)
      (update_where (\<lambda>u. us_id u = uid \<and> us_org_id u = oid) (\<lambda>u. u\<lparr>us_role := role\<rparr>) us) =
    filter (\<lambda>u. us_id u \<noteq> uid) (filter (\<lambda>u. us_org_id u = oid \<and> us_role u = ''admin'' \<and> us_is_active u) us)"
    for us :: "user_row list" and oid
    using assms by (induction us) (simp_all add: update_where_Cons)
  then show ?thesis by (simp add: active_admins_def role_write_def)
qed

text \<open>
  Two administrators can remove each other. When an organization's two administrators
  change each other's role at the same time, both transactions pass their checks before either
  writes (each locks only the row it changes), both commit, and the organization is left
  without an administrator.
\<close>

theorem concurrent_demotions_leave_no_admin:
  assumes "constraints_ok db" and "active_admins oid db = [a, b]" and "ra \<noteq> ''admin''" and "rb \<noteq> ''admin''"
    and "cu_sub user1 = us_id a" and "cu_sub user2 = us_id b" and "cu_org_id user1 = oid" and "cu_org_id user2 = oid"
  shows "role_check user1 (us_id b) rb db = Inr b \<and> role_check user2 (us_id a) ra db = Inr a \<and>
    active_admins oid (role_write user2 (us_id a) ra a (role_write user1 (us_id b) rb b db)) = []"
proof -
  have ab: "a \<in> set (od_users db)" "b \<in> set (od_users db)" "us_org_id a = oid" "us_org_id b = oid"
    "us_role a = ''admin''" "us_role b = ''admin''" "us_is_active a" "us_is_active b"
  proof -
    have "a \<in> set (active_admins oid db)" "b \<in> set (active_admins oid db)" using assms(2) by auto
    then show "a \<in> set (od_users db)" "b \<in> set (od_users db)" "us_org_id a = oid" "us_org_id b = oid"
      "us_role a = ''admin''" "us_role b = ''admin''" "us_is_active a" "us_is_active b"
      by (auto simp: active_admins_def)
  qed
  have "role_check user1 (us_id b) rb db = Inr b" "role_check user2 (us_id a) ra db = Inr a"
    using find_org_user_Some [OF assms(1) ab(1)] find_org_user_Some [OF assms(1) ab(2)] ab assms(2,7,8)
    by (simp_all add: role_check_def)
  moreover have "active_admins oid (role_write user2 (us_id a) ra a (role_write user1 (us_id b) rb b db)) = []"
    using demoted_admins [OF assms(4), of user1] demoted_admins [OF assms(3), of user2] assms(2,7,8) by simp
  ultimately show ?thesis by blast
qed

section \<open>Examples\<close>

definition empty_org_db :: org_db where
  "empty_org_db = \<lparr>od_orgs = [], od_users = [], od_projects = [], od_api_keys = [], od_memberships = [], od_invites = [], od_audit = []\<rparr>"

definition ex_env :: "string \<Rightarrow> time \<Rightarrow> account_env" where
  "ex_env tag now = \<lparr>ae_now = now, ae_uuid = (\<lambda>n. tag @ (if n = 0 then ''0'' else if n = 1 then ''1'' else if n = 2 then ''2'' else ''3'')),
     ae_token_urlsafe = tag @ ''-token'', ae_sha = id, ae_hash_password = id, ae_verify_password = (=),
     ae_encode = (\<lambda>c. the (cl_sub c)), ae_expire_minutes = 60, ae_public_registration_enabled = True,
     ae_bootstrap_admin_token = None, ae_auth_window = 60, ae_auth_limit = 5, ae_client_host = None, ae_request_member = tag\<rparr>"

definition ex_registered :: org_db where
  "ex_registered = fst (snd (register mem_zset_ops (ex_env ''a'' 0)
     \<lparr>rr_email = ''a@x'', rr_password = ''password'', rr_org_name = ''Org'', rr_bootstrap_token = None\<rparr> empty_org_db []))"

definition ex_admin :: current_user where
  "ex_admin = \<lparr>cu_sub = ''a2'', cu_org_id = ''a0'', cu_role = Some ''admin'', cu_is_platform_admin = Some False\<rparr>"

definition ex_invite :: invite_create where
  "ex_invite = \<lparr>ic_email = ''b@x'', ic_role = ''admin'', ic_project_assignments = [\<lparr>pa_project_id = ''a3'', pa_role = ''viewer''\<rparr>]\<rparr>"

definition ex_invited :: org_db where
  "ex_invited = snd (create_invite (ex_env ''b'' 1) ex_admin ex_invite ex_registered)"

definition ex_accept :: invite_accept where
  "ex_accept = \<lparr>ia_token = ''b-token'', ia_password = ''password''\<rparr>"

definition ex_joined :: org_db where
  "ex_joined = snd (accept_invite (ex_env ''c'' 2) ex_accept ex_invited)"

lemma ex_empty: "constraints_ok empty_org_db" "admins_kept empty_org_db" "all_settings_valid empty_org_db"
  by (simp_all add: constraints_ok_def empty_org_db_def admins_kept_def all_settings_valid_def)

lemma ex_run: "org_run mem_zset_ops R id (empty_org_db, r) (ex_registered, r)"
proof (rule run_step [OF run_refl], rule step_register)
  show "register mem_zset_ops (ex_env ''a'' 0)
      \<lparr>rr_email = ''a@x'', rr_password = ''password'', rr_org_name = ''Org'', rr_bootstrap_token = None\<rparr> empty_org_db [] =
    (fst (register mem_zset_ops (ex_env ''a'' 0)
      \<lparr>rr_email = ''a@x'', rr_password = ''password'', rr_org_name = ''Org'', rr_bootstrap_token = None\<rparr> empty_org_db []),
     ex_registered, snd (snd (register mem_zset_ops (ex_env ''a'' 0)
      \<lparr>rr_email = ''a@x'', rr_password = ''password'', rr_org_name = ''Org'', rr_bootstrap_token = None\<rparr> empty_org_db [])))"
    by (simp add: ex_registered_def)
qed (simp_all add: ex_env_def fresh_hash_def empty_org_db_def)

lemma ex_registered_ok: "constraints_ok ex_registered"
  using org_run_invariant [OF ex_run [of mem_redis "[]"], of "\<lambda>s. constraints_ok (fst s)"] step_constraints ex_empty(1) by force

lemma ex_invited_ok: "constraints_ok ex_invited"
proof -
  have "org_step mem_zset_ops mem_redis id (ex_registered, []) (ex_invited, [])"
    by (rule step_create_invite [where env = "ex_env ''b'' 1" and user = ex_admin and ibody = ex_invite])
       (simp_all add: ex_invited_def ex_env_def prod_eq_iff)
  from step_constraints [OF this] ex_registered_ok show ?thesis by simp
qed

theorem organizations_keep_an_admin_witness:
  "\<exists>org u. org \<in> set (od_orgs ex_registered) \<and> u \<in> set (od_users ex_registered) \<and> us_org_id u = og_id org \<and>
     us_role u = ''admin'' \<and> us_is_active u"
proof -
  have "od_orgs ex_registered = [\<lparr>og_id = ''a0'', og_name = ''Org'', og_slug = ''org-a1''\<rparr>]" by code_simp
  then have org: "\<lparr>og_id = ''a0'', og_name = ''Org'', og_slug = ''org-a1''\<rparr> \<in> set (od_orgs ex_registered)" by simp
  from organizations_keep_an_admin [OF ex_run [of mem_redis "[]"] ex_empty(1,2) org] org show ?thesis by blast
qed

theorem project_settings_stay_valid_witness:
  "\<exists>s. get_settings ex_admin ''a3'' ex_registered = Inr s \<and> settings_valid s"
proof -
  have g: "get_settings ex_admin ''a3'' ex_registered = Inr \<lparr>st_retention_days = 90, st_payload_storage_mode = ''all'',
      st_payload_max_bytes = 262144, st_payload_redact_keys = ''api_key,password,secret,token,authorization''\<rparr>" by code_simp
  from project_settings_stay_valid [OF ex_run [of mem_redis "[]"] ex_empty(1,3) g] g show ?thesis by blast
qed

theorem invite_is_single_use_witness:
  "accept_invite (ex_env ''d'' 3) ex_accept ex_joined = (Inl (HTTPException 400 ''Invite is invalid or already accepted''), ex_joined)"
proof -
  have "isl (fst (accept_invite (ex_env ''c'' 2) ex_accept ex_invited)) = False" by code_simp
  then obtain resp where resp: "fst (accept_invite (ex_env ''c'' 2) ex_accept ex_invited) = Inr resp"
    by (cases "fst (accept_invite (ex_env ''c'' 2) ex_accept ex_invited)") auto
  have acc: "accept_invite (ex_env ''c'' 2) ex_accept ex_invited = (Inr resp, ex_joined)"
    by (simp add: ex_joined_def prod_eq_iff resp)
  show ?thesis
    by (rule conjunct2 [OF invite_is_single_use [OF ex_invited_ok acc _ run_refl [of mem_zset_ops mem_redis id "(ex_joined, [])"]]])
       (simp_all add: ex_env_def)
qed

theorem concurrent_demotions_leave_no_admin_witness:
  "\<exists>a b. active_admins ''a0'' ex_joined = [a, b] \<and>
     active_admins ''a0'' (role_write (ex_admin\<lparr>cu_sub := us_id b\<rparr>) (us_id a) ''viewer'' a
       (role_write (ex_admin\<lparr>cu_sub := us_id a\<rparr>) (us_id b) ''viewer'' b ex_joined)) = []"
proof -
  have "length (active_admins ''a0'' ex_joined) = 2" by code_simp
  then have "\<exists>a b. active_admins ''a0'' ex_joined = [a, b]"
    unfolding numeral_2_eq_2 length_Suc_conv by auto
  then obtain a b where ab: "active_admins ''a0'' ex_joined = [a, b]" by blast
  have ok: "constraints_ok ex_joined"
  proof -
    have "transact ex_invited (accept_invite_tx (ex_env ''c'' 2) ex_accept ex_invited) =
        (fst (transact ex_invited (accept_invite_tx (ex_env ''c'' 2) ex_accept ex_invited)), ex_joined)"
      unfolding ex_joined_def accept_invite_def by (rule prod.collapse [symmetric])
    then show ?thesis by (rule transact_keeps [OF ex_invited_ok])
  qed
  have "active_admins ''a0'' (role_write (ex_admin\<lparr>cu_sub := us_id b\<rparr>) (us_id a) ''viewer'' a
       (role_write (ex_admin\<lparr>cu_sub := us_id a\<rparr>) (us_id b) ''viewer'' b ex_joined)) = []"
    by (rule conjunct2 [OF conjunct2 [OF concurrent_demotions_leave_no_admin [OF ok ab]]]) (simp_all add: ex_admin_def)
  with ab show ?thesis by blast
qed

end
