(* ===== verification/Key_Cache.thy ===== *)
theory Key_Cache
  imports Org_System
begin

text \<open>
  The cache of authenticated API keys against the tables: in every run of the handlers the
  cache holds nothing but what the tables say, so a revoked or rotated key stops working at
  once. The last section shows the interleaving for which this is not so.
\<close>

section \<open>What the tables say of a key\<close>

definition legacy_context :: "project_row \<Rightarrow> project_context" where
  "legacy_context p = \<lparr>pc_id = pj_id p, pc_org_id = pj_org_id p, pc_name = pj_name p, pc_scope = Some ''read_write'',
     pc_api_key_id = None, pc_legacy = True\<rparr>"

definition key_context :: "api_key_row \<Rightarrow> project_row \<Rightarrow> project_context" where
  "key_context k p = \<lparr>pc_id = pj_id p, pc_org_id = pj_org_id p, pc_name = pj_name p, pc_scope = Some (ak_scope k),
     pc_api_key_id = Some (ak_id k), pc_legacy = False\<rparr>"

definition live_project :: "string \<Rightarrow> org_db \<Rightarrow> project_row \<Rightarrow> bool" where
  "live_project h db p \<longleftrightarrow> p \<in> set (od_projects db) \<and> pj_api_key_hash p = h \<and> pj_is_active p"

definition live_key :: "string \<Rightarrow> org_db \<Rightarrow> api_key_row \<Rightarrow> project_row \<Rightarrow> bool" where
  "live_key h db k p \<longleftrightarrow> k \<in> set (od_api_keys db) \<and> ak_key_hash k = h \<and> ak_is_active k \<and> ak_revoked_at k = None \<and>
     p \<in> set (od_projects db) \<and> pj_id p = ak_project_id k \<and> pj_is_active p"

lemma live_unique:
  assumes "constraints_ok db"
  shows "live_project h db p \<Longrightarrow> live_project h db q \<Longrightarrow> p = q"
    and "live_key h db k p \<Longrightarrow> live_key h db l q \<Longrightarrow> k = l \<and> p = q"
  using constraints_okD(3,4,6) [OF assms] unfolding live_project_def live_key_def
  by (metis distinct_map inj_onD)+

lemma find_iff:
  assumes "constraints_ok db"
  shows "find_project_by_hash h db = Some ctx \<longleftrightarrow>
    (\<exists>p. live_project h db p \<and> ctx = legacy_context p) \<or>
    (\<nexists>p. live_project h db p) \<and> (\<exists>k p. live_key h db k p \<and> ctx = key_context k p)"
    (is "_ \<longleftrightarrow> ?rhs")
proof (cases "select_one (\<lambda>p. pj_api_key_hash p = h \<and> pj_is_active p) (od_projects db)")
  case (Some p)
  from select_one_SomeD [OF Some] have p: "live_project h db p" by (simp add: live_project_def)
  have "find_project_by_hash h db = Some (legacy_context p)"
    using Some by (simp add: find_project_by_hash_def legacy_context_def)
  with p live_unique(1) [OF assms] show ?thesis by auto
next
  case outer: None
  then have no: "\<nexists>p. live_project h db p" by (auto simp: select_one_None_iff live_project_def)
  let ?P = "\<lambda>k. ak_key_hash k = h \<and> ak_is_active k \<and> ak_revoked_at k = None \<and>
     (\<exists>p \<in> set (od_projects db). pj_id p = ak_project_id k \<and> pj_is_active p)"
  show ?thesis
  proof (cases "select_one ?P (od_api_keys db)")
    case None
    then have "\<nexists>k p. live_key h db k p" unfolding select_one_None_iff live_key_def by blast
    moreover have "find_project_by_hash h db = None"
      unfolding find_project_by_hash_def outer None by simp
    ultimately show ?thesis using no by auto
  next
    case (Some k)
    from select_one_SomeD [OF Some] obtain p where kp: "live_key h db k p" by (auto simp: live_key_def)
    then have "select_one (\<lambda>p. pj_id p = ak_project_id k \<and> pj_is_active p) (od_projects db) = Some p"
      by (intro select_one_unique [where key = pj_id]) (use constraints_okD(3) [OF assms] in \<open>auto simp: live_key_def\<close>)
    with Some outer have "find_project_by_hash h db = Some (key_context k p)"
      by (simp add: find_project_by_hash_def key_context_def)
    with no kp show ?thesis by (auto dest: live_unique(2) [OF assms kp])
  qed
qed

section \<open>The invariant\<close>

definition key_cache_agrees :: "('r, project_context) redis \<Rightarrow> org_db \<Rightarrow> 'r \<Rightarrow> bool" where
  "key_cache_agrees R db r \<longleftrightarrow>
     (\<forall>now h ctx. r_get R now (apikey_cache_key h) r = Some ctx \<longrightarrow> find_project_by_hash h db = Some ctx)"

lemma cache_key_inj [simp]: "apikey_cache_key h = apikey_cache_key h' \<longleftrightarrow> h = h'"
  by (simp add: apikey_cache_key_def)

text \<open>A step that leaves the answer for every key it keeps in the cache.\<close>

lemma agrees_transfer:
  assumes "key_cache_agrees R db r" and "constraints_ok db" and "constraints_ok db'"
    and "\<And>now h ctx. r_get R now (apikey_cache_key h) r' = Some ctx \<Longrightarrow> h \<notin> H \<and> r_get R now (apikey_cache_key h) r = Some ctx"
    and "\<And>h p. h \<notin> H \<Longrightarrow> live_project h db p \<Longrightarrow> \<exists>p'. live_project h db' p' \<and> legacy_context p' = legacy_context p"
    and "\<And>h p k q. h \<notin> H \<Longrightarrow> live_project h db' p \<Longrightarrow> live_key h db k q \<Longrightarrow> \<exists>p'. live_project h db p'"
    and "\<And>h k p. h \<notin> H \<Longrightarrow> live_key h db k p \<Longrightarrow> \<exists>k' p'. live_key h db' k' p' \<and> key_context k' p' = key_context k p"
  shows "key_cache_agrees R db' r'"
  unfolding key_cache_agrees_def
proof (intro allI impI)
  fix now h ctx assume "r_get R now (apikey_cache_key h) r' = Some ctx"
  from assms(4) [OF this] have h: "h \<notin> H" and "r_get R now (apikey_cache_key h) r = Some ctx" by auto
  with assms(1) have "find_project_by_hash h db = Some ctx" by (auto simp: key_cache_agrees_def)
  then consider (legacy) p where "live_project h db p" "ctx = legacy_context p"
    | (key) k p where "\<nexists>p. live_project h db p" "live_key h db k p" "ctx = key_context k p"
    unfolding find_iff [OF assms(2)] by blast
  then show "find_project_by_hash h db' = Some ctx"
  proof cases
    case legacy
    from assms(5) [OF h legacy(1)] legacy(2) show ?thesis unfolding find_iff [OF assms(3)] by metis
  next
    case key
    from assms(7) [OF h key(2)] assms(6) [OF h _ key(2)] key show ?thesis
      unfolding find_iff [OF assms(3)] by metis
  qed
qed

lemma agrees_same:
  assumes "key_cache_agrees R db r" and "constraints_ok db" and "constraints_ok db'"
    and "od_projects db' = od_projects db" and "od_api_keys db' = od_api_keys db"
  shows "key_cache_agrees R db' r"
proof -
  have "find_project_by_hash h db' = find_project_by_hash h db" for h
    unfolding find_project_by_hash_def assms(4,5) ..
  with assms(1) show ?thesis by (simp add: key_cache_agrees_def)
qed

text \<open>A new project with a fresh hash.\<close>

lemma agrees_new_project:
  assumes "key_cache_agrees R db r" and "constraints_ok db" and "constraints_ok db'"
    and "od_projects db' = od_projects db @ [p]" and "od_api_keys db' = od_api_keys db" and "fresh_hash (pj_api_key_hash p) db"
  shows "key_cache_agrees R db' r"
proof (rule agrees_transfer [where H = "{}", OF assms(1-3)])
  fix h q k x assume "live_project h db' q" "live_key h db k x"
  moreover from this(2) have "h \<in> set (map ak_key_hash (od_api_keys db))" by (auto simp: live_key_def)
  ultimately show "\<exists>p'. live_project h db p'" using assms(4,6) by (auto simp: live_project_def fresh_hash_def)
qed (use assms(4,5) in \<open>auto simp: live_project_def live_key_def\<close>)

lemma agrees_new_key:
  assumes "key_cache_agrees R db r" and "constraints_ok db" and "constraints_ok db'"
    and "od_projects db' = od_projects db" and "od_api_keys db' = od_api_keys db @ [k]"
  shows "key_cache_agrees R db' r"
  by (rule agrees_transfer [where H = "{}", OF assms(1-3)])
     (use assms(4,5) in \<open>auto simp: live_project_def live_key_def\<close>)

text \<open>Rows replaced by rows with the same hash, identity and state.\<close>

lemma agrees_map_projects:
  assumes "key_cache_agrees R db r" and "constraints_ok db" and "constraints_ok db'"
    and "od_projects db' = map g (od_projects db)" and "od_api_keys db' = od_api_keys db"
    and "\<And>p. p \<in> set (od_projects db) \<Longrightarrow> pj_id (g p) = pj_id p \<and> pj_org_id (g p) = pj_org_id p \<and> pj_name (g p) = pj_name p \<and>
           pj_is_active (g p) = pj_is_active p"
    and "\<And>p. p \<in> set (od_projects db) \<Longrightarrow> pj_api_key_hash p \<notin> H \<Longrightarrow> pj_api_key_hash (g p) = pj_api_key_hash p"
    and "\<And>p. p \<in> set (od_projects db) \<Longrightarrow> pj_api_key_hash (g p) \<notin> H \<Longrightarrow> pj_api_key_hash (g p) = pj_api_key_hash p"
    and "\<And>now h ctx. r_get R now (apikey_cache_key h) r' = Some ctx \<Longrightarrow> h \<notin> H \<and> r_get R now (apikey_cache_key h) r = Some ctx"
  shows "key_cache_agrees R db' r'"
proof (rule agrees_transfer [where H = H, OF assms(1-3,9)])
  fix h p assume "h \<notin> H" "live_project h db p"
  with assms(4,6,7) have "live_project h db' (g p) \<and> legacy_context (g p) = legacy_context p"
    by (auto simp: live_project_def legacy_context_def)
  then show "\<exists>p'. live_project h db' p' \<and> legacy_context p' = legacy_context p" by blast
next
  fix h p k q assume "h \<notin> H" "live_project h db' p"
  with assms(4,6,8) show "\<exists>p'. live_project h db p'" by (fastforce simp: live_project_def)
next
  fix h k p assume "h \<notin> H" "live_key h db k p"
  with assms(4-6) have "live_key h db' k (g p) \<and> key_context k (g p) = key_context k p"
    by (auto simp: live_key_def key_context_def)
  then show "\<exists>k' p'. live_key h db' k' p' \<and> key_context k' p' = key_context k p" by blast
qed

lemma agrees_map_keys:
  assumes "key_cache_agrees R db r" and "constraints_ok db" and "constraints_ok db'"
    and "od_projects db' = od_projects db" and "od_api_keys db' = map g (od_api_keys db)"
    and "\<And>k. k \<in> set (od_api_keys db) \<Longrightarrow> ak_key_hash k \<notin> H \<Longrightarrow> ak_id (g k) = ak_id k \<and> ak_project_id (g k) = ak_project_id k \<and>
           ak_key_hash (g k) = ak_key_hash k \<and> ak_scope (g k) = ak_scope k \<and> ak_is_active (g k) = ak_is_active k \<and>
           ak_revoked_at (g k) = ak_revoked_at k"
    and "\<And>now h ctx. r_get R now (apikey_cache_key h) r' = Some ctx \<Longrightarrow> h \<notin> H \<and> r_get R now (apikey_cache_key h) r = Some ctx"
  shows "key_cache_agrees R db' r'"
proof (rule agrees_transfer [where H = H, OF assms(1-3,7)])
  fix h k p assume "h \<notin> H" "live_key h db k p"
  with assms(4-6) have "live_key h db' (g k) p \<and> key_context (g k) p = key_context k p"
    by (auto simp: live_key_def key_context_def)
  then show "\<exists>k' p'. live_key h db' k' p' \<and> key_context k' p' = key_context k p" by blast
qed (use assms(4) in \<open>auto simp: live_project_def\<close>)

section \<open>Every step keeps it\<close>

lemma update_where_eq_map: "update_where P f rows = map (\<lambda>r. if P r then f r else r) rows"
  by (simp add: update_where_def)

lemma revoke_cases:
  assumes "revoke_api_key R env user pid kid db r = (res, db', r')"
  obtains (refused) "db' = db" "r' = r" "res \<noteq> Inr True"
    | (revoked) h where "revoke_api_key_tx env user pid kid db = Inr (h, db')" "constraints_ok db'"
        "r' = r_delete R [apikey_cache_key h] r"
  using assms by (auto simp: revoke_api_key_def transact_def split: handler_splits)

lemma rotate_cases:
  assumes "rotate_api_key R env user pid db r = (res, db', r')"
  obtains (refused) e where "db' = db" "r' = r" "res = Inl e"
    | (rotated) h where "rotate_api_key_tx env user pid db = Inr (h, db')" "constraints_ok db'"
        "r' = r_delete R [apikey_cache_key (ae_sha env (raw_api_key env))] (r_delete R [apikey_cache_key h] r)"
  using assms by (auto simp: rotate_api_key_def transact_def split: handler_splits)

lemma authenticate_cases:
  assumes "get_project_from_api_key R sha now creds x scope db r = (res, db', r')"
  obtains (kept) "r' = r" "db' = db \<or> (\<exists>i. db' = touch_api_key now i db)"
    | (stored) h pd where "find_project_by_hash h db = Some pd" "r' = r_setex R now (apikey_cache_key h) 60 pd r"
        "db' = db \<or> (\<exists>i. db' = touch_api_key now i db)"
proof -
  define k where "k = (if truthy x then x else creds)"
  define h where "h = sha (the k)"
  have "r' = r \<and> db' = db" if "\<not> truthy k" using assms that by (simp add: get_project_from_api_key_def k_def)
  moreover have "r' = r \<and> db' = db" if "truthy k" "r_get R now (apikey_cache_key h) r = Some c" for c
    using assms that by (auto simp: get_project_from_api_key_def Let_def k_def [symmetric] h_def [symmetric] split: if_splits)
  moreover have "(r' = r \<or> (\<exists>pd. find_project_by_hash h db = Some pd \<and> r' = r_setex R now (apikey_cache_key h) 60 pd r)) \<and>
      (db' = db \<or> (\<exists>i. db' = touch_api_key now i db))"
    if "truthy k" "r_get R now (apikey_cache_key h) r = None"
    using assms that
    by (auto simp: get_project_from_api_key_def Let_def k_def [symmetric] h_def [symmetric] split: if_splits option.splits)
  ultimately show thesis using that by (metis not_None_eq)
qed

text \<open>The cache of project contexts.\<close>

locale key_cache = redis_cache R for R :: "('r, project_context) redis"
begin

lemma deleted_keys:
  assumes "r_get R now (apikey_cache_key h) (r_delete R [apikey_cache_key a] r) = Some ctx"
  shows "h \<notin> {a} \<and> r_get R now (apikey_cache_key h) r = Some ctx"
  using get_delete [OF assms] by simp

lemma revoke_agrees:
  assumes "revoke_api_key R env user pid kid db r = (res, db', r')" and "key_cache_agrees R db r" and "constraints_ok db"
  shows "key_cache_agrees R db' r'"
  using assms(1)
proof (cases rule: revoke_cases)
  case (revoked h)
  then obtain k where k: "select_one (revoke_hit user pid kid db) (od_api_keys db) = Some k" "h = ak_key_hash k"
    and keys: "od_api_keys db' = update_where (revoke_hit user pid kid db) (\<lambda>k. k\<lparr>ak_is_active := False,
        ak_revoked_at := Some (case ak_revoked_at k of None \<Rightarrow> ae_now env | Some t \<Rightarrow> t)\<rparr>) (od_api_keys db)"
    and proj: "od_projects db' = od_projects db"
    by (auto simp: revoke_api_key_tx_def split: option.splits)
  have hit: "l = k" if "l \<in> set (od_api_keys db)" "revoke_hit user pid kid db l" for l
    using that select_one_SomeD [OF k(1)] constraints_okD(5) [OF assms(3)]
    by (metis revoke_hit_def distinct_map inj_onD)
  show ?thesis unfolding revoked(3)
  proof (rule agrees_map_keys [OF assms(2,3) revoked(2) proj keys [unfolded update_where_eq_map], where H = "{h}"])
    fix l assume "l \<in> set (od_api_keys db)" "ak_key_hash l \<notin> {h}"
    with hit k(2) have no: "\<not> revoke_hit user pid kid db l" by auto
    let ?g = "if revoke_hit user pid kid db l then l\<lparr>ak_is_active := False,
        ak_revoked_at := Some (case ak_revoked_at l of None \<Rightarrow> ae_now env | Some t \<Rightarrow> t)\<rparr> else l"
    from no show "ak_id ?g = ak_id l \<and> ak_project_id ?g = ak_project_id l \<and> ak_key_hash ?g = ak_key_hash l \<and>
        ak_scope ?g = ak_scope l \<and> ak_is_active ?g = ak_is_active l \<and> ak_revoked_at ?g = ak_revoked_at l" by simp
  qed (rule deleted_keys)
qed (use assms(2) in simp)

lemma rotate_agrees:
  assumes "rotate_api_key R env user pid db r = (res, db', r')" and "key_cache_agrees R db r" and "constraints_ok db"
  shows "key_cache_agrees R db' r'"
  using assms(1)
proof (cases rule: rotate_cases)
  case (rotated h)
  let ?hit = "\<lambda>p. pj_id p = pid \<and> pj_org_id p = cu_org_id user" and ?new = "ae_sha env (raw_api_key env)"
  obtain q where q: "select_one ?hit (od_projects db) = Some q" "h = pj_api_key_hash q"
    and proj: "od_projects db' = update_where ?hit (\<lambda>p. p\<lparr>pj_api_key_hash := ?new\<rparr>) (od_projects db)"
    and keys: "od_api_keys db' = od_api_keys db"
    using rotated(1) by (auto simp: rotate_api_key_tx_def split: option.splits)
  have hit: "p = q" if "p \<in> set (od_projects db)" "?hit p" for p
    using that select_one_SomeD [OF q(1)] constraints_okD(3) [OF assms(3)] by (metis distinct_map inj_onD)
  show ?thesis unfolding rotated(3)
  proof (rule agrees_map_projects [OF assms(2,3) rotated(2) proj [unfolded update_where_eq_map] keys, where H = "{h, ?new}"])
    fix p assume p: "p \<in> set (od_projects db)"
    let ?g = "if ?hit p then p\<lparr>pj_api_key_hash := ?new\<rparr> else p"
    show "pj_id ?g = pj_id p \<and> pj_org_id ?g = pj_org_id p \<and> pj_name ?g = pj_name p \<and> pj_is_active ?g = pj_is_active p" by simp
    show "pj_api_key_hash ?g = pj_api_key_hash p" if "pj_api_key_hash p \<notin> {h, ?new}" using that hit [OF p] q(2) by auto
    show "pj_api_key_hash ?g = pj_api_key_hash p" if "pj_api_key_hash ?g \<notin> {h, ?new}" using that by (auto split: if_splits)
  next
    fix now h' ctx
    assume "r_get R now (apikey_cache_key h') (r_delete R [apikey_cache_key ?new] (r_delete R [apikey_cache_key h] r)) = Some ctx"
    note del = deleted_keys [OF this]
    from del deleted_keys [OF conjunct2 [OF del]] show "h' \<notin> {h, ?new} \<and> r_get R now (apikey_cache_key h') r = Some ctx" by simp
  qed
qed (use assms(2) in simp)

lemma touch_agrees:
  assumes "key_cache_agrees R db r" and "constraints_ok db"
  shows "key_cache_agrees R (touch_api_key now i db) r"
  by (rule agrees_map_keys [OF assms touch_constraints [OF assms(2)], where H = "{}" and
        g = "\<lambda>k. if ak_id k = i then k\<lparr>ak_last_used_at := Some now\<rparr> else k"])
     (simp_all add: touch_api_key_def update_where_def)

lemma authenticate_agrees:
  assumes "get_project_from_api_key R sha now creds x scope db r = (res, db', r')"
    and "key_cache_agrees R db r" and "constraints_ok db"
  shows "key_cache_agrees R db' r'"
proof -
  have find_touch: "find_project_by_hash h (touch_api_key now i db) = find_project_by_hash h db" for h i
  proof -
    have "find_project_by_hash h (touch_api_key now i db) = Some c \<longleftrightarrow> find_project_by_hash h db = Some c" for c
    proof -
      have "live_project h (touch_api_key now i db) p \<longleftrightarrow> live_project h db p" for p
        by (simp add: live_project_def)
      moreover have "(\<exists>k. live_key h (touch_api_key now i db) k p \<and> c = key_context k p) \<longleftrightarrow> (\<exists>k. live_key h db k p \<and> c = key_context k p)" for p
      proof -
        define g where "g k = (if ak_id k = i then k\<lparr>ak_last_used_at := Some now\<rparr> else k)" for k :: api_key_row
        have keys: "od_api_keys (touch_api_key now i db) = map g (od_api_keys db)"
          by (simp add: touch_api_key_def update_where_def g_def)
        have g: "ak_key_hash (g k) = ak_key_hash k" "ak_is_active (g k) = ak_is_active k" "ak_revoked_at (g k) = ak_revoked_at k"
          "ak_project_id (g k) = ak_project_id k" "ak_scope (g k) = ak_scope k" "ak_id (g k) = ak_id k" for k
          by (simp_all add: g_def)
        show ?thesis unfolding live_key_def keys touch_frame key_context_def by (auto simp: g)
      qed
      ultimately show ?thesis
        unfolding find_iff [OF assms(3)] find_iff [OF touch_constraints [OF assms(3)]] by blast
    qed
    then show ?thesis by (cases "find_project_by_hash h db"; cases "find_project_by_hash h (touch_api_key now i db)") auto
  qed
  have cached: "key_cache_agrees R db0 (r_setex R now (apikey_cache_key h) 60 pd r)"
    if "key_cache_agrees R db0 r" "find_project_by_hash h db0 = Some pd" for db0 h pd
    unfolding key_cache_agrees_def
  proof (intro allI impI)
    fix now' h' ctx assume "r_get R now' (apikey_cache_key h') (r_setex R now (apikey_cache_key h) 60 pd r) = Some ctx"
    from get_setex [OF this] that show "find_project_by_hash h' db0 = Some ctx" by (auto simp: key_cache_agrees_def)
  qed
  from assms(1) show ?thesis
  proof (cases rule: authenticate_cases)
    case kept
    with assms(2,3) touch_agrees show ?thesis by blast
  next
    case (stored h pd)
    from stored(3) show ?thesis
    proof (elim disjE exE)
      assume "db' = db"
      with stored(1) assms(2) cached show ?thesis unfolding stored(2) by blast
    next
      fix i assume "db' = touch_api_key now i db"
      with stored(1) touch_agrees [OF assms(2,3)] cached find_touch show ?thesis unfolding stored(2) by metis
    qed
  qed
qed

end

interpretation mem_keys: key_cache mem_redis
  by (rule key_cache.intro) (rule mem.redis_cache_axioms)

lemma step_agrees:
  assumes "key_cache R" and "org_step Z R sha s s'" and "constraints_ok (fst s)" and "key_cache_agrees R (fst s) (snd s)"
  shows "key_cache_agrees R (fst s') (snd s')"
proof -
  have ok: "constraints_ok (fst s')" by (rule step_constraints [OF assms(2,3)])
  from assms(2) show ?thesis
  proof cases
    case (step_register env b db z res db' z' r)
    then show ?thesis using assms(3,4) ok by (auto elim!: register_shape intro: agrees_new_project)
  next
    case (step_create_project env user pbody db pres db' r)
    with create_project_frame [OF step_create_project(3)] show ?thesis
      using assms(3,4) ok by (auto elim!: create_project_shape intro: agrees_new_project)
  next
    case (step_create_key env user pid kbody db kres db' r)
    with create_key_frame [OF step_create_key(3)] show ?thesis
      using assms(3,4) ok by (auto elim!: create_key_shape intro: agrees_new_key)
  next
    case (step_rotate env user pid db r rres db' r')
    then show ?thesis using key_cache.rotate_agrees [OF assms(1)] assms(3,4) by auto
  next
    case (step_revoke user env pid kid db r vres db' r')
    then show ?thesis using key_cache.revoke_agrees [OF assms(1)] assms(3,4) by auto
  next
    case (step_authenticate now creds x scope db r gres db' r')
    then show ?thesis using key_cache.authenticate_agrees [OF assms(1)] assms(3,4) by auto
  next
    case (step_settings user pid sbody db sres db' r)
    from assms(3) step_settings have ok0: "constraints_ok db" by simp
    obtain g where g: "od_projects db' = map g (od_projects db)"
      "\<And>p. p \<in> set (od_projects db) \<Longrightarrow> g p = p \<or> apply_settings (settings_values sbody) p = Some (g p)"
      using settings_map [OF step_settings(3) ok0] by blast
    have "key_cache_agrees R db' r"
      by (rule agrees_map_projects [where H = "{}" and g = g and r = r and db = db])
         (use assms(4) step_settings ok ok0 g settings_frame [OF step_settings(3)] apply_settings_keeps in \<open>fastforce+\<close>)
    with step_settings show ?thesis by simp
  qed (use assms(3,4) ok in \<open>auto dest!: frames intro: agrees_same\<close>)
qed

section \<open>Authentication equals the tables\<close>

text \<open>Specification: authentication without a cache.\<close>

definition authenticate_by_tables ::
  "(string \<Rightarrow> string) \<Rightarrow> string option \<Rightarrow> string option \<Rightarrow> string \<Rightarrow> org_db \<Rightarrow> http_error + project_context" where
  "authenticate_by_tables sha creds x_api_key required_scope db =
     (let api_key = (if truthy x_api_key then x_api_key else creds)
      in if \<not> truthy api_key then Inl (HTTPException 401 ''API key required'')
         else case find_project_by_hash (sha (the api_key)) db of
                None \<Rightarrow> Inl (HTTPException 401 ''Invalid API key'')
              | Some pd \<Rightarrow> if api_key_allows (pc_scope pd) required_scope then Inr pd
                           else Inl (HTTPException 403 ''API key scope denied''))"

lemma authenticate_agreeing:
  assumes "key_cache_agrees R db r"
  shows "fst (get_project_from_api_key R sha now creds x scope db r) = authenticate_by_tables sha creds x scope db"
proof -
  define k where "k = (if truthy x then x else creds)"
  define h where "h = sha (the k)"
  have "r_get R now (apikey_cache_key h) r = Some c \<Longrightarrow> find_project_by_hash h db = Some c" for c
    using assms by (auto simp: key_cache_agrees_def)
  then show ?thesis
    by (cases "r_get R now (apikey_cache_key h) r"; cases "find_project_by_hash h db")
       (auto simp: get_project_from_api_key_def authenticate_by_tables_def Let_def k_def [symmetric] h_def [symmetric])
qed

text \<open>
  C20: The cache of API keys never shows. After any run of the handlers, starting with
  nothing cached, a request is authenticated exactly as if every request asked the tables,
  whatever was rotated, revoked or created and whatever the cache has kept or lost.
\<close>

theorem apikey_cache_is_transparent:
  assumes "redis_cache R" and "org_run Z R sha (db, r) (db', r')" and "constraints_ok db"
    and "\<And>t k. r_get R t k r = None"
  shows "fst (get_project_from_api_key R sha now creds x scope db' r') = authenticate_by_tables sha creds x scope db'"
proof -
  have init: "key_cache_agrees R db r" by (simp add: key_cache_agrees_def assms(4))
  have "constraints_ok (fst (db', r')) \<and> key_cache_agrees R (fst (db', r')) (snd (db', r'))"
    by (rule org_run_invariant [OF assms(2)])
       (use assms(3) init step_constraints step_agrees [OF key_cache.intro [OF assms(1)]] in auto)
  then show ?thesis by (intro authenticate_agreeing) simp
qed

section \<open>Revoked keys\<close>

definition key_dead :: "string \<Rightarrow> org_db \<Rightarrow> bool" where
  "key_dead h db \<longleftrightarrow> h \<notin> set (map pj_api_key_hash (od_projects db)) \<and>
     (\<exists>k \<in> set (od_api_keys db). ak_key_hash k = h \<and> \<not> ak_is_active k)"

lemma dead_not_found:
  assumes "constraints_ok db" and "key_dead h db"
  shows "find_project_by_hash h db = None"
proof (rule ccontr)
  assume "find_project_by_hash h db \<noteq> None"
  then obtain ctx where "find_project_by_hash h db = Some ctx" by auto
  moreover have "\<not> live_project h db p" for p using assms(2) unfolding key_dead_def live_project_def set_map by (metis imageI)
  ultimately obtain k p where kp: "live_key h db k p" unfolding find_iff [OF assms(1)] by blast
  from assms(2) obtain l where "l \<in> set (od_api_keys db)" "ak_key_hash l = h" "\<not> ak_is_active l" by (auto simp: key_dead_def)
  with kp constraints_okD(6) [OF assms(1)] show False unfolding live_key_def by (metis distinct_map inj_onD)
qed

lemma key_dead_frame:
  "key_dead h db \<Longrightarrow> od_projects db' = od_projects db \<Longrightarrow> od_api_keys db' = od_api_keys db \<Longrightarrow> key_dead h db'"
  by (simp add: key_dead_def)

lemma key_dead_map:
  assumes "key_dead h db" and "od_api_keys db' = map g (od_api_keys db)" and "od_projects db' = od_projects db"
    and "\<And>k. k \<in> set (od_api_keys db) \<Longrightarrow> ak_key_hash (g k) = ak_key_hash k \<and> (ak_is_active (g k) \<longrightarrow> ak_is_active k)"
  shows "key_dead h db'"
proof -
  obtain k where "k \<in> set (od_api_keys db)" "ak_key_hash k = h" "\<not> ak_is_active k" using assms(1) by (auto simp: key_dead_def)
  with assms(2,4) have "g k \<in> set (od_api_keys db') \<and> ak_key_hash (g k) = h \<and> \<not> ak_is_active (g k)" by auto
  with assms(1,3) show ?thesis by (auto simp: key_dead_def)
qed

lemma key_dead_touch: "key_dead h db \<Longrightarrow> key_dead h (touch_api_key now i db)"
  by (rule key_dead_map [where g = "\<lambda>k. if ak_id k = i then k\<lparr>ak_last_used_at := Some now\<rparr> else k"])
     (simp_all add: touch_api_key_def update_where_def)

lemma key_dead_projects:
  "key_dead h db \<Longrightarrow> od_api_keys db' = od_api_keys db \<Longrightarrow>
     (\<And>p. p \<in> set (od_projects db') \<Longrightarrow> pj_api_key_hash p \<in> set (map pj_api_key_hash (od_projects db)) \<or> pj_api_key_hash p \<noteq> h) \<Longrightarrow>
     key_dead h db'"
  unfolding key_dead_def by (auto simp: image_iff) (metis)

lemma fresh_not_dead: "key_dead h db \<Longrightarrow> fresh_hash f db \<Longrightarrow> f \<noteq> h"
  by (auto simp: key_dead_def fresh_hash_def)

lemma key_dead_new_project:
  assumes "key_dead h db" and "od_projects db' = od_projects db @ [p]" and "od_api_keys db' = od_api_keys db"
    and "fresh_hash (pj_api_key_hash p) db"
  shows "key_dead h db'"
  using assms fresh_not_dead [OF assms(1,4)] by (simp add: key_dead_def)

lemma step_key_dead:
  assumes "org_step Z R sha s s'" and "constraints_ok (fst s)" and "key_dead h (fst s)"
  shows "key_dead h (fst s')"
  using assms(1)
proof cases
  case (step_register env b db z res db' z' r)
  from step_register(3) show ?thesis
    by (rule register_shape) (use step_register assms(3) key_dead_new_project in auto)
next
  case (step_create_project env user pbody db pres db' r)
  from step_create_project(3) show ?thesis
    by (rule create_project_shape)
       (use step_create_project create_project_frame [OF step_create_project(3)] assms(3) key_dead_new_project in auto)
next
  case (step_create_key env user pid kbody db kres db' r)
  with create_key_frame [OF step_create_key(3)] assms(3) show ?thesis
    by (auto elim!: create_key_shape simp: key_dead_def)
next
  case (step_rotate env user pid db r rres db' r')
  from step_rotate(3) show ?thesis
  proof (cases rule: rotate_cases)
    case (rotated old)
    then have "od_projects db' = update_where (\<lambda>p. pj_id p = pid \<and> pj_org_id p = cu_org_id user)
        (\<lambda>p. p\<lparr>pj_api_key_hash := ae_sha env (raw_api_key env)\<rparr>) (od_projects db)"
      by (auto simp: rotate_api_key_tx_def split: option.splits)
    moreover have "ae_sha env (raw_api_key env) \<noteq> h"
      by (rule fresh_not_dead [of h db]) (use step_rotate assms(3) in simp_all)
    ultimately show ?thesis
      using step_rotate assms(3) rotate_frame [OF step_rotate(3)]
      by (auto simp: update_where_def intro!: key_dead_projects [of h db])
  qed (use step_rotate assms(3) in simp)
next
  case (step_revoke env user pid kid db r vres db' r')
  from step_revoke(3) show ?thesis
  proof (cases rule: revoke_cases)
    case (revoked old)
    then have "od_api_keys db' = map (\<lambda>k. if revoke_hit user pid kid db k then k\<lparr>ak_is_active := False,
          ak_revoked_at := Some (case ak_revoked_at k of None \<Rightarrow> ae_now env | Some t \<Rightarrow> t)\<rparr> else k) (od_api_keys db)"
      by (auto simp: revoke_api_key_tx_def update_where_def split: option.splits)
    with revoke_frame [OF step_revoke(3)] assms(3) step_revoke show ?thesis
      by (auto intro!: key_dead_map [of h db] split: if_splits)
  qed (use step_revoke assms(3) in simp)
next
  case (step_authenticate now creds x scope db r gres db' r')
  with assms(3) show ?thesis by (auto elim!: authenticate_db intro: key_dead_touch)
next
  case (step_settings user pid sbody db sres db' r)
  from assms(2) step_settings have ok0: "constraints_ok db" by simp
  obtain g where "od_projects db' = map g (od_projects db)"
    "\<And>p. p \<in> set (od_projects db) \<Longrightarrow> g p = p \<or> apply_settings (settings_values sbody) p = Some (g p)"
    using settings_map [OF step_settings(3) ok0] by blast
  with step_settings settings_frame [OF step_settings(3)] assms(3) apply_settings_keeps show ?thesis
    by (auto intro!: key_dead_projects [of h db]) (metis imageI)
qed (use assms(3) in \<open>auto dest!: frames intro: key_dead_frame\<close>)

text \<open>
  C19: A revoked key is dead at once and for ever. When the handler answers that a key is
  revoked, every later request with that key is refused as invalid, although the key may have
  been cached, whatever the handlers do afterwards (no fresh key has its hash) and for every
  scope.
\<close>

theorem revoked_key_stays_rejected:
  assumes "redis_cache R" and "org_run Z R sha (db0, r0) (db, r)" and "constraints_ok db0" and "\<And>t k. r_get R t k r0 = None"
    and "revoke_api_key R env user pid kid db r = (Inr True, db1, r1)"
    and "k \<in> set (od_api_keys db)" and "ak_id k = kid" and "ak_key_hash k = sha key" and "key \<noteq> []"
    and "sha key \<notin> set (map pj_api_key_hash (od_projects db))"
    and "org_run Z R sha (db1, r1) (db2, r2)"
  shows "fst (get_project_from_api_key R sha now creds (Some key) scope db2 r2) = Inl (HTTPException 401 ''Invalid API key'')"
proof -
  let ?I = "\<lambda>s. constraints_ok (fst s) \<and> key_cache_agrees R (fst s) (snd s)"
  note kc = key_cache.intro [OF assms(1)]
  have "?I (db0, r0)" using assms(3,4) by (simp add: key_cache_agrees_def)
  then have I: "?I (db, r)"
    by (rule org_run_invariant [OF assms(2), of ?I]) (use step_constraints step_agrees [OF kc] in auto)
  then have ok: "constraints_ok db" by simp
  have step: "org_step Z R sha (db, r) (db1, r1)" by (rule step_revoke [OF assms(5)])
  have I1: "?I (db1, r1)" using step_constraints [OF step] step_agrees [OF kc step] I by auto
  from assms(5) have "key_dead (sha key) db1"
  proof (cases rule: revoke_cases)
    case (revoked h)
    then obtain l where l: "select_one (revoke_hit user pid kid db) (od_api_keys db) = Some l"
      and keys: "od_api_keys db1 = update_where (revoke_hit user pid kid db) (\<lambda>k. k\<lparr>ak_is_active := False,
          ak_revoked_at := Some (case ak_revoked_at k of None \<Rightarrow> ae_now env | Some t \<Rightarrow> t)\<rparr>) (od_api_keys db)"
      by (auto simp: revoke_api_key_tx_def split: option.splits)
    have "l = k" using select_one_SomeD [OF l] assms(6,7) constraints_okD(5) [OF ok]
      by (metis revoke_hit_def distinct_map inj_onD)
    with select_one_SomeD [OF l] have "revoke_hit user pid kid db k" by simp
    then have "k\<lparr>ak_is_active := False, ak_revoked_at := Some (case ak_revoked_at k of None \<Rightarrow> ae_now env | Some t \<Rightarrow> t)\<rparr>
        \<in> set (od_api_keys db1)"
      unfolding keys using update_whereI [OF assms(6), of "revoke_hit user pid kid db"] by (auto simp del: in_update_where)
    then show ?thesis using revoke_frame [OF assms(5)] assms(8,10) by (force simp: key_dead_def)
  qed simp
  with I1 have "?I (db2, r2) \<and> key_dead (sha key) (fst (db2, r2))"
    by (intro org_run_invariant [OF assms(11), of "\<lambda>s. ?I s \<and> key_dead (sha key) (fst s)"])
       (use step_constraints step_agrees [OF kc] step_key_dead in auto)
  then show ?thesis
    using dead_not_found authenticate_agreeing [of R db2 r2] assms(9) by (simp add: authenticate_by_tables_def)
qed

section \<open>A new organization\<close>

text \<open>
  Registration hands out working credentials. The token it returns authenticates, until
  it expires, as the administrator of the new organization, and the API key it returns gives
  the new project for every scope.
\<close>

theorem registration_gives_credentials:
  assumes "register Z env body db z = (Inr resp, db', z')"
    and "c = \<lparr>cl_sub = Some (ae_uuid env 2), cl_org_id = ae_uuid env 0, cl_role = ''admin'',
           cl_exp = ae_now env + seconds (60 * ae_expire_minutes env), cl_iat = ae_now env\<rparr>"
    and "decode now (ae_encode env c) = (if now < cl_exp c then Some c else None)"
    and "now < ae_now env + seconds (60 * ae_expire_minutes env)" and "ae_uuid env 2 \<noteq> []"
    and "\<And>t k. r_get R t k r = None"
  shows "load_current_user_from_token decode now (rs_access_token resp) db' =
      Inr \<lparr>cu_sub = ae_uuid env 2, cu_org_id = ae_uuid env 0, cu_role = Some ''admin'', cu_is_platform_admin = Some False\<rparr> \<and>
    (\<forall>scope. fst (get_project_from_api_key R (ae_sha env) now None (Some (rs_api_key resp)) scope db' r) =
      Inr \<lparr>pc_id = rs_project_id resp, pc_org_id = ae_uuid env 0, pc_name = ''Default'', pc_scope = Some ''read_write'',
           pc_api_key_id = None, pc_legacy = True\<rparr>)"
proof -
  from assms(1) have tx: "register_tx env body db = Inr (resp, db')" and ok: "constraints_ok db'"
    by (auto simp: register_def transact_Inr split: handler_splits)
  define u where "u = new_user env (ae_uuid env 2) (ae_uuid env 0) (rr_email body) (rr_password body) ''admin''"
  define p where "p = project_defaults (ae_now env) (ae_uuid env 3) (ae_uuid env 0) ''Default'' (ae_sha env (raw_api_key env)) 90"
  from tx have db': "od_users db' = od_users db @ [u]" "od_projects db' = od_projects db @ [p]"
    and resp: "rs_access_token resp = create_access_token (ae_encode env) (ae_expire_minutes env) (ae_now env) (ae_uuid env 2) (ae_uuid env 0) ''admin''"
      "rs_api_key resp = raw_api_key env" "rs_project_id resp = ae_uuid env 3"
    by (auto simp: register_tx_def u_def p_def Let_def split: if_splits)
  have "org_keys_ok db'" using ok by (simp add: org_keys_ok_def constraints_ok_def)
  then have "load_current_user_from_token decode now (rs_access_token resp) db' =
      Inr \<lparr>cu_sub = ae_uuid env 2, cu_org_id = ae_uuid env 0, cu_role = Some ''admin'', cu_is_platform_admin = Some False\<rparr>"
    unfolding load_current_user_Inr [OF \<open>org_keys_ok db'\<close>] resp create_access_token_def assms(2) [symmetric]
    using assms(3-5) db'(1) by (intro exI [of _ c] exI [of _ u]) (simp add: u_def new_user_def assms(2))
  moreover have "live_project (ae_sha env (raw_api_key env)) db' p"
    by (simp add: live_project_def db'(2)) (simp add: p_def project_defaults_def)
  then have "find_project_by_hash (ae_sha env (raw_api_key env)) db' = Some (legacy_context p)"
    unfolding find_iff [OF ok] by blast
  then have "fst (get_project_from_api_key R (ae_sha env) now None (Some (rs_api_key resp)) scope db' r) = Inr (legacy_context p)" for scope
    using assms(6) by (simp add: get_project_from_api_key_def resp raw_api_key_def legacy_context_def api_key_allows_def)
  ultimately show ?thesis by (simp add: legacy_context_def p_def project_defaults_def resp)
qed

text \<open>
  A request that has looked the key up but not yet cached it, while the key is revoked, puts
  the revoked key back into the cache, for a minute.
\<close>

lemma revocation_race_serves_stale_key:
  assumes "redis_store R" and "find_project_by_hash (sha key) db = Some pd"
    and "revoke_api_key R env user pid kid db r = (Inr True, db', r')"
    and "now \<le> now'" and "now' < now + seconds 60" and "api_key_allows (pc_scope pd) scope" and "key \<noteq> []"
  shows "fst (get_project_from_api_key R sha now' None (Some key) scope db' (r_setex R now (apikey_cache_key (sha key)) 60 pd r')) = Inr pd"
  using assms(5-7) redis_store.get_setex_live [OF assms(1) assms(5)] by (simp add: get_project_from_api_key_def)

section \<open>Examples\<close>

definition ex_keyed :: org_db where
  "ex_keyed = snd (create_api_key (ex_env ''b'' 1) ex_admin ''a3'' \<lparr>kc_name = ''k'', kc_description = None, kc_scope = ''ingest''\<rparr> ex_registered)"

definition ex_used :: "org_db \<times> project_context mem" where
  "ex_used = snd (get_project_from_api_key mem_redis id 2 None (Some ''llmobs_b-token'') ''ingest'' ex_keyed [])"

definition ex_revoked :: "org_db \<times> project_context mem" where
  "ex_revoked = snd (revoke_api_key mem_redis (ex_env ''c'' 3) ex_admin ''a3'' ''b0'' (fst ex_used) (snd ex_used))"

lemma ex_used_run: "org_run mem_zset_ops mem_redis id (empty_org_db, []) (fst ex_used, snd ex_used)"
proof (rule run_step [OF run_step [OF ex_run]])
  show "org_step mem_zset_ops mem_redis id (ex_registered, []) (ex_keyed, [])"
    by (rule step_create_key [where env = "ex_env ''b'' 1" and user = ex_admin and project_id = "''a3''" and
          kbody = "\<lparr>kc_name = ''k'', kc_description = None, kc_scope = ''ingest''\<rparr>"])
       (simp add: ex_keyed_def prod_eq_iff, simp add: ex_env_def, code_simp)
  show "org_step mem_zset_ops mem_redis id (ex_keyed, []) (fst ex_used, snd ex_used)"
    by (rule step_authenticate [where now = 2 and creds = None and x_api_key = "Some ''llmobs_b-token''" and scope = "''ingest''"])
       (simp add: ex_used_def prod_eq_iff)
qed

theorem apikey_cache_is_transparent_witness:
  "fst (get_project_from_api_key mem_redis id 4 None (Some ''llmobs_b-token'') ''ingest'' (fst ex_used) (snd ex_used)) =
     authenticate_by_tables id None (Some ''llmobs_b-token'') ''ingest'' (fst ex_used)"
  by (rule apikey_cache_is_transparent [OF mem.redis_cache_axioms ex_used_run ex_empty(1)]) (simp add: mem_get_def)

theorem revoked_key_stays_rejected_witness:
  "fst (get_project_from_api_key mem_redis id 4 None (Some ''llmobs_b-token'') ''ingest'' (fst ex_revoked) (snd ex_revoked)) =
     Inl (HTTPException 401 ''Invalid API key'')"
proof -
  define k where "k = \<lparr>ak_id = ''b0'', ak_project_id = ''a3'', ak_name = ''k'', ak_description = None,
      ak_key_hash = ''llmobs_b-token'', ak_scope = ''ingest'', ak_is_active = True, ak_created_at = 1,
      ak_last_used_at = Some 2, ak_revoked_at = None\<rparr>"
  have keys: "od_api_keys (fst ex_used) = [k]" unfolding k_def by code_simp
  have "fst (revoke_api_key mem_redis (ex_env ''c'' 3) ex_admin ''a3'' ''b0'' (fst ex_used) (snd ex_used)) = Inr True" by code_simp
  then have rev: "revoke_api_key mem_redis (ex_env ''c'' 3) ex_admin ''a3'' ''b0'' (fst ex_used) (snd ex_used) =
      (Inr True, fst ex_revoked, snd ex_revoked)" by (simp add: ex_revoked_def prod_eq_iff)
  have hash: "id ''llmobs_b-token'' \<notin> set (map pj_api_key_hash (od_projects (fst ex_used)))" by code_simp
  show ?thesis
    by (rule revoked_key_stays_rejected [OF mem.redis_cache_axioms ex_used_run ex_empty(1) _ rev _ _ _ _ hash run_refl, where k = k])
       (simp_all add: keys k_def mem_get_def)
qed

theorem registration_gives_credentials_witness:
  "\<exists>resp. fst (register mem_zset_ops (ex_env ''a'' 0)
      \<lparr>rr_email = ''a@x'', rr_password = ''password'', rr_org_name = ''Org'', rr_bootstrap_token = None\<rparr> empty_org_db []) = Inr resp \<and>
     load_current_user_from_token
       (\<lambda>now t. if now < seconds 3600 then Some \<lparr>cl_sub = Some t, cl_org_id = ''a0'', cl_role = ''admin'', cl_exp = seconds 3600, cl_iat = 0\<rparr> else None)
       1 (rs_access_token resp) ex_registered = Inr ex_admin"
proof -
  let ?reg = "register mem_zset_ops (ex_env ''a'' 0)
      \<lparr>rr_email = ''a@x'', rr_password = ''password'', rr_org_name = ''Org'', rr_bootstrap_token = None\<rparr> empty_org_db []"
  have "isl (fst ?reg) = False" by code_simp
  then obtain resp where resp: "fst ?reg = Inr resp" by (cases "fst ?reg") auto
  then have reg: "?reg = (Inr resp, ex_registered, snd (snd ?reg))" by (simp add: ex_registered_def prod_eq_iff)
  have "load_current_user_from_token
       (\<lambda>now t. if now < seconds 3600 then Some \<lparr>cl_sub = Some t, cl_org_id = ''a0'', cl_role = ''admin'', cl_exp = seconds 3600, cl_iat = 0\<rparr> else None)
       1 (rs_access_token resp) ex_registered =
      Inr \<lparr>cu_sub = ae_uuid (ex_env ''a'' 0) 2, cu_org_id = ae_uuid (ex_env ''a'' 0) 0, cu_role = Some ''admin'', cu_is_platform_admin = Some False\<rparr>"
    by (rule conjunct1 [OF registration_gives_credentials [OF reg refl, where R = mem_redis and r = "[]"]])
       (simp_all add: ex_env_def mem_get_def)
  with resp show ?thesis by (intro exI [of _ resp]) (simp add: ex_admin_def ex_env_def)
qed

end
