(* ===== verification/Py_Numbers.thy ===== *)
theory Py_Numbers
  imports Obs_Prelude
begin

text \<open>
  Decimal texts as Python's \<^verbatim>\<open>int(...)\<close> reads them: surrounding white space, a sign, and digits with
  single underscores between them; hexadecimal texts; dictionary displays and the truth value of
  JSON values. Shared by the components that read or write such texts.
\<close>

definition is_digit :: "char \<Rightarrow> bool" where
  "is_digit c = (let n = (of_char c :: nat) in 48 \<le> n \<and> n \<le> 57)"

definition digits_value :: "string \<Rightarrow> int" where
  "digits_value s = foldl (\<lambda>n c. 10 * n + int (of_char c - 48 :: nat)) 0 s"

text \<open>\<open>None\<close> is the \<^verbatim>\<open>ValueError\<close>.\<close>

definition py_nat :: "string \<Rightarrow> int option" where
  "py_nat s =
     (if list_all (\<lambda>g. g \<noteq> [] \<and> list_all is_digit g) (py_split (CHR ''_'') s)
      then Some (digits_value (concat (py_split (CHR ''_'') s))) else None)"

definition py_int :: "string \<Rightarrow> int option" where
  "py_int s =
     (case py_strip s of
        [] \<Rightarrow> None
      | c # cs \<Rightarrow>
          if c = CHR ''-'' then map_option uminus (py_nat cs)
          else if c = CHR ''+'' then py_nat cs else py_nat (c # cs))"

text \<open>\<^verbatim>\<open>str(n)\<close>.\<close>

fun py_str_nat :: "nat \<Rightarrow> string" where
  "py_str_nat n = (if n < 10 then [char_of (48 + n)] else py_str_nat (n div 10) @ [char_of (48 + n mod 10)])"

declare py_str_nat.simps [simp del]

definition py_str_int :: "int \<Rightarrow> string" where
  "py_str_int i = (if i < 0 then CHR ''-'' # py_str_nat (nat (- i)) else py_str_nat (nat i))"

definition hex_digit :: "nat \<Rightarrow> char" where
  "hex_digit n = (if n < 10 then char_of (n + 48) else char_of (n + 87))"

text \<open>\<^verbatim>\<open>b.hex()\<close>; bytes are characters.\<close>

definition bytes_hex :: "string \<Rightarrow> string" where
  "bytes_hex b = concat (map (\<lambda>c. [hex_digit (of_char c div 16), hex_digit (of_char c mod 16)]) b)"

section \<open>Dictionaries and truth\<close>

fun dict_set :: "'k \<Rightarrow> 'v \<Rightarrow> ('k \<times> 'v) list \<Rightarrow> ('k \<times> 'v) list" where
  "dict_set k v [] = [(k, v)]"
| "dict_set k v ((k', v') # m) = (if k = k' then (k, v) # m else (k', v') # dict_set k v m)"

text \<open>A dictionary display: a later entry replaces an earlier one.\<close>

definition py_dict :: "('k \<times> 'v) list \<Rightarrow> ('k \<times> 'v) list" where
  "py_dict entries = fold (\<lambda>(k, v). dict_set k v) entries []"

fun py_falsy :: "json \<Rightarrow> bool" where
  "py_falsy JNull = True"
| "py_falsy (JBool b) = (\<not> b)"
| "py_falsy (JInt i) = (i = 0)"
| "py_falsy (JFloat r) = (r = 0)"
| "py_falsy (JStr s) = (s = [])"
| "py_falsy (JArr xs) = (xs = [])"
| "py_falsy (JObj m) = (m = [])"

text \<open>\<^verbatim>\<open>int(value)\<close>; \<open>None\<close> is \<^verbatim>\<open>TypeError\<close> or \<^verbatim>\<open>ValueError\<close>.\<close>

fun py_int_of :: "json \<Rightarrow> int option" where
  "py_int_of (JInt i) = Some i"
| "py_int_of (JBool b) = Some (if b then 1 else 0)"
| "py_int_of (JFloat r) = Some (if r < 0 then \<lceil>r\<rceil> else \<lfloor>r\<rfloor>)"
| "py_int_of (JStr s) = py_int s"
| "py_int_of _ = None"

section \<open>Printed numbers are read back\<close>

lemma digit_char: "n < 10 \<Longrightarrow> is_digit (char_of (48 + n)) \<and> (of_char (char_of (48 + n)) :: nat) = 48 + n"
  by (simp add: is_digit_def)

lemma py_str_nat_digits: "py_str_nat n \<noteq> [] \<and> list_all is_digit (py_str_nat n) \<and> digits_value (py_str_nat n) = int n"
proof (induction n rule: py_str_nat.induct)
  case (1 n)
  show ?case
  proof (cases "n < 10")
    case True
    with digit_char [OF this] show ?thesis by (simp add: py_str_nat.simps [of n] digits_value_def)
  next
    case False
    have "10 * int (n div 10) + int (n mod 10) = int n" by presburger
    with False 1 digit_char [of "n mod 10"] show ?thesis
      by (simp add: py_str_nat.simps [of n] digits_value_def)
  qed
qed

lemma py_split_none: "d \<notin> set s \<Longrightarrow> py_split d s = [s]"
  by (induction s) auto

lemma digit_not_special:
  assumes "list_all is_digit s"
  shows "CHR ''_'' \<notin> set s" and "py_strip s = s"
proof -
  show "CHR ''_'' \<notin> set s" using assms by (auto simp: list_all_iff is_digit_def)
  have n: "\<not> is_space c" if "c \<in> set s" for c using assms that by (auto simp: list_all_iff is_digit_def is_space_def Let_def)
  have "dropWhile is_space t = t" if "set t = set s" for t
    using that n by (cases t) auto
  from this [of s] this [of "rev s"] have "dropWhile is_space s = s" "dropWhile is_space (rev s) = rev s" by simp_all
  then show "py_strip s = s" by (simp add: py_strip_def)
qed

lemma py_int_str_nat: "py_int (py_str_nat n) = Some (int n)"
proof -
  obtain c cs where s: "py_str_nat n = c # cs" using py_str_nat_digits [of n] by (cases "py_str_nat n") auto
  have d: "list_all is_digit (c # cs)" "digits_value (c # cs) = int n" using py_str_nat_digits [of n] s by auto
  then have "c \<noteq> CHR ''-''" "c \<noteq> CHR ''+''" by (auto simp: is_digit_def)
  with d digit_not_special [OF d(1)] show ?thesis
    unfolding py_int_def s by (auto simp: py_nat_def py_split_none)
qed

lemma py_str_int_nonempty: "py_str_int i \<noteq> []"
  using py_str_nat_digits by (auto simp: py_str_int_def)

lemma py_int_str_int: "py_int (py_str_int i) = Some i"
proof (cases "i < 0")
  case True
  let ?s = "py_str_nat (nat (- i))"
  have d: "?s \<noteq> []" "list_all is_digit ?s" "digits_value ?s = - i" using py_str_nat_digits [of "nat (- i)"] True by auto
  have "py_strip (CHR ''-'' # ?s) = CHR ''-'' # ?s"
  proof -
    have "rev (dropWhile is_space (rev ?s @ [CHR ''-''])) = CHR ''-'' # rev (dropWhile is_space (rev ?s))" if "dropWhile is_space (rev ?s) \<noteq> []"
      using that by (simp add: dropWhile_append)
    moreover have "dropWhile is_space (rev ?s) = rev ?s"
    proof -
      have "\<not> is_space (hd (rev ?s))"
        using d(1,2) by (auto simp: list_all_iff is_digit_def is_space_def Let_def hd_rev dest!: bspec [OF _ last_in_set])
      then show ?thesis using d(1) by (cases "rev ?s") auto
    qed
    ultimately show ?thesis using d(1) by (simp add: py_strip_def is_space_def)
  qed
  with True d digit_not_special [OF d(2)] show ?thesis
    by (simp add: py_int_def py_str_int_def py_nat_def py_split_none)
qed (simp add: py_str_int_def py_int_str_nat)

end
