(* ===== verification/Webhook.thy ===== *)
theory Webhook
  imports Py_Numbers
begin

text \<open>
  Validation of webhook addresses: \<^verbatim>\<open>_validate_https_webhook\<close> of \<^verbatim>\<open>backend/app/schemas/alerts.py\<close> and
  \<^verbatim>\<open>validate_webhook_delivery_url\<close> of \<^verbatim>\<open>backend/app/services/notifications.py\<close>, with what they use of
  Python's \<^verbatim>\<open>urlparse\<close>. Parameters are the test for global addresses of \<^verbatim>\<open>ipaddress\<close> (\<open>None\<close> when the
  text is no address) and name resolution.
\<close>

section \<open>Parsing of URLs\<close>

text \<open>\<^verbatim>\<open>s.partition(c)\<close>: the parts before and after the first \<open>c\<close>, if there is one.\<close>

fun py_partition :: "char \<Rightarrow> string \<Rightarrow> string \<times> string option" where
  "py_partition c [] = ([], None)"
| "py_partition c (x # xs) =
     (if x = c then ([], Some xs) else case py_partition c xs of (a, b) \<Rightarrow> (x # a, b))"

text \<open>\<^verbatim>\<open>s.rpartition(c)\<close>.\<close>

definition py_rpartition :: "char \<Rightarrow> string \<Rightarrow> string option \<times> string" where
  "py_rpartition c s =
     (case py_partition c (rev s) of (a, None) \<Rightarrow> (None, rev a) | (a, Some b) \<Rightarrow> (Some (rev b), rev a))"

record parsed_url =
  pu_scheme :: string
  pu_netloc :: string

definition is_alpha :: "char \<Rightarrow> bool" where
  "is_alpha c = (let n = (of_char c :: nat) in 65 \<le> n \<and> n \<le> 90 \<or> 97 \<le> n \<and> n \<le> 122)"

definition is_scheme_char :: "char \<Rightarrow> bool" where
  "is_scheme_char c \<longleftrightarrow> is_alpha c \<or> is_digit c \<or> c \<in> {CHR ''+'', CHR ''-'', CHR ''.''}"

text \<open>The scheme and the part between \<^verbatim>\<open>//\<close> and the path. \<open>None\<close> is the \<^verbatim>\<open>ValueError\<close> of unbalanced
  brackets.\<close>

definition urlsplit :: "string \<Rightarrow> parsed_url option" where
  "urlsplit url0 =
     (let url = filter (\<lambda>c. c \<notin> {CHR 0x09, CHR 0x0A, CHR 0x0D}) (dropWhile (\<lambda>c. (of_char c :: nat) \<le> 32) url0);
          (scheme, rest) = (case py_partition (CHR '':'') url of
             (pre, Some post) \<Rightarrow>
               if pre \<noteq> [] \<and> is_alpha (hd pre) \<and> list_all is_scheme_char pre then (py_lower pre, post) else ([], url)
           | (_, None) \<Rightarrow> ([], url));
          netloc = (if take 2 rest = ''//'' then takeWhile (\<lambda>c. c \<notin> {CHR ''/'', CHR ''?'', CHR ''#''}) (drop 2 rest) else [])
      in if (CHR ''['' \<in> set netloc) \<noteq> (CHR '']'' \<in> set netloc) then None
         else Some \<lparr>pu_scheme = scheme, pu_netloc = netloc\<rparr>)"

definition url_userinfo :: "parsed_url \<Rightarrow> string option \<times> string option" where
  "url_userinfo u =
     (case fst (py_rpartition (CHR ''@'') (pu_netloc u)) of
        None \<Rightarrow> (None, None)
      | Some userinfo \<Rightarrow> (case py_partition (CHR '':'') userinfo of (name, pw) \<Rightarrow> (Some name, pw)))"

definition url_hostinfo :: "parsed_url \<Rightarrow> string \<times> string option" where
  "url_hostinfo u =
     (let hostinfo = snd (py_rpartition (CHR ''@'') (pu_netloc u))
      in case py_partition (CHR ''['') hostinfo of
           (_, Some bracketed) \<Rightarrow>
             (case py_partition (CHR '']'') bracketed of
                (hostname, port) \<Rightarrow> (hostname, snd (py_partition (CHR '':'') (case port of None \<Rightarrow> [] | Some p \<Rightarrow> p))))
         | (_, None) \<Rightarrow> py_partition (CHR '':'') hostinfo)"

definition url_hostname :: "parsed_url \<Rightarrow> string option" where
  "url_hostname u =
     (let hostname = fst (url_hostinfo u)
      in if hostname = [] then None
         else case py_partition (CHR 0x25) hostname of
                (name, None) \<Rightarrow> Some (py_lower name)
              | (name, Some zone) \<Rightarrow> Some (py_lower name @ [CHR 0x25] @ zone))"

text \<open>The port; the outer \<open>None\<close> is a \<^verbatim>\<open>ValueError\<close>. An empty port counts as none.\<close>

definition url_port :: "parsed_url \<Rightarrow> int option option" where
  "url_port u =
     (case snd (url_hostinfo u) of
        None \<Rightarrow> Some None
      | Some [] \<Rightarrow> Some None
      | Some p \<Rightarrow>
          if list_all is_digit p \<and> digits_value p \<le> 65535 then Some (Some (digits_value p)) else None)"

section \<open>Validation\<close>

definition SLACK_WEBHOOK_HOSTS :: "string list" where
  "SLACK_WEBHOOK_HOSTS = [''hooks.slack.com'', ''hooks.slack-gov.com'']"

definition normalize_optional_string :: "string option \<Rightarrow> string option" where
  "normalize_optional_string v =
     (case v of None \<Rightarrow> None | Some s \<Rightarrow> (let t = py_strip s in if t = [] then None else Some t))"

text \<open>\<^verbatim>\<open>text.strip("[]")\<close>\<close>

definition strip_brackets :: "string \<Rightarrow> string" where
  "strip_brackets s =
     (let b = (\<lambda>c. c = CHR ''['' \<or> c = CHR '']'') in rev (dropWhile b (rev (dropWhile b s))))"

text \<open>The address properties the schema refuses, for a text that is an address.\<close>

type_synonym ip_refused = "string \<Rightarrow> bool option"

definition validate_https_webhook :: "ip_refused \<Rightarrow> string option \<Rightarrow> string + string option" where
  "validate_https_webhook ip_refused value0 =
     (case normalize_optional_string value0 of
        None \<Rightarrow> Inr None
      | Some value \<Rightarrow>
          (case urlsplit value of
             None \<Rightarrow> Inl ''Invalid IPv6 URL''
           | Some parsed \<Rightarrow>
               if pu_scheme parsed \<noteq> ''https'' \<or> url_hostname parsed = None then Inl ''Slack webhook must be an HTTPS URL''
               else case url_port parsed of
                      None \<Rightarrow> Inl ''Port out of range''
                    | Some port \<Rightarrow>
                        if port \<noteq> None \<and> port \<noteq> Some 443 then Inl ''Slack webhook must use the default HTTPS port''
                        else
                          (let hostname = strip_brackets (py_lower (the (url_hostname parsed)))
                           in if hostname \<notin> set SLACK_WEBHOOK_HOSTS then
                                Inl ''Slack webhook must use an official Slack webhook domain''
                              else if hostname = ''localhost'' \<or> py_endswith ''.local'' hostname then
                                Inl ''Slack webhook cannot target localhost or local hosts''
                              else case ip_refused hostname of
                                     None \<Rightarrow> Inr (Some value)
                                   | Some bad \<Rightarrow>
                                       if bad then Inl ''Slack webhook cannot target private or internal addresses''
                                       else Inr (Some value))))"

text \<open>
  What delivery needs to know of the network: whether an address text is global, and the
  addresses a host resolves to (none when resolution fails).
\<close>

record net_env =
  ne_ip_refused :: ip_refused
  ne_ip_is_global :: "string \<Rightarrow> bool option"
  ne_resolve :: "string \<Rightarrow> int \<Rightarrow> string list"

definition is_internal_ip :: "net_env \<Rightarrow> string \<Rightarrow> bool option" where
  "is_internal_ip net address = map_option Not (ne_ip_is_global net address)"

definition resolve_webhook_host :: "net_env \<Rightarrow> string \<Rightarrow> int \<Rightarrow> string + string list" where
  "resolve_webhook_host net hostname port =
     (let addresses = remdups (ne_resolve net hostname port)
      in if addresses = [] then Inl ''Webhook host could not be resolved'' else Inr addresses)"

definition validate_webhook_delivery_url :: "net_env \<Rightarrow> string \<Rightarrow> string + string" where
  "validate_webhook_delivery_url net url =
     (case validate_https_webhook (ne_ip_refused net) (Some url) of
        Inl e \<Rightarrow> Inl e
      | Inr None \<Rightarrow> Inl ''Webhook URL is required''
      | Inr (Some webhook) \<Rightarrow>
          (case urlsplit webhook of
             None \<Rightarrow> Inl ''Invalid IPv6 URL''
           | Some parsed \<Rightarrow>
               if truthy (fst (url_userinfo parsed)) \<or> truthy (snd (url_userinfo parsed)) then
                 Inl ''Webhook URL credentials are not allowed''
               else case url_hostname parsed of
                      None \<Rightarrow> Inl ''Webhook URL must include a hostname''
                    | Some hostname \<Rightarrow>
                        (case url_port parsed of
                           None \<Rightarrow> Inl ''Port out of range''
                         | Some port0 \<Rightarrow>
                             (let port = (case port0 of None \<Rightarrow> 443 | Some p \<Rightarrow> if p = 0 then 443 else p)
                              in if port \<noteq> 443 then Inl ''Webhook URL must use the default HTTPS port''
                                 else if is_internal_ip net (strip_brackets hostname) = Some True then
                                   Inl ''Webhook cannot target private or internal addresses''
                                 else case resolve_webhook_host net hostname port of
                                        Inl e \<Rightarrow> Inl e
                                      | Inr addresses \<Rightarrow>
                                          if list_ex (\<lambda>a. ne_ip_is_global net a = None) addresses then
                                            Inl ''not an IP address''
                                          else if list_ex (\<lambda>a. is_internal_ip net a = Some True) addresses then
                                            Inl ''Webhook DNS resolves to private or internal addresses''
                                          else Inr webhook))))"

section \<open>What a validated address is\<close>

definition safe_webhook :: "net_env \<Rightarrow> string \<Rightarrow> bool" where
  "safe_webhook net url \<longleftrightarrow>
     (\<exists>parsed hostname. urlsplit url = Some parsed \<and> pu_scheme parsed = ''https'' \<and> url_hostname parsed = Some hostname \<and>
        strip_brackets (py_lower hostname) \<in> set SLACK_WEBHOOK_HOSTS \<and> url_port parsed \<in> {Some None, Some (Some 443)} \<and>
        \<not> truthy (fst (url_userinfo parsed)) \<and> \<not> truthy (snd (url_userinfo parsed)) \<and>
        ne_resolve net hostname 443 \<noteq> [] \<and>
        list_all (\<lambda>a. ne_ip_is_global net a = Some True) (ne_resolve net hostname 443))"

lemma validated_https:
  assumes "validate_https_webhook ipr v = Inr (Some w)"
  shows "\<exists>parsed hostname. urlsplit w = Some parsed \<and> pu_scheme parsed = ''https'' \<and> url_hostname parsed = Some hostname \<and>
    strip_brackets (py_lower hostname) \<in> set SLACK_WEBHOOK_HOSTS \<and> url_port parsed \<in> {Some None, Some (Some 443)}"
  using assms unfolding validate_https_webhook_def
  by (auto simp: Let_def split: option.splits if_splits)

lemma validated_is_safe:
  assumes "validate_webhook_delivery_url net url = Inr w"
  shows "safe_webhook net w"
proof -
  obtain webhook where v: "validate_https_webhook (ne_ip_refused net) (Some url) = Inr (Some webhook)" and w: "webhook = w"
    using assms by (auto simp: validate_webhook_delivery_url_def Let_def split: sum.splits option.splits if_splits)
  obtain parsed hostname where p: "urlsplit w = Some parsed" "pu_scheme parsed = ''https''" "url_hostname parsed = Some hostname"
      "strip_brackets (py_lower hostname) \<in> set SLACK_WEBHOOK_HOSTS" "url_port parsed \<in> {Some None, Some (Some 443)}"
    using validated_https [OF v] w by blast
  have port: "(case the (url_port parsed) of None \<Rightarrow> 443 | Some p \<Rightarrow> if p = 0 then 443 else p) = (443 :: int)"
    using p(5) by auto
  from assms v w p port have "\<not> truthy (fst (url_userinfo parsed))" "\<not> truthy (snd (url_userinfo parsed))"
    and r: "\<exists>as. resolve_webhook_host net hostname 443 = Inr as \<and> \<not> list_ex (\<lambda>a. ne_ip_is_global net a = None) as \<and>
      \<not> list_ex (\<lambda>a. is_internal_ip net a = Some True) as"
    by (auto simp: validate_webhook_delivery_url_def Let_def split: sum.splits if_splits)
  moreover from r have "ne_resolve net hostname 443 \<noteq> []"
    "list_all (\<lambda>a. ne_ip_is_global net a = Some True) (ne_resolve net hostname 443)"
    by (auto simp: resolve_webhook_host_def is_internal_ip_def list_all_iff list_ex_iff Let_def split: if_splits)
      (metis (full_types) not_None_eq)
  ultimately show ?thesis unfolding safe_webhook_def using p by blast
qed

end
