(* ===== verification/Alerts.thy ===== *)
theory Alerts
  imports Webhook Access_Control Span_Pipeline
begin

text \<open>
  Alert rules and their evaluation: \<^verbatim>\<open>backend/app/api/v1/alerts.py\<close>, \<^verbatim>\<open>backend/app/schemas/alerts.py\<close>,
  \<^verbatim>\<open>backend/app/services/notifications.py\<close>, \<^verbatim>\<open>backend/app/services/anomaly.py\<close> and the alert tasks of
  \<^verbatim>\<open>backend/app/workers/process_span.py\<close>.

  Thresholds and values are exact numbers where the code has decimals and floats. The texts of
  messages, the HTTP client, the mail server, name resolution, \<^verbatim>\<open>urljoin\<close> and the engine's standard
  deviation are parameters. Cooldowns and cached statistics are two views of the Redis server.
\<close>

section \<open>Tables and requests\<close>

record alert_rule =
  ar_id :: uuid
  ar_project_id :: uuid
  ar_name :: string
  ar_metric :: string
  ar_condition :: string
  ar_threshold :: "rat option"
  ar_window_minutes :: int
  ar_notify_slack_webhook :: "string option"
  ar_notify_email :: "string option"
  ar_cooldown_minutes :: int
  ar_is_active :: bool
  ar_created_at :: time

record alert_event =
  ev_id :: uuid
  ev_rule_id :: uuid
  ev_triggered_at :: time
  ev_value :: rat
  ev_message :: string
  ev_resolved_at :: "time option"

record alert_db =
  ad_rules :: "alert_rule list"
  ad_events :: "alert_event list"

record alert_rule_create =
  rc_project_id :: string
  rc_name :: string
  rc_metric :: string
  rc_condition :: string
  rc_threshold :: "rat option"
  rc_window_minutes :: int
  rc_cooldown_minutes :: int
  rc_notify_slack_webhook :: "string option"
  rc_notify_email :: "string option"

record alert_rule_update =
  ru_is_active :: "bool option"
  ru_threshold :: "rat option"
  ru_notify_slack_webhook :: "string option"
  ru_notify_email :: "string option"

definition validate_threshold_for_metric :: "string \<Rightarrow> string \<Rightarrow> rat option \<Rightarrow> string + unit" where
  "validate_threshold_for_metric metric condition threshold =
     (if metric = ''anomaly'' \<or> condition = ''anomaly'' then Inr ()
      else case threshold of
             None \<Rightarrow> Inl ''threshold is required for non-anomaly alert rules''
           | Some t \<Rightarrow> if t \<le> 0 then Inl ''threshold must be greater than 0'' else Inr ())"

text \<open>Validation of the address by the third-party mail type is the parameter \<open>is_email\<close>.\<close>

definition validate_email :: "(string \<Rightarrow> bool) \<Rightarrow> string option \<Rightarrow> string + string option" where
  "validate_email is_email v =
     (case normalize_optional_string v of
        None \<Rightarrow> Inr None
      | Some e \<Rightarrow> if is_email e then Inr (Some e) else Inl ''value is not a valid email address'')"

definition validate_rule_create ::
  "ip_refused \<Rightarrow> (string \<Rightarrow> bool) \<Rightarrow> alert_rule_create \<Rightarrow> string + alert_rule_create" where
  "validate_rule_create ipr is_email b =
     (if rc_metric b \<notin> {''latency_p95'', ''error_rate'', ''cost_hourly'', ''anomaly''} \<or>
         rc_condition b \<notin> {''gt'', ''lt'', ''anomaly''} \<or> rc_window_minutes b < 1 \<or> rc_cooldown_minutes b < 1
      then Inl ''invalid field''
      else case validate_https_webhook ipr (rc_notify_slack_webhook b) of
             Inl e \<Rightarrow> Inl e
           | Inr slack \<Rightarrow>
               (case validate_email is_email (rc_notify_email b) of
                  Inl e \<Rightarrow> Inl e
                | Inr email \<Rightarrow>
                    (case validate_threshold_for_metric (rc_metric b) (rc_condition b) (rc_threshold b) of
                       Inl e \<Rightarrow> Inl e
                     | Inr _ \<Rightarrow>
                         if \<not> truthy slack \<and> \<not> truthy email then Inl ''at least one notification target is required''
                         else Inr (b\<lparr>rc_notify_slack_webhook := slack, rc_notify_email := email\<rparr>))))"

definition validate_rule_update ::
  "ip_refused \<Rightarrow> (string \<Rightarrow> bool) \<Rightarrow> alert_rule_update \<Rightarrow> string + alert_rule_update" where
  "validate_rule_update ipr is_email b =
     (if (case ru_threshold b of None \<Rightarrow> False | Some t \<Rightarrow> t \<le> 0) then Inl ''threshold must be greater than 0''
      else case validate_https_webhook ipr (ru_notify_slack_webhook b) of
             Inl e \<Rightarrow> Inl e
           | Inr slack \<Rightarrow>
               (case validate_email is_email (ru_notify_email b) of
                  Inl e \<Rightarrow> Inl e
                | Inr email \<Rightarrow> Inr (b\<lparr>ru_notify_slack_webhook := slack, ru_notify_email := email\<rparr>)))"

section \<open>Handlers\<close>

definition list_rules :: "current_user \<Rightarrow> uuid \<Rightarrow> org_db \<Rightarrow> alert_db \<Rightarrow> http_error + alert_rule list" where
  "list_rules user project_id org adb =
     (case get_project_for_user project_id user ''viewer'' org of
        Inl e \<Rightarrow> Inl e
      | Inr _ \<Rightarrow> Inr (sort_key (\<lambda>r. - ar_created_at r) (filter (\<lambda>r. ar_project_id r = project_id) (ad_rules adb))))"

definition create_rule ::
  "time \<Rightarrow> uuid \<Rightarrow> current_user \<Rightarrow> alert_rule_create \<Rightarrow> org_db \<Rightarrow> alert_db \<Rightarrow> (http_error + uuid) \<times> alert_db" where
  "create_rule now new_id user body org adb =
     (case get_project_for_user (rc_project_id body) user ''member'' org of
        Inl e \<Rightarrow> (Inl e, adb)
      | Inr _ \<Rightarrow>
          if \<exists>r \<in> set (ad_rules adb). ar_id r = new_id then (Inl (Unhandled ''IntegrityError''), adb)
          else (Inr new_id, adb\<lparr>ad_rules := ad_rules adb @
            [\<lparr>ar_id = new_id, ar_project_id = rc_project_id body, ar_name = rc_name body, ar_metric = rc_metric body,
              ar_condition = rc_condition body, ar_threshold = rc_threshold body, ar_window_minutes = rc_window_minutes body,
              ar_notify_slack_webhook = rc_notify_slack_webhook body, ar_notify_email = rc_notify_email body,
              ar_cooldown_minutes = rc_cooldown_minutes body, ar_is_active = True, ar_created_at = now\<rparr>]\<rparr>))"

text \<open>The columns of the dynamic \<^verbatim>\<open>SET\<close> clause: those with a value.\<close>

definition update_columns :: "alert_rule_update \<Rightarrow> alert_rule \<Rightarrow> alert_rule" where
  "update_columns b r =
     r\<lparr>ar_is_active := (case ru_is_active b of None \<Rightarrow> ar_is_active r | Some x \<Rightarrow> x),
       ar_threshold := (case ru_threshold b of None \<Rightarrow> ar_threshold r | Some x \<Rightarrow> Some x),
       ar_notify_slack_webhook := (case ru_notify_slack_webhook b of None \<Rightarrow> ar_notify_slack_webhook r | Some x \<Rightarrow> Some x),
       ar_notify_email := (case ru_notify_email b of None \<Rightarrow> ar_notify_email r | Some x \<Rightarrow> Some x)\<rparr>"

definition update_rule ::
  "current_user \<Rightarrow> uuid \<Rightarrow> uuid \<Rightarrow> alert_rule_update \<Rightarrow> org_db \<Rightarrow> alert_db \<Rightarrow> (http_error + bool) \<times> alert_db" where
  "update_rule user rule_id project_id body org adb =
     (case get_project_for_user project_id user ''member'' org of
        Inl e \<Rightarrow> (Inl e, adb)
      | Inr _ \<Rightarrow>
          if ru_is_active body = None \<and> ru_threshold body = None \<and> ru_notify_slack_webhook body = None \<and> ru_notify_email body = None
          then (Inl (HTTPException 400 ''No fields to update''), adb)
          else
            (let hit = (\<lambda>r. ar_id r = rule_id \<and> ar_project_id r = project_id)
             in if \<exists>r \<in> set (ad_rules adb). hit r
                then (Inr True, adb\<lparr>ad_rules := update_where hit (update_columns body) (ad_rules adb)\<rparr>)
                else (Inl (HTTPException 404 ''Rule not found''), adb)))"

text \<open>Deleting a rule deletes its events (\<^verbatim>\<open>ON DELETE CASCADE\<close>).\<close>

definition delete_rule ::
  "current_user \<Rightarrow> uuid \<Rightarrow> uuid \<Rightarrow> org_db \<Rightarrow> alert_db \<Rightarrow> (http_error + unit) \<times> alert_db" where
  "delete_rule user rule_id project_id org adb =
     (case get_project_for_user project_id user ''member'' org of
        Inl e \<Rightarrow> (Inl e, adb)
      | Inr _ \<Rightarrow>
          (let hit = (\<lambda>r. ar_id r = rule_id \<and> ar_project_id r = project_id)
           in if \<exists>r \<in> set (ad_rules adb). hit r
              then (Inr (), adb\<lparr>ad_rules := delete_where hit (ad_rules adb),
                                 ad_events := delete_where (\<lambda>e. ev_rule_id e = rule_id) (ad_events adb)\<rparr>)
              else (Inl (HTTPException 404 ''Rule not found''), adb)))"

definition project_rule_ids :: "uuid \<Rightarrow> alert_db \<Rightarrow> uuid set" where
  "project_rule_ids project_id adb = ar_id ` {r \<in> set (ad_rules adb). ar_project_id r = project_id}"

definition list_events :: "current_user \<Rightarrow> uuid \<Rightarrow> org_db \<Rightarrow> alert_db \<Rightarrow> http_error + alert_event list" where
  "list_events user project_id org adb =
     (case get_project_for_user project_id user ''viewer'' org of
        Inl e \<Rightarrow> Inl e
      | Inr _ \<Rightarrow> Inr (take 100 (sort_key (\<lambda>e. - ev_triggered_at e)
          (filter (\<lambda>e. ev_rule_id e \<in> project_rule_ids project_id adb) (ad_events adb)))))"

definition resolve_event ::
  "time \<Rightarrow> current_user \<Rightarrow> uuid \<Rightarrow> uuid \<Rightarrow> org_db \<Rightarrow> alert_db \<Rightarrow> (http_error + bool) \<times> alert_db" where
  "resolve_event now user event_id project_id org adb =
     (case get_project_for_user project_id user ''member'' org of
        Inl e \<Rightarrow> (Inl e, adb)
      | Inr _ \<Rightarrow>
          (let hit = (\<lambda>e. ev_id e = event_id \<and> ev_rule_id e \<in> project_rule_ids project_id adb)
           in if \<exists>e \<in> set (ad_events adb). hit e
              then (Inr True, adb\<lparr>ad_events := update_where hit (\<lambda>e. e\<lparr>ev_resolved_at := Some now\<rparr>) (ad_events adb)\<rparr>)
              else (Inl (HTTPException 404 ''Event not found''), adb)))"

section \<open>Notifications\<close>

text \<open>What a post answers: an error of the client that is caught, one that is not, a redirect with
  its location, or a final response and whether its status is a success.\<close>

datatype http_response = PostError | PostUncaught string | Redirect "string option" | Final bool

text \<open>The \<open>k\<close>-th validation of a webhook sees the network \<open>nv_net k\<close>.\<close>

record notify_env =
  nv_net :: "nat \<Rightarrow> net_env"
  nv_post :: "nat \<Rightarrow> string \<Rightarrow> http_response"
  nv_urljoin :: "string \<Rightarrow> string \<Rightarrow> string"
  nv_email_sent :: "string \<Rightarrow> string \<Rightarrow> bool"

record 'c notify_world =
  nw_cooldowns :: 'c
  nw_posts :: "string list"
  nw_emails :: "(string \<times> string) list"

definition MAX_WEBHOOK_REDIRECTS :: nat where "MAX_WEBHOOK_REDIRECTS = 3"

definition alert_cooldown_key :: "uuid \<Rightarrow> string" where
  "alert_cooldown_key rule_id = ''alert_cooldown:'' @ rule_id"

text \<open>The loop over redirects: its result and the addresses posted to.\<close>

fun slack_loop :: "notify_env \<Rightarrow> nat \<Rightarrow> nat \<Rightarrow> string \<Rightarrow> bool outcome \<times> string list" where
  "slack_loop env 0 k current_webhook = (Ret False, [])"
| "slack_loop env (Suc n) k current_webhook =
     (case validate_webhook_delivery_url (nv_net env k) current_webhook of
        Inl e \<Rightarrow> (Ret False, [])
      | Inr webhook \<Rightarrow>
          (case nv_post env k webhook of
             PostError \<Rightarrow> (Ret False, [webhook])
           | PostUncaught e \<Rightarrow> (Raise e, [webhook])
           | Final ok \<Rightarrow> (Ret ok, [webhook])
           | Redirect location \<Rightarrow>
               if \<not> truthy location then (Ret False, [webhook])
               else case slack_loop env n (k + 1) (nv_urljoin env webhook (the location)) of
                      (res, posts) \<Rightarrow> (res, webhook # posts)))"

definition slack :: "notify_env \<Rightarrow> alert_rule \<Rightarrow> bool outcome \<times> string list" where
  "slack env rule =
     (case validate_webhook_delivery_url (nv_net env 0) (the (ar_notify_slack_webhook rule)) of
        Inl e \<Rightarrow> (Ret False, [])
      | Inr webhook \<Rightarrow> slack_loop env (MAX_WEBHOOK_REDIRECTS + 1) 1 webhook)"

definition is_on_cooldown :: "('c, string) redis \<Rightarrow> time \<Rightarrow> uuid \<Rightarrow> 'c \<Rightarrow> bool" where
  "is_on_cooldown C now rule_id c = truthy (r_get C now (alert_cooldown_key rule_id) c)"

definition send_alert ::
  "('c, string) redis \<Rightarrow> notify_env \<Rightarrow> time \<Rightarrow> alert_rule \<Rightarrow> string \<Rightarrow> 'c notify_world \<Rightarrow> bool outcome \<times> 'c notify_world" where
  "send_alert C env now rule message w =
     (if is_on_cooldown C now (ar_id rule) (nw_cooldowns w) then (Ret False, w)
      else
        (let (slack_res, posts) = (if truthy (ar_notify_slack_webhook rule) then slack env rule else (Ret False, []));
             w1 = w\<lparr>nw_posts := nw_posts w @ posts\<rparr>
         in case slack_res of
              Raise e \<Rightarrow> (Raise e, w1)
            | Ret slack_sent \<Rightarrow>
                (let email_sent = (truthy (ar_notify_email rule) \<and> nv_email_sent env (the (ar_notify_email rule)) message);
                     w2 = (if email_sent then w1\<lparr>nw_emails := nw_emails w1 @ [(the (ar_notify_email rule), message)]\<rparr> else w1);
                     sent = (slack_sent \<or> email_sent)
                 in (Ret sent,
                     if sent then w2\<lparr>nw_cooldowns := r_setex C now (alert_cooldown_key (ar_id rule))
                                       (ar_cooldown_minutes rule * 60) ''1'' (nw_cooldowns w2)\<rparr>
                     else w2))))"

definition record_alert_if_sent ::
  "('c, string) redis \<Rightarrow> notify_env \<Rightarrow> time \<Rightarrow> uuid \<Rightarrow> alert_rule \<Rightarrow> rat \<Rightarrow> string \<Rightarrow> alert_db \<times> 'c notify_world
     \<Rightarrow> unit outcome \<times> alert_db \<times> 'c notify_world" where
  "record_alert_if_sent C env now event_id rule value message s =
     (case send_alert C env now rule message (snd s) of
        (Raise e, w) \<Rightarrow> (Raise e, fst s, w)
      | (Ret sent, w) \<Rightarrow>
          if \<not> sent then (Ret (), fst s, w)
          else if ar_id rule \<notin> ar_id ` set (ad_rules (fst s)) then (Raise ''IntegrityError'', fst s, w)
          else (Ret (), (fst s)\<lparr>ad_events := ad_events (fst s) @
                 [\<lparr>ev_id = event_id, ev_rule_id = ar_id rule, ev_triggered_at = now, ev_value = value,
                   ev_message = message, ev_resolved_at = None\<rparr>]\<rparr>, w))"

section \<open>Evaluation of windowed rules\<close>

definition query_latency_p95 :: "time \<Rightarrow> uuid \<Rightarrow> int \<Rightarrow> span_row list \<Rightarrow> rat \<times> int" where
  "query_latency_p95 now project_id window_minutes spans =
     (let hits = filter (\<lambda>s. sp_project_id s = project_id \<and> now - seconds (60 * window_minutes) \<le> sp_started_at s) spans
      in (case percentile_cont (95 / 100) (map sp_latency_ms hits) of None \<Rightarrow> 0 | Some v \<Rightarrow> v, int (length hits)))"

definition condition_matches :: "string \<Rightarrow> rat \<Rightarrow> rat \<Rightarrow> bool" where
  "condition_matches condition value threshold =
     (if condition = ''gt'' then value > threshold else if condition = ''lt'' then value < threshold else False)"

definition evaluate_windowed_alert_rule :: "time \<Rightarrow> span_db \<Rightarrow> uuid \<Rightarrow> alert_rule \<Rightarrow> string + bool \<times> rat" where
  "evaluate_windowed_alert_rule now db project_id rule =
     (case ar_threshold rule of
        None \<Rightarrow> Inr (False, 0)
      | Some threshold \<Rightarrow>
          (let metric = ar_metric rule;
               decide = (\<lambda>v. if snd v \<le> 0 then (False, fst v) else (condition_matches (ar_condition rule) (fst v) threshold, fst v))
           in if metric = ''latency_p95'' then
                Inr (decide (query_latency_p95 now project_id (ar_window_minutes rule) (sd_spans db)))
              else if metric = ''error_rate'' \<or> metric = ''cost_hourly'' then
                (case query_bucketed_alert_value now project_id metric (ar_window_minutes rule) (sd_buckets db) of
                   Inl e \<Rightarrow> Inl e | Inr v \<Rightarrow> Inr (decide v))
              else Inr (False, 0)))"

definition WINDOWED_ALERT_METRICS :: "string list" where
  "WINDOWED_ALERT_METRICS = [''latency_p95'', ''error_rate'', ''cost_hourly'']"

text \<open>The clock, identifiers and message texts of a run of the tasks.\<close>

record alert_env =
  al_now :: time
  al_event_id :: "nat \<Rightarrow> uuid"
  al_notify :: "nat \<Rightarrow> notify_env"
  al_message :: "alert_rule \<Rightarrow> rat \<Rightarrow> string"
  al_span_message :: "alert_rule \<Rightarrow> span_msg \<Rightarrow> string"
  al_stddev :: "rat list \<Rightarrow> rat option"

text \<open>The loop of \<^verbatim>\<open>evaluate_scheduled_alert_rules\<close>; \<open>n\<close> numbers the rules.\<close>

fun evaluate_rules ::
  "('c, string) redis \<Rightarrow> alert_env \<Rightarrow> span_db \<Rightarrow> nat \<Rightarrow> alert_rule list \<Rightarrow> alert_db \<times> 'c notify_world
     \<Rightarrow> unit outcome \<times> alert_db \<times> 'c notify_world" where
  "evaluate_rules C env db n [] s = (Ret (), s)"
| "evaluate_rules C env db n (rule # rules) s =
     (if is_on_cooldown C (al_now env) (ar_id rule) (nw_cooldowns (snd s)) then evaluate_rules C env db (n + 1) rules s
      else case evaluate_windowed_alert_rule (al_now env) db (ar_project_id rule) rule of
             Inl e \<Rightarrow> (Raise e, s)
           | Inr (triggered, value) \<Rightarrow>
               if \<not> triggered then evaluate_rules C env db (n + 1) rules s
               else case record_alert_if_sent C (al_notify env n) (al_now env) (al_event_id env n) rule value
                           (al_message env rule value) s of
                      (Raise e, s') \<Rightarrow> (Raise e, s')
                    | (Ret _, s') \<Rightarrow> evaluate_rules C env db (n + 1) rules s')"

definition evaluate_scheduled_alert_rules ::
  "('c, string) redis \<Rightarrow> alert_env \<Rightarrow> span_db \<Rightarrow> alert_db \<times> 'c notify_world \<Rightarrow> unit outcome \<times> alert_db \<times> 'c notify_world" where
  "evaluate_scheduled_alert_rules C env db s =
     evaluate_rules C env db 0
       (filter (\<lambda>r. ar_is_active r \<and> ar_metric r \<in> set WINDOWED_ALERT_METRICS) (ad_rules (fst s))) s"

section \<open>Anomalies\<close>

record latency_stats =
  ls_mean :: rat
  ls_stddev :: rat
  ls_count :: int

definition Z_SCORE_THRESHOLD :: rat where "Z_SCORE_THRESHOLD = 3"
definition MIN_OBSERVATIONS :: int where "MIN_OBSERVATIONS = 30"
definition STATS_CACHE_TTL :: int where "STATS_CACHE_TTL = 300"

definition stats_key :: "uuid \<Rightarrow> string \<Rightarrow> string" where
  "stats_key project_id model = ''stats:'' @ project_id @ '':'' @ model"

definition compute_stats :: "alert_env \<Rightarrow> span_row list \<Rightarrow> uuid \<Rightarrow> string \<Rightarrow> latency_stats option" where
  "compute_stats env spans project_id model =
     (let xs = map sp_latency_ms (filter (\<lambda>s. sp_project_id s = project_id \<and> sp_model s = model \<and>
                  al_now env - seconds (60 * 60 * 24) \<le> sp_started_at s \<and> sp_status s = ''ok'') spans)
      in if xs = [] then None
         else Some \<lparr>ls_mean = sum_list xs / of_nat (length xs),
                    ls_stddev = (case al_stddev env xs of None \<Rightarrow> 0 | Some d \<Rightarrow> d), ls_count = int (length xs)\<rparr>)"

definition get_stats_cached ::
  "('s, latency_stats) redis \<Rightarrow> alert_env \<Rightarrow> span_row list \<Rightarrow> uuid \<Rightarrow> string \<Rightarrow> 's \<Rightarrow> latency_stats option \<times> 's" where
  "get_stats_cached S env spans project_id model r =
     (case r_get S (al_now env) (stats_key project_id model) r of
        Some st \<Rightarrow> (Some st, r)
      | None \<Rightarrow>
          (case compute_stats env spans project_id model of
             None \<Rightarrow> (None, r)
           | Some st \<Rightarrow> (Some st, r_setex S (al_now env) (stats_key project_id model) STATS_CACHE_TTL st r)))"

text \<open>\<open>Inl\<close> is the \<^verbatim>\<open>KeyError\<close> of a missing entry of the span.\<close>

definition latency_anomaly ::
  "('s, latency_stats) redis \<Rightarrow> alert_env \<Rightarrow> span_row list \<Rightarrow> uuid \<Rightarrow> span_msg \<Rightarrow> 's \<Rightarrow> (string + bool) \<times> 's" where
  "latency_anomaly S env spans project_id msg r =
     (case sm_model msg of
        None \<Rightarrow> (Inl ''KeyError'', r)
      | Some model \<Rightarrow>
          (case get_stats_cached S env spans project_id model r of
             (None, r') \<Rightarrow> (Inr False, r')
           | (Some st, r') \<Rightarrow>
               if ls_count st < MIN_OBSERVATIONS \<or> ls_stddev st = 0 then (Inr False, r')
               else case sm_latency_ms msg of
                      None \<Rightarrow> (Inl ''KeyError'', r')
                    | Some latency \<Rightarrow> (Inr (abs ((latency - ls_mean st) / ls_stddev st) > Z_SCORE_THRESHOLD), r')))"

definition error_rate_anomaly :: "time \<Rightarrow> span_row list \<Rightarrow> uuid \<Rightarrow> string \<Rightarrow> bool" where
  "error_rate_anomaly now spans project_id model =
     (let hits = filter (\<lambda>s. sp_project_id s = project_id \<and> sp_model s = model \<and> now - seconds (60 * 5) \<le> sp_started_at s) spans;
          total = length hits;
          errors = length (filter (\<lambda>s. sp_status s = ''error'') hits)
      in if total < 10 then False else (of_nat errors / of_nat total :: rat) > 1 / 10)"

definition anomaly_check ::
  "('s, latency_stats) redis \<Rightarrow> alert_env \<Rightarrow> span_row list \<Rightarrow> uuid \<Rightarrow> span_msg \<Rightarrow> 's \<Rightarrow> (string + string list) \<times> 's" where
  "anomaly_check S env spans project_id msg r =
     (case latency_anomaly S env spans project_id msg r of
        (Inl e, r') \<Rightarrow> (Inl e, r')
      | (Inr spike, r') \<Rightarrow>
          (case sm_model msg of
             None \<Rightarrow> (Inl ''KeyError'', r')
           | Some model \<Rightarrow>
               (Inr ((if spike then [''latency_spike''] else []) @
                     (if error_rate_anomaly (al_now env) spans project_id model then [''high_error_rate''] else [])), r')))"

text \<open>The loops of \<^verbatim>\<open>check_batch_anomalies\<close>, over the pairs of a rule and a span.\<close>

fun check_pairs ::
  "('c, string) redis \<Rightarrow> ('s, latency_stats) redis \<Rightarrow> alert_env \<Rightarrow> span_row list \<Rightarrow> uuid \<Rightarrow> nat \<Rightarrow> (alert_rule \<times> span_msg) list
     \<Rightarrow> 's \<Rightarrow> alert_db \<times> 'c notify_world \<Rightarrow> unit outcome \<times> 's \<times> alert_db \<times> 'c notify_world" where
  "check_pairs C S env spans project_id n [] r s = (Ret (), r, s)"
| "check_pairs C S env spans project_id n ((rule, msg) # rest) r s =
     (case anomaly_check S env spans project_id msg r of
        (Inl e, r') \<Rightarrow> (Raise e, r', s)
      | (Inr anomalies, r') \<Rightarrow>
          if anomalies = [] then check_pairs C S env spans project_id (n + 1) rest r' s
          else case record_alert_if_sent C (al_notify env n) (al_now env) (al_event_id env n) rule
                      (case sm_latency_ms msg of None \<Rightarrow> 0 | Some l \<Rightarrow> l) (al_span_message env rule msg) s of
                 (Raise e, s') \<Rightarrow> (Raise e, r', s')
               | (Ret _, s') \<Rightarrow> check_pairs C S env spans project_id (n + 1) rest r' s')"

definition check_batch_anomalies ::
  "('c, string) redis \<Rightarrow> ('s, latency_stats) redis \<Rightarrow> alert_env \<Rightarrow> span_row list \<Rightarrow> uuid \<Rightarrow> span_msg list
     \<Rightarrow> 's \<Rightarrow> alert_db \<times> 'c notify_world \<Rightarrow> unit outcome \<times> 's \<times> alert_db \<times> 'c notify_world" where
  "check_batch_anomalies C S env spans project_id batch r s =
     check_pairs C S env spans project_id 0
       (List.product (filter (\<lambda>r. ar_project_id r = project_id \<and> ar_is_active r \<and> ar_metric r = ''anomaly'') (ad_rules (fst s))) batch) r s"

section \<open>Where notifications go\<close>

lemma slack_loop_safe:
  "list_all (\<lambda>u. \<exists>i. safe_webhook (nv_net env i) u) (snd (slack_loop env n k url)) \<and> length (snd (slack_loop env n k url)) \<le> n"
proof (induction n arbitrary: k url)
  case (Suc n)
  show ?case
  proof (cases "validate_webhook_delivery_url (nv_net env k) url")
    case (Inr w)
    with validated_is_safe [OF Inr] Suc [of "k + 1" "nv_urljoin env w l" for l] show ?thesis
      by (auto split: http_response.split prod.split) (metis snd_conv)+
  qed simp
qed simp

lemma slack_safe:
  "list_all (\<lambda>u. \<exists>i. safe_webhook (nv_net env i) u) (snd (slack env rule)) \<and> length (snd (slack env rule)) \<le> 4"
  using slack_loop_safe [of env 4 1] by (simp add: slack_def MAX_WEBHOOK_REDIRECTS_def split: sum.split)

text \<open>
  C24: A notification posts only to Slack. Whatever address the rule holds and wherever the
  answers redirect to, every post of one alert, at most four, goes to an HTTPS address on an
  official Slack host at the default port, without credentials, whose host resolved to global
  addresses only when it was checked.
\<close>

theorem webhook_posts_are_safe:
  assumes "send_alert C env now rule message w = (res, w')"
  shows "\<exists>posts. nw_posts w' = nw_posts w @ posts \<and> length posts \<le> 4 \<and>
    list_all (\<lambda>u. \<exists>i. safe_webhook (nv_net env i) u) posts"
proof -
  obtain sres posts where s: "(if truthy (ar_notify_slack_webhook rule) then slack env rule else (Ret False, [])) = (sres, posts)"
    by fastforce
  then have p: "list_all (\<lambda>u. \<exists>i. safe_webhook (nv_net env i) u) posts \<and> length posts \<le> 4"
    using slack_safe [of env rule] by (auto split: if_splits)
  show ?thesis
  proof (cases "is_on_cooldown C now (ar_id rule) (nw_cooldowns w)")
    case True
    with assms have "w' = w" by (simp add: send_alert_def)
    then show ?thesis by simp
  next
    case False
    with assms s have "nw_posts w' = nw_posts w @ posts"
      by (auto simp: send_alert_def Let_def split: outcome.splits if_splits)
    with p show ?thesis by blast
  qed
qed

section \<open>Cooldown\<close>

lemma cooldown_key_inj [simp]: "alert_cooldown_key a = alert_cooldown_key b \<longleftrightarrow> a = b"
  by (simp add: alert_cooldown_key_def)

text \<open>A sequence of calls, each with its environment, time, rule and text: the results, and the
  posts and mails each call made.\<close>

type_synonym alert_call = "notify_env \<times> time \<times> alert_rule \<times> string"

fun run_alerts ::
  "('c, string) redis \<Rightarrow> alert_call list \<Rightarrow> 'c notify_world \<Rightarrow> (bool outcome \<times> string list \<times> (string \<times> string) list) list" where
  "run_alerts C [] w = []"
| "run_alerts C ((env, now, rule, message) # calls) w =
     (case send_alert C env now rule message w of
        (res, w') \<Rightarrow> (res, drop (length (nw_posts w)) (nw_posts w'), drop (length (nw_emails w)) (nw_emails w'))
                       # run_alerts C calls w')"

definition live_until :: "('c, string) redis \<Rightarrow> time \<Rightarrow> uuid \<Rightarrow> 'c \<Rightarrow> bool" where
  "live_until C T rule_id c \<longleftrightarrow> (\<forall>t < T. is_on_cooldown C t rule_id c)"

lemma send_alert_cooldowns:
  assumes "send_alert C env now rule message w = (res, w')"
  shows "nw_cooldowns w' = nw_cooldowns w \<and> res \<noteq> Ret True \<or>
    nw_cooldowns w' = r_setex C now (alert_cooldown_key (ar_id rule)) (ar_cooldown_minutes rule * 60) ''1'' (nw_cooldowns w)"
  using assms by (auto simp: send_alert_def Let_def split: if_splits outcome.splits prod.splits)

lemma live_until_step:
  assumes "redis_store C" and "live_until C T rid (nw_cooldowns w)" and "send_alert C env now rule message w = (res, w')"
    and "ar_id rule = rid \<Longrightarrow> now < T"
  shows "live_until C T rid (nw_cooldowns w')"
proof (cases "ar_id rule = rid")
  case True
  with assms(2-4) have "w' = w" by (simp add: live_until_def send_alert_def)
  with assms(2) show ?thesis by simp
next
  case False
  then have "r_get C t (alert_cooldown_key rid) (r_setex C now (alert_cooldown_key (ar_id rule)) ttl v c) =
      r_get C t (alert_cooldown_key rid) c" for t ttl v c
    by (intro redis_store.get_setex_other [OF assms(1)]) auto
  with send_alert_cooldowns [OF assms(3)] assms(2) show ?thesis
    by (auto simp: live_until_def is_on_cooldown_def)
qed

definition suppressed :: "uuid \<Rightarrow> time \<Rightarrow> alert_call \<Rightarrow> bool outcome \<times> string list \<times> (string \<times> string) list \<Rightarrow> bool" where
  "suppressed rule_id T call res \<longleftrightarrow>
     (case call of (env, t, rule, m) \<Rightarrow> ar_id rule = rule_id \<and> t < T \<longrightarrow> res = (Ret False, [], []))"

lemma run_alerts_suppressed:
  assumes "redis_store C" and "live_until C T rid (nw_cooldowns w)" and "sorted (map (\<lambda>(e, t, r, m). t) calls)"
  shows "list_all2 (suppressed rid T) calls (run_alerts C calls w)"
  using assms(2,3)
proof (induction calls arbitrary: w)
  case (Cons call calls)
  obtain env now rule m where call: "call = (env, now, rule, m)" by (cases call)
  obtain res w' where s: "send_alert C env now rule m w = (res, w')" by fastforce
  show ?case
  proof (cases "now < T")
    case True
    with Cons.IH [OF live_until_step [OF assms(1) Cons.prems(1) s]] Cons.prems(2)
    have "list_all2 (suppressed rid T) calls (run_alerts C calls w')" by (simp add: call)
    moreover have "suppressed rid T call
        (res, drop (length (nw_posts w)) (nw_posts w'), drop (length (nw_emails w)) (nw_emails w'))"
      using True Cons.prems(1) s by (auto simp: suppressed_def call live_until_def send_alert_def)
    ultimately show ?thesis by (simp add: call s)
  next
    case False
    have late: "T \<le> (case c of (e, t, r, m) \<Rightarrow> t)" if "c \<in> set (call # calls)" for c
      using Cons.prems(2) False that by (force simp: call)
    have "list_all2 (suppressed rid T) cs (run_alerts C cs v)" if "\<forall>c \<in> set cs. T \<le> (case c of (e, t, r, m) \<Rightarrow> t)" for cs v
      using that by (induction cs arbitrary: v) (auto simp: suppressed_def split: prod.splits)
    with late show ?thesis by blast
  qed
qed simp

text \<open>
  C25: A rule alerts at most once per cooldown. After an alert of a rule was sent, every later
  call for that rule within its cooldown is suppressed: it posts nothing, mails nothing and
  returns false, whatever alerts of other rules come between.
\<close>

theorem alerts_respect_cooldown:
  assumes "redis_store C" and "send_alert C env now rule message w = (Ret True, w')"
    and "sorted (map (\<lambda>(e, t, r, m). t) calls)"
  shows "list_all2 (suppressed (ar_id rule) (now + seconds (60 * ar_cooldown_minutes rule))) calls (run_alerts C calls w')"
proof (rule run_alerts_suppressed [OF assms(1) _ assms(3)])
  have set: "nw_cooldowns w' = r_setex C now (alert_cooldown_key (ar_id rule)) (ar_cooldown_minutes rule * 60) ''1'' (nw_cooldowns w)"
    using send_alert_cooldowns [OF assms(2)] by simp
  show "live_until C (now + seconds (60 * ar_cooldown_minutes rule)) (ar_id rule) (nw_cooldowns w')"
    unfolding live_until_def is_on_cooldown_def set
    using redis_store.get_setex_live [OF assms(1)] by (simp add: mult.commute)
qed

section \<open>What the scheduled evaluation records\<close>

lemma record_alert_cases:
  assumes "record_alert_if_sent C env now i rule v m s = (out, s')"
  obtains "ad_events (fst s') = ad_events (fst s)" "ad_rules (fst s') = ad_rules (fst s)"
  | "ad_events (fst s') = ad_events (fst s) @
       [\<lparr>ev_id = i, ev_rule_id = ar_id rule, ev_triggered_at = now, ev_value = v, ev_message = m, ev_resolved_at = None\<rparr>]"
    "ad_rules (fst s') = ad_rules (fst s)"
  using assms by (auto simp: record_alert_if_sent_def split: prod.splits outcome.splits if_splits)

lemma record_alert_cooldowns:
  assumes "redis_store C" and "record_alert_if_sent C env now i rule v m s = (out, s')" and "rid \<noteq> ar_id rule"
  shows "is_on_cooldown C t rid (nw_cooldowns (snd s')) = is_on_cooldown C t rid (nw_cooldowns (snd s))"
proof -
  obtain res w where w: "send_alert C env now rule m (snd s) = (res, w)" by fastforce
  with assms(2) have "snd s' = w"
    by (auto simp: record_alert_if_sent_def split: prod.splits outcome.splits if_splits)
  with send_alert_cooldowns [OF w] redis_store.get_setex_other [OF assms(1)] assms(3)
  show ?thesis by (auto simp: is_on_cooldown_def)
qed

definition justified_event ::
  "('c, string) redis \<Rightarrow> alert_env \<Rightarrow> span_db \<Rightarrow> 'c \<Rightarrow> alert_rule list \<Rightarrow> alert_event \<Rightarrow> bool" where
  "justified_event C env db cooldowns rules e \<longleftrightarrow>
     list_ex (\<lambda>r. ar_id r = ev_rule_id e \<and> \<not> is_on_cooldown C (al_now env) (ar_id r) cooldowns \<and>
       evaluate_windowed_alert_rule (al_now env) db (ar_project_id r) r = Inr (True, ev_value e) \<and>
       ev_triggered_at e = al_now env \<and> ev_resolved_at e = None) rules"

lemma evaluate_rules_events:
  assumes "redis_store C" and "distinct (map ar_id rules)" and "evaluate_rules C env db n rules s = (out, s')"
  shows "\<exists>new. ad_events (fst s') = ad_events (fst s) @ new \<and> ad_rules (fst s') = ad_rules (fst s) \<and>
    distinct (map ev_rule_id new) \<and> list_all (justified_event C env db (nw_cooldowns (snd s)) rules) new"
  using assms(2,3)
proof (induction rules arbitrary: n s)
  case (Cons r rules)
  define cool where "cool = nw_cooldowns (snd s)"
  have other: "ar_id x \<noteq> ar_id r" if "x \<in> set rules" for x
    using Cons.prems(1) that by (metis distinct.simps(2) image_eqI list.set_map list.simps(9))
  have weaken: "list_all (justified_event C env db cool (r # rules)) new"
    if "list_all (justified_event C env db cool rules) new" for new
    using that by (auto simp: list_all_iff justified_event_def)
  have skip: ?case if "evaluate_rules C env db (n + 1) rules s = (out, s')"
    using Cons.IH [OF _ that] Cons.prems(1) weaken by (force simp: cool_def)
  show ?case
  proof (cases "is_on_cooldown C (al_now env) (ar_id r) cool")
    case True
    with Cons.prems(2) skip show ?thesis by (simp add: cool_def)
  next
    case fresh: False
    show ?thesis
    proof (cases "evaluate_windowed_alert_rule (al_now env) db (ar_project_id r) r")
      case (Inl e)
      with Cons.prems(2) fresh show ?thesis by (auto simp: cool_def)
    next
      case (Inr b)
      obtain triggered v where b: "b = (triggered, v)" by (cases b)
      show ?thesis
      proof (cases triggered)
        case False
        with Cons.prems(2) skip Inr b fresh show ?thesis by (simp add: cool_def)
      next
        case True
        obtain o1 s1 where r1: "record_alert_if_sent C (al_notify env n) (al_now env) (al_event_id env n) r v
            (al_message env r v) s = (o1, s1)" by (metis surj_pair)
        have hd: "\<exists>first. ad_events (fst s1) = ad_events (fst s) @ first \<and> ad_rules (fst s1) = ad_rules (fst s) \<and>
            set (map ev_rule_id first) \<subseteq> {ar_id r} \<and> distinct (map ev_rule_id first) \<and>
            list_all (justified_event C env db cool (r # rules)) first"
          using r1 fresh Inr b True by (cases rule: record_alert_cases) (auto simp: justified_event_def)
        show ?thesis
        proof (cases o1)
          case (Raise e)
          with Cons.prems(2) fresh Inr b True r1 hd show ?thesis by (auto simp: cool_def)
        next
          case (Ret u)
          with Cons.prems(2) fresh Inr b True r1 have rest: "evaluate_rules C env db (n + 1) rules s1 = (out, s')"
            by (simp add: cool_def)
          have same: "justified_event C env db (nw_cooldowns (snd s1)) rules = justified_event C env db cool rules"
            unfolding justified_event_def list_ex_iff cool_def
          proof (intro ext bex_cong [OF refl])
            fix e x assume "x \<in> set rules"
            from other [OF this] show "(ar_id x = ev_rule_id e \<and> \<not> is_on_cooldown C (al_now env) (ar_id x) (nw_cooldowns (snd s1)) \<and>
                evaluate_windowed_alert_rule (al_now env) db (ar_project_id x) x = Inr (True, ev_value e) \<and>
                ev_triggered_at e = al_now env \<and> ev_resolved_at e = None) =
              (ar_id x = ev_rule_id e \<and> \<not> is_on_cooldown C (al_now env) (ar_id x) (nw_cooldowns (snd s)) \<and>
                evaluate_windowed_alert_rule (al_now env) db (ar_project_id x) x = Inr (True, ev_value e) \<and>
                ev_triggered_at e = al_now env \<and> ev_resolved_at e = None)"
              by (simp add: record_alert_cooldowns [OF assms(1) r1])
          qed
          have ids: "ev_rule_id e \<noteq> ar_id r" if "justified_event C env db cool rules e" for e
            using that other by (auto simp: justified_event_def list_ex_iff)
          from Cons.IH [OF _ rest] Cons.prems(1) obtain new where new: "ad_events (fst s') = ad_events (fst s1) @ new"
              "ad_rules (fst s') = ad_rules (fst s1)" "distinct (map ev_rule_id new)"
              "list_all (justified_event C env db cool rules) new"
            by (auto simp: same)
          from ids new(4) have "ev_rule_id e \<noteq> ar_id r" if "e \<in> set new" for e
            using that by (simp add: list_all_iff)
          then have "ar_id r \<notin> set (map ev_rule_id new)" by fastforce
          with hd new weaken [OF new(4)] show ?thesis by (fastforce simp: cool_def)
        qed
      qed
    qed
  qed
qed simp

text \<open>
  The scheduled evaluation records only justified alerts. Every event it adds belongs to an
  active rule on a windowed metric that was not on cooldown when the run began, carries the value
  its window had and met the rule's condition; a rule gets at most one event, and no rule or
  earlier event changes, also when the run ends with an exception.
\<close>

theorem scheduled_events_are_justified:
  assumes "redis_store C" and "distinct (map ar_id (ad_rules (fst s)))"
    and "evaluate_scheduled_alert_rules C env db s = (out, s')"
  shows "\<exists>new. ad_events (fst s') = ad_events (fst s) @ new \<and> ad_rules (fst s') = ad_rules (fst s) \<and>
    distinct (map ev_rule_id new) \<and>
    list_all (justified_event C env db (nw_cooldowns (snd s))
      (filter (\<lambda>r. ar_is_active r \<and> ar_metric r \<in> {''latency_p95'', ''error_rate'', ''cost_hourly''}) (ad_rules (fst s)))) new"
  using evaluate_rules_events [OF assms(1) distinct_map_filter [OF assms(2)]] assms(3)
  by (simp add: evaluate_scheduled_alert_rules_def WINDOWED_ALERT_METRICS_def)

section \<open>Buckets answer for the spans\<close>

definition span_minute :: "span_row \<Rightarrow> uuid \<times> time" where
  "span_minute s = (sp_project_id s, floor_to_minute (sp_started_at s))"

lemma in_minute_iff: "in_minute q t s \<longleftrightarrow> span_minute s = (q, t)"
  by (auto simp: in_minute_def span_minute_def)

lemma sum_over_keys:
  assumes "finite K"
  shows "(\<Sum>k \<in> K. sum_list (map g (filter (\<lambda>s. key s = k) ss))) = (sum_list (map g (filter (\<lambda>s. key s \<in> K) ss)) :: int)"
proof (induction ss)
  case (Cons s ss)
  have "(\<Sum>k \<in> K. sum_list (map g (filter (\<lambda>s. key s = k) (s # ss)))) =
      (\<Sum>k \<in> K. (if key s = k then g s else 0) + sum_list (map g (filter (\<lambda>s. key s = k) ss)))"
    by (rule sum.cong) auto
  also have "\<dots> = (if key s \<in> K then g s else 0) + sum_list (map g (filter (\<lambda>s. key s \<in> K) ss))"
    using assms by (simp add: sum.distrib Cons)
  finally show ?case by simp
qed simp

text \<open>A column summed over the buckets of a window is the sum over the spans of the window.\<close>

lemma window_sum:
  assumes "distinct (map bucket_pk rows)"
    and "\<And>t. c \<le> t \<Longrightarrow> cell f rows (p, t) = sum_list (map g (filter (in_minute p t) ss))"
    and "\<And>s. s \<in> set ss \<Longrightarrow> sp_project_id s = p \<Longrightarrow> c \<le> floor_to_minute (sp_started_at s) \<Longrightarrow> span_minute s \<in> bucket_pk ` set rows"
  shows "sum_list (map f (filter (\<lambda>b. mb_project_id b = p \<and> c \<le> mb_bucket_start b) rows)) =
    sum_list (map g (filter (\<lambda>s. sp_project_id s = p \<and> c \<le> floor_to_minute (sp_started_at s)) ss))"
proof -
  define H where "H = filter (\<lambda>b. mb_project_id b = p \<and> c \<le> mb_bucket_start b) rows"
  define h where "h k = sum_list (map g (filter (\<lambda>s. span_minute s = k) ss))" for k
  have fb: "f b = h (bucket_pk b)" if "b \<in> set H" for b
  proof -
    have "select_one (\<lambda>x. bucket_pk x = bucket_pk b) rows = Some b"
      by (rule select_one_unique [OF assms(1)]) (use that in \<open>auto simp: H_def\<close>)
    then have "f b = cell f rows (bucket_pk b)" by (simp add: cell_def)
    also have "\<dots> = h (bucket_pk b)"
    proof -
      have b: "bucket_pk b = (p, mb_bucket_start b)" "c \<le> mb_bucket_start b" using that by (auto simp: H_def bucket_pk_def)
      show ?thesis unfolding h_def b(1) assms(2) [OF b(2)] in_minute_iff ..
    qed
    finally show ?thesis .
  qed
  have dist: "distinct (map bucket_pk H)" unfolding H_def by (rule distinct_map_filter [OF assms(1)])
  have "sum_list (map f H) = sum_list (map h (map bucket_pk H))" using fb by (simp add: comp_def cong: map_cong)
  also have "\<dots> = (\<Sum>k \<in> bucket_pk ` set H. h k)"
    using sum_list_distinct_conv_sum_set [OF dist] by simp
  also have "\<dots> = sum_list (map g (filter (\<lambda>s. span_minute s \<in> bucket_pk ` set H) ss))"
    unfolding h_def by (rule sum_over_keys) simp
  also have "filter (\<lambda>s. span_minute s \<in> bucket_pk ` set H) ss =
      filter (\<lambda>s. sp_project_id s = p \<and> c \<le> floor_to_minute (sp_started_at s)) ss"
  proof (rule filter_cong [OF refl])
    fix s assume "s \<in> set ss"
    note covered = assms(3) [OF this]
    show "span_minute s \<in> bucket_pk ` set H \<longleftrightarrow> sp_project_id s = p \<and> c \<le> floor_to_minute (sp_started_at s)"
    proof
      assume "span_minute s \<in> bucket_pk ` set H"
      then show "sp_project_id s = p \<and> c \<le> floor_to_minute (sp_started_at s)"
        by (auto simp: H_def span_minute_def bucket_pk_def)
    next
      assume s: "sp_project_id s = p \<and> c \<le> floor_to_minute (sp_started_at s)"
      with covered obtain b where "b \<in> set rows" "span_minute s = bucket_pk b" by auto
      with s show "span_minute s \<in> bucket_pk ` set H" by (force simp: H_def span_minute_def bucket_pk_def)
    qed
  qed
  finally show ?thesis by (simp add: H_def)
qed

text \<open>Specification: the value of a metric computed from the spans themselves.\<close>

definition window_spans :: "time \<Rightarrow> uuid \<Rightarrow> int \<Rightarrow> span_row list \<Rightarrow> span_row list" where
  "window_spans now p window_minutes ss =
     filter (\<lambda>s. sp_project_id s = p \<and>
       floor_to_minute (now - seconds (60 * window_minutes)) \<le> floor_to_minute (sp_started_at s)) ss"

definition metric_of_spans :: "string \<Rightarrow> span_row list \<Rightarrow> rat \<times> int" where
  "metric_of_spans metric ss =
     ((if metric = ''error_rate''
       then (if ss = [] then 0
             else of_nat (length (filter (\<lambda>s. sp_status s = ''error'') ss)) / of_nat (length ss) * 100)
       else of_int (sum_list (map sp_cost_usd ss)) / 10 ^ 8), int (length ss))"

text \<open>
  C26: The buckets implement the metrics of the spans. For both bucketed metrics the value and
  sample count an alert rule reads from the buckets are those computed directly from the spans
  of the project in the minutes of the window, provided that buckets and spans of this project agree
  from the first minute of the window on and that there is one bucket per project and minute. The
  worker preserves the agreement, and so does retention where it deletes only older spans; it leaves
  the buckets of the spans it deletes, so for a window that reaches beyond the retention of a
  project the claim does not hold.
\<close>

theorem bucketed_values_refine_spans:
  assumes "buckets_match_since (floor_to_minute (now - seconds (60 * window_minutes))) p db"
    and "distinct (map bucket_pk (sd_buckets db))" and "metric \<in> {''error_rate'', ''cost_hourly''}"
  shows "query_bucketed_alert_value now p metric window_minutes (sd_buckets db) =
    Inr (metric_of_spans metric (window_spans now p window_minutes (sd_spans db)))"
proof -
  let ?c = "floor_to_minute (now - seconds (60 * window_minutes))" and ?ss = "sd_spans db"
  have m: "cell mb_span_count (sd_buckets db) (p, t) = sum_list (map (\<lambda>s. 1) (filter (in_minute p t) ?ss))"
    "cell mb_error_count (sd_buckets db) (p, t) = sum_list (map (\<lambda>s. if sp_status s = ''error'' then 1 else 0) (filter (in_minute p t) ?ss))"
    "cell mb_total_cost_usd (sd_buckets db) (p, t) = sum_list (map sp_cost_usd (filter (in_minute p t) ?ss))" if "?c \<le> t" for t
  proof -
    have err: "int (length (filter (\<lambda>s. P s \<and> sp_status s = ''error'') xs)) =
        sum_list (map (\<lambda>s. if sp_status s = ''error'' then 1 else 0) (filter P xs))" for P and xs :: "span_row list"
      by (induction xs) simp_all
    show "cell mb_span_count (sd_buckets db) (p, t) = sum_list (map (\<lambda>s. 1) (filter (in_minute p t) ?ss))"
      "cell mb_error_count (sd_buckets db) (p, t) = sum_list (map (\<lambda>s. if sp_status s = ''error'' then 1 else 0) (filter (in_minute p t) ?ss))"
      "cell mb_total_cost_usd (sd_buckets db) (p, t) = sum_list (map sp_cost_usd (filter (in_minute p t) ?ss))"
      using assms(1) that by (simp_all add: buckets_match_since_def values_of_def Let_def err sum_list_triv)
  qed
  have covered: "span_minute s \<in> bucket_pk ` set (sd_buckets db)"
    if "s \<in> set ?ss" "sp_project_id s = p" "?c \<le> floor_to_minute (sp_started_at s)" for s
  proof (rule ccontr)
    assume "span_minute s \<notin> bucket_pk ` set (sd_buckets db)"
    then have "cell mb_span_count (sd_buckets db) (span_minute s) = 0"
      by (cases "select_one (\<lambda>b. bucket_pk b = span_minute s) (sd_buckets db)")
        (use select_one_SomeD in \<open>force simp: cell_def\<close>)+
    moreover have "filter (in_minute p (floor_to_minute (sp_started_at s))) ?ss \<noteq> []"
      using that by (auto simp: filter_empty_conv in_minute_def)
    ultimately show False using m(1) [OF that(3)] that(2) by (simp add: sum_list_triv span_minute_def)
  qed
  let ?hits = "filter (\<lambda>b. mb_project_id b = p \<and> ?c \<le> mb_bucket_start b) (sd_buckets db)"
  define W where "W = window_spans now p window_minutes ?ss"
  have W: "W = filter (\<lambda>s. sp_project_id s = p \<and> ?c \<le> floor_to_minute (sp_started_at s)) ?ss"
    by (simp add: W_def window_spans_def)
  have "sum_list (map mb_span_count ?hits) = sum_list (map (\<lambda>s. 1) W)"
    unfolding W by (rule window_sum [OF assms(2) m(1) covered])
  then have spans: "sum_list (map mb_span_count ?hits) = int (length W)" by (simp add: sum_list_triv)
  have "sum_list (map mb_error_count ?hits) = sum_list (map (\<lambda>s. if sp_status s = ''error'' then 1 else 0) W)"
    unfolding W by (rule window_sum [OF assms(2) m(2) covered])
  moreover have "sum_list (map (\<lambda>s. if sp_status s = ''error'' then 1 else (0::int)) xs) = int (length (filter (\<lambda>s. sp_status s = ''error'') xs))"
    for xs :: "span_row list" by (induction xs) simp_all
  ultimately have errors: "sum_list (map mb_error_count ?hits) = int (length (filter (\<lambda>s. sp_status s = ''error'') W))" by simp
  have costs: "sum_list (map mb_total_cost_usd ?hits) = sum_list (map sp_cost_usd W)"
    unfolding W by (rule window_sum [OF assms(2) m(3) covered])
  from assms(3) show ?thesis
    unfolding query_bucketed_alert_value_def Let_def spans errors costs metric_of_spans_def W_def [symmetric] by auto
qed

section \<open>Examples\<close>

definition ex_net :: net_env where
  "ex_net = \<lparr>ne_ip_refused = (\<lambda>_. None), ne_ip_is_global = (\<lambda>a. if a = ''54.1.2.3'' then Some True else None),
     ne_resolve = (\<lambda>_ _. [''54.1.2.3''])\<rparr>"

text \<open>The first post is answered by a redirect to a host that is not Slack's.\<close>

definition ex_notify :: notify_env where
  "ex_notify = \<lparr>nv_net = (\<lambda>_. ex_net), nv_post = (\<lambda>k _. if k = 1 then Redirect (Some ''https://10.0.0.1/'') else Final True),
     nv_urljoin = (\<lambda>_ l. l), nv_email_sent = (\<lambda>_ _. True)\<rparr>"

definition ex_rule :: alert_rule where
  "ex_rule = \<lparr>ar_id = ''r1'', ar_project_id = ''p1'', ar_name = ''errors'', ar_metric = ''error_rate'', ar_condition = ''gt'',
     ar_threshold = Some 5, ar_window_minutes = 5, ar_notify_slack_webhook = Some ''https://hooks.slack.com/services/T'',
     ar_notify_email = Some ''a@b.c'', ar_cooldown_minutes = 30, ar_is_active = True, ar_created_at = 0\<rparr>"

definition ex_world :: "string mem notify_world" where
  "ex_world = \<lparr>nw_cooldowns = [], nw_posts = [], nw_emails = []\<rparr>"

definition ex_sent :: "string mem notify_world" where
  "ex_sent = snd (send_alert mem_redis ex_notify 0 ex_rule ''m'' ex_world)"

lemma ex_send: "send_alert mem_redis ex_notify 0 ex_rule ''m'' ex_world = (Ret True, ex_sent)"
proof -
  have "fst (send_alert mem_redis ex_notify 0 ex_rule ''m'' ex_world) = Ret True" by code_simp
  then show ?thesis unfolding ex_sent_def by (metis prod.collapse)
qed

theorem webhook_posts_are_safe_witness:
  "nw_posts ex_sent = [''https://hooks.slack.com/services/T''] \<and>
   list_all (\<lambda>u. \<exists>i. safe_webhook (nv_net ex_notify i) u) (nw_posts ex_sent)"
proof -
  have "nw_posts ex_sent = [''https://hooks.slack.com/services/T'']" by code_simp
  with webhook_posts_are_safe [OF ex_send] show ?thesis by (simp add: ex_world_def)
qed

theorem alerts_respect_cooldown_witness:
  "run_alerts mem_redis [(ex_notify, 1799000000, ex_rule, ''m'')] ex_sent = [(Ret False, [], [])]"
proof -
  have "redis_store mem_redis" by unfold_locales
  from alerts_respect_cooldown [OF this ex_send, of "[(ex_notify, 1799000000, ex_rule, ''m'')]"]
  have "list_all2 (suppressed ''r1'' 1800000000) [(ex_notify, 1799000000, ex_rule, ''m'')]
      (run_alerts mem_redis [(ex_notify, 1799000000, ex_rule, ''m'')] ex_sent)"
    by (simp add: ex_rule_def)
  then show ?thesis by (simp add: list_all2_Cons1 suppressed_def) (simp add: ex_rule_def)
qed

definition ex_bucketed :: span_db where
  "ex_bucketed = \<lparr>sd_spans = sd_spans (ws_db ex_after), sd_traces = [], sd_outbox = [],
     sd_buckets = update_span_metric_buckets ''p1'' (sd_spans (ws_db ex_after)) []\<rparr>"

lemma ex_bucketed_ok: "buckets_match ex_bucketed" "distinct (map bucket_pk (sd_buckets ex_bucketed))"
proof -
  have "list_all (\<lambda>s. sp_project_id s = ''p1'') (sd_spans (ws_db ex_after))" by code_simp
  then have "filter (in_minute q t) (sd_spans (ws_db ex_after)) =
      (if q = ''p1'' then filter (at_minute t) (sd_spans (ws_db ex_after)) else [])" for q t
    by (auto simp: in_minute_def at_minute_def filter_empty_conv list_all_iff intro!: filter_cong)
  moreover have "cell f [] k = 0" for f k by (simp add: cell_def)
  ultimately show "buckets_match ex_bucketed"
    by (simp add: buckets_match_def ex_bucketed_def bucket_columns values_of_def Let_def)
  show "distinct (map bucket_pk (sd_buckets ex_bucketed))" by code_simp
qed

theorem bucketed_values_refine_spans_witness:
  "query_bucketed_alert_value 100000000 ''p1'' ''cost_hourly'' 5 (sd_buckets ex_bucketed) = Inr (12 / 10 ^ 4, 2)"
proof -
  have "query_bucketed_alert_value 100000000 ''p1'' ''cost_hourly'' 5 (sd_buckets ex_bucketed) =
      Inr (metric_of_spans ''cost_hourly'' (window_spans 100000000 ''p1'' 5 (sd_spans ex_bucketed)))"
    by (rule bucketed_values_refine_spans [OF buckets_match_everywhere [OF ex_bucketed_ok(1)] ex_bucketed_ok(2)]) simp
  also have "metric_of_spans ''cost_hourly'' (window_spans 100000000 ''p1'' 5 (sd_spans ex_bucketed)) = (12 / 10 ^ 4, 2)"
    by code_simp
  finally show ?thesis .
qed

definition ex_alert_env :: alert_env where
  "ex_alert_env = \<lparr>al_now = 100000000, al_event_id = (\<lambda>_. ''e1''), al_notify = (\<lambda>_. ex_notify), al_message = (\<lambda>_ _. ''m''),
     al_span_message = (\<lambda>_ _. ''m''), al_stddev = (\<lambda>_. None)\<rparr>"

definition ex_evaluated :: "alert_db \<times> string mem notify_world" where
  "ex_evaluated = snd (evaluate_scheduled_alert_rules mem_redis ex_alert_env ex_bucketed (\<lparr>ad_rules = [ex_rule], ad_events = []\<rparr>, ex_world))"

theorem scheduled_events_are_justified_witness:
  "map ev_value (ad_events (fst ex_evaluated)) = [100] \<and>
   list_all (justified_event mem_redis ex_alert_env ex_bucketed [] [ex_rule]) (ad_events (fst ex_evaluated))"
proof -
  have "redis_store mem_redis" by unfold_locales
  moreover obtain out where run: "evaluate_scheduled_alert_rules mem_redis ex_alert_env ex_bucketed
      (\<lparr>ad_rules = [ex_rule], ad_events = []\<rparr>, ex_world) = (out, ex_evaluated)"
    unfolding ex_evaluated_def by (metis prod.collapse)
  moreover have "ar_is_active ex_rule" "ar_metric ex_rule = ''error_rate''" by (simp_all add: ex_rule_def)
  ultimately have "list_all (justified_event mem_redis ex_alert_env ex_bucketed [] [ex_rule]) (ad_events (fst ex_evaluated))"
    using scheduled_events_are_justified [OF \<open>redis_store mem_redis\<close> _ run] by (auto simp: ex_world_def)
  moreover have "map ev_value (ad_events (fst ex_evaluated)) = [100]" by code_simp
  ultimately show ?thesis by simp
qed

end
