(* ===== verification/Base64.thy ===== *)
theory Base64
  imports Obs_Prelude
begin

text \<open>
  \<^verbatim>\<open>base64.urlsafe_b64encode\<close> and \<^verbatim>\<open>base64.urlsafe_b64decode\<close> of Python, which the cursors of
  \<^verbatim>\<open>backend/app/services/trace_service.py\<close> are made with. Bytes are characters. The decoder is the
  non-strict one of the library: it skips characters outside both alphabets, stops at complete
  padding and fails on an incomplete group.
\<close>

text \<open>The alphabet: capital letters, small letters, digits, \<^verbatim>\<open>-\<close> and \<^verbatim>\<open>_\<close>.\<close>

definition b64_char :: "nat \<Rightarrow> char" where
  "b64_char n =
     char_of (if n < 26 then n + 65 else if n < 52 then n + 71 else if n < 62 then n - 4 else if n = 62 then 45 else 95)"

text \<open>Value of a character; the decoder translates the URL alphabet to the standard one, so \<^verbatim>\<open>+\<close>
  and \<^verbatim>\<open>/\<close> are accepted too.\<close>

definition b64_value :: "char \<Rightarrow> nat option" where
  "b64_value c =
     (let n = (of_char c :: nat)
      in if 65 \<le> n \<and> n \<le> 90 then Some (n - 65)
         else if 97 \<le> n \<and> n \<le> 122 then Some (n - 71)
         else if 48 \<le> n \<and> n \<le> 57 then Some (n + 4)
         else if n = 45 \<or> n = 43 then Some 62
         else if n = 95 \<or> n = 47 then Some 63
         else None)"

fun urlsafe_b64encode :: "string \<Rightarrow> string" where
  "urlsafe_b64encode [] = []"
| "urlsafe_b64encode [a] =
     (let x = (of_char a :: nat) in [b64_char (x div 4), b64_char (x mod 4 * 16), CHR ''='', CHR ''=''])"
| "urlsafe_b64encode [a, b] =
     (let x = (of_char a :: nat); y = (of_char b :: nat)
      in [b64_char (x div 4), b64_char (x mod 4 * 16 + y div 16), b64_char (y mod 16 * 4), CHR ''=''])"
| "urlsafe_b64encode (a # b # c # rest) =
     (let x = (of_char a :: nat); y = (of_char b :: nat); z = (of_char c :: nat)
      in b64_char (x div 4) # b64_char (x mod 4 * 16 + y div 16) # b64_char (y mod 16 * 4 + z div 64) # b64_char (z mod 64)
           # urlsafe_b64encode rest)"

text \<open>The decoder's loop: position in the group of four, the bits left over, the padding seen.\<close>

fun a2b :: "nat \<Rightarrow> nat \<Rightarrow> nat \<Rightarrow> string \<Rightarrow> string option" where
  "a2b quad_pos leftchar pads [] = (if quad_pos = 0 then Some [] else None)"
| "a2b quad_pos leftchar pads (c # cs) =
     (if c = CHR ''='' then
        (if 2 \<le> quad_pos then
           (if 4 \<le> quad_pos + (pads + 1) then Some [] else a2b quad_pos leftchar (pads + 1) cs)
         else a2b quad_pos leftchar pads cs)
      else case b64_value c of
             None \<Rightarrow> a2b quad_pos leftchar pads cs
           | Some v \<Rightarrow>
               if quad_pos = 0 then a2b 1 v 0 cs
               else if quad_pos = 1 then map_option ((#) (char_of (leftchar * 4 + v div 16))) (a2b 2 (v mod 16) 0 cs)
               else if quad_pos = 2 then map_option ((#) (char_of (leftchar * 16 + v div 4))) (a2b 3 (v mod 4) 0 cs)
               else map_option ((#) (char_of (leftchar * 64 + v))) (a2b 0 0 0 cs))"

definition urlsafe_b64decode :: "string \<Rightarrow> string option" where
  "urlsafe_b64decode s = a2b 0 0 0 s"

section \<open>Round trip\<close>

lemma b64_char_ok:
  assumes "n < 64"
  shows "b64_value (b64_char n) = Some n" and "b64_char n \<noteq> CHR ''=''"
proof -
  consider "n < 26" | "26 \<le> n" "n < 52" | "52 \<le> n" "n < 62" | "n = 62" | "n = 63" using assms by linarith
  then have "b64_value (b64_char n) = Some n \<and> (of_char (b64_char n) :: nat) \<noteq> 61"
    by cases (auto simp: b64_value_def b64_char_def Let_def)
  then show "b64_value (b64_char n) = Some n" and "b64_char n \<noteq> CHR ''=''" by auto
qed

text \<open>Three bytes as four groups of six bits and back.\<close>

lemma split_bits:
  assumes "x < 256" and "y < (256 :: nat)" and "z < 256"
  shows "x div 4 < 64" "x mod 4 * 16 + y div 16 < 64" "y mod 16 * 4 + z div 64 < 64" "z mod 64 < 64"
    "x div 4 * 4 + (x mod 4 * 16 + y div 16) div 16 = x"
    "(x mod 4 * 16 + y div 16) mod 16 * 16 + (y mod 16 * 4 + z div 64) div 4 = y"
    "(y mod 16 * 4 + z div 64) mod 4 * 64 + z mod 64 = z"
proof -
  have y: "y div 16 < 16" and z: "z div 64 < 4" using assms(2,3) by auto
  moreover have "x mod 4 < 4" "y mod 16 < 16" by simp_all
  ultimately show "x mod 4 * 16 + y div 16 < 64" "y mod 16 * 4 + z div 64 < 64" by linarith+
  show "x div 4 < 64" "z mod 64 < 64" using assms(1) by auto
  have "(x mod 4 * 16 + y div 16) div 16 = x mod 4" "(x mod 4 * 16 + y div 16) mod 16 = y div 16"
    "(y mod 16 * 4 + z div 64) div 4 = y mod 16" "(y mod 16 * 4 + z div 64) mod 4 = z div 64"
    using y z by simp_all
  then show "x div 4 * 4 + (x mod 4 * 16 + y div 16) div 16 = x"
    "(x mod 4 * 16 + y div 16) mod 16 * 16 + (y mod 16 * 4 + z div 64) div 4 = y"
    "(y mod 16 * 4 + z div 64) mod 4 * 64 + z mod 64 = z" by simp_all
qed

theorem b64_roundtrip: "urlsafe_b64decode (urlsafe_b64encode s) = Some s"
  unfolding urlsafe_b64decode_def
proof (induction s rule: urlsafe_b64encode.induct)
  case (2 a)
  then show ?case
    using split_bits [OF nat_of_char_less_256 [of a], of 0 0] by (simp add: Let_def b64_char_ok)
next
  case (3 a b)
  then show ?case
    using split_bits [OF nat_of_char_less_256 [of a] nat_of_char_less_256 [of b], of 0] by (simp add: Let_def b64_char_ok)
next
  case (4 a b c rest)
  then show ?case
    using split_bits [OF nat_of_char_less_256 [of a] nat_of_char_less_256 [of b] nat_of_char_less_256 [of c]]
    by (simp add: Let_def b64_char_ok)
qed simp

end
