(* ===== verification/Trace_Query.thy ===== *)
theory Trace_Query
  imports Base64 Webhook Access_Control Span_Pipeline "HOL-Library.Product_Lexorder"
begin

text \<open>
  Listing and reading traces: \<^verbatim>\<open>backend/app/services/trace_service.py\<close> and the first two handlers of
  \<^verbatim>\<open>backend/app/api/v1/traces.py\<close>. Cursors are base64 texts of a small JSON object; JSON parsing,
  ISO dates and the decoding of UTF-8 are parameters. Identifiers compare by code points, which
  for canonical UUID texts is the order of the values.
\<close>

section \<open>Cursors\<close>

record cursor_codec =
  cc_utf8 :: "string \<Rightarrow> string option"
  cc_loads :: "string \<Rightarrow> json option"
  cc_str :: "json \<Rightarrow> string"
  cc_isoformat :: "time \<Rightarrow> string"
  cc_fromisoformat :: "string \<Rightarrow> time option"

text \<open>A character of a string in the output of \<^verbatim>\<open>json.dumps\<close>.\<close>

definition json_escape_char :: "char \<Rightarrow> string" where
  "json_escape_char c =
     (let n = (of_char c :: nat)
      in if n = 34 \<or> n = 92 then [CHR 0x5C, c]
         else if n = 8 then [CHR 0x5C, CHR ''b''] else if n = 9 then [CHR 0x5C, CHR ''t'']
         else if n = 10 then [CHR 0x5C, CHR ''n''] else if n = 12 then [CHR 0x5C, CHR ''f'']
         else if n = 13 then [CHR 0x5C, CHR ''r'']
         else if n < 32 \<or> 126 < n then [CHR 0x5C, CHR ''u'', CHR ''0'', CHR ''0'', hex_digit (n div 16), hex_digit (n mod 16)]
         else [c])"

definition json_string :: "string \<Rightarrow> string" where
  "json_string s = [CHR 0x22] @ concat (map json_escape_char s) @ [CHR 0x22]"

definition cursor_text :: "string \<Rightarrow> string \<Rightarrow> string" where
  "cursor_text started_at trace_id =
     ''{'' @ json_string ''started_at'' @ '':'' @ json_string started_at @ '','' @ json_string ''id'' @ '':'' @ json_string trace_id @ ''}''"

definition encode_trace_cursor :: "cursor_codec \<Rightarrow> time \<Rightarrow> string \<Rightarrow> string" where
  "encode_trace_cursor K started_at trace_id = urlsafe_b64encode (cursor_text (cc_isoformat K started_at) trace_id)"

definition invalid_cursor :: string where "invalid_cursor = ''Invalid pagination cursor''"

definition decode_legacy_trace_cursor :: "cursor_codec \<Rightarrow> string \<Rightarrow> string + time \<times> string" where
  "decode_legacy_trace_cursor K raw =
     (case py_rpartition (CHR '':'') raw of
        (None, _) \<Rightarrow> Inl invalid_cursor
      | (Some dt_str, cursor_id) \<Rightarrow>
          (case cc_fromisoformat K dt_str of None \<Rightarrow> Inl invalid_cursor | Some t \<Rightarrow> Inr (t, cursor_id)))"

text \<open>The value of a JSON cursor; \<open>None\<close> is any of the caught exceptions.\<close>

definition json_cursor :: "cursor_codec \<Rightarrow> string \<Rightarrow> (time \<times> string) option" where
  "json_cursor K raw =
     (case cc_loads K raw of
        Some (JObj payload) \<Rightarrow>
          (case map_of payload ''started_at'' of
             Some (JStr d) \<Rightarrow>
               (case cc_fromisoformat K d of
                  None \<Rightarrow> None
                | Some t \<Rightarrow> map_option (\<lambda>i. (t, cc_str K i)) (map_of payload ''id''))
           | _ \<Rightarrow> None)
      | _ \<Rightarrow> None)"

definition decode_trace_cursor :: "cursor_codec \<Rightarrow> string \<Rightarrow> string + time \<times> string" where
  "decode_trace_cursor K cursor =
     (case Option.bind (urlsafe_b64decode cursor) (cc_utf8 K) of
        None \<Rightarrow> Inl invalid_cursor
      | Some raw \<Rightarrow>
          (case (case json_cursor K raw of Some c \<Rightarrow> Inr c | None \<Rightarrow> decode_legacy_trace_cursor K raw) of
             Inl e \<Rightarrow> Inl e
           | Inr c \<Rightarrow> if snd c = [] then Inl invalid_cursor else Inr c))"

section \<open>Pages\<close>

record trace_filters =
  tf_model :: "string option"
  tf_status :: "string option"
  tf_from_dt :: "time option"
  tf_to_dt :: "time option"

datatype trace_error = ValueError string | DbError string

definition trace_key :: "trace_row \<Rightarrow> time \<times> uuid" where
  "trace_key r = (tr_started_at r, tr_id r)"

text \<open>The conditions of the query but the cursor's.\<close>

definition trace_matches :: "uuid \<Rightarrow> trace_filters \<Rightarrow> trace_row \<Rightarrow> bool" where
  "trace_matches project_id f r =
     (tr_project_id r = project_id \<and> (truthy (tf_status f) \<longrightarrow> tr_status r = the (tf_status f)) \<and>
      (case tf_from_dt f of None \<Rightarrow> True | Some d \<Rightarrow> d \<le> tr_started_at r) \<and>
      (case tf_to_dt f of None \<Rightarrow> True | Some d \<Rightarrow> tr_started_at r \<le> d))"

text \<open>A filter on the model names a column the table does not have.\<close>

definition list_with_cursor ::
  "cursor_codec \<Rightarrow> trace_row list \<Rightarrow> uuid \<Rightarrow> string option \<Rightarrow> nat \<Rightarrow> trace_filters
     \<Rightarrow> trace_error + trace_row list \<times> string option" where
  "list_with_cursor K traces project_id cursor limit f =
     (case (if truthy cursor then map_sum id Some (decode_trace_cursor K (the cursor)) else Inr None) of
        Inl e \<Rightarrow> Inl (ValueError e)
      | Inr cur \<Rightarrow>
          if truthy (tf_model f) then Inl (DbError ''UndefinedColumnError'')
          else
            (let hits = filter (\<lambda>r. trace_matches project_id f r \<and> (case cur of None \<Rightarrow> True | Some c \<Rightarrow> trace_key r < c)) traces;
                 rows = take (limit + 1) (rev (sort_key trace_key hits));
                 items = take limit rows
             in Inr (items,
                  if limit < length rows \<and> items \<noteq> []
                  then Some (encode_trace_cursor K (tr_started_at (last items)) (tr_id (last items))) else None)))"

definition list_traces ::
  "cursor_codec \<Rightarrow> trace_row list \<Rightarrow> uuid \<Rightarrow> trace_filters \<Rightarrow> string option \<Rightarrow> int
     \<Rightarrow> http_error + trace_row list \<times> string option \<times> bool" where
  "list_traces K traces project_id f cursor page_size =
     (if page_size < 1 \<or> 200 < page_size \<or> (case tf_model f of None \<Rightarrow> False | Some m \<Rightarrow> 100 < length m) \<or>
         (case tf_status f of None \<Rightarrow> False | Some s \<Rightarrow> s \<noteq> ''ok'' \<and> s \<noteq> ''error'')
      then Inl (HTTPException 422 ''validation error'')
      else case list_with_cursor K traces project_id cursor (nat page_size) f of
             Inl (ValueError e) \<Rightarrow> Inl (HTTPException 400 e)
           | Inl (DbError e) \<Rightarrow> Inl (Unhandled e)
           | Inr (items, next_cursor) \<Rightarrow> Inr (items, next_cursor, next_cursor \<noteq> None))"

section \<open>One trace\<close>

definition get_with_spans :: "uuid \<Rightarrow> uuid \<Rightarrow> time option \<Rightarrow> span_db \<Rightarrow> (trace_row \<times> span_row list) option" where
  "get_with_spans trace_id project_id started_at0 db =
     (case (case started_at0 of
              Some t \<Rightarrow> Some t
            | None \<Rightarrow>
                map_option tr_started_at (select_one (\<lambda>_. True)
                  (sort_key tr_started_at (filter (\<lambda>r. tr_id r = trace_id \<and> tr_project_id r = project_id) (sd_traces db))))) of
        None \<Rightarrow> None
      | Some started_at \<Rightarrow>
          (case select_one (\<lambda>r. tr_id r = trace_id \<and> tr_project_id r = project_id \<and> tr_started_at r = started_at) (sd_traces db) of
             None \<Rightarrow> None
           | Some trace_row \<Rightarrow>
               Some (trace_row,
                 sort_key sp_started_at (filter (\<lambda>s. sp_trace_id s = trace_id \<and> sp_project_id s = project_id \<and>
                   started_at \<le> sp_started_at s) (sd_spans db)))))"

text \<open>The detail: the trace and its spans, each with its payload if one was read.\<close>

definition get_trace_detail ::
  "('b list \<Rightarrow> json option) \<Rightarrow> ('z \<Rightarrow> 'b list option) \<Rightarrow> ('s \<Rightarrow> string \<Rightarrow> 'z option) \<Rightarrow> 's
     \<Rightarrow> uuid \<Rightarrow> uuid \<Rightarrow> bool \<Rightarrow> time option \<Rightarrow> span_db \<Rightarrow> http_error + trace_row \<times> (span_row \<times> json option) list" where
  "get_trace_detail loads decompress get s3 trace_id project_id include_payload started_at db =
     (case get_with_spans trace_id project_id started_at db of
        None \<Rightarrow> Inl (HTTPException 404 ''Trace not found'')
      | Some (trace, spans) \<Rightarrow>
          if \<not> include_payload then Inr (trace, map (\<lambda>s. (s, None)) spans)
          else
            (let s3_keys = map (the \<circ> sp_payload_s3_key) (filter (\<lambda>s. truthy (sp_payload_s3_key s)) spans);
                 key_map = List.map_filter (\<lambda>k. map_option (Pair k) (get_payload loads decompress get k s3)) s3_keys
             in Inr (trace, map (\<lambda>s. (s, Option.bind (sp_payload_s3_key s) (map_of key_map))) spans)))"

section \<open>Cursors round trip\<close>

text \<open>What is assumed of the library: ASCII bytes decode to themselves, the parser reads what the
  printer wrote, a string's text is the string, and dates round trip.\<close>

definition cursor_codec_ok :: "cursor_codec \<Rightarrow> bool" where
  "cursor_codec_ok K \<longleftrightarrow>
     (\<forall>s. list_all (\<lambda>c. (of_char c :: nat) < 128) s \<longrightarrow> cc_utf8 K s = Some s) \<and>
     (\<forall>d i. cc_loads K (cursor_text d i) = Some (JObj [(''started_at'', JStr d), (''id'', JStr i)])) \<and>
     (\<forall>s. cc_str K (JStr s) = s) \<and> (\<forall>t. cc_fromisoformat K (cc_isoformat K t) = Some t)"

lemma hex_digit_ascii: "n < 16 \<Longrightarrow> (of_char (hex_digit n) :: nat) < 128"
  by (auto simp: hex_digit_def)

lemma escape_ascii: "list_all (\<lambda>c. (of_char c :: nat) < 128) (json_escape_char c)"
proof -
  have "(of_char c :: nat) div 16 < 16" by (simp add: less_mult_imp_div_less)
  then show ?thesis by (simp add: json_escape_char_def Let_def hex_digit_ascii)
qed

lemma json_string_ascii: "list_all (\<lambda>c. (of_char c :: nat) < 128) (json_string s)"
  unfolding json_string_def by (induction s) (use escape_ascii in auto)

lemma cursor_text_ascii: "list_all (\<lambda>c. (of_char c :: nat) < 128) (cursor_text d i)"
  using json_string_ascii by (simp add: cursor_text_def)

lemma decode_encode:
  assumes "cursor_codec_ok K" and "i \<noteq> []"
  shows "decode_trace_cursor K (encode_trace_cursor K t i) = Inr (t, i)"
proof -
  have "cc_utf8 K (cursor_text d i) = Some (cursor_text d i)" for d
    using assms(1) cursor_text_ascii by (simp add: cursor_codec_ok_def)
  moreover have "json_cursor K (cursor_text (cc_isoformat K t) i) = Some (t, i)"
    using assms(1) by (simp add: cursor_codec_ok_def json_cursor_def)
  ultimately show ?thesis
    using assms(2) by (simp add: decode_trace_cursor_def encode_trace_cursor_def b64_roundtrip)
qed

lemma encode_nonempty: "truthy (Some (encode_trace_cursor K t i))"
proof -
  have "urlsafe_b64encode (a # s) \<noteq> []" for a s by (cases "a # s" rule: urlsafe_b64encode.cases) (auto simp: Let_def)
  then show ?thesis by (simp add: encode_trace_cursor_def cursor_text_def)
qed

section \<open>Following the cursors\<close>

text \<open>A client that follows the cursors, for at most \<open>n\<close> pages.\<close>

fun all_pages ::
  "cursor_codec \<Rightarrow> trace_row list \<Rightarrow> uuid \<Rightarrow> nat \<Rightarrow> trace_filters \<Rightarrow> nat \<Rightarrow> string option \<Rightarrow> trace_row list list option" where
  "all_pages K traces p limit f 0 cursor = None"
| "all_pages K traces p limit f (Suc n) cursor =
     (case list_with_cursor K traces p cursor limit f of
        Inl _ \<Rightarrow> None
      | Inr (items, None) \<Rightarrow> Some [items]
      | Inr (items, Some c) \<Rightarrow> map_option ((#) items) (all_pages K traces p limit f n (Some c)))"

text \<open>Specification: the matching traces, newest first.\<close>

definition trace_listing :: "trace_row list \<Rightarrow> uuid \<Rightarrow> trace_filters \<Rightarrow> trace_row list" where
  "trace_listing traces p f = rev (sort_key trace_key (filter (trace_matches p f) traces))"

lemma listing_descending:
  assumes "distinct (map trace_pk traces)"
  shows "sorted_wrt (\<lambda>a b. trace_key b < trace_key a) (trace_listing traces p f)"
proof -
  have "distinct (map trace_key traces)"
    using assms by (simp add: distinct_map inj_on_def trace_pk_def trace_key_def)
  then have "distinct (map trace_key (sort_key trace_key (filter (trace_matches p f) traces)))"
    by (simp add: distinct_map inj_on_def)
  moreover have "sorted (map trace_key (sort_key trace_key (filter (trace_matches p f) traces)))" by simp
  ultimately have "sorted_wrt (<) (map trace_key (sort_key trace_key (filter (trace_matches p f) traces)))"
    by (simp add: strict_sorted_iff)
  then show ?thesis by (simp add: trace_listing_def sorted_wrt_rev sorted_wrt_map)
qed

lemma filter_below:
  assumes "sorted_wrt (\<lambda>a b. trace_key b < trace_key a) (as @ x # bs)"
  shows "filter (\<lambda>r. trace_key r < trace_key x) (as @ x # bs) = bs"
  using assms by (auto simp: sorted_wrt_append filter_empty_conv filter_id_conv)

text \<open>One page, as a window on the listing.\<close>

lemma list_page:
  assumes "\<not> truthy (tf_model f)" and "\<not> truthy cursor \<and> k = None \<or> truthy cursor \<and> decode_trace_cursor K (the cursor) = Inr c \<and> k = Some c"
    and "rest = filter (\<lambda>r. case k of None \<Rightarrow> True | Some c \<Rightarrow> trace_key r < c) (trace_listing traces p f)"
  shows "list_with_cursor K traces p cursor limit f =
    Inr (take limit rest, if limit < length rest \<and> 0 < limit
      then Some (encode_trace_cursor K (tr_started_at (rest ! (limit - 1))) (tr_id (rest ! (limit - 1)))) else None)"
proof -
  have cur: "(if truthy cursor then map_sum id Some (decode_trace_cursor K (the cursor)) else Inr None) = Inr k"
    using assms(2) by auto
  have hits: "rev (sort_key trace_key (filter (\<lambda>r. trace_matches p f r \<and> (case k of None \<Rightarrow> True | Some c \<Rightarrow> trace_key r < c)) traces)) = rest"
    unfolding assms(3) trace_listing_def rev_filter [symmetric] filter_sort filter_filter by (simp add: conj_commute)
  show ?thesis
    unfolding list_with_cursor_def cur sum.case Let_def hits
    using assms(1) by (auto simp: last_conv_nth min_def)
qed

lemma all_pages_rest:
  assumes "cursor_codec_ok K" and "distinct (map trace_pk traces)" and "list_all (\<lambda>r. tr_id r \<noteq> []) traces"
    and "0 < limit" and "\<not> truthy (tf_model f)"
    and "trace_listing traces p f = done @ rest" and "length rest < n"
    and "done = [] \<and> cursor = None \<or>
      done \<noteq> [] \<and> cursor = Some (encode_trace_cursor K (tr_started_at (last done)) (tr_id (last done)))"
  shows "\<exists>pages. all_pages K traces p limit f n cursor = Some pages \<and> concat pages = rest \<and>
    list_all (\<lambda>pg. length pg \<le> limit) pages"
  using assms(6-8)
proof (induction n arbitrary: "done" rest cursor)
  case (Suc n)
  have ids: "tr_id r \<noteq> []" if "r \<in> set (trace_listing traces p f)" for r
    using that assms(3) by (auto simp: trace_listing_def list_all_iff)
  define k where "k = (if done = [] then None else Some (trace_key (last done)))"
  have desc: "sorted_wrt (\<lambda>a b. trace_key b < trace_key a) (done @ rest)"
    using listing_descending [OF assms(2), of p f] by (simp add: Suc.prems(1))
  have rest: "rest = filter (\<lambda>r. case k of None \<Rightarrow> True | Some c \<Rightarrow> trace_key r < c) (trace_listing traces p f)"
  proof (cases "done = []")
    case False
    then have split: "done @ rest = butlast done @ last done # rest" by simp
    from filter_below [OF desc [unfolded split]] False show ?thesis by (simp add: k_def Suc.prems(1) split)
  qed (use Suc.prems(1) in \<open>simp add: k_def\<close>)
  have "\<not> truthy cursor \<and> k = None \<or>
      truthy cursor \<and> decode_trace_cursor K (the cursor) = Inr (trace_key (last done)) \<and> k = Some (trace_key (last done))"
    using Suc.prems(1,3) encode_nonempty decode_encode [OF assms(1)] ids [of "last done"]
    by (auto simp: k_def trace_key_def)
  note page = list_page [OF assms(5) this rest]
  show ?case
  proof (cases "limit < length rest")
    case False
    with page show ?thesis by simp
  next
    case True
    define x where "x = rest ! (limit - 1)"
    have tk: "take limit rest = take (limit - 1) rest @ [x]"
      using True assms(4) take_Suc_conv_app_nth [of "limit - 1" rest] by (simp add: x_def)
    have "trace_listing traces p f = (done @ take limit rest) @ drop limit rest" by (simp add: Suc.prems(1))
    from Suc.IH [OF this] have "\<exists>pages. all_pages K traces p limit f n (Some (encode_trace_cursor K (tr_started_at x) (tr_id x))) = Some pages \<and>
        concat pages = drop limit rest \<and> list_all (\<lambda>pg. length pg \<le> limit) pages"
      using Suc.prems(2) True assms(4) by (simp add: tk)
    then obtain pages where "all_pages K traces p limit f n (Some (encode_trace_cursor K (tr_started_at x) (tr_id x))) = Some pages"
      "concat pages = drop limit rest" "list_all (\<lambda>pg. length pg \<le> limit) pages" by blast
    with page True assms(4) show ?thesis by (simp add: x_def)
  qed
qed simp


section \<open>The spans of a trace\<close>

lemma select_one_filter: "filter P rows = r # rs \<Longrightarrow> select_one P rows = Some r"
  unfolding select_one_def by (induction rows) (auto split: if_splits)

lemma map_of_key_map:
  "map_of (List.map_filter (\<lambda>k. map_option (Pair k) (g k)) ks) k = (if k \<in> set ks then g k else None)"
  by (induction ks) (auto simp: List.map_filter_simps split: option.split)

text \<open>The payload shown with a span.\<close>

definition shown_payload :: "bool \<Rightarrow> (string \<Rightarrow> json option) \<Rightarrow> span_row \<Rightarrow> json option" where
  "shown_payload inc read s = (if inc \<and> truthy (sp_payload_s3_key s) then read (the (sp_payload_s3_key s)) else None)"

lemma lookup_payload:
  assumes "s \<in> set S"
  shows "Option.bind (sp_payload_s3_key s) (map_of (List.map_filter (\<lambda>k. map_option (Pair k) (g k))
      (map (the \<circ> sp_payload_s3_key) (filter (\<lambda>s. truthy (sp_payload_s3_key s)) S)))) = shown_payload True g s"
proof (cases "sp_payload_s3_key s")
  case (Some k)
  have "k \<in> set (map (the \<circ> sp_payload_s3_key) (filter (\<lambda>s. truthy (sp_payload_s3_key s)) S)) \<longleftrightarrow> k \<noteq> []"
  proof
    assume "k \<noteq> []"
    with assms Some have "s \<in> set (filter (\<lambda>s. truthy (sp_payload_s3_key s)) S)" by simp
    with Some show "k \<in> set (map (the \<circ> sp_payload_s3_key) (filter (\<lambda>s. truthy (sp_payload_s3_key s)) S))" by force
  qed (auto elim: truthy.elims)
  with Some show ?thesis by (simp add: map_of_key_map shown_payload_def del: set_map)
qed (simp add: shown_payload_def)

text \<open>
  The detail of a trace is complete. While trace rows and spans agree, a trace is found
  exactly when the project has a span of it; its detail then holds every such span, each as
  often as the table has it and ordered by its start, and nothing of another project or trace.
  With payloads asked for, a span shows what the store holds under its key.
\<close>

theorem trace_detail_is_complete:
  assumes "traces_match db"
  shows "case get_trace_detail loads decompress get s3 tid p inc None db of
      Inl e \<Rightarrow> e = HTTPException 404 ''Trace not found'' \<and> filter (\<lambda>s. sp_project_id s = p \<and> sp_trace_id s = tid) (sd_spans db) = []
    | Inr (trace, spans) \<Rightarrow> tr_id trace = tid \<and> tr_project_id trace = p \<and> spans \<noteq> [] \<and>
        mset (map fst spans) = mset (filter (\<lambda>s. sp_project_id s = p \<and> sp_trace_id s = tid) (sd_spans db)) \<and>
        sorted (map (sp_started_at \<circ> fst) spans) \<and>
        map snd spans = map (shown_payload inc (\<lambda>k. get_payload loads decompress get k s3) \<circ> fst) spans"
proof -
  let ?own = "filter (\<lambda>s. sp_project_id s = p \<and> sp_trace_id s = tid) (sd_spans db)" and ?T = "span_starts p tid (sd_spans db)"
  have T: "?T = {} \<longleftrightarrow> ?own = []" "finite ?T" by (auto simp: span_starts_def filter_empty_conv)
  have rows: "filter (\<lambda>r. tr_id r = tid \<and> tr_project_id r = p) (sd_traces db) = own_traces p tid (sd_traces db)"
    by (simp add: own_traces_def conj_commute)
  have tm: "length (own_traces p tid (sd_traces db)) \<le> 1"
    "trace_start p tid (sd_traces db) = (if ?T = {} then None else Some (Min ?T))"
    using assms by (simp_all add: traces_match_def Let_def)
  show ?thesis
  proof (cases "own_traces p tid (sd_traces db)")
    case Nil
    with tm(2) T(1) have "?own = []" by (auto simp: trace_start_def split: if_splits)
    with Nil show ?thesis by (simp add: get_trace_detail_def get_with_spans_def rows select_one_def)
  next
    case (Cons r rs)
    with tm(1) have one: "own_traces p tid (sd_traces db) = [r]" by (cases rs) auto
    with tm(2) T(1) have start: "tr_started_at r = Min ?T" "?own \<noteq> []" by (auto simp: trace_start_def split: if_splits)
    have r: "tr_id r = tid" "tr_project_id r = p" "r \<in> set (sd_traces db)"
      using one by (auto simp: own_traces_def filter_eq_Cons_iff)
    have "select_one (\<lambda>x. tr_id x = tid \<and> tr_project_id x = p \<and> tr_started_at x = tr_started_at r) (sd_traces db) = Some r"
    proof -
      have "filter (\<lambda>x. tr_id x = tid \<and> tr_project_id x = p \<and> tr_started_at x = tr_started_at r) (sd_traces db) = [r]"
        using arg_cong [OF one, of "filter (\<lambda>x. tr_started_at x = tr_started_at r)"]
        by (simp add: own_traces_def conj_ac)
      then show ?thesis by (rule select_one_filter)
    qed
    moreover have "filter (\<lambda>s. sp_trace_id s = tid \<and> sp_project_id s = p \<and> tr_started_at r \<le> sp_started_at s) (sd_spans db) = ?own"
      using T(2) by (auto simp: start(1) span_starts_def intro!: filter_cong Min_le)
    ultimately have g: "get_with_spans tid p None db = Some (r, sort_key sp_started_at ?own)"
      by (simp add: get_with_spans_def rows one select_one_def [of "\<lambda>_. True"])
    define S where "S = sort_key sp_started_at ?own"
    have S: "mset S = mset ?own" "sorted (map sp_started_at S)" unfolding S_def by (simp_all only: mset_sort sorted_sort_key)
    have "S \<noteq> []" using S(1) start(2) by (metis mset_zero_iff)
    have "get_trace_detail loads decompress get s3 tid p inc None db =
        Inr (r, map (\<lambda>s. (s, shown_payload inc (\<lambda>k. get_payload loads decompress get k s3) s)) S)"
    proof (cases inc)
      case True
      then show ?thesis
        unfolding get_trace_detail_def g S_def [symmetric] Let_def using lookup_payload by simp
    next
      case False
      then show ?thesis by (simp add: get_trace_detail_def g S_def shown_payload_def)
    qed
    with r S \<open>S \<noteq> []\<close> show ?thesis by (simp add: multiset.map_comp comp_def)
  qed
qed

section \<open>Examples\<close>

definition hex_value :: "char \<Rightarrow> nat" where
  "hex_value c = (let n = of_char c in if n < 58 then n - 48 else n - 87)"

text \<open>A parser for the strings that \<^verbatim>\<open>json_string\<close> writes, from behind the opening quote.\<close>

fun read_string :: "string \<Rightarrow> (string \<times> string) option" where
  "read_string [] = None"
| "read_string (c # cs) =
     (if c = CHR 0x22 then Some ([], cs)
      else if c = CHR 0x5C then
        (case cs of
           [] \<Rightarrow> None
         | e # rest \<Rightarrow>
             if e = CHR ''u'' then
               (case rest of
                  a # b # h # l # rest' \<Rightarrow> map_option (apfst ((#) (char_of (hex_value h * 16 + hex_value l)))) (read_string rest')
                | _ \<Rightarrow> None)
             else map_option (apfst ((#)
               (if e = CHR ''b'' then CHR 0x08 else if e = CHR ''t'' then CHR 0x09
                else if e = CHR ''n'' then CHR 0x0A else if e = CHR ''f'' then CHR 0x0C
                else if e = CHR ''r'' then CHR 0x0D else e))) (read_string rest))
      else map_option (apfst ((#) c)) (read_string cs))"

lemma hex_value_digit: "n < 16 \<Longrightarrow> hex_value (hex_digit n) = n"
  by (auto simp: hex_value_def hex_digit_def)

lemma read_escaped: "read_string (json_escape_char c @ rest) = map_option (apfst ((#) c)) (read_string rest)"
proof -
  let ?n = "of_char c :: nat"
  have "?n div 16 < 16" by (simp add: less_mult_imp_div_less)
  then have hex: "char_of (hex_value (hex_digit (?n div 16)) * 16 + hex_value (hex_digit (?n mod 16))) = c"
    by (simp add: hex_value_digit)
  consider "?n \<in> {34, 92, 8, 9, 10, 12, 13}" | "?n \<notin> {34, 92, 8, 9, 10, 12, 13}" "?n < 32 \<or> 126 < ?n"
    | "?n \<notin> {34, 92, 8, 9, 10, 12, 13}" "\<not> (?n < 32 \<or> 126 < ?n)" by blast
  then show ?thesis
  proof cases
    case 1
    then have "c \<in> {CHR 0x22, CHR 0x5C, CHR 0x08, CHR 0x09, CHR 0x0A, CHR 0x0C, CHR 0x0D}"
      using of_char_eq_iff [of c "CHR 0x22", where 'a = nat] of_char_eq_iff [of c "CHR 0x5C", where 'a = nat]
        of_char_eq_iff [of c "CHR 0x08", where 'a = nat] of_char_eq_iff [of c "CHR 0x09", where 'a = nat]
        of_char_eq_iff [of c "CHR 0x0A", where 'a = nat] of_char_eq_iff [of c "CHR 0x0C", where 'a = nat]
        of_char_eq_iff [of c "CHR 0x0D", where 'a = nat] by auto
    then show ?thesis by (elim insertE emptyE) (simp_all add: json_escape_char_def)
  next
    case 2
    then show ?thesis using hex by (simp add: json_escape_char_def Let_def)
  next
    case 3
    then have "c \<noteq> CHR 0x22" "c \<noteq> CHR 0x5C" by auto
    with 3 show ?thesis by (simp add: json_escape_char_def Let_def)
  qed
qed

lemma read_json_string: "read_string (concat (map json_escape_char s) @ CHR 0x22 # rest) = Some (s, rest)"
  by (induction s) (simp_all add: read_escaped)

definition ex_codec :: cursor_codec where
  "ex_codec = \<lparr>cc_utf8 = Some,
     cc_loads = (\<lambda>s. case read_string (drop 15 s) of
        None \<Rightarrow> None
      | Some (d, rest) \<Rightarrow> map_option (\<lambda>(i, _). JObj [(''started_at'', JStr d), (''id'', JStr i)]) (read_string (drop 7 rest))),
     cc_str = (\<lambda>v. case v of JStr s \<Rightarrow> s | _ \<Rightarrow> []),
     cc_isoformat = (\<lambda>t. replicate (nat \<bar>t\<bar>) (if 0 \<le> t then CHR ''0'' else CHR ''-'')),
     cc_fromisoformat = (\<lambda>s. Some (if CHR ''-'' \<in> set s then - int (length s) else int (length s)))\<rparr>"

lemma ex_codec_ok: "cursor_codec_ok ex_codec"
proof -
  have "drop 15 (cursor_text d i) = concat (map json_escape_char d) @ CHR 0x22 #
      '','' @ json_string ''id'' @ '':'' @ json_string i @ ''}''" for d i
    by (simp add: cursor_text_def json_string_def json_escape_char_def)
  moreover have "drop 7 ('','' @ json_string ''id'' @ '':'' @ json_string i @ ''}'') =
      concat (map json_escape_char i) @ CHR 0x22 # ''}''" for i
    by (simp add: json_string_def json_escape_char_def)
  ultimately show ?thesis
    by (auto simp: cursor_codec_ok_def ex_codec_def read_json_string)
qed

definition ex_trace :: "uuid \<Rightarrow> time \<Rightarrow> trace_row" where
  "ex_trace i t = \<lparr>tr_id = i, tr_project_id = ''p1'', tr_started_at = t, tr_ended_at = None, tr_total_tokens = 0,
     tr_total_cost_usd = 0, tr_span_count = 0, tr_status = ''ok''\<rparr>"

definition ex_detail_span :: span_row where
  "ex_detail_span = \<lparr>sp_id = ''s1'', sp_trace_id = ''t1'', sp_project_id = ''p1'', sp_parent_span_id = None, sp_name = ''n'',
     sp_provider = ''openai'', sp_model = ''gpt'', sp_input_tokens = 1, sp_output_tokens = 1, sp_cost_usd = 0, sp_latency_ms = 1,
     sp_status = ''ok'', sp_error = None, sp_started_at = 61, sp_payload_s3_key = None, sp_payload_status = Omitted,
     sp_payload_drop_reason = None, sp_metadata = JStr ''{}''\<rparr>"

definition no_filters :: trace_filters where
  "no_filters = \<lparr>tf_model = None, tf_status = None, tf_from_dt = None, tf_to_dt = None\<rparr>"


definition ex_traced :: span_db where
  "ex_traced = ex_db\<lparr>sd_spans := [ex_detail_span], sd_traces := [ex_trace ''t1'' 61]\<rparr>"

theorem trace_detail_is_complete_witness:
  "map_sum id (map fst \<circ> snd) (get_trace_detail (\<lambda>_. None) Some (\<lambda>s k. s k) (\<lambda>_. None :: unit list option) ''t1'' ''p1'' True None ex_traced)
     = Inr [ex_detail_span]"
proof -
  have "traces_match ex_traced"
    by (auto simp: traces_match_def ex_traced_def ex_db_def ex_trace_def ex_detail_span_def trace_start_def own_traces_def span_starts_def Let_def)
  note ok = trace_detail_is_complete [OF this, where tid = "''t1''" and p = "''p1''" and inc = True and loads = "\<lambda>_. None" and decompress = Some and
      get = "\<lambda>s k. s k" and ?s3.0 = "\<lambda>_. None :: unit list option"]
  have own: "filter (\<lambda>s. sp_project_id s = ''p1'' \<and> sp_trace_id s = ''t1'') (sd_spans ex_traced) = [ex_detail_span]"
    by (simp add: ex_traced_def ex_detail_span_def)
  show ?thesis
    using ok unfolding own by (auto split: sum.splits prod.splits simp: mset_single_iff mset_map [symmetric] simp del: mset_map)
qed

end
