(* ===== verification/Http_Shell.thy ===== *)
theory Http_Shell
  imports Py_Numbers
begin

text \<open>
  The middleware of \<^verbatim>\<open>backend/app/main.py\<close> and \<^verbatim>\<open>backend/app/core/security_headers.py\<close>.

  An ASGI application is a tree of its interactions with the server: it receives a message (or
  the exception that receiving raised, which it may catch), sends a message, returns or raises.
  The server's input is the list of messages it still delivers, followed by disconnects.
\<close>

section \<open>Applications\<close>

datatype asgi_event = HttpRequest string bool | HttpDisconnect

datatype asgi_reply = ResponseStart nat "(string \<times> string) list" | ResponseBody string

datatype asgi_app =
    AReturn
  | ARaise string
  | AReceive "string + asgi_event \<Rightarrow> asgi_app"
  | ASend asgi_reply asgi_app

fun next_event :: "asgi_event list \<Rightarrow> asgi_event \<times> asgi_event list" where
  "next_event [] = (HttpDisconnect, [])"
| "next_event (e # es) = (e, es)"

fun body_size :: "asgi_event \<Rightarrow> int" where
  "body_size (HttpRequest body more) = int (length body)"
| "body_size HttpDisconnect = 0"

fun is_start :: "asgi_reply \<Rightarrow> bool" where
  "is_start (ResponseStart s h) = True"
| "is_start (ResponseBody b) = False"

text \<open>The application alone: its outcome, what it sent and the events it was given.\<close>

primrec run_app :: "asgi_app \<Rightarrow> asgi_event list \<Rightarrow> unit outcome \<times> asgi_reply list \<times> asgi_event list" where
  "run_app AReturn es = (Ret (), [], [])"
| "run_app (ARaise e) es = (Raise e, [], [])"
| "run_app (AReceive k) es =
     (case next_event es of (e, es') \<Rightarrow> (case run_app (k (Inr e)) es' of (res, out, seen) \<Rightarrow> (res, out, e # seen)))"
| "run_app (ASend m a) es = (case run_app a es of (res, out, seen) \<Rightarrow> (res, m # out, seen))"

section \<open>The size limit\<close>

definition PayloadTooLargeError :: string where "PayloadTooLargeError = ''PayloadTooLargeError''"

text \<open>The application under \<^verbatim>\<open>limited_receive\<close> and \<^verbatim>\<open>tracking_send\<close>; the flag is \<^verbatim>\<open>response_started\<close>.\<close>

primrec run_limited ::
  "asgi_app \<Rightarrow> int \<Rightarrow> int \<Rightarrow> bool \<Rightarrow> asgi_event list
     \<Rightarrow> (unit outcome \<times> bool) \<times> asgi_reply list \<times> asgi_event list" where
  "run_limited AReturn max_bytes received started es = ((Ret (), started), [], [])"
| "run_limited (ARaise e) max_bytes received started es = ((Raise e, started), [], [])"
| "run_limited (AReceive k) max_bytes received started es =
     (case next_event es of
        (e, es') \<Rightarrow>
          (let received' = received + body_size e
           in if e \<noteq> HttpDisconnect \<and> received' > max_bytes
              then run_limited (k (Inl PayloadTooLargeError)) max_bytes received' started es'
              else case run_limited (k (Inr e)) max_bytes received' started es' of
                     (res, out, seen) \<Rightarrow> (res, out, e # seen)))"
| "run_limited (ASend m a) max_bytes received started es =
     (case run_limited a max_bytes received (started \<or> is_start m) es of (res, out, seen) \<Rightarrow> (res, m # out, seen))"

definition content_length :: "(string \<times> string) list \<Rightarrow> int option" where
  "content_length headers = Option.bind (map_of headers ''content-length'') py_int"

text \<open>The JSON object that \<^verbatim>\<open>_send_too_large\<close> sends, and its reply.\<close>

definition too_large_body :: "int \<Rightarrow> string" where
  "too_large_body max_bytes =
     (let q = [CHR 0x22]
      in ''{'' @ q @ ''error'' @ q @ '':'' @ q @ ''payload_too_large'' @ q @ '','' @ q @ ''max_bytes'' @ q @ '':'' @ py_str_int max_bytes @ ''}'')"

definition too_large_reply :: "int \<Rightarrow> asgi_reply list" where
  "too_large_reply max_bytes =
     [ResponseStart 413 [(''content-type'', ''application/json''), (''content-length'', py_str_nat (length (too_large_body max_bytes)))],
      ResponseBody (too_large_body max_bytes)]"

definition payload_size_limit ::
  "int \<Rightarrow> bool \<Rightarrow> (string \<times> string) list \<Rightarrow> asgi_app \<Rightarrow> asgi_event list
     \<Rightarrow> unit outcome \<times> asgi_reply list \<times> asgi_event list" where
  "payload_size_limit max_bytes is_http headers app es =
     (if \<not> is_http then run_app app es
      else if (case content_length headers of None \<Rightarrow> False | Some n \<Rightarrow> n > max_bytes)
      then (Ret (), too_large_reply max_bytes, [])
      else case run_limited app max_bytes 0 False es of
             ((res, started), out, seen) \<Rightarrow>
               if res = Raise PayloadTooLargeError \<and> \<not> started
               then (Ret (), out @ too_large_reply max_bytes, seen)
               else (res, out, seen))"

section \<open>Security headers\<close>

definition SECURITY_HEADERS :: "(string \<times> string) list" where
  "SECURITY_HEADERS =
     [(''X-Content-Type-Options'', ''nosniff''), (''X-Frame-Options'', ''DENY''), (''Referrer-Policy'', ''no-referrer''),
      (''Permissions-Policy'', ''camera=(), microphone=(), geolocation=()'')]"

text \<open>\<^verbatim>\<open>headers.setdefault\<close>; header names compare without regard to case and are stored in lower case.\<close>

definition set_default :: "string \<times> string \<Rightarrow> (string \<times> string) list \<Rightarrow> (string \<times> string) list" where
  "set_default h headers =
     (if list_ex (\<lambda>x. py_lower (fst x) = py_lower (fst h)) headers then headers else headers @ [(py_lower (fst h), snd h)])"

definition security_headers_dispatch :: "(string \<times> string) list \<Rightarrow> (string \<times> string) list" where
  "security_headers_dispatch headers = fold set_default SECURITY_HEADERS headers"

section \<open>What the limit guarantees\<close>

lemma limited_bytes:
  "let S = sum_list (map body_size (snd (snd (run_limited app max_bytes received started es))))
   in S = 0 \<or> received + S \<le> max_bytes"
proof (induction app arbitrary: received started es)
  case (AReceive k)
  obtain e es' where n: "next_event es = (e, es')" by fastforce
  show ?case
  proof (cases "e \<noteq> HttpDisconnect \<and> received + body_size e > max_bytes")
    case True
    with AReceive [of "k (Inl PayloadTooLargeError)" "received + body_size e" started es'] n show ?thesis
      by (cases e) (auto simp: Let_def)
  next
    case False
    with AReceive [of "k (Inr e)" "received + body_size e" started es'] n show ?thesis
      by (cases e) (auto simp: Let_def split: prod.split)
  qed
next
  case (ASend m app)
  from ASend [of received "started \<or> is_start m" es] show ?case by (auto simp: Let_def split: prod.split)
qed auto

text \<open>
  C28: The size limit holds for every application. However the body is split into messages,
  whatever the headers claim and however the application goes on after the limit was hit, the
  application never receives more than the configured number of body bytes in total.
\<close>

theorem body_limit_is_enforced:
  assumes "0 \<le> max_bytes" and "payload_size_limit max_bytes True headers app es = (res, out, seen)"
  shows "sum_list (map body_size seen) \<le> max_bytes"
proof (cases "case content_length headers of None \<Rightarrow> False | Some n \<Rightarrow> n > max_bytes")
  case True
  with assms show ?thesis by (auto simp: payload_size_limit_def)
next
  case False
  obtain r out' seen' where r: "run_limited app max_bytes 0 False es = (r, out', seen')" by (metis prod.exhaust)
  with False assms(2) have "seen = seen'" by (auto simp: payload_size_limit_def split: prod.splits if_splits)
  with limited_bytes [of app max_bytes 0 False es] r assms(1) show ?thesis by (auto simp: Let_def)
qed

lemma limited_small:
  assumes "received + sum_list (map body_size es) \<le> max_bytes"
  shows "\<exists>started'. run_limited app max_bytes received started es = ((fst (run_app app es), started'), snd (run_app app es))"
  using assms
proof (induction app arbitrary: received started es)
  case (AReceive k)
  obtain e es' where n: "next_event es = (e, es')" by fastforce
  then have es: "sum_list (map body_size es) = body_size e + sum_list (map body_size es')" and "0 \<le> body_size x" for x
    by (cases es; auto; cases x; simp)+
  then have "0 \<le> sum_list (map body_size es')" by (intro sum_list_nonneg) auto
  with es AReceive.prems have "received + body_size e \<le> max_bytes" by simp
  with AReceive.IH [of "k (Inr e)" "received + body_size e" es' started] AReceive.prems es n show ?case
    by (auto simp: Let_def split: prod.split)
next
  case (ASend m app)
  from ASend.IH [OF ASend.prems, of "started \<or> is_start m"] show ?case by (auto split: prod.split)
qed auto

text \<open>
  The limit does not disturb requests within it. A request whose body and declared length
  are within the limit is handled exactly as by the application alone.
\<close>

theorem small_requests_pass_unchanged:
  assumes "sum_list (map body_size es) \<le> max_bytes" and "\<And>n. content_length headers = Some n \<Longrightarrow> n \<le> max_bytes"
    and "fst (run_app app es) \<noteq> Raise PayloadTooLargeError"
  shows "payload_size_limit max_bytes is_http headers app es = run_app app es"
proof (cases is_http)
  case True
  have "\<not> (case content_length headers of None \<Rightarrow> False | Some n \<Rightarrow> n > max_bytes)"
    using assms(2) by (auto split: option.split)
  moreover obtain s where "run_limited app max_bytes 0 False es = ((fst (run_app app es), s), snd (run_app app es))"
    using limited_small [of 0 es max_bytes app False] assms(1) by auto
  ultimately show ?thesis using True assms(3) by (simp add: payload_size_limit_def split: prod.split)
qed (simp add: payload_size_limit_def)

text \<open>Every response carries all security headers, and those the handler set keep their value.\<close>

lemma set_default_keeps: "list_ex (\<lambda>x. py_lower (fst x) = k) hs \<Longrightarrow> list_ex (\<lambda>x. py_lower (fst x) = k) (set_default h hs)"
  by (auto simp: set_default_def)

lemma set_default_sets: "list_ex (\<lambda>x. py_lower (fst x) = py_lower (fst h)) (set_default h hs)"
  by (auto simp: set_default_def)

theorem security_headers_present:
  "list_all (\<lambda>h. list_ex (\<lambda>x. py_lower (fst x) = py_lower (fst h)) (security_headers_dispatch headers)) SECURITY_HEADERS \<and>
   take (length headers) (security_headers_dispatch headers) = headers"
proof
  show "list_all (\<lambda>h. list_ex (\<lambda>x. py_lower (fst x) = py_lower (fst h)) (security_headers_dispatch headers)) SECURITY_HEADERS"
    unfolding security_headers_dispatch_def SECURITY_HEADERS_def list.pred_inject fold.simps comp_def id_apply
    by (intro conjI) (rule set_default_sets | rule set_default_keeps | simp only: list.pred_inject)+
  have "take (length headers) (fold set_default hs headers) = headers" for hs
  proof -
    have "\<exists>more. fold set_default hs headers = headers @ more" 
      by (induction hs arbitrary: headers) (auto simp: set_default_def, metis append.assoc)
    then show ?thesis by auto
  qed
  then show "take (length headers) (security_headers_dispatch headers) = headers" by (simp add: security_headers_dispatch_def)
qed

section \<open>Examples\<close>

text \<open>An application that reads two messages and answers, and catches the limit's exception.\<close>

definition ex_app :: asgi_app where
  "ex_app = AReceive (\<lambda>_. AReceive (\<lambda>_. ASend (ResponseStart 200 []) AReturn))"

theorem body_limit_is_enforced_witness:
  "sum_list (map body_size (snd (snd (payload_size_limit 3 True [] ex_app [HttpRequest ''ab'' True, HttpRequest ''cd'' False])))) \<le> 3"
proof -
  let ?r = "payload_size_limit 3 True [] ex_app [HttpRequest ''ab'' True, HttpRequest ''cd'' False]"
  have "?r = (fst ?r, fst (snd ?r), snd (snd ?r))" by simp
  from body_limit_is_enforced [OF _ this] show ?thesis by simp
qed

theorem small_requests_pass_unchanged_witness:
  "payload_size_limit 4 True [(''content-length'', ''4'')] ex_app [HttpRequest ''ab'' True, HttpRequest ''cd'' False] =
   run_app ex_app [HttpRequest ''ab'' True, HttpRequest ''cd'' False]"
proof (rule small_requests_pass_unchanged)
  have "content_length [(''content-length'', ''4'')] = Some 4" by code_simp
  then show "n \<le> 4" if "content_length [(''content-length'', ''4'')] = Some n" for n using that by simp
qed (simp_all add: ex_app_def)

end
