(* ===== verification/Live_Stream.thy ===== *)
theory Live_Stream
  imports Outbox
begin

text \<open>
  The live stream of spans: \<^verbatim>\<open>PubSubManager\<close> of \<^verbatim>\<open>backend/app/services/pubsub.py\<close>, the client that
  \<^verbatim>\<open>get_redis\<close> of \<^verbatim>\<open>backend/app/core/redis.py\<close> creates and \<^verbatim>\<open>stream_spans\<close> of \<^verbatim>\<open>backend/app/api/v1/traces.py\<close>.
  The client library hands out texts either as bytes or, with \<^verbatim>\<open>decode_responses\<close>, as strings.
\<close>

section \<open>Messages\<close>

datatype py_text = PyBytes string | PyStr string

record pub_message =
  pmg_type :: string
  pmg_channel :: py_text
  pmg_data :: py_text

definition decode_responses :: bool where "decode_responses = True"

definition redis_message :: "bool \<Rightarrow> string \<Rightarrow> string \<Rightarrow> pub_message" where
  "redis_message decode channel data =
     (let wrap = (if decode then PyStr else PyBytes)
      in \<lparr>pmg_type = ''pmessage'', pmg_channel = wrap channel, pmg_data = wrap data\<rparr>)"

text \<open>\<^verbatim>\<open>x.decode()\<close>: strings have no such method.\<close>

fun py_decode :: "py_text \<Rightarrow> string outcome" where
  "py_decode (PyBytes s) = Ret s"
| "py_decode (PyStr s) = Raise ''AttributeError''"

text \<open>The channel \<^verbatim>\<open>deliver_span_outbox_events\<close> publishes to.\<close>

definition new_span_channel :: "uuid \<Rightarrow> string" where
  "new_span_channel project_id = ''project:'' @ project_id @ '':new_span''"

section \<open>The manager\<close>

text \<open>Subscribers by project, the waiting items of each queue, and the next fresh queue.\<close>

record live_state =
  lv_queues :: "uuid \<Rightarrow> nat list"
  lv_items :: "nat \<Rightarrow> string list"
  lv_next :: nat

definition QUEUE_MAXSIZE :: nat where "QUEUE_MAXSIZE = 50"

definition subscribe :: "uuid \<Rightarrow> live_state \<Rightarrow> nat \<times> live_state" where
  "subscribe project_id st =
     (let q = lv_next st
      in (q, st\<lparr>lv_queues := (lv_queues st)(project_id := lv_queues st project_id @ [q]),
               lv_items := (lv_items st)(q := []), lv_next := q + 1\<rparr>))"

definition unsubscribe :: "uuid \<Rightarrow> nat \<Rightarrow> live_state \<Rightarrow> live_state" where
  "unsubscribe project_id q st =
     st\<lparr>lv_queues := (lv_queues st)(project_id := filter (\<lambda>x. x \<noteq> q) (lv_queues st project_id))\<rparr>"

text \<open>\<^verbatim>\<open>put_nowait\<close> with \<^verbatim>\<open>QueueFull\<close> ignored.\<close>

definition put_nowait :: "string \<Rightarrow> nat \<Rightarrow> live_state \<Rightarrow> live_state" where
  "put_nowait data q st =
     (if QUEUE_MAXSIZE \<le> length (lv_items st q) then st
      else st\<lparr>lv_items := (lv_items st)(q := lv_items st q @ [data])\<rparr>)"

text \<open>One message of the listener's inner loop.\<close>

definition listen_message :: "pub_message \<Rightarrow> live_state \<Rightarrow> live_state outcome" where
  "listen_message msg st =
     (if pmg_type msg \<noteq> ''pmessage'' then Ret st
      else case py_decode (pmg_channel msg) of
             Raise e \<Rightarrow> Raise e
           | Ret channel \<Rightarrow>
               (case py_split (CHR '':'') channel of
                  _ # project_id # _ \<Rightarrow>
                    (case py_decode (pmg_data msg) of
                       Raise e \<Rightarrow> Raise e
                     | Ret data \<Rightarrow> Ret (fold (put_nowait data) (lv_queues st project_id) st))
                | _ \<Rightarrow> Raise ''IndexError''))"

text \<open>The outer loop: an exception is logged and the listener subscribes again.\<close>

fun listen :: "pub_message list \<Rightarrow> live_state \<Rightarrow> live_state" where
  "listen [] st = st"
| "listen (msg # msgs) st = (case listen_message msg st of Ret st' \<Rightarrow> listen msgs st' | Raise e \<Rightarrow> listen msgs st)"

text \<open>One turn of the generator of \<^verbatim>\<open>stream_spans\<close>: the next item, or a comment after the timeout.\<close>

definition stream_next :: "nat \<Rightarrow> live_state \<Rightarrow> string \<times> live_state" where
  "stream_next q st =
     (case lv_items st q of
        [] \<Rightarrow> ('': keepalive'' @ [CHR 0x0A, CHR 0x0A], st)
      | data # rest \<Rightarrow> (''data: '' @ data @ [CHR 0x0A, CHR 0x0A], st\<lparr>lv_items := (lv_items st)(q := rest)\<rparr>))"

section \<open>What subscribers receive\<close>

lemma outbox_channel: "channel_of e = new_span_channel (ob_project_id e)"
  by (simp add: channel_of_def new_span_channel_def)

lemma split_channel:
  assumes "CHR '':'' \<notin> set p"
  shows "py_split (CHR '':'') (new_span_channel p) = [''project'', p, ''new_span'']"
proof -
  have "py_split d (a @ d # b) = a # py_split d b" if "d \<notin> set a" for d and a b :: string
    using that by (induction a) auto
  from this [of "CHR '':''" "''project''" "p @ '':new_span''"] this [OF assms, of "''new_span''"]
  show ?thesis by (simp add: new_span_channel_def)
qed

lemma put_all:
  "distinct qs \<Longrightarrow> lv_items (fold (put_nowait d) qs st) q =
     lv_items st q @ (if q \<in> set qs \<and> length (lv_items st q) < QUEUE_MAXSIZE then [d] else [])"
  "lv_queues (fold (put_nowait d) qs st) = lv_queues st"
  by (induction qs arbitrary: st) (auto simp: put_nowait_def)

text \<open>
  With a client that hands out bytes, the stream works: a subscriber gets the spans published
  for its project after it subscribed, in order and each once, up to the fifty its queue holds,
  and nothing published for another project.
\<close>

theorem bytes_client_delivers:
  assumes "\<And>p. distinct (lv_queues st p)" and "list_all (\<lambda>m. CHR '':'' \<notin> set (fst m)) pubs"
  shows "lv_items (listen (map (\<lambda>m. redis_message False (new_span_channel (fst m)) (snd m)) pubs) st) q =
    lv_items st q @ take (QUEUE_MAXSIZE - length (lv_items st q)) (map snd (filter (\<lambda>m. q \<in> set (lv_queues st (fst m))) pubs))"
  using assms
proof (induction pubs arbitrary: st)
  case (Cons m pubs)
  define st1 where "st1 = fold (put_nowait (snd m)) (lv_queues st (fst m)) st"
  have step: "listen_message (redis_message False (new_span_channel (fst m)) (snd m)) st = Ret st1"
    using Cons.prems(2) by (simp add: listen_message_def redis_message_def split_channel st1_def)
  have st1: "lv_queues st1 = lv_queues st"
    "lv_items st1 q = lv_items st q @ (if q \<in> set (lv_queues st (fst m)) \<and> length (lv_items st q) < QUEUE_MAXSIZE then [snd m] else [])"
    using put_all(1) [OF Cons.prems(1)] put_all(2) by (simp_all add: st1_def)
  have "list_all (\<lambda>m. CHR '':'' \<notin> set (fst m)) pubs" using Cons.prems(2) by simp
  from Cons.IH [OF _ this, of st1] Cons.prems(1) step st1 show ?case
    by (cases "QUEUE_MAXSIZE - length (lv_items st q)") (auto simp: diff_Suc)
qed simp

text \<open>
  With the client the backend creates, the live stream delivers nothing. That client decodes
  responses, so the listener calls \<^verbatim>\<open>decode\<close> on a string; every published span, whatever its project,
  ends in the handler of exceptions and no queue ever receives an item.
\<close>

theorem backend_client_delivers_nothing:
  "listen (map (\<lambda>m. redis_message decode_responses (fst m) (snd m)) pubs) st = st"
  by (induction pubs) (simp_all add: listen_message_def redis_message_def decode_responses_def)

section \<open>Example\<close>

definition ex_live :: live_state where
  "ex_live = snd (subscribe ''p1'' \<lparr>lv_queues = (\<lambda>_. []), lv_items = (\<lambda>_. []), lv_next = 0\<rparr>)"

theorem bytes_client_delivers_witness:
  "lv_items (listen (map (\<lambda>m. redis_message False (new_span_channel (fst m)) (snd m)) [(''p1'', ''x''), (''p2'', ''y'')]) ex_live) 0 = [''x'']"
proof -
  have "distinct (lv_queues ex_live p)" for p by (simp add: ex_live_def subscribe_def)
  from bytes_client_delivers [OF this, of "[(''p1'', ''x''), (''p2'', ''y'')]" 0] show ?thesis
    by (simp add: ex_live_def subscribe_def QUEUE_MAXSIZE_def)
qed

end
