(* ===== verification/Health.thy ===== *)
theory Health
  imports Redis_Client Py_Numbers
begin

text \<open>
  Readiness and the worker's heartbeat: \<^verbatim>\<open>backend/app/api/v1/health.py\<close> and
  \<^verbatim>\<open>backend/app/workers/health.py\<close>. A probe of a dependency returns or raises; the ISO text of an
  instant and its parser are parameters. The detail of a refusal is kept as a value.
\<close>

section \<open>Readiness\<close>

record dependency_check =
  dc_status :: string
  dc_critical :: bool

definition dependency :: "string \<Rightarrow> bool \<Rightarrow> dependency_check" where
  "dependency status critical = \<lparr>dc_status = status, dc_critical = critical\<rparr>"

definition liveness :: string where "liveness = ''ok''"

text \<open>The outcomes of the probes of Postgres, the bucket (with its status) and the two Redis servers.\<close>

record probes =
  pb_postgres :: "unit outcome"
  pb_s3 :: "string outcome"
  pb_redis_cache :: "unit outcome"
  pb_redis_queue :: "unit outcome"

fun critical_check :: "unit outcome \<Rightarrow> dependency_check" where
  "critical_check (Ret _) = dependency ''ok'' True"
| "critical_check (Raise e) = dependency ''error'' True"

fun s3_check :: "string outcome \<Rightarrow> dependency_check" where
  "s3_check (Ret status) = dependency status False"
| "s3_check (Raise e) = dependency ''degraded'' False"

definition readiness :: "probes \<Rightarrow> nat \<times> (string \<times> dependency_check) list + (string \<times> dependency_check) list" where
  "readiness p =
     (let checks = [(''postgres'', critical_check (pb_postgres p)), (''s3'', s3_check (pb_s3 p)),
                    (''redis_cache'', critical_check (pb_redis_cache p)), (''redis_queue'', critical_check (pb_redis_queue p))];
          ok = list_all (\<lambda>r. r = Ret ()) [pb_postgres p, pb_redis_cache p, pb_redis_queue p]
      in if \<not> ok then Inl (503, checks) else Inr checks)"

section \<open>The worker's heartbeat\<close>

definition WORKER_HEARTBEAT_KEY :: string where
  "WORKER_HEARTBEAT_KEY = ''llmobs:health:worker:last_seen''"

definition write_worker_heartbeat ::
  "('r, string) redis \<Rightarrow> (time \<Rightarrow> string) \<Rightarrow> int \<Rightarrow> time \<Rightarrow> 'r \<Rightarrow> string \<times> 'r" where
  "write_worker_heartbeat R isoformat ttl_seconds now r =
     (let seen_at = isoformat now in (seen_at, r_setex R now WORKER_HEARTBEAT_KEY ttl_seconds seen_at r))"

definition record_worker_heartbeat ::
  "('r, string) redis \<Rightarrow> (time \<Rightarrow> string) \<Rightarrow> int \<Rightarrow> time \<Rightarrow> 'r \<Rightarrow> 'r" where
  "record_worker_heartbeat R isoformat ttl_seconds now r = snd (write_worker_heartbeat R isoformat ttl_seconds now r)"

datatype worker_report =
    RedisError
  | Missing int
  | Invalid string int
  | Stale string int int
  | Alive string int int

text \<open>Each report but the last is raised with status 503.\<close>

definition worker_health ::
  "('r, string) redis \<Rightarrow> bool \<Rightarrow> (time \<Rightarrow> string) \<Rightarrow> (string \<Rightarrow> time option) \<Rightarrow> int \<Rightarrow> time \<Rightarrow> 'r \<Rightarrow> nat \<times> worker_report + worker_report" where
  "worker_health R redis_raises isoformat fromisoformat max_age now r =
     (if redis_raises then Inl (503, RedisError)
      else
        (let last_seen_raw = r_get R now WORKER_HEARTBEAT_KEY r
         in if \<not> truthy last_seen_raw then Inl (503, Missing max_age)
            else case fromisoformat (the last_seen_raw) of
                   None \<Rightarrow> Inl (503, Invalid (the last_seen_raw) max_age)
                 | Some last_seen \<Rightarrow>
                     (let age_seconds = max 0 ((now - last_seen) div 1000000)
                      in if age_seconds > max_age then Inl (503, Stale (isoformat last_seen) age_seconds max_age)
                         else Inr (Alive (isoformat last_seen) age_seconds max_age))))"

section \<open>Properties\<close>

text \<open>The object store is not critical: readiness depends on the database and the two Redis servers
  alone, and a refusal shows which of them failed.\<close>

lemma readiness_spec:
  "(\<exists>checks. readiness p = Inr checks) \<longleftrightarrow> pb_postgres p = Ret () \<and> pb_redis_cache p = Ret () \<and> pb_redis_queue p = Ret ()"
  "readiness p = Inl (code, checks) \<Longrightarrow> code = 503 \<and> list_ex (\<lambda>c. dc_critical (snd c) \<and> dc_status (snd c) = ''error'') checks"
proof -
  show "(\<exists>checks. readiness p = Inr checks) \<longleftrightarrow> pb_postgres p = Ret () \<and> pb_redis_cache p = Ret () \<and> pb_redis_queue p = Ret ()"
    by (auto simp: readiness_def Let_def)
  have "critical_check r = dependency ''ok'' True \<longleftrightarrow> r = Ret ()" "r \<noteq> Ret () \<Longrightarrow> critical_check r = dependency ''error'' True" for r
    by (cases r; simp add: dependency_def)+
  then show "readiness p = Inl (code, checks) \<Longrightarrow> code = 503 \<and> list_ex (\<lambda>c. dc_critical (snd c) \<and> dc_status (snd c) = ''error'') checks"
    by (auto simp: readiness_def Let_def dependency_def split: if_splits)
qed

text \<open>
  The health of the worker is what its last heartbeat says. After a heartbeat at some instant,
  and until the next one, the worker is reported alive exactly while that heartbeat is not older
  than the configured age in whole seconds; later it is reported stale, and missing once the
  key has expired.
\<close>

theorem worker_health_follows_heartbeat:
  assumes "redis_store R" and "\<And>t. fromisoformat (isoformat t) = Some t" and "\<And>t. isoformat t \<noteq> []"
    and "0 \<le> max_age" and "max_age < ttl" and "t \<le> now"
    and "r' = record_worker_heartbeat R isoformat ttl t r"
  shows "worker_health R False isoformat fromisoformat max_age now r' =
    (let age = (now - t) div 1000000
     in if age \<le> max_age then Inr (Alive (isoformat t) age max_age)
        else if age < ttl then Inl (503, Stale (isoformat t) age max_age) else Inl (503, Missing max_age))"
proof -
  define age where "age = (now - t) div 1000000"
  have age: "0 \<le> age" using assms(6) by (simp add: age_def pos_imp_zdiv_nonneg_iff)
  have live: "now < t + seconds ttl \<longleftrightarrow> age < ttl"
  proof -
    have "now - t = 1000000 * age + (now - t) mod 1000000" "0 \<le> (now - t) mod 1000000" "(now - t) mod 1000000 < 1000000"
      by (simp_all add: age_def)
    then show ?thesis by linarith
  qed
  have r': "r' = r_setex R t WORKER_HEARTBEAT_KEY ttl (isoformat t) r"
    by (simp add: assms(7) record_worker_heartbeat_def write_worker_heartbeat_def Let_def)
  have get: "r_get R now WORKER_HEARTBEAT_KEY r' = (if age < ttl then Some (isoformat t) else None)"
  proof (cases "age < ttl")
    case True
    with live redis_store.get_setex_live [OF assms(1)] r' show ?thesis by simp
  next
    case False
    have "redis_cache R" using assms(1) by (simp add: redis_store_def)
    note expired = redis_cache.get_setex [OF this, of now WORKER_HEARTBEAT_KEY t WORKER_HEARTBEAT_KEY ttl "isoformat t" r]
    have "r_get R now WORKER_HEARTBEAT_KEY r' = None"
    proof (rule ccontr)
      assume "r_get R now WORKER_HEARTBEAT_KEY r' \<noteq> None"
      then obtain v where "r_get R now WORKER_HEARTBEAT_KEY r' = Some v" by auto
      with expired [of v] False live show False by (simp add: r')
    qed
    with False show ?thesis by simp
  qed
  have m: "max 0 ((now - t) div 1000000) = age" using age by (simp add: age_def)
  show ?thesis
  proof (cases "age < ttl")
    case True
    then have "truthy (r_get R now WORKER_HEARTBEAT_KEY r')" "the (r_get R now WORKER_HEARTBEAT_KEY r') = isoformat t"
      using get assms(3) by simp_all
    with True show ?thesis unfolding worker_health_def Let_def age_def [symmetric] by (simp add: assms(2) m not_le)
  next
    case False
    with get have "\<not> truthy (r_get R now WORKER_HEARTBEAT_KEY r')" by simp
    with False assms(5) show ?thesis unfolding worker_health_def Let_def age_def [symmetric] by simp
  qed
qed

text \<open>In the example instants are printed as decimal numbers.\<close>

theorem worker_health_follows_heartbeat_witness:
  "worker_health mem_redis False py_str_int py_int 180 200000000 (record_worker_heartbeat mem_redis py_str_int 300 0 [])
     = Inl (503, Stale ''0'' 200 180)"
proof -
  have "redis_store mem_redis" by unfold_locales
  moreover have "py_str_int 0 = ''0''" by code_simp
  ultimately show ?thesis
    using worker_health_follows_heartbeat [OF _ py_int_str_int py_str_int_nonempty _ _ _ refl, of mem_redis 180 300 0 200000000 "[]"]
    by simp
qed

end
