(* ===== verification/Otlp.thy ===== *)
theory Otlp
  imports Ingest Rate_Limit Py_Numbers
begin

text \<open>
  The OpenTelemetry endpoint: \<^verbatim>\<open>OTLPConverter\<close> of \<^verbatim>\<open>backend/app/services/otlp.py\<close> and \<^verbatim>\<open>receive_otlp\<close> of
  \<^verbatim>\<open>backend/app/api/v1/otlp.py\<close>. An export comes as JSON text or as a protobuf message. The JSON
  parser, the generated protobuf classes, \<^verbatim>\<open>float\<close> and \<^verbatim>\<open>str\<close> on JSON values and
  \<^verbatim>\<open>datetime.fromtimestamp\<close> are parameters; a message of the generated classes is a record. Any exception
  inside the converter makes it return nothing, so \<open>None\<close> stands for every one of them. Numbers with
  a fraction are exact.
\<close>

section \<open>Values\<close>

text \<open>\<^verbatim>\<open>oe_key\<close> is the text of a value used as a dictionary key; \<open>None\<close> if the value is not hashable.\<close>

record otlp_env =
  oe_float :: "json \<Rightarrow> json option"
  oe_str :: "json \<Rightarrow> string"
  oe_key :: "json \<Rightarrow> string option"
  oe_fromtimestamp :: "int \<Rightarrow> time option"

definition parse_int :: "json \<Rightarrow> int \<Rightarrow> int" where
  "parse_int value dflt = (case py_int_of value of None \<Rightarrow> dflt | Some i \<Rightarrow> i)"

definition JSON_FIELD_ALIASES :: "(string \<times> string) list" where
  "JSON_FIELD_ALIASES =
     [(''trace_id'', ''traceId''), (''span_id'', ''spanId''), (''parent_span_id'', ''parentSpanId''),
      (''start_time_unix_nano'', ''startTimeUnixNano''), (''end_time_unix_nano'', ''endTimeUnixNano'')]"

text \<open>\<^verbatim>\<open>_get_field\<close> on a JSON value.\<close>

fun get_field :: "json \<Rightarrow> string \<Rightarrow> json" where
  "get_field (JObj m) field =
     (case map_of m (case map_of JSON_FIELD_ALIASES field of None \<Rightarrow> field | Some a \<Rightarrow> a) of
        Some v \<Rightarrow> v
      | None \<Rightarrow> (case map_of m field of Some v \<Rightarrow> v | None \<Rightarrow> JNull))"
| "get_field _ field = JNull"

definition get_id :: "otlp_env \<Rightarrow> json \<Rightarrow> string \<Rightarrow> string" where
  "get_id E sp field = (let v = get_field sp field in if v = JNull \<or> v = JStr [] then [] else oe_str E v)"

definition get_str :: "otlp_env \<Rightarrow> json \<Rightarrow> string \<Rightarrow> string" where
  "get_str E sp field = (let v = get_field sp field in if v = JNull then [] else oe_str E v)"

section \<open>Attributes\<close>

lemma size_map_of: "map_of m k = Some (v :: json) \<Longrightarrow> size v < size_list (size_prod (\<lambda>_. 0) size) m"
  by (induction m) (auto split: if_splits)

lemma size_in_list: "x \<in> set xs \<Longrightarrow> size (x :: json) < Suc (size_list size xs)"
  by (induction xs) auto

declare json.case_cong [fundef_cong]

text \<open>
  \<^verbatim>\<open>_decode_any_value\<close> on JSON. A value that is no dictionary has no \<^verbatim>\<open>WhichOneof\<close>; an entry list that is
  no array can only be iterated if it is empty, since its elements would be such values.
\<close>

function decode_any_value :: "otlp_env \<Rightarrow> json \<Rightarrow> json option" where
  "decode_any_value E (JObj m) =
     (case map_of m ''stringValue'' of Some v \<Rightarrow> Some v | None \<Rightarrow>
      case map_of m ''boolValue'' of Some v \<Rightarrow> Some v | None \<Rightarrow>
      case map_of m ''intValue'' of Some v \<Rightarrow> Some (JInt (parse_int v 0)) | None \<Rightarrow>
      case map_of m ''doubleValue'' of Some v \<Rightarrow> oe_float E v | None \<Rightarrow>
      case map_of m ''arrayValue'' of
        Some (JObj a) \<Rightarrow>
          (case map_of a ''values'' of
             None \<Rightarrow> Some (JArr [])
           | Some (JArr xs) \<Rightarrow> map_option JArr (those (map (decode_any_value E) xs))
           | Some v \<Rightarrow> if v = JObj [] \<or> v = JStr [] then Some (JArr []) else None)
      | Some v \<Rightarrow> None
      | None \<Rightarrow>
      case map_of m ''kvlistValue'' of
        Some (JObj a) \<Rightarrow>
          (case map_of a ''values'' of
             None \<Rightarrow> Some (JObj [])
           | Some (JArr items) \<Rightarrow>
               map_option (\<lambda>kvs. JObj (py_dict kvs)) (those (map (\<lambda>item.
                 case item of
                   JObj i \<Rightarrow>
                     (case (case map_of i ''key'' of None \<Rightarrow> Some [] | Some k \<Rightarrow> oe_key E k) of
                        None \<Rightarrow> None
                      | Some k \<Rightarrow>
                          (case map_of i ''value'' of
                             None \<Rightarrow> Some (k, JNull)
                           | Some v \<Rightarrow> map_option (Pair k) (decode_any_value E v)))
                 | _ \<Rightarrow> None) items))
           | Some v \<Rightarrow> if v = JObj [] \<or> v = JStr [] then Some (JObj []) else None)
      | Some v \<Rightarrow> None
      | None \<Rightarrow>
      case map_of m ''bytesValue'' of Some v \<Rightarrow> Some (JStr (oe_str E v)) | None \<Rightarrow> Some JNull)"
| "decode_any_value E JNull = None"
| "decode_any_value E (JBool b) = None"
| "decode_any_value E (JInt i) = None"
| "decode_any_value E (JFloat r) = None"
| "decode_any_value E (JStr s) = None"
| "decode_any_value E (JArr xs) = None"
  by pat_completeness auto
termination
  by (relation "measure (\<lambda>(E, v). size v)") (fastforce dest!: size_map_of size_in_list)+

text \<open>One entry \<^verbatim>\<open>{"key": ..., "value": ...}\<close> of an attribute list.\<close>

fun decode_entry :: "otlp_env \<Rightarrow> json \<Rightarrow> (string \<times> json) option" where
  "decode_entry E (JObj a) =
     (case (case map_of a ''key'' of None \<Rightarrow> Some [] | Some k \<Rightarrow> oe_key E k,
            decode_any_value E (case map_of a ''value'' of None \<Rightarrow> JObj [] | Some v \<Rightarrow> v)) of
        (Some k, Some v) \<Rightarrow> Some (k, v)
      | _ \<Rightarrow> None)"
| "decode_entry E _ = None"

definition get_attrs :: "otlp_env \<Rightarrow> json \<Rightarrow> (string \<times> json) list option" where
  "get_attrs E sp =
     (case sp of
        JObj m \<Rightarrow>
          (case map_of m ''attributes'' of
             None \<Rightarrow> Some []
           | Some (JArr entries) \<Rightarrow> map_option py_dict (those (map (decode_entry E) entries))
           | Some v \<Rightarrow> if v = JObj [] \<or> v = JStr [] then Some [] else None)
      | _ \<Rightarrow> None)"

definition GENAI_PROVIDER_ATTRIBUTES :: "string list" where
  "GENAI_PROVIDER_ATTRIBUTES = [''gen_ai.provider.name'', ''gen_ai.system'']"
definition GENAI_MODEL_ATTRIBUTES :: "string list" where
  "GENAI_MODEL_ATTRIBUTES = [''gen_ai.response.model'', ''gen_ai.request.model'']"
definition GENAI_INPUT_TOKEN_ATTRIBUTES :: "string list" where
  "GENAI_INPUT_TOKEN_ATTRIBUTES = [''gen_ai.usage.input_tokens'', ''gen_ai.usage.prompt_tokens'']"
definition GENAI_OUTPUT_TOKEN_ATTRIBUTES :: "string list" where
  "GENAI_OUTPUT_TOKEN_ATTRIBUTES = [''gen_ai.usage.output_tokens'', ''gen_ai.usage.completion_tokens'']"

fun get_attr_str :: "otlp_env \<Rightarrow> (string \<times> json) list \<Rightarrow> string list \<Rightarrow> string \<Rightarrow> string" where
  "get_attr_str E attrs [] dflt = dflt"
| "get_attr_str E attrs (name # names) dflt =
     (case map_of attrs name of
        Some v \<Rightarrow> if v \<noteq> JNull \<and> v \<noteq> JStr [] then oe_str E v else get_attr_str E attrs names dflt
      | None \<Rightarrow> get_attr_str E attrs names dflt)"

fun get_attr_int :: "(string \<times> json) list \<Rightarrow> string list \<Rightarrow> int" where
  "get_attr_int attrs [] = 0"
| "get_attr_int attrs (name # names) = (case map_of attrs name of Some v \<Rightarrow> parse_int v 0 | None \<Rightarrow> get_attr_int attrs names)"

section \<open>Spans\<close>

definition STATUS_CODE_ERROR :: int where "STATUS_CODE_ERROR = 2"

definition status_error :: "int \<Rightarrow> string \<Rightarrow> string option" where
  "status_error code message =
     (if code \<noteq> STATUS_CODE_ERROR then None
      else Some (let m = py_strip message in if m = [] then ''OTLP span status ERROR'' else m))"

definition get_status_error :: "otlp_env \<Rightarrow> json \<Rightarrow> string option" where
  "get_status_error E sp =
     (let status = get_field sp ''status''
      in if status = JNull then None
         else status_error (parse_int (get_field status ''code'') 0) (get_str E status ''message''))"

definition nano_field :: "json \<Rightarrow> string \<Rightarrow> int option" where
  "nano_field sp field = (let v = get_field sp field in py_int_of (if py_falsy v then JInt 0 else v))"

text \<open>The dictionary appended for a span, from its parts.\<close>

definition span_dict ::
  "otlp_env \<Rightarrow> (string \<times> json) list \<Rightarrow> string \<Rightarrow> string \<Rightarrow> string \<Rightarrow> string \<Rightarrow> string option \<Rightarrow> int \<Rightarrow> int \<Rightarrow> time \<Rightarrow> raw_span" where
  "span_dict E attrs span_id trace_id parent_span_id name error start stop started_at =
     \<lparr>rs_span_id = Some span_id, rs_trace_id = trace_id,
      rs_parent_span_id = (if parent_span_id = [] then None else Some parent_span_id), rs_name = Some name,
      rs_provider = get_attr_str E attrs GENAI_PROVIDER_ATTRIBUTES ''custom'',
      rs_model = get_attr_str E attrs GENAI_MODEL_ATTRIBUTES ''unknown'',
      rs_input_messages = None, rs_output = None, rs_error = error,
      rs_input_tokens = Some (get_attr_int attrs GENAI_INPUT_TOKEN_ATTRIBUTES),
      rs_output_tokens = Some (get_attr_int attrs GENAI_OUTPUT_TOKEN_ATTRIBUTES),
      rs_latency_ms = of_int (stop - start) / 1000000, rs_started_at = started_at, rs_metadata = Some attrs\<rparr>"

definition convert_json_span :: "otlp_env \<Rightarrow> json \<Rightarrow> raw_span option" where
  "convert_json_span E sp =
     (case get_attrs E sp of
        None \<Rightarrow> None
      | Some attrs \<Rightarrow>
          (case (nano_field sp ''start_time_unix_nano'', nano_field sp ''end_time_unix_nano'') of
             (Some start, Some stop) \<Rightarrow>
               map_option (span_dict E attrs (get_id E sp ''span_id'') (get_id E sp ''trace_id'') (get_id E sp ''parent_span_id'')
                 (get_str E sp ''name'') (get_status_error E sp) start stop) (oe_fromtimestamp E start)
           | _ \<Rightarrow> None))"

text \<open>\<^verbatim>\<open>for x in v.get(field, [])\<close>: the elements; a value that is no dictionary has no \<^verbatim>\<open>get\<close>, and a
  dictionary or string is iterated over its keys or characters.\<close>

fun py_iter :: "json \<Rightarrow> json list option" where
  "py_iter (JArr xs) = Some xs"
| "py_iter (JObj m) = Some (map (JStr \<circ> fst) m)"
| "py_iter (JStr s) = Some (map (\<lambda>c. JStr [c]) s)"
| "py_iter _ = None"

fun iter_get :: "json \<Rightarrow> string \<Rightarrow> json list option" where
  "iter_get (JObj m) field = (case map_of m field of None \<Rightarrow> Some [] | Some v \<Rightarrow> py_iter v)"
| "iter_get _ field = None"

definition try_concat :: "('a \<Rightarrow> 'b list option) \<Rightarrow> 'a list \<Rightarrow> 'b list option" where
  "try_concat f xs = map_option concat (those (map f xs))"

definition parse_json :: "otlp_env \<Rightarrow> json \<Rightarrow> raw_span list option" where
  "parse_json E data =
     Option.bind (iter_get data ''resourceSpans'') (try_concat (\<lambda>rs.
       Option.bind (iter_get rs ''scopeSpans'') (try_concat (\<lambda>ss.
         Option.bind (iter_get ss ''spans'') (\<lambda>spans. those (map (convert_json_span E) spans))))))"

section \<open>Protobuf messages\<close>

datatype any_value =
    AvNone
  | AvString string
  | AvBool bool
  | AvInt int
  | AvDouble rat
  | AvArray "any_value list"
  | AvKvlist "(string \<times> any_value) list"
  | AvBytes string

fun decode_proto_value :: "any_value \<Rightarrow> json" where
  "decode_proto_value AvNone = JNull"
| "decode_proto_value (AvString s) = JStr s"
| "decode_proto_value (AvBool b) = JBool b"
| "decode_proto_value (AvInt i) = JInt i"
| "decode_proto_value (AvDouble r) = JFloat r"
| "decode_proto_value (AvArray vs) = JArr (map decode_proto_value vs)"
| "decode_proto_value (AvKvlist kvs) = JObj (py_dict (map (\<lambda>(k, v). (k, decode_proto_value v)) kvs))"
| "decode_proto_value (AvBytes b) = JStr (bytes_hex b)"

record proto_span =
  ot_trace_id :: string
  ot_span_id :: string
  ot_parent_span_id :: string
  ot_name :: string
  ot_start_time_unix_nano :: int
  ot_end_time_unix_nano :: int
  ot_attributes :: "(string \<times> any_value) list"
  ot_status_code :: int
  ot_status_message :: string

text \<open>Resource spans hold scope spans, which hold spans.\<close>

type_synonym proto_request = "proto_span list list list"

text \<open>An empty attribute list is false, so \<^verbatim>\<open>_get_attrs\<close> goes on to \<^verbatim>\<open>span.get\<close>, which a message does not have.\<close>

definition convert_proto_span :: "otlp_env \<Rightarrow> proto_span \<Rightarrow> raw_span option" where
  "convert_proto_span E sp =
     (if ot_attributes sp = [] then None
      else map_option (span_dict E (py_dict (map (\<lambda>(k, v). (k, decode_proto_value v)) (ot_attributes sp)))
             (bytes_hex (ot_span_id sp)) (bytes_hex (ot_trace_id sp)) (bytes_hex (ot_parent_span_id sp)) (ot_name sp)
             (status_error (ot_status_code sp) (ot_status_message sp))
             (ot_start_time_unix_nano sp) (ot_end_time_unix_nano sp)) (oe_fromtimestamp E (ot_start_time_unix_nano sp)))"

definition parse_proto :: "otlp_env \<Rightarrow> proto_request \<Rightarrow> raw_span list option" where
  "parse_proto E req = try_concat (try_concat (\<lambda>spans. those (map (convert_proto_span E) spans))) req"

section \<open>The endpoint\<close>

text \<open>\<open>loads\<close> is \<^verbatim>\<open>json.loads\<close> and \<open>from_string\<close> the protobuf parser.\<close>

definition parse_export ::
  "otlp_env \<Rightarrow> (string \<Rightarrow> json option) \<Rightarrow> (string \<Rightarrow> proto_request option) \<Rightarrow> string \<Rightarrow> string \<Rightarrow> raw_span list option" where
  "parse_export E loads from_string body content_type =
     (if py_contains ''application/x-protobuf'' content_type then Option.bind (from_string body) (parse_proto E)
      else Option.bind (loads body) (parse_json E))"

datatype otlp_response = ParseFailed | Accepted | PartialSuccess nat string

fun join_semicolon :: "string list \<Rightarrow> string" where
  "join_semicolon [] = []"
| "join_semicolon [x] = x"
| "join_semicolon (x # y # xs) = x @ ''; '' @ join_semicolon (y # xs)"

text \<open>\<open>validate\<close> is the schema (\<^verbatim>\<open>validate_span\<close>) and \<open>error_msg\<close> the message of its first error.\<close>

definition receive_otlp ::
  "otlp_env \<Rightarrow> (string \<Rightarrow> json option) \<Rightarrow> (string \<Rightarrow> proto_request option) \<Rightarrow> (raw_span \<Rightarrow> span_schema option) \<Rightarrow> (raw_span \<Rightarrow> string)
     \<Rightarrow> 'z zset_ops \<Rightarrow> int \<Rightarrow> string \<Rightarrow> ('r, batch_status) redis \<Rightarrow> ingest_env \<Rightarrow> uuid \<Rightarrow> string \<Rightarrow> string
     \<Rightarrow> 'z \<times> ('s, 'r) ingest_state \<Rightarrow> (http_error + otlp_response) \<times> 'z \<times> ('s, 'r) ingest_state" where
  "receive_otlp E loads from_string validate error_msg Z limit member R env project_id body content_type s =
     (case rate_limiter_check Z limit (en_now env) member project_id (fst s) of
        (Inl e, _, z) \<Rightarrow> (Inl e, z, snd s)
      | (Inr _, _, z) \<Rightarrow>
          (case parse_export E loads from_string body content_type of
             None \<Rightarrow> (Inr ParseFailed, z, snd s)
           | Some spans \<Rightarrow>
               (let accepted_spans = List.map_filter validate spans;
                    rejected = filter (\<lambda>r. validate r = None) spans;
                    (res, st) = (if accepted_spans = [] then (Ret [], snd s)
                                 else accept_batch R env project_id accepted_spans None (snd s))
                in case res of
                     Raise e \<Rightarrow> (Inl (Unhandled e), z, st)
                   | Ret _ \<Rightarrow>
                       (Inr (if rejected = [] then Accepted
                             else PartialSuccess (length rejected) (join_semicolon (take 3 (map error_msg rejected)))), z, st))))"

section \<open>Both encodings mean the same\<close>

text \<open>The JSON encoding of OTLP: identifiers in hexadecimal, 64-bit numbers as decimal texts.\<close>

fun json_of_value :: "any_value \<Rightarrow> json" where
  "json_of_value AvNone = JObj []"
| "json_of_value (AvString s) = JObj [(''stringValue'', JStr s)]"
| "json_of_value (AvBool b) = JObj [(''boolValue'', JBool b)]"
| "json_of_value (AvInt i) = JObj [(''intValue'', JStr (py_str_int i))]"
| "json_of_value (AvDouble r) = JObj [(''doubleValue'', JFloat r)]"
| "json_of_value (AvArray vs) = JObj [(''arrayValue'', JObj [(''values'', JArr (map json_of_value vs))])]"
| "json_of_value (AvKvlist kvs) =
     JObj [(''kvlistValue'', JObj [(''values'', JArr (map (\<lambda>(k, v). JObj [(''key'', JStr k), (''value'', json_of_value v)]) kvs))])]"
| "json_of_value (AvBytes b) = JObj [(''bytesValue'', JStr b)]"

fun no_bytes :: "any_value \<Rightarrow> bool" where
  "no_bytes (AvArray vs) = list_all no_bytes vs"
| "no_bytes (AvKvlist kvs) = list_all (\<lambda>(k, v). no_bytes v) kvs"
| "no_bytes (AvBytes b) = False"
| "no_bytes _ = True"

definition json_of_entry :: "string \<times> any_value \<Rightarrow> json" where
  "json_of_entry e = JObj [(''key'', JStr (fst e)), (''value'', json_of_value (snd e))]"

definition json_of_span :: "proto_span \<Rightarrow> json" where
  "json_of_span sp =
     JObj [(''traceId'', JStr (bytes_hex (ot_trace_id sp))), (''spanId'', JStr (bytes_hex (ot_span_id sp))),
           (''parentSpanId'', JStr (bytes_hex (ot_parent_span_id sp))), (''name'', JStr (ot_name sp)),
           (''startTimeUnixNano'', JStr (py_str_int (ot_start_time_unix_nano sp))),
           (''endTimeUnixNano'', JStr (py_str_int (ot_end_time_unix_nano sp))),
           (''attributes'', JArr (map json_of_entry (ot_attributes sp))),
           (''status'', JObj [(''code'', JInt (ot_status_code sp)), (''message'', JStr (ot_status_message sp))])]"

definition json_of_request :: "proto_request \<Rightarrow> json" where
  "json_of_request req =
     JObj [(''resourceSpans'', JArr (map (\<lambda>rs.
       JObj [(''scopeSpans'', JArr (map (\<lambda>ss. JObj [(''spans'', JArr (map json_of_span ss))]) rs))]) req))]"

definition otlp_env_ok :: "otlp_env \<Rightarrow> bool" where
  "otlp_env_ok E \<longleftrightarrow> (\<forall>r. oe_float E (JFloat r) = Some (JFloat r)) \<and> (\<forall>s. oe_str E (JStr s) = s) \<and> (\<forall>s. oe_key E (JStr s) = Some s)"

lemma those_Some: "those (map (\<lambda>x. Some (f x)) xs) = Some (map f xs)"
  by (induction xs) auto

lemma those_map_cong: "(\<And>x. x \<in> set xs \<Longrightarrow> f x = Some (g x)) \<Longrightarrow> those (map f xs) = Some (map g xs)"
  by (induction xs) auto

lemma decode_json_of_value:
  assumes "otlp_env_ok E" and "no_bytes v"
  shows "decode_any_value E (json_of_value v) = Some (decode_proto_value v)"
  using assms(2)
proof (induction v)
  case (AvArray vs)
  then have "decode_any_value E (json_of_value x) = Some (decode_proto_value x)" if "x \<in> set vs" for x
    using that by (auto simp: list_all_iff)
  then show ?case by (simp add: comp_def those_map_cong)
next
  case (AvKvlist kvs)
  then have "decode_any_value E (json_of_value (snd x)) = Some (decode_proto_value (snd x))" if "x \<in> set kvs" for x
    using that by (cases x) (fastforce simp: list_all_iff)
  then show ?case
    using assms(1) by (simp add: comp_def case_prod_unfold otlp_env_ok_def those_map_cong [where g = "\<lambda>x. (fst x, decode_proto_value (snd x))"])
qed (use assms(1) in \<open>simp_all add: otlp_env_ok_def parse_int_def py_int_str_int\<close>)

lemma convert_json_of_span:
  assumes "otlp_env_ok E" and "ot_attributes sp \<noteq> []" and "list_all (\<lambda>(k, v). no_bytes v) (ot_attributes sp)"
  shows "convert_json_span E (json_of_span sp) = convert_proto_span E sp"
proof -
  have E: "oe_str E (JStr s) = s" "oe_key E (JStr s) = Some s" for s using assms(1) by (simp_all add: otlp_env_ok_def)
  have "decode_entry E (json_of_entry e) = Some (fst e, decode_proto_value (snd e))" if "e \<in> set (ot_attributes sp)" for e
    using that assms(3) decode_json_of_value [OF assms(1), of "snd e"] by (auto simp: json_of_entry_def E list_all_iff)
  then have attrs: "get_attrs E (json_of_span sp) = Some (py_dict (map (\<lambda>(k, v). (k, decode_proto_value v)) (ot_attributes sp)))"
    by (simp add: get_attrs_def json_of_span_def comp_def case_prod_unfold
        those_map_cong [where g = "\<lambda>e. (fst e, decode_proto_value (snd e))"])
  have fields: "get_field (json_of_span sp) ''span_id'' = JStr (bytes_hex (ot_span_id sp))"
    "get_field (json_of_span sp) ''trace_id'' = JStr (bytes_hex (ot_trace_id sp))"
    "get_field (json_of_span sp) ''parent_span_id'' = JStr (bytes_hex (ot_parent_span_id sp))"
    "get_field (json_of_span sp) ''name'' = JStr (ot_name sp)"
    "get_field (json_of_span sp) ''start_time_unix_nano'' = JStr (py_str_int (ot_start_time_unix_nano sp))"
    "get_field (json_of_span sp) ''end_time_unix_nano'' = JStr (py_str_int (ot_end_time_unix_nano sp))"
    "get_field (json_of_span sp) ''status'' = JObj [(''code'', JInt (ot_status_code sp)), (''message'', JStr (ot_status_message sp))]"
    by (simp_all add: json_of_span_def JSON_FIELD_ALIASES_def)
  have "get_id E (json_of_span sp) f = s" if "get_field (json_of_span sp) f = JStr s" for f s
    using that E by (simp add: get_id_def)
  moreover have "nano_field (json_of_span sp) f = Some n" if "get_field (json_of_span sp) f = JStr (py_str_int n)" for f n
    using that by (simp add: nano_field_def py_str_int_nonempty py_int_str_int)
  moreover have "get_status_error E (json_of_span sp) = status_error (ot_status_code sp) (ot_status_message sp)"
    by (simp add: get_status_error_def fields get_str_def E parse_int_def JSON_FIELD_ALIASES_def)
  ultimately show ?thesis
    using assms(2) by (simp add: convert_json_span_def convert_proto_span_def attrs fields get_str_def E)
qed

lemma try_concat_map: "try_concat f (map g xs) = try_concat (\<lambda>x. f (g x)) xs"
  by (simp add: try_concat_def comp_def)

lemma try_concat_cong: "(\<And>x. x \<in> set xs \<Longrightarrow> f x = g x) \<Longrightarrow> try_concat f xs = try_concat g xs"
  by (simp add: try_concat_def cong: map_cong)


text \<open>
  A protobuf export is refused as a whole if one of its spans has no attributes. The endpoint
  answers that it cannot parse the export, and no span of it is enqueued.
\<close>

theorem protobuf_span_without_attributes_fails_export:
  assumes "py_contains ''application/x-protobuf'' content_type" and "from_string body = Some req"
    and "list_ex (list_ex (list_ex (\<lambda>sp. ot_attributes sp = []))) req"
    and "receive_otlp E loads from_string validate error_msg Z limit member R env p body content_type (z, st) = (Inr res, z', st')"
  shows "res = ParseFailed \<and> st' = st"
proof -
  have none: "those (map f xs) = None" if "x \<in> set xs" "f x = None" for f :: "'x \<Rightarrow> 'y option" and x xs
    using that by (induction xs) (auto split: option.split)
  have "parse_proto E req = None"
    using assms(3) by (auto simp: list_ex_iff parse_proto_def try_concat_def convert_proto_span_def intro!: none)
  then have "parse_export E loads from_string body content_type = None"
    using assms(1,2) by (simp add: parse_export_def)
  with assms(4) show ?thesis by (auto simp: receive_otlp_def split: prod.splits sum.splits)
qed

text \<open>
  The endpoint keeps every valid span. When it accepts an export, the spans it enqueues are
  exactly the valid ones, in order and in one batch, none when none is valid; the rest is
  counted in the answer.
\<close>

theorem otlp_enqueues_valid_spans:
  assumes "parse_export E loads from_string body content_type = Some spans"
    and "receive_otlp E loads from_string validate error_msg Z limit member R env p body content_type (z, st) = (Inr res, z', st')"
  shows "map bm_spans (in_queue st') = map bm_spans (in_queue st) @
      (if List.map_filter validate spans = [] then [] else [List.map_filter validate spans]) \<and>
    length (List.map_filter validate spans) + (case res of PartialSuccess n _ \<Rightarrow> n | _ \<Rightarrow> 0) = length spans"
proof
  have "length (List.map_filter validate xs) + length (filter (\<lambda>r. validate r = None) xs) = length xs" for xs
    by (induction xs) (auto simp: List.map_filter_simps split: option.split)
  from this [of spans] assms show "length (List.map_filter validate spans) + (case res of PartialSuccess n _ \<Rightarrow> n | _ \<Rightarrow> 0) = length spans"
    by (auto simp: receive_otlp_def Let_def split: prod.splits sum.splits outcome.splits if_splits)
  show "map bm_spans (in_queue st') = map bm_spans (in_queue st) @
      (if List.map_filter validate spans = [] then [] else [List.map_filter validate spans])"
    using assms by (auto simp: receive_otlp_def accept_batch_def Let_def split: prod.splits sum.splits outcome.splits if_splits option.splits)
qed

section \<open>Examples\<close>

definition ex_otlp :: otlp_env where
  "ex_otlp = \<lparr>oe_float = Some, oe_str = (\<lambda>v. case v of JStr s \<Rightarrow> s | _ \<Rightarrow> []),
     oe_key = (\<lambda>v. case v of JStr s \<Rightarrow> Some s | _ \<Rightarrow> None), oe_fromtimestamp = (\<lambda>ns. Some (ns div 1000))\<rparr>"

lemma ex_otlp_ok: "otlp_env_ok ex_otlp"
  by (simp add: otlp_env_ok_def ex_otlp_def)

definition ex_proto_span :: "(string \<times> any_value) list \<Rightarrow> proto_span" where
  "ex_proto_span attrs = \<lparr>ot_trace_id = ''0123456789abcdef'', ot_span_id = ''01234567'', ot_parent_span_id = [], ot_name = ''chat'',
     ot_start_time_unix_nano = 1000000, ot_end_time_unix_nano = 244000000, ot_attributes = attrs, ot_status_code = 2,
     ot_status_message = []\<rparr>"

definition ex_attrs :: "(string \<times> any_value) list" where
  "ex_attrs = [(''gen_ai.system'', AvString ''openai''), (''gen_ai.usage.input_tokens'', AvInt 17),
     (''labels'', AvArray [AvString ''a'', AvKvlist [(''b'', AvBool True)]])]"


text \<open>A schema that accepts one provider.\<close>

definition ex_validate :: "raw_span \<Rightarrow> span_schema option" where
  "ex_validate r =
     (if rs_provider r \<noteq> ''openai'' then None
      else Some \<lparr>ss_span_id = the (rs_span_id r), ss_trace_id = rs_trace_id r, ss_parent_span_id = None, ss_name = the (rs_name r),
        ss_provider = rs_provider r, ss_model = rs_model r, ss_input_messages = [], ss_output = None, ss_error = rs_error r,
        ss_input_tokens = the (rs_input_tokens r), ss_output_tokens = the (rs_output_tokens r), ss_latency_ms = rs_latency_ms r,
        ss_started_at = rs_started_at r, ss_metadata = the (rs_metadata r)\<rparr>)"

definition ex_receive ::
  "proto_request \<Rightarrow> (http_error + otlp_response) \<times> mem_zset \<times> (unit, batch_status mem) ingest_state" where
  "ex_receive req = receive_otlp ex_otlp (\<lambda>_. None) (\<lambda>_. Some req) ex_validate (\<lambda>_. ''invalid'')
     mem_zset_ops 100 ''m'' mem_redis (ex_env ''b1'') ''p1'' [] ''application/x-protobuf''
     ([], \<lparr>in_store = (), in_redis = [], in_queue = [], in_batches_accepted = 0, in_batches_failed = 0\<rparr>)"

text \<open>One span with attributes and one without.\<close>

theorem protobuf_span_without_attributes_fails_export_witness:
  "fst (ex_receive [[[ex_proto_span ex_attrs, ex_proto_span []]]]) = Inr ParseFailed \<and>
   in_queue (snd (snd (ex_receive [[[ex_proto_span ex_attrs, ex_proto_span []]]]))) = []"
proof -
  have "isl (fst (ex_receive [[[ex_proto_span ex_attrs, ex_proto_span []]]])) = False" by code_simp
  then obtain res z st where r: "ex_receive [[[ex_proto_span ex_attrs, ex_proto_span []]]] = (Inr res, z, st)"
    by (metis isl_def prod.collapse sum.exhaust)
  have "py_contains ''application/x-protobuf'' ''application/x-protobuf''" by code_simp
  from protobuf_span_without_attributes_fails_export [OF this refl _ r [unfolded ex_receive_def]] r show ?thesis
    by (simp add: ex_proto_span_def)
qed

theorem otlp_enqueues_valid_spans_witness:
  "map (map ss_trace_id \<circ> bm_spans) (in_queue (snd (snd (ex_receive [[[ex_proto_span ex_attrs]]]))))
   = [[bytes_hex ''0123456789abcdef'']]"
proof -
  have "isl (fst (ex_receive [[[ex_proto_span ex_attrs]]])) = False" by code_simp
  then obtain res z st where r: "ex_receive [[[ex_proto_span ex_attrs]]] = (Inr res, z, st)"
    by (metis isl_def prod.collapse sum.exhaust)
  obtain spans where p: "parse_export ex_otlp (\<lambda>_. None) (\<lambda>_. Some [[[ex_proto_span ex_attrs]]]) [] ''application/x-protobuf'' = Some spans"
      and "map (map_option ss_trace_id) [map_option id (ex_validate (hd spans))] = [Some (bytes_hex ''0123456789abcdef'')]" "length spans = 1"
  proof -
    let ?p = "parse_export ex_otlp (\<lambda>_. None) (\<lambda>_. Some [[[ex_proto_span ex_attrs]]]) [] ''application/x-protobuf''"
    have "?p \<noteq> None \<and> map_option ss_trace_id (ex_validate (hd (the ?p))) = Some (bytes_hex ''0123456789abcdef'') \<and> length (the ?p) = 1"
      by code_simp
    then show ?thesis using that [of "the ?p"] by (auto simp: option.map_comp)
  qed
  then obtain x y where "spans = [x]" "ex_validate x = Some y" "ss_trace_id y = bytes_hex ''0123456789abcdef''"
    using length_Suc_conv [of spans 0] by auto
  with otlp_enqueues_valid_spans [OF p r [unfolded ex_receive_def]] r show ?thesis
    by (auto simp: List.map_filter_simps)
qed

end
