(* ===== verification/Failed_Tasks.thy ===== *)
theory Failed_Tasks
  imports Access_Control Py_Numbers "HOL-Library.Countable"
begin

text \<open>
  The dead-letter store: \<^verbatim>\<open>backend/app/services/failed_tasks.py\<close>, \<^verbatim>\<open>backend/app/workers/dlq.py\<close>, the retry
  middleware of \<^verbatim>\<open>backend/app/core/taskiq.py\<close> and the handlers of \<^verbatim>\<open>backend/app/api/v1/failed_tasks.py\<close>.
  JSON printing and parsing, \<^verbatim>\<open>str\<close> on values, the check of UUID texts by the database, the task queue and
  the inherited retry middleware are parameters.
\<close>

section \<open>Summaries\<close>

definition SAFE_ARG_KEYS :: "string list" where "SAFE_ARG_KEYS = [''batch_id'', ''project_id'']"
definition SENSITIVE_KEY_PARTS :: "string list" where
  "SENSITIVE_KEY_PARTS = [''api_key'', ''authorization'', ''password'', ''secret'', ''token'']"
definition MAX_SUMMARY_LENGTH :: nat where "MAX_SUMMARY_LENGTH = 10000"
definition MAX_ERROR_LENGTH :: nat where "MAX_ERROR_LENGTH = 5000"

fun is_scalar :: "json \<Rightarrow> bool" where
  "is_scalar (JArr xs) = False"
| "is_scalar (JObj m) = False"
| "is_scalar _ = True"

definition is_sensitive_key :: "string \<Rightarrow> bool" where
  "is_sensitive_key key = list_ex (\<lambda>part. py_contains part (py_lower key)) SENSITIVE_KEY_PARTS"

fun is_list :: "json \<Rightarrow> bool" where
  "is_list (JArr xs) = True"
| "is_list _ = False"

text \<open>The entry a task argument contributes.\<close>

fun summarize_arg :: "string \<times> json \<Rightarrow> string \<times> json" where
  "summarize_arg (key, value) =
     (if is_sensitive_key key then (key, JStr ''[redacted]'')
      else if key \<in> set SAFE_ARG_KEYS then (key, value)
      else if key = ''spans'' \<and> is_list value then
        (''span_count'', JInt (case value of JArr xs \<Rightarrow> int (length xs) | _ \<Rightarrow> 0))
      else if is_scalar value then (key, value)
      else (key, JStr (case value of JArr xs \<Rightarrow> ''<list>'' | _ \<Rightarrow> ''<dict>'')))"

definition summarize_task_args :: "(string \<times> json) list \<Rightarrow> (string \<times> json) list" where
  "summarize_task_args task_args = py_dict (map summarize_arg task_args)"

text \<open>\<open>str_of\<close> is \<^verbatim>\<open>str\<close>.\<close>

definition extract_project_id :: "(json \<Rightarrow> string) \<Rightarrow> (string \<times> json) list \<Rightarrow> string option" where
  "extract_project_id str_of task_args =
     (case map_of task_args ''project_id'' of None \<Rightarrow> None | Some v \<Rightarrow> if py_falsy v then None else Some (str_of v))"

section \<open>The table\<close>

record failed_task =
  ft_id :: int
  ft_org_id :: "uuid option"
  ft_project_id :: "uuid option"
  ft_task_name :: string
  ft_task_args :: "string option"
  ft_error :: "string option"
  ft_attempts :: "int option"
  ft_failed_at :: time
  ft_resolved :: bool

text \<open>\<open>fe_uuid_ok\<close> says whether the database reads a text as a UUID.\<close>

record failed_env =
  fe_dumps :: "(string \<times> json) list \<Rightarrow> string"
  fe_loads :: "string \<Rightarrow> json option"
  fe_str :: "json \<Rightarrow> string"
  fe_uuid_ok :: "string \<Rightarrow> bool"

definition resolve_org_id :: "failed_env \<Rightarrow> org_db \<Rightarrow> string option \<Rightarrow> string + uuid option" where
  "resolve_org_id E db project_id =
     (if \<not> truthy project_id then Inr None
      else if \<not> fe_uuid_ok E (the project_id) then Inl ''DataError''
      else Inr (map_option pj_org_id (select_one (\<lambda>p. pj_id p = the project_id) (od_projects db))))"

definition record_failed_task ::
  "failed_env \<Rightarrow> org_db \<Rightarrow> int \<Rightarrow> string \<Rightarrow> (string \<times> json) list \<Rightarrow> string \<Rightarrow> int \<Rightarrow> time \<Rightarrow> failed_task list
     \<Rightarrow> string + failed_task list" where
  "record_failed_task E db new_id task_name task_args err attempts failed_at rows =
     (let project_id = extract_project_id (fe_str E) task_args
      in case resolve_org_id E db project_id of
           Inl e \<Rightarrow> Inl e
         | Inr org_id \<Rightarrow>
             Inr (rows @ [\<lparr>ft_id = new_id, ft_org_id = org_id, ft_project_id = project_id, ft_task_name = task_name,
               ft_task_args = Some (take MAX_SUMMARY_LENGTH (fe_dumps E (summarize_task_args task_args))),
               ft_error = Some (take MAX_ERROR_LENGTH err), ft_attempts = Some attempts, ft_failed_at = failed_at,
               ft_resolved = False\<rparr>]))"

text \<open>The task of the dead-letter queue: on an exception the transaction is rolled back and it is raised.\<close>

definition handle_failed_task ::
  "failed_env \<Rightarrow> org_db \<Rightarrow> int \<Rightarrow> time \<Rightarrow> string \<Rightarrow> (string \<times> json) list \<Rightarrow> string \<Rightarrow> int \<Rightarrow> failed_task list
     \<Rightarrow> unit outcome \<times> failed_task list" where
  "handle_failed_task E db new_id now task_name task_args err attempts rows =
     (case record_failed_task E db new_id task_name task_args err attempts now rows of
        Inl e \<Rightarrow> (Raise e, rows)
      | Inr rows' \<Rightarrow> (Ret (), rows'))"

section \<open>The retry middleware\<close>

record task_message =
  tm_task_name :: string
  tm_args :: "json list"
  tm_kwargs :: "(string \<times> json) list"
  tm_retries :: int
  tm_max_retries :: "int option"
  tm_retry_on_error :: bool

definition default_retry_count :: int where "default_retry_count = 3"

definition task_args_for_dlq :: "task_message \<Rightarrow> (string \<times> json) list" where
  "task_args_for_dlq m =
     summarize_task_args
       (if tm_kwargs m \<noteq> [] then tm_kwargs m
        else if py_endswith '':process_span_batch'' (tm_task_name m)
        then zip [''batch_id'', ''project_id'', ''spans''] (tm_args m)
        else map (\<lambda>(i, v). (''arg_'' @ py_str_nat i, v)) (enumerate 0 (tm_args m)))"

definition max_retries :: "task_message \<Rightarrow> int" where
  "max_retries m = (case tm_max_retries m of None \<Rightarrow> default_retry_count | Some n \<Rightarrow> n)"

text \<open>\<open>no_result\<close>: the exception is \<^verbatim>\<open>NoResultError\<close>. The broker sets no exception types.\<close>

definition capture_final_failure :: "bool \<Rightarrow> task_message \<Rightarrow> bool" where
  "capture_final_failure no_result m =
     (if no_result then False else if \<not> tm_retry_on_error m then False else tm_retries m + 1 \<ge> max_retries m)"

text \<open>What \<^verbatim>\<open>on_error\<close> does: the message the inherited middleware sends again, if any, and the arguments of the
  dead-letter task.\<close>

definition on_error ::
  "(bool \<Rightarrow> task_message \<Rightarrow> task_message option) \<Rightarrow> bool \<Rightarrow> string \<Rightarrow> task_message
     \<Rightarrow> task_message option \<times> (string \<times> (string \<times> json) list \<times> string \<times> int) option" where
  "on_error super no_result err m =
     (super no_result m,
      if capture_final_failure no_result m then Some (tm_task_name m, task_args_for_dlq m, err, tm_retries m + 1) else None)"

section \<open>Handlers\<close>

definition is_process_span_batch_task :: "string \<Rightarrow> bool" where
  "is_process_span_batch_task task_name = (task_name = ''process_span_batch'' \<or> py_endswith '':process_span_batch'' task_name)"

text \<open>The \<^verbatim>\<open>task_args\<close> of a response; the response model refuses anything but an object.\<close>

definition serialize_task_args :: "failed_env \<Rightarrow> string option \<Rightarrow> http_error + (string \<times> json) list option" where
  "serialize_task_args E args =
     (case args of
        None \<Rightarrow> Inr None
      | Some s \<Rightarrow>
          (case fe_loads E s of
             None \<Rightarrow> Inr (Some [(''summary'', JStr s)])
           | Some (JObj m) \<Rightarrow> Inr (Some m)
           | Some v \<Rightarrow> Inl (Unhandled ''ResponseValidationError'')))"

definition project_in_org :: "uuid \<Rightarrow> uuid \<Rightarrow> org_db \<Rightarrow> bool" where
  "project_in_org project_id org db = list_ex (\<lambda>p. pj_id p = project_id \<and> pj_org_id p = org) (od_projects db)"

definition list_failed_tasks ::
  "failed_env \<Rightarrow> current_user \<Rightarrow> string option \<Rightarrow> bool \<Rightarrow> int \<Rightarrow> org_db \<Rightarrow> failed_task list
     \<Rightarrow> http_error + (failed_task \<times> (string \<times> json) list option) list" where
  "list_failed_tasks E user project_id include_resolved limit db rows =
     (if limit < 1 \<or> 500 < limit then Inl (HTTPException 422 ''validation error'')
      else case require_admin user of
        Inl e \<Rightarrow> Inl e
      | Inr _ \<Rightarrow>
          if project_id \<noteq> None \<and> \<not> fe_uuid_ok E (the project_id) then Inl (Unhandled ''DataError'')
          else if truthy project_id \<and> \<not> project_in_org (the project_id) (cu_org_id user) db
          then Inl (HTTPException 404 ''Project not found'')
          else
            (let hits = filter (\<lambda>r. ft_org_id r = Some (cu_org_id user) \<and> (project_id = None \<or> ft_project_id r = project_id) \<and>
                          (include_resolved \<or> \<not> ft_resolved r)) rows;
                 page = take (nat limit) (sort_key (\<lambda>r. - ft_failed_at r) hits)
             in case those (map (\<lambda>r. case serialize_task_args E (ft_task_args r) of Inr a \<Rightarrow> Some (r, a) | Inl _ \<Rightarrow> None) page) of
                  None \<Rightarrow> Inl (Unhandled ''ResponseValidationError'')
                | Some out \<Rightarrow> Inr out))"

definition mark_resolved :: "int \<Rightarrow> uuid \<Rightarrow> failed_task list \<Rightarrow> (failed_task list) option" where
  "mark_resolved task_id org rows =
     (let hit = (\<lambda>r. ft_id r = task_id \<and> ft_org_id r = Some org)
      in if list_ex hit rows then Some (update_where hit (\<lambda>r. r\<lparr>ft_resolved := True\<rparr>) rows) else None)"

definition resolve_failed_task :: "current_user \<Rightarrow> int \<Rightarrow> failed_task list \<Rightarrow> (http_error + bool) \<times> failed_task list" where
  "resolve_failed_task user task_id rows =
     (case require_admin user of
        Inl e \<Rightarrow> (Inl e, rows)
      | Inr _ \<Rightarrow>
          (case mark_resolved task_id (cu_org_id user) rows of
             None \<Rightarrow> (Inl (HTTPException 404 ''Failed task not found''), rows)
           | Some rows' \<Rightarrow> (Inr True, rows')))"

text \<open>\<open>kiq_raises\<close> is what sending the task raises. The queue holds batch, project and spans of what was sent.\<close>

definition retry_failed_task ::
  "failed_env \<Rightarrow> string option \<Rightarrow> current_user \<Rightarrow> int \<Rightarrow> org_db \<Rightarrow> failed_task list \<times> (string \<times> string \<times> json list) list
     \<Rightarrow> (http_error + bool) \<times> failed_task list \<times> (string \<times> string \<times> json list) list" where
  "retry_failed_task E kiq_raises user task_id db s =
     (case require_admin user of
        Inl e \<Rightarrow> (Inl e, s)
      | Inr _ \<Rightarrow>
          (case select_one (\<lambda>r. ft_id r = task_id \<and> ft_org_id r = Some (cu_org_id user)) (fst s) of
             None \<Rightarrow> (Inl (HTTPException 404 ''Failed task not found''), s)
           | Some task \<Rightarrow>
               if ft_resolved task then (Inl (HTTPException 409 ''Failed task is already resolved''), s)
               else if \<not> is_process_span_batch_task (ft_task_name task) then
                 (Inl (HTTPException 409 ''Failed task type cannot be retried''), s)
               else case fe_loads E (if truthy (ft_task_args task) then the (ft_task_args task) else ''{}'') of
                      None \<Rightarrow> (Inl (HTTPException 409 ''Failed task arguments are not retryable''), s)
                    | Some (JObj task_args) \<Rightarrow>
                        (let batch_id = (case map_of task_args ''batch_id'' of None \<Rightarrow> JNull | Some v \<Rightarrow> v);
                             arg_project = (case map_of task_args ''project_id'' of None \<Rightarrow> JNull | Some v \<Rightarrow> v);
                             project_id = (if \<not> py_falsy arg_project then Some (fe_str E arg_project)
                                           else if truthy (ft_project_id task) then ft_project_id task else None)
                         in case map_of task_args ''spans'' of
                              Some (JArr spans) \<Rightarrow>
                                if py_falsy batch_id \<or> project_id = None then
                                  (Inl (HTTPException 409 ''Failed task payload is not available for retry''), s)
                                else if \<not> fe_uuid_ok E (the project_id) then (Inl (Unhandled ''DataError''), s)
                                else if \<not> project_in_org (the project_id) (cu_org_id user) db then
                                  (Inl (HTTPException 404 ''Project not found''), s)
                                else
                                  (case kiq_raises of
                                     Some e \<Rightarrow> (Inl (Unhandled e), s)
                                   | None \<Rightarrow>
                                       (let queue = snd s @ [(fe_str E batch_id, the project_id, spans)]
                                        in case mark_resolved task_id (cu_org_id user) (fst s) of
                                             None \<Rightarrow> (Inl (HTTPException 404 ''Failed task not found''), fst s, queue)
                                           | Some rows' \<Rightarrow> (Inr True, rows', queue)))
                            | _ \<Rightarrow> (Inl (HTTPException 409 ''Failed task payload is not available for retry''), s))
                    | Some v \<Rightarrow> (Inl (Unhandled ''AttributeError''), s)))"

section \<open>What is recorded\<close>

lemma dict_set_sub: "set (dict_set k v m) \<subseteq> insert (k, v) (set m)"
  by (induction m) (auto split: if_splits)

lemma py_dict_sub: "set (py_dict es) \<subseteq> set es"
proof -
  have "set (fold (\<lambda>(k, v). dict_set k v) es m) \<subseteq> set es \<union> set m" for m
  proof (induction es arbitrary: m)
    case (Cons e es)
    obtain k v where e: "e = (k, v)" by (cases e)
    from Cons [of "dict_set k v m"] dict_set_sub [of k v m] show ?case by (auto simp: e)
  qed simp
  from this [of "[]"] show ?thesis by (simp add: py_dict_def)
qed

lemma summary_entry:
  assumes "e \<in> set (summarize_task_args args)"
  obtains a where "a \<in> set args" "e = summarize_arg a"
  using assms py_dict_sub [of "map summarize_arg args"] by (auto simp: summarize_task_args_def)

text \<open>
  The dead-letter store keeps no secrets and no payloads. In every summary the value under a key
  that names a secret is the redaction marker, and apart from the batch and project identifiers
  every other value is a scalar: lists and objects are replaced by their type or length.
\<close>

theorem task_summary_hides_values:
  "list_all (\<lambda>(k, v). if is_sensitive_key k then v = JStr ''[redacted]'' else k \<in> set SAFE_ARG_KEYS \<or> is_scalar v)
     (summarize_task_args args)"
proof -
  have plain: "\<not> is_sensitive_key ''span_count''" by code_simp
  have ok: "case summarize_arg a of (k, v) \<Rightarrow> if is_sensitive_key k then v = JStr ''[redacted]'' else k \<in> set SAFE_ARG_KEYS \<or> is_scalar v" for a
    by (cases a) (simp add: plain)
  show ?thesis unfolding list_all_iff
  proof
    fix e assume "e \<in> set (summarize_task_args args)"
    then obtain a where "e = summarize_arg a" by (rule summary_entry)
    with ok [of a] show "case e of (k, v) \<Rightarrow> if is_sensitive_key k then v = JStr ''[redacted]'' else k \<in> set SAFE_ARG_KEYS \<or> is_scalar v"
      by simp
  qed
qed

lemma summary_spans: "map_of (summarize_task_args args) ''spans'' \<noteq> Some (JArr xs)"
proof
  assume "map_of (summarize_task_args args) ''spans'' = Some (JArr xs)"
  then obtain k v where "(''spans'', JArr xs) = summarize_arg (k, v)" by (auto dest!: map_of_SomeD elim!: summary_entry)
  moreover have "set SAFE_ARG_KEYS = {''batch_id'', ''project_id''}" by (simp add: SAFE_ARG_KEYS_def)
  ultimately show False by (cases v) (auto split: if_splits)
qed

section \<open>Recorded tasks are never retried\<close>

text \<open>A text cut off inside an object is no JSON, and printing and parsing agree.\<close>

definition summary_codec_ok :: "failed_env \<Rightarrow> bool" where
  "summary_codec_ok E \<longleftrightarrow>
     (\<forall>m. fe_dumps E m \<noteq> [] \<and> fe_loads E (fe_dumps E m) = Some (JObj m) \<and>
        (\<forall>n < length (fe_dumps E m). fe_loads E (take n (fe_dumps E m)) = None))"

definition recorded :: "failed_env \<Rightarrow> failed_task \<Rightarrow> bool" where
  "recorded E r \<longleftrightarrow> (\<exists>args. ft_task_args r = Some (take MAX_SUMMARY_LENGTH (fe_dumps E (summarize_task_args args))))"

inductive failed_step ::
  "failed_env \<Rightarrow> failed_task list \<times> (string \<times> string \<times> json list) list \<Rightarrow> failed_task list \<times> (string \<times> string \<times> json list) list \<Rightarrow> bool"
  for E where
  record_task: "failed_step E s (snd (handle_failed_task E db i now name args err n (fst s)), snd s)"
| resolve: "failed_step E s (snd (resolve_failed_task user i (fst s)), snd s)"
| retry: "failed_step E s (snd (retry_failed_task E kiq_raises user i db s))"

lemma recordedI:
  "ft_task_args r = Some (take MAX_SUMMARY_LENGTH (fe_dumps E (summarize_task_args args))) \<Longrightarrow> recorded E r"
  by (auto simp: recorded_def)

lemma recorded_resolved: "list_all (recorded E) rows \<Longrightarrow> mark_resolved i org rows = Some rows' \<Longrightarrow> list_all (recorded E) rows'"
  by (auto simp: mark_resolved_def Let_def update_where_def list_all_iff recorded_def split: if_splits)

lemma recorded_loads:
  assumes "summary_codec_ok E" and "recorded E r"
  shows "truthy (ft_task_args r)"
    and "fe_loads E (the (ft_task_args r)) = None \<or>
      (\<exists>args. fe_loads E (the (ft_task_args r)) = Some (JObj (summarize_task_args args)))"
proof -
  obtain args where a: "ft_task_args r = Some (take MAX_SUMMARY_LENGTH (fe_dumps E (summarize_task_args args)))"
    using assms(2) by (auto simp: recorded_def)
  have codec: "fe_dumps E m \<noteq> []" "fe_loads E (fe_dumps E m) = Some (JObj m)"
    "n < length (fe_dumps E m) \<Longrightarrow> fe_loads E (take n (fe_dumps E m)) = None" for m n
    using assms(1) by (auto simp: summary_codec_ok_def)
  show "truthy (ft_task_args r)" using a codec(1) by (simp add: MAX_SUMMARY_LENGTH_def)
  show "fe_loads E (the (ft_task_args r)) = None \<or>
      (\<exists>args. fe_loads E (the (ft_task_args r)) = Some (JObj (summarize_task_args args)))"
  proof (cases "MAX_SUMMARY_LENGTH < length (fe_dumps E (summarize_task_args args))")
    case True
    with codec(3) a show ?thesis by simp
  next
    case False
    with codec(2) a show ?thesis by auto
  qed
qed

lemma retry_recorded:
  assumes "summary_codec_ok E" and "list_all (recorded E) (fst s)"
  shows "\<exists>e. retry_failed_task E kiq_raises user i db s = (Inl e, s)"
proof (cases "require_admin user")
  case (Inl e)
  then show ?thesis by (simp add: retry_failed_task_def)
next
  case (Inr u)
  show ?thesis
  proof (cases "select_one (\<lambda>r. ft_id r = i \<and> ft_org_id r = Some (cu_org_id user)) (fst s)")
    case None
    then show ?thesis unfolding retry_failed_task_def Inr by simp
  next
    case (Some r)
    with assms(2) have "recorded E r" by (auto dest!: select_one_SomeD simp: list_all_iff)
    note r = recorded_loads [OF assms(1) this]
    from r(2) show ?thesis
    proof (elim disjE exE)
      assume "fe_loads E (the (ft_task_args r)) = None"
      with r(1) Some show ?thesis unfolding retry_failed_task_def Inr by simp
    next
      fix args
      assume l: "fe_loads E (the (ft_task_args r)) = Some (JObj (summarize_task_args args))"
      show ?thesis
      proof (cases "map_of (summarize_task_args args) ''spans''")
        case None
        with l r(1) Some show ?thesis unfolding retry_failed_task_def Inr by (simp add: Let_def)
      next
        case (Some v)
        have "\<not> is_list v" using summary_spans [of args] Some by (cases v) auto
        with Some l r(1) \<open>select_one _ _ = Some r\<close> show ?thesis
          unfolding retry_failed_task_def Inr by (cases v) (simp_all add: Let_def)
      qed
    qed
  qed
qed

text \<open>
  C34: The retry endpoint never retries a task that the system recorded. In every run of recording,
  resolving and retrying that starts from an empty table, each retry is refused and no batch is
  ever enqueued: a summary keeps the number of spans of a batch and not the spans.
\<close>

theorem recorded_tasks_cannot_be_retried:
  assumes "summary_codec_ok E" and "(failed_step E)\<^sup>*\<^sup>* ([], queue) (rows, queue')"
  shows "queue' = queue \<and> (\<exists>e. fst (retry_failed_task E kiq_raises user i db (rows, queue')) = Inl e)"
proof -
  have "list_all (recorded E) (fst s') \<and> snd s' = snd s" if "(failed_step E)\<^sup>*\<^sup>* s s'" "list_all (recorded E) (fst s)" for s s'
    using that
  proof (induction rule: rtranclp_induct)
    case (step s1 s2)
    then have rec: "list_all (recorded E) (fst s1)" and q: "snd s1 = snd s" by simp_all
    from step.hyps(2) show ?case
    proof cases
      case record_task
      with rec q show ?thesis
        by (auto simp: handle_failed_task_def record_failed_task_def Let_def intro!: recordedI split: sum.split)
    next
      case resolve
      with rec q show ?thesis
        by (auto simp: resolve_failed_task_def split: sum.split option.split intro: recorded_resolved)
    next
      case (retry kiq user i db)
      with retry_recorded [OF assms(1) rec, of kiq user i db] rec q show ?thesis by auto
    qed
  qed simp
  from this [OF assms(2)] have "list_all (recorded E) rows" "queue' = queue" by simp_all
  with retry_recorded [OF assms(1), of "(rows, queue')" kiq_raises user i db] show ?thesis by force
qed

section \<open>A failing task is recorded once\<close>

text \<open>The documented behaviour of the inherited middleware: send again with the count increased, as long
  as it stays below the limit.\<close>

definition smart_retry_law :: "(bool \<Rightarrow> task_message \<Rightarrow> task_message option) \<Rightarrow> bool" where
  "smart_retry_law super \<longleftrightarrow>
     (\<forall>no_result m. super no_result m =
        (if \<not> no_result \<and> tm_retry_on_error m \<and> tm_retries m + 1 < max_retries m
         then Some (m\<lparr>tm_retries := tm_retries m + 1\<rparr>) else None))"

text \<open>A task that fails on every execution, for at most \<open>n\<close> executions: what reaches the dead-letter queue.\<close>

fun run_failing ::
  "(bool \<Rightarrow> task_message \<Rightarrow> task_message option) \<Rightarrow> string \<Rightarrow> nat \<Rightarrow> task_message
     \<Rightarrow> (string \<times> (string \<times> json) list \<times> string \<times> int) list option" where
  "run_failing super err 0 m = None"
| "run_failing super err (Suc n) m =
     (case on_error super False err m of
        (again, dlq) \<Rightarrow>
          map_option ((@) (case dlq of None \<Rightarrow> [] | Some d \<Rightarrow> [d]))
            (case again of None \<Rightarrow> Some [] | Some m' \<Rightarrow> run_failing super err n m'))"


section \<open>Examples\<close>

instance json :: countable by countable_datatype

text \<open>A prefix-free coding of dictionaries as texts.\<close>

definition ex_failed :: failed_env where
  "ex_failed = \<lparr>fe_dumps = (\<lambda>m. replicate (to_nat m) CHR ''a'' @ ''}''),
     fe_loads = (\<lambda>s. if s \<noteq> [] \<and> last s = CHR ''}'' then Some (JObj (from_nat (length s - 1))) else None),
     fe_str = (\<lambda>_. []), fe_uuid_ok = (\<lambda>_. True)\<rparr>"

lemma ex_failed_ok: "summary_codec_ok ex_failed"
  by (auto simp: summary_codec_ok_def ex_failed_def less_Suc_eq_le min_def)

definition ex_orgs :: org_db where
  "ex_orgs = \<lparr>od_orgs = [], od_users = [], od_projects = [], od_api_keys = [], od_memberships = [], od_invites = [], od_audit = []\<rparr>"

definition ex_task :: task_message where
  "ex_task = \<lparr>tm_task_name = ''w:process_span_batch'', tm_args = [], tm_kwargs = [(''batch_id'', JStr ''b''), (''spans'', JArr [JNull])],
     tm_retries = 0, tm_max_retries = None, tm_retry_on_error = True\<rparr>"

theorem recorded_tasks_cannot_be_retried_witness:
  "\<exists>e. fst (retry_failed_task ex_failed None \<lparr>cu_sub = ''u'', cu_org_id = ''o'', cu_role = Some ''admin'', cu_is_platform_admin = None\<rparr> 1
     ex_orgs (snd (handle_failed_task ex_failed ex_orgs 1 0 ''w:process_span_batch'' (task_args_for_dlq ex_task) ''boom'' 3 []), []))
   = Inl e"
proof -
  let ?rows = "snd (handle_failed_task ex_failed ex_orgs 1 0 ''w:process_span_batch'' (task_args_for_dlq ex_task) ''boom'' 3 [])"
  have "failed_step ex_failed ([], []) (?rows, [])"
    using failed_step.record_task [of ex_failed "([], [])"] by (metis fst_conv snd_conv)
  then have "(failed_step ex_failed)\<^sup>*\<^sup>* ([], []) (?rows, [])" by blast
  from recorded_tasks_cannot_be_retried [OF ex_failed_ok this] show ?thesis by blast
qed

definition ex_smart_retry :: "bool \<Rightarrow> task_message \<Rightarrow> task_message option" where
  "ex_smart_retry no_result m =
     (if \<not> no_result \<and> tm_retry_on_error m \<and> tm_retries m + 1 < max_retries m then Some (m\<lparr>tm_retries := tm_retries m + 1\<rparr>) else None)"


end
