(* ===== verification/Maintenance.thy ===== *)
theory Maintenance
  imports Span_Pipeline Org_Tables Py_Numbers
begin

text \<open>
  Retention and partitions: \<^verbatim>\<open>backend/app/workers/maintenance.py\<close>. The delete call of the object store
  is a parameter: it returns the keys that failed or raises, and changes the store.
\<close>

section \<open>Retention\<close>

definition RETENTION_BATCH_SIZE :: nat where "RETENTION_BATCH_SIZE = 1000"
definition S3_DELETE_BATCH_SIZE :: nat where "S3_DELETE_BATCH_SIZE = 1000"

definition is_project_payload_key :: "uuid \<Rightarrow> string \<Rightarrow> bool" where
  "is_project_payload_key project_id key = py_startswith (''payloads/'' @ project_id @ ''/'') key"

type_synonym 's s3_delete = "'s \<Rightarrow> string list \<Rightarrow> string list outcome \<times> 's"

text \<open>The loop over batches; an exception ends it and keeps what was deleted so far.\<close>

function delete_batches :: "'s s3_delete \<Rightarrow> string list \<Rightarrow> 's \<Rightarrow> string list \<times> 's" where
  "delete_batches del keys s =
     (if keys = [] then ([], s)
      else
        (let batch = take S3_DELETE_BATCH_SIZE keys
         in case del s batch of
              (Raise e, s') \<Rightarrow> ([], s')
            | (Ret failed_keys, s') \<Rightarrow>
                (case delete_batches del (drop S3_DELETE_BATCH_SIZE keys) s' of
                   (deleted, s'') \<Rightarrow> (filter (\<lambda>k. k \<notin> set failed_keys) batch @ deleted, s''))))"
  by pat_completeness auto
termination
  by (relation "measure (\<lambda>(del, keys, s). length keys)") (auto simp: S3_DELETE_BATCH_SIZE_def)

declare delete_batches.simps [simp del]

definition delete_s3_objects :: "'s s3_delete \<Rightarrow> uuid \<Rightarrow> string list \<Rightarrow> 's \<Rightarrow> string list \<times> 's" where
  "delete_s3_objects del project_id s3_keys s = delete_batches del (filter (is_project_payload_key project_id) s3_keys) s"

definition fetch_retention_batch :: "uuid \<Rightarrow> time \<Rightarrow> span_row list \<Rightarrow> span_row list" where
  "fetch_retention_batch project_id cutoff spans =
     take RETENTION_BATCH_SIZE (sort_key sp_started_at
       (filter (\<lambda>s. sp_project_id s = project_id \<and> sp_started_at s < cutoff) spans))"

definition delete_span_batch :: "uuid \<Rightarrow> (uuid \<times> time) list \<Rightarrow> span_row list \<Rightarrow> span_row list" where
  "delete_span_batch project_id span_keys spans =
     delete_where (\<lambda>s. sp_project_id s = project_id \<and> span_identity s \<in> set span_keys) spans"

definition delete_stale_traces :: "uuid \<Rightarrow> time \<Rightarrow> span_row list \<Rightarrow> trace_row list \<Rightarrow> trace_row list" where
  "delete_stale_traces project_id cutoff spans traces =
     delete_where (\<lambda>t. tr_project_id t = project_id \<and> tr_started_at t < cutoff \<and>
       \<not> list_ex (\<lambda>s. sp_project_id s = tr_project_id t \<and> sp_trace_id s = tr_id t) spans) traces"

text \<open>The spans of a batch whose row may be deleted, given the payloads that were.\<close>

definition span_keys_to_delete :: "uuid \<Rightarrow> string list \<Rightarrow> span_row list \<Rightarrow> (uuid \<times> time) list" where
  "span_keys_to_delete project_id deleted_payload_keys batch =
     map span_identity (filter (\<lambda>s. \<not> truthy (sp_payload_s3_key s) \<or> the (sp_payload_s3_key s) \<in> set deleted_payload_keys \<or>
       \<not> is_project_payload_key project_id (the (sp_payload_s3_key s))) batch)"

text \<open>One round of the loop of a project: the remaining spans and the store.\<close>

definition retention_round :: "'s s3_delete \<Rightarrow> uuid \<Rightarrow> time \<Rightarrow> span_row list \<Rightarrow> 's \<Rightarrow> span_row list \<times> 's" where
  "retention_round del project_id cutoff spans s =
     (let batch = fetch_retention_batch project_id cutoff spans;
          payload_keys = map (the \<circ> sp_payload_s3_key) (filter (\<lambda>r. truthy (sp_payload_s3_key r)) batch)
      in case delete_s3_objects del project_id payload_keys s of
           (deleted, s') \<Rightarrow> (delete_span_batch project_id (span_keys_to_delete project_id deleted batch) spans, s'))"

lemma length_round: "length (fst (retention_round del p c spans s)) \<le> length spans"
  by (simp add: retention_round_def delete_span_batch_def delete_where_def Let_def split: prod.split)

function retention_loop :: "'s s3_delete \<Rightarrow> uuid \<Rightarrow> time \<Rightarrow> span_row list \<Rightarrow> 's \<Rightarrow> span_row list \<times> 's" where
  "retention_loop del project_id cutoff spans s =
     (if fetch_retention_batch project_id cutoff spans = [] then (spans, s)
      else case retention_round del project_id cutoff spans s of
             (spans', s') \<Rightarrow>
               if length spans' = length spans then (spans', s')
               else retention_loop del project_id cutoff spans' s')"
  by pat_completeness auto
termination
proof (relation "measure (\<lambda>(del, p, c, spans, s). length spans)", goal_cases)
  case (2 del p c spans s spans' s')
  then have "length spans' \<le> length spans" using length_round [of del p c spans s] by (metis fst_conv)
  moreover have "retention_round del p c spans s = (spans', s')" using 2(2) by simp
  ultimately show ?case using 2(3) by simp
qed simp

declare retention_loop.simps [simp del]

definition retain_project :: "'s s3_delete \<Rightarrow> time \<Rightarrow> project_row \<Rightarrow> span_db \<times> 's \<Rightarrow> span_db \<times> 's" where
  "retain_project del now p w =
     (let cutoff = now - seconds (60 * 60 * 24 * pj_retention_days p)
      in case retention_loop del (pj_id p) cutoff (sd_spans (fst w)) (snd w) of
           (spans', s') \<Rightarrow>
             ((fst w)\<lparr>sd_spans := spans', sd_traces := delete_stale_traces (pj_id p) cutoff spans' (sd_traces (fst w))\<rparr>, s'))"

text \<open>The task; \<open>clock\<close> is the time at which each project's turn comes.\<close>

definition run_data_retention :: "'s s3_delete \<Rightarrow> (uuid \<Rightarrow> time) \<Rightarrow> project_row list \<Rightarrow> span_db \<times> 's \<Rightarrow> span_db \<times> 's" where
  "run_data_retention del clock projects w =
     fold (\<lambda>p. retain_project del (clock (pj_id p)) p) (filter pj_is_active projects) w"

section \<open>Partitions\<close>

text \<open>The first day of a month, as year and month.\<close>

type_synonym month = "int \<times> int"

definition PARTITION_LOOKAHEAD_MONTHS :: nat where "PARTITION_LOOKAHEAD_MONTHS = 2"

definition add_months :: "month \<Rightarrow> int \<Rightarrow> month" where
  "add_months m months =
     (let month_index = snd m - 1 + months in (fst m + month_index div 12, month_index mod 12 + 1))"

definition two_digits :: "int \<Rightarrow> string" where
  "two_digits n = (if n < 10 then ''0'' @ py_str_int n else py_str_int n)"

definition partition_suffix :: "month \<Rightarrow> string" where
  "partition_suffix m = py_str_int (fst m) @ ''_'' @ two_digits (snd m)"

definition future_partition_months :: "month \<Rightarrow> nat \<Rightarrow> month list" where
  "future_partition_months current_month lookahead_months =
     map (\<lambda>offset. add_months current_month (int offset)) [1..<lookahead_months + 1]"

text \<open>
  The partitions with their bounds, the names of those with forced row level security, and the start
  times in the default partitions, by table.
\<close>

record partitions =
  pt_parts :: "(string \<times> month \<times> month) list"
  pt_forced_rls :: "string list"
  pt_default_rows :: "string \<Rightarrow> time list"

text \<open>\<open>instant\<close> is the time a month begins at.\<close>

definition default_partition_row_count :: "(month \<Rightarrow> time) \<Rightarrow> partitions \<Rightarrow> string \<Rightarrow> (month \<times> month) option \<Rightarrow> string + nat" where
  "default_partition_row_count instant db table_name bounds =
     (if table_name \<notin> {''spans'', ''traces''} then Inl ''ValueError''
      else Inr (length (case bounds of
             None \<Rightarrow> pt_default_rows db table_name
           | Some (a, b) \<Rightarrow> filter (\<lambda>t. instant a \<le> t \<and> t < instant b) (pt_default_rows db table_name))))"

definition create_month_partition :: "(month \<Rightarrow> time) \<Rightarrow> string \<Rightarrow> month \<Rightarrow> partitions \<Rightarrow> string + bool \<times> partitions" where
  "create_month_partition instant table_name month_start db =
     (let month_end = add_months month_start 1
      in case default_partition_row_count instant db table_name (Some (month_start, month_end)) of
           Inl e \<Rightarrow> Inl e
         | Inr n \<Rightarrow>
             if n > 0 then Inr (False, db)
             else
               (let name = table_name @ ''_'' @ partition_suffix month_start
                in Inr (True, db\<lparr>pt_parts := (if list_ex (\<lambda>p. fst p = name) (pt_parts db) then pt_parts db
                                              else pt_parts db @ [(name, month_start, month_end)]),
                                 pt_forced_rls := List.insert name (pt_forced_rls db)\<rparr>)))"

text \<open>The counts that are logged before the partitions are created.\<close>

definition log_default_partition_growth :: "partitions \<Rightarrow> (string \<times> nat) list" where
  "log_default_partition_growth db = map (\<lambda>t. (t, length (pt_default_rows db t))) [''spans'', ''traces'']"

text \<open>The loops over months and tables; an exception rolls the whole transaction back.\<close>

fun create_partitions :: "(month \<Rightarrow> time) \<Rightarrow> (month \<times> string) list \<Rightarrow> partitions \<Rightarrow> string + partitions" where
  "create_partitions instant [] db = Inr db"
| "create_partitions instant ((m, t) # rest) db =
     (case create_month_partition instant t m db of Inl e \<Rightarrow> Inl e | Inr (_, db') \<Rightarrow> create_partitions instant rest db')"

definition create_next_month_partition :: "(month \<Rightarrow> time) \<Rightarrow> month \<Rightarrow> nat \<Rightarrow> partitions \<Rightarrow> unit outcome \<times> partitions" where
  "create_next_month_partition instant current_month lookahead_months db =
     (case create_partitions instant (List.product (future_partition_months current_month lookahead_months) [''traces'', ''spans'']) db of
        Inl e \<Rightarrow> (Raise e, db)
      | Inr db' \<Rightarrow> (Ret (), db'))"

section \<open>Retention deletes only what it may\<close>

text \<open>What the object store promises: a call removes keys of its batch at most, and all but the failed ones.\<close>

definition s3_delete_law :: "('s \<Rightarrow> string \<Rightarrow> bool) \<Rightarrow> 's s3_delete \<Rightarrow> bool" where
  "s3_delete_law has del \<longleftrightarrow>
     (\<forall>s ks k. (has (snd (del s ks)) k \<longrightarrow> has s k) \<and> (has s k \<and> k \<notin> set ks \<longrightarrow> has (snd (del s ks)) k) \<and>
        (case fst (del s ks) of Ret failed \<Rightarrow> k \<in> set ks \<and> k \<notin> set failed \<longrightarrow> \<not> has (snd (del s ks)) k | Raise e \<Rightarrow> True))"

lemma delete_batches_spec:
  assumes "s3_delete_law has del" and "delete_batches del keys s = (deleted, s')"
  shows "(k \<in> set deleted \<longrightarrow> k \<in> set keys \<and> \<not> has s' k) \<and> (has s' k \<longrightarrow> has s k) \<and> (has s k \<and> \<not> has s' k \<longrightarrow> k \<in> set keys)"
  using assms
proof (induction del keys s arbitrary: deleted s' rule: delete_batches.induct)
  case (1 del keys s)
  show ?case
  proof (cases "keys = []")
    case True
    with 1(3) show ?thesis by (simp add: delete_batches.simps)
  next
    case False
    let ?batch = "take S3_DELETE_BATCH_SIZE keys" and ?rest = "drop S3_DELETE_BATCH_SIZE keys"
    obtain r s1 where d: "del s ?batch = (r, s1)" by fastforce
    have law: "has s1 k \<longrightarrow> has s k" "has s k \<and> \<not> has s1 k \<longrightarrow> k \<in> set keys"
        "case r of Ret failed \<Rightarrow> k \<in> set ?batch \<and> k \<notin> set failed \<longrightarrow> \<not> has s1 k | Raise e \<Rightarrow> True"
      using 1(2) d in_set_takeD [of k S3_DELETE_BATCH_SIZE keys] unfolding s3_delete_law_def by (metis fst_conv snd_conv)+
    show ?thesis
    proof (cases r)
      case (Raise e)
      with 1(3) False d law(1,2) show ?thesis by (simp add: delete_batches.simps [of del keys])
    next
      case (Ret failed)
      obtain rest s2 where r2: "delete_batches del ?rest s1 = (rest, s2)" by fastforce
      have "(k \<in> set rest \<longrightarrow> k \<in> set ?rest \<and> \<not> has s2 k) \<and> (has s2 k \<longrightarrow> has s1 k) \<and> (has s1 k \<and> \<not> has s2 k \<longrightarrow> k \<in> set ?rest)"
        using 1(1) [OF False refl d [symmetric] Ret 1(2) r2] .
      with 1(3) False d Ret r2 law show ?thesis
        by (auto simp: delete_batches.simps [of del keys] dest: in_set_takeD in_set_dropD)
    qed
  qed
qed

text \<open>
  How a part of the run changes spans and payloads: only expired spans go, a payload of the project goes
  with or before its span, and only payloads of expired spans go.
\<close>

definition retained :: "('s \<Rightarrow> string \<Rightarrow> bool) \<Rightarrow> (span_row \<Rightarrow> bool) \<Rightarrow> span_row list \<Rightarrow> 's \<Rightarrow> span_row list \<Rightarrow> 's \<Rightarrow> bool" where
  "retained has expired spans s spans' s' \<longleftrightarrow>
     (\<exists>Q. spans' = filter Q spans) \<and>
     (\<forall>x \<in> set spans - set spans'. expired x \<and>
        (\<forall>k. sp_payload_s3_key x = Some k \<and> is_project_payload_key (sp_project_id x) k \<longrightarrow> \<not> has s' k)) \<and>
     (\<forall>k. has s' k \<longrightarrow> has s k) \<and>
     (\<forall>k. has s k \<and> \<not> has s' k \<longrightarrow>
        (\<exists>x \<in> set spans. expired x \<and> sp_payload_s3_key x = Some k \<and> is_project_payload_key (sp_project_id x) k))"

lemma retained_refl: "retained has expired spans s spans s"
  unfolding retained_def by (auto intro!: exI [of _ "\<lambda>_. True"])

lemma retained_trans:
  assumes "retained has ex a s b t" and "retained has ex b t c u"
  shows "retained has ex a s c u"
proof -
  obtain Q R where "b = filter Q a" "c = filter R b" using assms by (auto simp: retained_def)
  then have "c = filter (\<lambda>x. Q x \<and> R x) a" "set b \<subseteq> set a" by auto
  with assms show ?thesis unfolding retained_def by blast
qed

lemma payload_key_nonempty: "is_project_payload_key p k \<Longrightarrow> k \<noteq> []"
  by (auto simp: is_project_payload_key_def py_startswith_def)

lemma retained_round:
  assumes "s3_delete_law has del" and "distinct (map span_identity spans)"
    and "retention_round del p cutoff spans s = (spans', s')"
    and "\<And>x. sp_project_id x = p \<Longrightarrow> sp_started_at x < cutoff \<Longrightarrow> expired x"
  shows "retained has expired spans s spans' s'"
proof -
  define batch where "batch = fetch_retention_batch p cutoff spans"
  define keys where "keys = map (the \<circ> sp_payload_s3_key) (filter (\<lambda>r. truthy (sp_payload_s3_key r)) batch)"
  obtain deleted where del: "delete_batches del (filter (is_project_payload_key p) keys) s = (deleted, s')"
      and spans': "spans' = delete_span_batch p (span_keys_to_delete p deleted batch) spans"
    using assms(3) by (auto simp: retention_round_def delete_s3_objects_def Let_def batch_def keys_def split: prod.splits)
  note spec = delete_batches_spec [OF assms(1) del]
  have batch: "x \<in> set spans \<and> sp_project_id x = p \<and> sp_started_at x < cutoff" if "x \<in> set batch" for x
    using that by (auto simp: batch_def fetch_retention_batch_def dest!: in_set_takeD)
  have gone: "x \<in> set batch \<and> (\<forall>k. sp_payload_s3_key x = Some k \<and> is_project_payload_key p k \<longrightarrow> k \<in> set deleted)"
    if x: "x \<in> set spans" "x \<notin> set spans'" for x
  proof -
    from x obtain y where y: "y \<in> set batch" "span_identity y = span_identity x"
        "\<not> truthy (sp_payload_s3_key y) \<or> the (sp_payload_s3_key y) \<in> set deleted \<or> \<not> is_project_payload_key p (the (sp_payload_s3_key y))"
      by (auto simp: spans' delete_span_batch_def delete_where_def span_keys_to_delete_def)
    with batch [of y] x(1) assms(2) have "y = x" by (metis distinct_map inj_onD)
    with y show ?thesis by (auto dest: payload_key_nonempty)
  qed
  have keys: "\<exists>x \<in> set batch. sp_payload_s3_key x = Some k" if "k \<in> set keys" for k
    using that by (auto simp: keys_def elim!: truthy.elims)
  show ?thesis unfolding retained_def
  proof (intro conjI ballI allI impI)
    show "\<exists>Q. spans' = filter Q spans" unfolding spans' delete_span_batch_def delete_where_def by blast
  next
    fix x assume "x \<in> set spans - set spans'"
    then show "expired x" using gone batch assms(4) by blast
  next
    fix x k assume "x \<in> set spans - set spans'" "sp_payload_s3_key x = Some k \<and> is_project_payload_key (sp_project_id x) k"
    then show "\<not> has s' k" using gone [of x] batch [of x] spec by blast
  next
    fix k assume "has s k \<and> \<not> has s' k"
    then have "k \<in> set keys" "is_project_payload_key p k" using spec by auto
    then show "\<exists>x \<in> set spans. expired x \<and> sp_payload_s3_key x = Some k \<and> is_project_payload_key (sp_project_id x) k"
      using keys batch assms(4) by metis
  qed (use spec in blast)
qed

lemma retained_loop:
  assumes "s3_delete_law has del" and "distinct (map span_identity spans)"
    and "\<And>x. sp_project_id x = p \<Longrightarrow> sp_started_at x < cutoff \<Longrightarrow> expired x"
    and "retention_loop del p cutoff spans s = (spans', s')"
  shows "retained has expired spans s spans' s'"
  using assms
proof (induction del p cutoff spans s rule: retention_loop.induct)
  case (1 del p cutoff spans s)
  obtain spans1 s1 where r: "retention_round del p cutoff spans s = (spans1, s1)" by fastforce
  have round: "retained has expired spans s spans1 s1"
    by (rule retained_round [OF 1(2,3) r]) (use 1(4) in blast)
  show ?case
  proof (cases "fetch_retention_batch p cutoff spans = [] \<or> length spans1 = length spans")
    case True
    with 1(5) r round retained_refl show ?thesis by (auto simp: retention_loop.simps [of del p cutoff spans] split: if_splits)
  next
    case False
    have "distinct (map span_identity spans1)" using round 1(3) by (auto simp: retained_def distinct_map_filter)
    moreover have "retention_loop del p cutoff spans1 s1 = (spans', s')"
      using 1(5) False r by (simp add: retention_loop.simps [of del p cutoff spans])
    ultimately have "retained has expired spans1 s1 spans' s'" using 1(1) [OF _ r [symmetric]] False 1(2,4) by blast
    with round show ?thesis by (rule retained_trans)
  qed
qed

definition expired_in :: "(uuid \<Rightarrow> time) \<Rightarrow> project_row list \<Rightarrow> span_row \<Rightarrow> bool" where
  "expired_in clock projects x \<longleftrightarrow>
     list_ex (\<lambda>p. pj_is_active p \<and> pj_id p = sp_project_id x \<and>
       sp_started_at x < clock (pj_id p) - seconds (60 * 60 * 24 * pj_retention_days p)) projects"

lemma retained_project:
  assumes "s3_delete_law has del" and "distinct (map span_identity (sd_spans db))"
    and "retain_project del (clock (pj_id p)) p (db, s) = (db', s')" and "p \<in> set projects" and "pj_is_active p"
  shows "retained has (expired_in clock projects) (sd_spans db) s (sd_spans db') s'"
proof -
  let ?cutoff = "clock (pj_id p) - seconds (60 * 60 * 24 * pj_retention_days p)"
  have loop: "retention_loop del (pj_id p) ?cutoff (sd_spans db) s = (sd_spans db', s')"
    using assms(3) by (auto simp: retain_project_def Let_def split: prod.splits)
  show ?thesis
    by (rule retained_loop [OF assms(1,2) _ loop]) (use assms(4,5) in \<open>auto simp: expired_in_def list_ex_iff\<close>)
qed

lemma retained_fold:
  assumes "s3_delete_law has del" and "fold (\<lambda>p. retain_project del (clock (pj_id p)) p) ps (db, s) = (db', s')"
    and "set ps \<subseteq> {p \<in> set projects. pj_is_active p}" and "distinct (map span_identity (sd_spans db))"
  shows "retained has (expired_in clock projects) (sd_spans db) s (sd_spans db') s'"
  using assms(2-4)
proof (induction ps arbitrary: db s)
  case Nil
  then show ?case using retained_refl by simp
next
  case (Cons p ps)
  obtain db1 s1 where r: "retain_project del (clock (pj_id p)) p (db, s) = (db1, s1)" by fastforce
  have one: "retained has (expired_in clock projects) (sd_spans db) s (sd_spans db1) s1"
    by (rule retained_project [where clock = clock, OF assms(1) Cons.prems(3) r]) (use Cons.prems(2) in auto)
  then have "distinct (map span_identity (sd_spans db1))" using Cons.prems(3) by (auto simp: retained_def distinct_map_filter)
  with Cons.IH [of db1 s1] Cons.prems(1,2) r have "retained has (expired_in clock projects) (sd_spans db1) s1 (sd_spans db') s'" by simp
  with one show ?case by (rule retained_trans)
qed

lemma retained_run:
  assumes "s3_delete_law has del" and "distinct (map span_identity (sd_spans db))"
    and "run_data_retention del clock projects (db, s) = (db', s')"
  shows "retained has (expired_in clock projects) (sd_spans db) s (sd_spans db') s'"
  by (rule retained_fold [OF assms(1) _ _ assms(2), where ps = "filter pj_is_active projects"])
    (use assms(3) in \<open>auto simp: run_data_retention_def\<close>)

text \<open>
  C30: Retention deletes only expired data, rows and payloads together. A run removes only spans of
  active projects that are older than the project's retention; when a span is gone, so is its
  payload in the object store; and only payloads of expired spans, under the prefix of their
  project, are removed. This holds whatever deletions of the store fail or raise.
\<close>

theorem retention_deletes_only_expired:
  assumes "s3_delete_law has del" and "distinct (map span_identity (sd_spans db))"
    and "run_data_retention del clock projects (db, s) = (db', s')"
  shows "retained has (expired_in clock projects) (sd_spans db) s (sd_spans db') s'"
  by (rule retained_run [OF assms])

section \<open>Retention removes everything that is expired\<close>

definition never_fails :: "'s s3_delete \<Rightarrow> bool" where
  "never_fails del \<longleftrightarrow> (\<forall>s ks. fst (del s ks) = Ret [])"

lemma never_fails_batches: "never_fails del \<Longrightarrow> fst (delete_batches del keys s) = keys"
proof (induction del keys s rule: delete_batches.induct)
  case (1 del keys s)
  obtain s' where d: "del s (take S3_DELETE_BATCH_SIZE keys) = (Ret [], s')"
    using 1(2) unfolding never_fails_def by (metis prod.collapse)
  show ?case
  proof (cases "keys = []")
    case False
    with 1(1) [OF False refl d [symmetric] refl 1(2)] d show ?thesis
      by (auto simp: delete_batches.simps [of del keys] split: prod.split)
  qed (simp add: delete_batches.simps)
qed

lemma never_fails_round:
  assumes "never_fails del" and "x \<in> set (fetch_retention_batch p cutoff spans)"
  shows "x \<in> set spans \<and> x \<notin> set (fst (retention_round del p cutoff spans s))"
proof -
  let ?batch = "fetch_retention_batch p cutoff spans"
  let ?keys = "map (the \<circ> sp_payload_s3_key) (filter (\<lambda>r. truthy (sp_payload_s3_key r)) ?batch)"
  have x: "x \<in> set spans" "sp_project_id x = p"
    using assms(2) by (auto simp: fetch_retention_batch_def dest!: in_set_takeD)
  have "truthy (sp_payload_s3_key x) \<Longrightarrow> the (sp_payload_s3_key x) \<in> set ?keys" using assms(2) by force
  then have "span_identity x \<in> set (span_keys_to_delete p (filter (is_project_payload_key p) ?keys) ?batch)"
    using assms(2) by (auto simp: span_keys_to_delete_def)
  with x show ?thesis
    using never_fails_batches [OF assms(1), of "filter (is_project_payload_key p) ?keys" s]
    by (auto simp: retention_round_def delete_s3_objects_def Let_def delete_span_batch_def delete_where_def split: prod.split)
qed

lemma no_batch_no_expired:
  "fetch_retention_batch p cutoff spans = [] \<Longrightarrow> x \<in> set spans \<Longrightarrow> sp_project_id x = p \<Longrightarrow> \<not> sp_started_at x < cutoff"
  by (auto simp: fetch_retention_batch_def RETENTION_BATCH_SIZE_def filter_empty_conv dest: arg_cong [where f = set])

lemma round_filter: "\<exists>Q. fst (retention_round del p cutoff spans s) = filter Q spans"
  by (auto simp: retention_round_def Let_def delete_span_batch_def delete_where_def split: prod.split)

lemma round_other_projects:
  "filter (\<lambda>x. sp_project_id x \<noteq> p) (fst (retention_round del p cutoff spans s)) = filter (\<lambda>x. sp_project_id x \<noteq> p) spans"
  by (auto simp: retention_round_def Let_def delete_span_batch_def delete_where_def split: prod.split intro!: filter_cong)

lemma loop_spec:
  "filter (\<lambda>x. sp_project_id x \<noteq> p) (fst (retention_loop del p cutoff spans s)) = filter (\<lambda>x. sp_project_id x \<noteq> p) spans \<and>
   (never_fails del \<longrightarrow> (\<forall>x \<in> set (fst (retention_loop del p cutoff spans s)). sp_project_id x = p \<longrightarrow> cutoff \<le> sp_started_at x))"
proof (induction del p cutoff spans s rule: retention_loop.induct)
  case (1 del p cutoff spans s)
  obtain spans1 s1 where r: "retention_round del p cutoff spans s = (spans1, s1)" by fastforce
  show ?case
  proof (cases "fetch_retention_batch p cutoff spans = []")
    case True
    with no_batch_no_expired [OF True] show ?thesis by (simp add: retention_loop.simps [of del p cutoff spans] not_less)
  next
    case False
    then obtain x where "x \<in> set (fetch_retention_batch p cutoff spans)" by (cases "fetch_retention_batch p cutoff spans") auto
    note gone = never_fails_round [OF _ this, of del s]
    obtain Q where Q: "spans1 = filter Q spans" using round_filter [of del p cutoff spans s] r by auto
    note other = round_other_projects [of p del cutoff spans s, unfolded r fst_conv]
    show ?thesis
    proof (cases "length spans1 = length spans")
      case True
      have "\<not> never_fails del"
      proof
        assume "never_fails del"
        from gone [OF this] r Q have "x \<in> set spans" "\<not> Q x" by auto
        then have "length (filter Q spans) < length spans" by (rule length_filter_less)
        with True Q show False by simp
      qed
      with False True r other show ?thesis by (simp add: retention_loop.simps [of del p cutoff spans])
    next
      case less: False
      from 1 [OF False r [symmetric] less] other False less r show ?thesis
        by (simp add: retention_loop.simps [of del p cutoff spans])
    qed
  qed
qed

lemma retain_project_spec:
  assumes "retain_project del now p (db, s) = (db', s')"
  shows "filter (\<lambda>x. sp_project_id x \<noteq> pj_id p) (sd_spans db') = filter (\<lambda>x. sp_project_id x \<noteq> pj_id p) (sd_spans db)"
    and "set (sd_traces db') \<subseteq> set (sd_traces db)"
    and "never_fails del \<Longrightarrow> x \<in> set (sd_spans db') \<Longrightarrow> sp_project_id x = pj_id p \<Longrightarrow>
      now - seconds (60 * 60 * 24 * pj_retention_days p) \<le> sp_started_at x"
    and "t \<in> set (sd_traces db') \<Longrightarrow> tr_project_id t = pj_id p \<Longrightarrow> tr_started_at t < now - seconds (60 * 60 * 24 * pj_retention_days p) \<Longrightarrow>
      \<exists>x \<in> set (sd_spans db'). sp_project_id x = pj_id p \<and> sp_trace_id x = tr_id t"
proof -
  let ?cutoff = "now - seconds (60 * 60 * 24 * pj_retention_days p)"
  obtain spans' where loop: "retention_loop del (pj_id p) ?cutoff (sd_spans db) s = (spans', s')"
      and db': "db' = db\<lparr>sd_spans := spans', sd_traces := delete_stale_traces (pj_id p) ?cutoff spans' (sd_traces db)\<rparr>"
    using assms by (auto simp: retain_project_def Let_def split: prod.splits)
  note spec = loop_spec [of "pj_id p" del ?cutoff "sd_spans db" s, unfolded loop fst_conv]
  from spec show "filter (\<lambda>x. sp_project_id x \<noteq> pj_id p) (sd_spans db') = filter (\<lambda>x. sp_project_id x \<noteq> pj_id p) (sd_spans db)"
    by (simp add: db')
  show "set (sd_traces db') \<subseteq> set (sd_traces db)" by (auto simp: db' delete_stale_traces_def delete_where_def)
  show "never_fails del \<Longrightarrow> x \<in> set (sd_spans db') \<Longrightarrow> sp_project_id x = pj_id p \<Longrightarrow> ?cutoff \<le> sp_started_at x"
    using spec by (simp add: db')
  show "t \<in> set (sd_traces db') \<Longrightarrow> tr_project_id t = pj_id p \<Longrightarrow> tr_started_at t < ?cutoff \<Longrightarrow>
      \<exists>x \<in> set (sd_spans db'). sp_project_id x = pj_id p \<and> sp_trace_id x = tr_id t"
    by (auto simp: db' delete_stale_traces_def delete_where_def list_ex_iff)
qed

text \<open>Nothing of the project is left to delete.\<close>

definition cleaned :: "(uuid \<Rightarrow> time) \<Rightarrow> span_db \<Rightarrow> project_row \<Rightarrow> bool" where
  "cleaned clock db p \<longleftrightarrow>
     (let cutoff = clock (pj_id p) - seconds (60 * 60 * 24 * pj_retention_days p) in
      list_all (\<lambda>x. sp_project_id x = pj_id p \<longrightarrow> cutoff \<le> sp_started_at x) (sd_spans db) \<and>
      list_all (\<lambda>t. tr_project_id t = pj_id p \<and> tr_started_at t < cutoff \<longrightarrow>
        list_ex (\<lambda>x. sp_project_id x = pj_id p \<and> sp_trace_id x = tr_id t) (sd_spans db)) (sd_traces db))"

lemma cleaned_other:
  assumes "retain_project del now q (db, s) = (db', s')" and "pj_id p \<noteq> pj_id q" and "cleaned clock db p"
  shows "cleaned clock db' p"
proof -
  have same: "x \<in> set (sd_spans db') \<longleftrightarrow> x \<in> set (sd_spans db)" if "sp_project_id x = pj_id p" for x
  proof -
    have "x \<in> set (filter (\<lambda>x. sp_project_id x \<noteq> pj_id q) (sd_spans db')) \<longleftrightarrow> x \<in> set (filter (\<lambda>x. sp_project_id x \<noteq> pj_id q) (sd_spans db))"
      by (simp only: retain_project_spec(1) [OF assms(1)])
    with that assms(2) show ?thesis by simp
  qed
  let ?cutoff = "clock (pj_id p) - seconds (60 * 60 * 24 * pj_retention_days p)"
  have old: "\<And>x. x \<in> set (sd_spans db) \<Longrightarrow> sp_project_id x = pj_id p \<Longrightarrow> ?cutoff \<le> sp_started_at x"
    "\<And>t. t \<in> set (sd_traces db) \<Longrightarrow> tr_project_id t = pj_id p \<Longrightarrow> tr_started_at t < ?cutoff \<Longrightarrow>
      \<exists>x \<in> set (sd_spans db). sp_project_id x = pj_id p \<and> sp_trace_id x = tr_id t"
    using assms(3) by (simp_all add: cleaned_def Let_def list_all_iff list_ex_iff)
  show ?thesis
    unfolding cleaned_def Let_def list_all_iff list_ex_iff
  proof (intro conjI ballI impI)
    fix x assume "x \<in> set (sd_spans db')" "sp_project_id x = pj_id p"
    then show "?cutoff \<le> sp_started_at x" using same old(1) by blast
  next
    fix t assume "t \<in> set (sd_traces db')" "tr_project_id t = pj_id p \<and> tr_started_at t < ?cutoff"
    then show "\<exists>x \<in> set (sd_spans db'). sp_project_id x = pj_id p \<and> sp_trace_id x = tr_id t"
      using old(2) [of t] retain_project_spec(2) [OF assms(1)] same by blast
  qed
qed

text \<open>
  Retention leaves the buckets and, from the minute of the cutoff on, all spans of a project, so it
  preserves the agreement of buckets and spans on which the alert rules of recent windows rely.
\<close>

lemma run_data_retention_buckets: "sd_buckets (fst (run_data_retention del clock projects w)) = sd_buckets (fst w)"
proof -
  have "sd_buckets (fst (fold (\<lambda>p. retain_project del (clock (pj_id p)) p) ps w)) = sd_buckets (fst w)" for ps
    by (induction ps arbitrary: w) (simp_all add: retain_project_def Let_def split: prod.split)
  then show ?thesis by (simp add: run_data_retention_def)
qed

theorem retention_keeps_recent_buckets:
  assumes "s3_delete_law has del" and "distinct (map span_identity (sd_spans db))"
    and "run_data_retention del clock projects (db, s) = (db', s')" and "buckets_match_since c q db"
    and "\<And>p. p \<in> set projects \<Longrightarrow> pj_id p = q \<Longrightarrow> clock q - seconds (60 * 60 * 24 * pj_retention_days p) \<le> c"
  shows "buckets_match_since c q db'"
proof -
  note ret = retained_run [OF assms(1-3)]
  from ret obtain Q where Q: "sd_spans db' = filter Q (sd_spans db)"
    and gone: "\<And>x. x \<in> set (sd_spans db) \<Longrightarrow> \<not> Q x \<Longrightarrow> expired_in clock projects x"
    unfolding retained_def by auto
  have "filter (in_minute q t) (sd_spans db') = filter (in_minute q t) (sd_spans db)" if "c \<le> t" for t
    unfolding Q filter_filter
  proof (rule filter_cong [OF refl])
    fix x assume x: "x \<in> set (sd_spans db)"
    have "Q x" if m: "in_minute q t x"
    proof (rule ccontr)
      assume "\<not> Q x"
      with gone [OF x] m assms(5) have "sp_started_at x < c"
        by (fastforce simp: expired_in_def list_ex_iff in_minute_def)
      moreover have "t \<le> sp_started_at x" using m by (auto simp: in_minute_def floor_to_minute_def pos_mod_sign)
      ultimately show False using \<open>c \<le> t\<close> by simp
    qed
    then show "(Q x \<and> in_minute q t x) = in_minute q t x" by blast
  qed
  moreover have "sd_buckets db' = sd_buckets db" using run_data_retention_buckets [of del clock projects "(db, s)"] assms(3) by simp
  ultimately show ?thesis using assms(4) by (simp add: buckets_match_since_def Let_def)
qed

text \<open>
  C31: Retention is complete when the object store works. If no deletion of the store fails, then after a run
  no active project has a span older than its retention, nor a trace older than it that has no span
  left.
\<close>

theorem retention_removes_all_expired:
  assumes "never_fails del" and "distinct (map pj_id projects)"
    and "run_data_retention del clock projects (db, s) = (db', s')"
  shows "list_all (cleaned clock db') (filter pj_is_active projects)"
proof -
  have "list_all (cleaned clock db') (done @ ps)"
    if "fold (\<lambda>p. retain_project del (clock (pj_id p)) p) ps (db, s) = (db', s')"
      and "distinct (map pj_id (done @ ps))" and "list_all (cleaned clock db) done" for "done" ps db s
    using that
  proof (induction ps arbitrary: "done" db s)
    case (Cons p ps)
    obtain db1 s1 where r: "retain_project del (clock (pj_id p)) p (db, s) = (db1, s1)" by fastforce
    have "cleaned clock db1 p"
      using retain_project_spec(3,4) [OF r] assms(1) by (auto simp: cleaned_def Let_def list_all_iff list_ex_iff)
    moreover have "list_all (cleaned clock db1) done"
      using Cons.prems(2,3) cleaned_other [OF r] by (auto simp: list_all_iff image_iff)
    ultimately show ?case using Cons.IH [of db1 s1 "done @ [p]"] Cons.prems(1,2) r by simp
  qed simp
  from this [of "filter pj_is_active projects" db s "[]"] assms(2,3) show ?thesis
    by (simp add: run_data_retention_def distinct_map_filter)
qed

text \<open>
  Undeletable payloads can stop retention. If the payloads of the oldest expired spans of a project, as many as
  one batch holds, cannot be deleted, no span of the project is removed, however many later ones
  have expired and could be.
\<close>

theorem undeletable_payloads_block_retention:
  assumes "list_all (\<lambda>x. truthy (sp_payload_s3_key x) \<and> is_project_payload_key p (the (sp_payload_s3_key x)))
      (fetch_retention_batch p cutoff spans)"
    and "\<And>s ks. case fst (del s ks) of Ret failed \<Rightarrow> set ks \<subseteq> set failed | Raise e \<Rightarrow> True"
  shows "fst (retention_loop del p cutoff spans s) = spans"
proof -
  have none: "fst (delete_batches del keys s) = []"
    if "\<forall>s ks. case fst (del s ks) of Ret failed \<Rightarrow> set ks \<subseteq> set failed | Raise e \<Rightarrow> True" for del and keys and s :: 'a
    using that
  proof (induction del keys s rule: delete_batches.induct)
    case (1 del keys s)
    obtain r s' where d: "del s (take S3_DELETE_BATCH_SIZE keys) = (r, s')" by fastforce
    with 1(2) have "case r of Ret failed \<Rightarrow> set (take S3_DELETE_BATCH_SIZE keys) \<subseteq> set failed | Raise e \<Rightarrow> True" by (metis fst_conv)
    with 1(1) [OF _ refl d [symmetric] _ 1(2)] d show ?case
      by (auto simp: delete_batches.simps [of del keys] filter_empty_conv split: outcome.splits prod.split)
  qed
  have keep: "span_keys_to_delete p [] (fetch_retention_batch p cutoff spans) = []"
    using assms(1) by (auto simp: span_keys_to_delete_def filter_empty_conv list_all_iff)
  have "fst (delete_batches del keys s) = []" for keys using none [of del] assms(2) by blast
  then have "fst (delete_s3_objects del p keys s) = []" for keys by (simp add: delete_s3_objects_def)
  with keep have "fst (retention_round del p cutoff spans s) = spans"
    by (simp add: retention_round_def Let_def case_prod_unfold delete_span_batch_def delete_where_def)
  then show ?thesis by (auto simp: retention_loop.simps [of del p cutoff spans] split: prod.split)
qed

section \<open>Partitions cover the coming months\<close>

definition valid_month :: "month \<Rightarrow> bool" where
  "valid_month m \<longleftrightarrow> 1 \<le> snd m \<and> snd m \<le> 12"

text \<open>Months counted from a fixed one.\<close>

definition month_no :: "month \<Rightarrow> int" where
  "month_no m = 12 * fst m + snd m - 1"

lemma add_months_spec: "valid_month (add_months m n) \<and> month_no (add_months m n) = month_no m + n"
proof -
  obtain i q r where i: "i = snd m - 1 + n" "q = i div 12" "r = i mod 12" by blast
  have "12 * q + r = i" "0 \<le> r" "r < 12" by (simp_all add: i(2,3))
  then show ?thesis
    unfolding valid_month_def month_no_def add_months_def Let_def fst_conv snd_conv i(1) [symmetric] i(2,3) [symmetric]
    using i(1) by (intro conjI) (simp_all add: distrib_left)
qed

lemma two_digits_spec:
  assumes "valid_month m"
  shows "length (two_digits (snd m)) = 2" and "py_int (two_digits (snd m)) = Some (snd m)"
proof -
  let ?ok = "\<lambda>n. length (two_digits n) = 2 \<and> py_int (two_digits n) = Some n"
  have all: "list_all ?ok [1..12]" by code_simp
  have "snd m \<in> set [1..12]" using assms by (simp add: valid_month_def)
  from all [unfolded list_all_iff, THEN bspec, OF this] have "?ok (snd m)" .
  then show "length (two_digits (snd m)) = 2" and "py_int (two_digits (snd m)) = Some (snd m)" by auto
qed

lemma append_inj_length: "xs @ us = ys @ vs \<Longrightarrow> length us = length vs \<Longrightarrow> xs = ys \<and> us = vs"
  by (simp add: append_eq_append_conv)

lemma suffix_inj:
  assumes "valid_month a" and "valid_month b" and "partition_suffix a = partition_suffix b"
  shows "a = b"
proof -
  let ?year = "\<lambda>m. py_str_int (fst m)" and ?month = "\<lambda>m. two_digits (snd m)"
  have "(?year a @ ''_'') @ ?month a = (?year b @ ''_'') @ ?month b"
    using assms(3) unfolding partition_suffix_def append.assoc .
  from append_inj_length [OF this] have eq: "?year a @ ''_'' = ?year b @ ''_''" "?month a = ?month b"
    unfolding two_digits_spec(1) [OF assms(1)] two_digits_spec(1) [OF assms(2)] by blast+
  from eq(1) have "?year a = ?year b" unfolding append_same_eq .
  then have "py_int (?year a) = py_int (?year b)" by (rule arg_cong)
  then have "fst a = fst b" unfolding py_int_str_int by (rule option.inject [THEN iffD1])
  moreover from eq(2) have "py_int (?month a) = py_int (?month b)" by (rule arg_cong)
  then have "snd a = snd b"
    unfolding two_digits_spec(2) [OF assms(1)] two_digits_spec(2) [OF assms(2)] by (rule option.inject [THEN iffD1])
  ultimately show ?thesis by (rule prod_eqI)
qed

definition partition_of :: "string \<Rightarrow> month \<Rightarrow> string \<times> month \<times> month" where
  "partition_of t m = (t @ ''_'' @ partition_suffix m, m, add_months m 1)"

lemma partition_name_inj:
  assumes "fst (partition_of t a) = fst (partition_of u b)" and "t \<in> {''spans'', ''traces''}" and "u \<in> {''spans'', ''traces''}"
    and "valid_month a" and "valid_month b"
  shows "t = u \<and> a = b"
proof -
  have "t = u" "partition_suffix a = partition_suffix b" using assms(1-3) by (auto simp: partition_of_def)
  with suffix_inj [OF assms(4,5)] show ?thesis by simp
qed

text \<open>Every partition holds one month of one table, and no month has two.\<close>

definition partitions_ok :: "partitions \<Rightarrow> bool" where
  "partitions_ok db \<longleftrightarrow> distinct (pt_parts db) \<and>
     (\<forall>e \<in> set (pt_parts db). \<exists>t m. t \<in> {''spans'', ''traces''} \<and> valid_month m \<and> e = partition_of t m)"

definition month_covered :: "(month \<Rightarrow> time) \<Rightarrow> partitions \<Rightarrow> month \<times> string \<Rightarrow> bool" where
  "month_covered instant db mt \<longleftrightarrow>
     partition_of (snd mt) (fst mt) \<in> set (pt_parts db) \<and> fst (partition_of (snd mt) (fst mt)) \<in> set (pt_forced_rls db) \<or>
     (\<exists>x \<in> set (pt_default_rows db (snd mt)). instant (fst mt) \<le> x \<and> x < instant (add_months (fst mt) 1))"

definition partitions_extend :: "partitions \<Rightarrow> partitions \<Rightarrow> bool" where
  "partitions_extend db db' \<longleftrightarrow> set (pt_parts db) \<subseteq> set (pt_parts db') \<and>
     set (pt_forced_rls db) \<subseteq> set (pt_forced_rls db') \<and> pt_default_rows db' = pt_default_rows db"

lemma partitions_extend_refl: "partitions_extend db db"
  by (simp add: partitions_extend_def)

lemma partitions_extend_trans: "partitions_extend a b \<Longrightarrow> partitions_extend b c \<Longrightarrow> partitions_extend a c"
  by (auto simp: partitions_extend_def)

lemma month_covered_extend: "month_covered instant db mt \<Longrightarrow> partitions_extend db db' \<Longrightarrow> month_covered instant db' mt"
  by (auto simp: month_covered_def partitions_extend_def)

lemma create_month_partition_spec:
  assumes "partitions_ok db" and "t \<in> {''spans'', ''traces''}" and "valid_month m"
  shows "\<exists>b db'. create_month_partition instant t m db = Inr (b, db') \<and> partitions_ok db' \<and> month_covered instant db' (m, t) \<and>
    partitions_extend db db'"
proof -
  let ?rows = "filter (\<lambda>x. instant m \<le> x \<and> x < instant (add_months m 1)) (pt_default_rows db t)"
  let ?name = "fst (partition_of t m)"
  have count: "default_partition_row_count instant db t (Some (m, add_months m 1)) = Inr (length ?rows)"
    using assms(2) by (simp add: default_partition_row_count_def)
  show ?thesis
  proof (cases "?rows = []")
    case False
    then have "month_covered instant db (m, t)" by (auto simp: month_covered_def filter_empty_conv)
    moreover have "create_month_partition instant t m db = Inr (False, db)"
      using False by (simp add: create_month_partition_def Let_def count)
    ultimately show ?thesis using assms(1) partitions_extend_refl by blast
  next
    case True
    define parts where "parts = (if list_ex (\<lambda>p. fst p = ?name) (pt_parts db) then pt_parts db else pt_parts db @ [partition_of t m])"
    define db' where "db' = db\<lparr>pt_parts := parts, pt_forced_rls := List.insert ?name (pt_forced_rls db)\<rparr>"
    have res: "create_month_partition instant t m db = Inr (True, db')"
      using True by (simp add: create_month_partition_def Let_def count db'_def parts_def partition_of_def)
    have inn: "partition_of t m \<in> set parts"
    proof (cases "list_ex (\<lambda>p. fst p = ?name) (pt_parts db)")
      case True
      then obtain e where e: "e \<in> set (pt_parts db)" "fst e = ?name" by (auto simp: list_ex_iff)
      with assms obtain u k where "e = partition_of u k" "u \<in> {''spans'', ''traces''}" "valid_month k"
        unfolding partitions_ok_def by blast
      with e assms(2,3) partition_name_inj [of u k t m] have "partition_of t m = e" by simp
      with e True show ?thesis by (simp add: parts_def)
    qed (simp add: parts_def)
    have sub: "set (pt_parts db) \<subseteq> set parts" "set parts \<subseteq> insert (partition_of t m) (set (pt_parts db))"
      by (auto simp: parts_def)
    have "distinct parts" using assms(1) by (auto simp: parts_def partitions_ok_def list_ex_iff)
    moreover have "\<exists>t m. t \<in> {''spans'', ''traces''} \<and> valid_month m \<and> e = partition_of t m" if "e \<in> set parts" for e
      using that assms sub(2) unfolding partitions_ok_def by blast
    ultimately have "partitions_ok db'" unfolding partitions_ok_def db'_def by simp
    with res inn sub(1) show ?thesis by (auto simp: db'_def month_covered_def partitions_extend_def)
  qed
qed

lemma create_partitions_spec:
  assumes "partitions_ok db" and "list_all (\<lambda>mt. valid_month (fst mt) \<and> snd mt \<in> {''spans'', ''traces''}) mts"
  shows "\<exists>db'. create_partitions instant mts db = Inr db' \<and> partitions_ok db' \<and> list_all (month_covered instant db') mts \<and>
    partitions_extend db db'"
  using assms
proof (induction mts arbitrary: db)
  case Nil
  then show ?case using partitions_extend_refl by simp
next
  case (Cons mt mts)
  obtain m t where mt: "mt = (m, t)" by (cases mt)
  from Cons.prems mt obtain b db1 where one: "create_month_partition instant t m db = Inr (b, db1)" "partitions_ok db1"
      "month_covered instant db1 (m, t)" "partitions_extend db db1"
    using create_month_partition_spec [of db t m instant] by auto
  from Cons.IH [OF one(2)] Cons.prems(2) obtain db2 where two: "create_partitions instant mts db1 = Inr db2" "partitions_ok db2"
      "list_all (month_covered instant db2) mts" "partitions_extend db1 db2"
    by auto
  have "month_covered instant db2 (m, t)" using month_covered_extend [OF one(3) two(4)] .
  moreover have "partitions_extend db db2" using partitions_extend_trans [OF one(4) two(4)] .
  ultimately show ?case using one(1) two mt by simp
qed


section \<open>The properties on a concrete database\<close>

text \<open>A store that is the list of its keys, and one whose deletions all fail.\<close>

definition ex_delete :: "string list s3_delete" where
  "ex_delete s ks = (Ret [], filter (\<lambda>k. k \<notin> set ks) s)"

definition ex_delete_denied :: "string list s3_delete" where
  "ex_delete_denied s ks = (Ret ks, s)"

definition ex_aged_span :: "uuid \<Rightarrow> time \<Rightarrow> string option \<Rightarrow> span_row" where
  "ex_aged_span i t key = \<lparr>sp_id = i, sp_trace_id = ''t'', sp_project_id = ''p'', sp_parent_span_id = None, sp_name = ''n'',
     sp_provider = ''openai'', sp_model = ''gpt'', sp_input_tokens = 1, sp_output_tokens = 1, sp_cost_usd = 0, sp_latency_ms = 1,
     sp_status = ''ok'', sp_error = None, sp_started_at = t, sp_payload_s3_key = key, sp_payload_status = Stored,
     sp_payload_drop_reason = None, sp_metadata = JStr ''{}''\<rparr>"

definition ex_aged_db :: span_db where
  "ex_aged_db = \<lparr>sd_spans = [ex_aged_span ''old'' 50 (Some ''payloads/p/old''), ex_aged_span ''new'' 150 (Some ''payloads/p/new'')],
     sd_traces = [], sd_outbox = [], sd_buckets = []\<rparr>"

definition ex_aged_project :: project_row where
  "ex_aged_project = \<lparr>pj_id = ''p'', pj_org_id = ''o'', pj_name = ''n'', pj_api_key_hash = [], pj_retention_days = 1,
     pj_payload_storage_mode = ''full'', pj_payload_max_bytes = 1, pj_payload_redact_keys = [], pj_is_active = True, pj_created_at = 0\<rparr>"

definition ex_clock :: "uuid \<Rightarrow> time" where
  "ex_clock u = seconds (60 * 60 * 24) + 100"

definition ex_cleaned_db :: span_db where
  "ex_cleaned_db = ex_aged_db\<lparr>sd_spans := [ex_aged_span ''new'' 150 (Some ''payloads/p/new'')]\<rparr>"

lemma ex_retention:
  "run_data_retention ex_delete ex_clock [ex_aged_project] (ex_aged_db, [''payloads/p/old'', ''payloads/p/new'']) =
   (ex_cleaned_db, [''payloads/p/new''])"
  by code_simp

lemma ex_delete_law: "s3_delete_law (\<lambda>s k. k \<in> set s) ex_delete"
  by (auto simp: s3_delete_law_def ex_delete_def)

theorem retention_deletes_only_expired_witness:
  "retained (\<lambda>s k. k \<in> set s) (expired_in ex_clock [ex_aged_project]) (sd_spans ex_aged_db) [''payloads/p/old'', ''payloads/p/new'']
     (sd_spans ex_cleaned_db) [''payloads/p/new'']"
  by (rule retention_deletes_only_expired [OF ex_delete_law _ ex_retention])
    (simp add: ex_aged_db_def ex_aged_span_def span_identity_def)

theorem retention_removes_all_expired_witness:
  "list_all (cleaned ex_clock ex_cleaned_db) (filter pj_is_active [ex_aged_project])"
  by (rule retention_removes_all_expired [OF _ _ ex_retention]) (simp_all add: never_fails_def ex_delete_def)

theorem undeletable_payloads_block_retention_witness:
  "fst (retention_loop ex_delete_denied ''p'' 100 (sd_spans ex_aged_db) [''payloads/p/old'']) = sd_spans ex_aged_db"
  by (rule undeletable_payloads_block_retention)
    (simp_all add: ex_aged_db_def ex_aged_span_def fetch_retention_batch_def RETENTION_BATCH_SIZE_def
      is_project_payload_key_def py_startswith_def ex_delete_denied_def)


end
