(* ===== verification/Sdk_Instrument.thy ===== *)
theory Sdk_Instrument
  imports Sdk_Tracer Py_Numbers "HOL-Library.Multiset"
begin

text \<open>
  The instrumentation of an application: \<^verbatim>\<open>sdk/llm_obs/decorators.py\<close>, the patched clients of
  \<^verbatim>\<open>sdk/llm_obs/integrations\<close> and the global tracer of \<^verbatim>\<open>sdk/llm_obs/__init__.py\<close>. The application is a tree
  of what it does: it enters spans and traced functions, calls a model, reads a stream, and goes on
  with the reply. Random identifiers and the clocks are parameters; a response of a client is the
  JSON value of its attributes.
\<close>

section \<open>The state of the library\<close>

text \<open>An exception: its text, its printed traceback, and whether it is an \<^verbatim>\<open>Exception\<close> (a cancellation is not).\<close>

record exn =
  ex_str :: string
  ex_traceback :: string
  ex_is_exception :: bool

text \<open>
  \<open>sv_uuid\<close>, \<open>sv_now\<close> and \<open>sv_perf\<close> give the n-th identifier and clock readings, \<open>sv_error\<close> is what a failed
  conversion raises, \<open>sv_str\<close> is \<^verbatim>\<open>str\<close> on values that are not texts, \<open>sv_transport\<close> the transport of a tracer made from the environment's key.
\<close>

record 't sdk_env =
  sv_uuid :: "nat \<Rightarrow> string"
  sv_now :: "nat \<Rightarrow> time"
  sv_perf :: "nat \<Rightarrow> rat"
  sv_error :: exn
  sv_str :: "json \<Rightarrow> string"
  sv_api_key :: "string option"
  sv_transport :: "string \<Rightarrow> 't"

text \<open>What a client returns for \<^verbatim>\<open>stream=True\<close>: chunks and how they end, and its \<^verbatim>\<open>aclose\<close>, if any: what it raises
  and what is left to read afterwards. The last two say how far the pass over it is.\<close>

record stream_src =
  src_chunks :: "json list"
  src_end :: "exn option"
  src_close :: "(exn option \<times> json list \<times> exn option) option"
  src_started :: bool
  src_done :: bool

datatype provider = OpenAI | Anthropic

record traced_stream =
  ts_src :: stream_src
  ts_provider :: provider
  ts_trace_id :: string
  ts_span_id :: string
  ts_parent_span_id :: "string option"
  ts_model :: string
  ts_messages :: "json list"
  ts_system :: json
  ts_started_at :: time
  ts_start :: rat
  ts_output_parts :: "json list"
  ts_input_tokens :: int
  ts_output_tokens :: int
  ts_recorded :: bool

text \<open>The two context variables, the tracer, the last one that was shut down (for its diagnostics), the streams handed out, the counters of the supplies, and as a
  history variable the spans that were given to the tracer.\<close>

record 't sdk =
  sk_trace_id :: "string option"
  sk_span_id :: "string option"
  sk_tracer :: "'t tracer option"
  sk_last :: "'t tracer option"
  sk_streams :: "traced_stream list"
  sk_uuids :: nat
  sk_readings :: nat
  sk_log :: "span_data list"

definition fresh_uuid :: "'t sdk_env \<Rightarrow> 't sdk \<Rightarrow> string \<times> 't sdk" where
  "fresh_uuid E s = (sv_uuid E (sk_uuids s), s\<lparr>sk_uuids := Suc (sk_uuids s)\<rparr>)"

definition read_now :: "'t sdk_env \<Rightarrow> 't sdk \<Rightarrow> time \<times> 't sdk" where
  "read_now E s = (sv_now E (sk_readings s), s\<lparr>sk_readings := Suc (sk_readings s)\<rparr>)"

definition read_perf :: "'t sdk_env \<Rightarrow> 't sdk \<Rightarrow> rat \<times> 't sdk" where
  "read_perf E s = (sv_perf E (sk_readings s), s\<lparr>sk_readings := Suc (sk_readings s)\<rparr>)"

text \<open>\<^verbatim>\<open>_current_trace_id.get() or str(uuid.uuid4())\<close>.\<close>

definition trace_id_or_new :: "'t sdk_env \<Rightarrow> 't sdk \<Rightarrow> string \<times> 't sdk" where
  "trace_id_or_new E s = (if truthy (sk_trace_id s) then (the (sk_trace_id s), s) else fresh_uuid E s)"

definition get_or_create_tracer :: "'t sdk_env \<Rightarrow> 't sdk \<Rightarrow> 't tracer option \<times> 't sdk" where
  "get_or_create_tracer E s =
     (case sk_tracer s of
        Some t \<Rightarrow> (Some t, s)
      | None \<Rightarrow>
          if \<not> truthy (sv_api_key E) then (None, s)
          else let t = init_tracer 500 (sv_transport E (the (sv_api_key E))) in (Some t, s\<lparr>sk_tracer := Some t\<rparr>))"

text \<open>Giving a span to the tracer; \<open>None\<close>: building the span raised, which is swallowed.\<close>

definition give_span :: "'t sdk_env \<Rightarrow> span_data option \<Rightarrow> 't sdk \<Rightarrow> 't sdk" where
  "give_span E sp s =
     (case get_or_create_tracer E s of
        (None, s1) \<Rightarrow> s1
      | (Some t, s1) \<Rightarrow>
          (case sp of
             None \<Rightarrow> s1
           | Some d \<Rightarrow> s1\<lparr>sk_tracer := Some (record_span d t), sk_log := sk_log s1 @ [d]\<rparr>))"

definition sdk_init :: "nat \<Rightarrow> 't \<Rightarrow> 't sdk \<Rightarrow> unit outcome \<times> 't sdk" where
  "sdk_init buffer_size tr s =
     (if sk_tracer s \<noteq> None then (Raise ''RuntimeError'', s)
      else (Ret (), s\<lparr>sk_last := None, sk_tracer := Some (init_tracer buffer_size tr)\<rparr>))"

text \<open>The tracer leaves before it is shut down; its diagnostics are kept unless that raises. \<open>None\<close>: it does not return.\<close>

definition sdk_shutdown ::
  "(time \<Rightarrow> string) \<Rightarrow> 't sender \<Rightarrow> string \<Rightarrow> bool \<Rightarrow> 't sdk \<Rightarrow> (unit outcome \<times> 't sdk) option" where
  "sdk_shutdown isofmt send key do_flush s =
     (case sk_tracer s of
        None \<Rightarrow> Some (Ret (), s)
      | Some t \<Rightarrow>
          (case shutdown isofmt send key do_flush t of
             None \<Rightarrow> None
           | Some (Raise e, _) \<Rightarrow> Some (Raise e, s\<lparr>sk_tracer := None\<rparr>)
           | Some (Ret _, t') \<Rightarrow> Some (Ret (), s\<lparr>sk_tracer := None, sk_last := Some t'\<rparr>)))"

definition sdk_diagnostics_of :: "('t \<Rightarrow> string option) \<Rightarrow> 't sdk \<Rightarrow> sdk_diagnostics option" where
  "sdk_diagnostics_of flush_reason s =
     map_option (get_sdk_diagnostics flush_reason) (case sk_tracer s of None \<Rightarrow> sk_last s | Some t \<Rightarrow> Some t)"

section \<open>Manual spans\<close>

record span_args =
  sa_name :: string
  sa_provider :: string
  sa_model :: string
  sa_input_messages :: "json list option"
  sa_metadata :: "(string \<times> json) list option"

record manual_span =
  ms_name :: string
  ms_provider :: string
  ms_model :: string
  ms_input_messages :: "json list"
  ms_metadata :: "(string \<times> json) list"
  ms_output :: json
  ms_input_tokens :: int
  ms_output_tokens :: int
  ms_trace_id :: string
  ms_span_id :: string
  ms_parent_span_id :: "string option"
  ms_trace_token :: "string option option"
  ms_span_token :: "string option option"
  ms_started_at :: "time option"
  ms_start :: rat

definition manual_span_init :: "'t sdk_env \<Rightarrow> span_args \<Rightarrow> 't sdk \<Rightarrow> manual_span \<times> 't sdk" where
  "manual_span_init E a s =
     (let (trace_id, s1) = trace_id_or_new E s;
          (span_id, s2) = fresh_uuid E s1
      in (\<lparr>ms_name = sa_name a, ms_provider = sa_provider a, ms_model = sa_model a,
           ms_input_messages = (case sa_input_messages a of None \<Rightarrow> [] | Some ms \<Rightarrow> ms),
           ms_metadata = (case sa_metadata a of None \<Rightarrow> [] | Some m \<Rightarrow> m), ms_output = JNull,
           ms_input_tokens = 0, ms_output_tokens = 0, ms_trace_id = trace_id, ms_span_id = span_id,
           ms_parent_span_id = sk_span_id s, ms_trace_token = None, ms_span_token = None,
           ms_started_at = None, ms_start = 0\<rparr>, s2))"

definition aenter :: "'t sdk_env \<Rightarrow> manual_span \<Rightarrow> 't sdk \<Rightarrow> manual_span \<times> 't sdk" where
  "aenter E m s =
     (let trace_id = (if truthy (sk_trace_id s) then the (sk_trace_id s) else ms_trace_id m);
          s1 = s\<lparr>sk_trace_id := Some trace_id, sk_span_id := Some (ms_span_id m)\<rparr>;
          (now, s2) = read_now E s1;
          (start, s3) = read_perf E s2
      in (m\<lparr>ms_trace_id := trace_id, ms_parent_span_id := sk_span_id s, ms_trace_token := Some (sk_trace_id s),
            ms_span_token := Some (sk_span_id s), ms_started_at := Some now, ms_start := start\<rparr>, s3))"

definition aexit :: "'t sdk_env \<Rightarrow> manual_span \<Rightarrow> exn option \<Rightarrow> 't sdk \<Rightarrow> 't sdk" where
  "aexit E m exc s =
     (let (now, s1) = read_perf E s;
          s2 = (case ms_span_token m of None \<Rightarrow> s1 | Some old \<Rightarrow> s1\<lparr>sk_span_id := old\<rparr>);
          s3 = (case ms_trace_token m of None \<Rightarrow> s2 | Some old \<Rightarrow> s2\<lparr>sk_trace_id := old\<rparr>);
          (started_at, s4) = (case ms_started_at m of Some t \<Rightarrow> (t, s3) | None \<Rightarrow> read_now E s3)
      in give_span E (Some \<lparr>sd_trace_id = ms_trace_id m, sd_span_id = ms_span_id m, sd_name = ms_name m,
           sd_provider = ms_provider m, sd_model = ms_model m, sd_input_messages = ms_input_messages m,
           sd_parent_span_id = ms_parent_span_id m, sd_output = ms_output m, sd_error = map_option ex_traceback exc,
           sd_input_tokens = ms_input_tokens m, sd_output_tokens = ms_output_tokens m,
           sd_latency_ms = (now - ms_start m) * 1000, sd_started_at = started_at, sd_metadata = ms_metadata m\<rparr>) s4)"

text \<open>What the body of a span may do with the span.\<close>

datatype span_op =
    SetOutput "string option"
  | SetTokens int int
  | UpdateMetadata "(string \<times> json) list"

fun apply_span_op :: "span_op \<Rightarrow> manual_span \<Rightarrow> manual_span" where
  "apply_span_op (SetOutput v) m = m\<lparr>ms_output := opt_json v\<rparr>"
| "apply_span_op (SetTokens i n) m = m\<lparr>ms_input_tokens := i, ms_output_tokens := n\<rparr>"
| "apply_span_op (UpdateMetadata d) m = m\<lparr>ms_metadata := fold (\<lambda>(k, v). dict_set k v) d (ms_metadata m)\<rparr>"

section \<open>Traced functions\<close>

text \<open>The wrapper up to the call of the function, and after it.\<close>

record trace_frame =
  tf_span_id :: string
  tf_trace_id :: string
  tf_parent_span_id :: "string option"
  tf_trace_token :: "string option"
  tf_span_token :: "string option"
  tf_started_at :: time
  tf_start :: rat

definition trace_enter :: "'t sdk_env \<Rightarrow> 't sdk \<Rightarrow> trace_frame \<times> 't sdk" where
  "trace_enter E s =
     (let (span_id, s1) = fresh_uuid E s;
          (trace_id, s2) = trace_id_or_new E s1;
          s3 = s2\<lparr>sk_trace_id := Some trace_id, sk_span_id := Some span_id\<rparr>;
          (started_at, s4) = read_now E s3;
          (start, s5) = read_perf E s4
      in (\<lparr>tf_span_id = span_id, tf_trace_id = trace_id, tf_parent_span_id = sk_span_id s, tf_trace_token = sk_trace_id s,
           tf_span_token = sk_span_id s, tf_started_at = started_at, tf_start = start\<rparr>, s5))"

text \<open>\<^verbatim>\<open>except Exception\<close>: the error text of a result.\<close>

definition caught :: "(exn \<Rightarrow> string) \<Rightarrow> exn option \<Rightarrow> string option" where
  "caught txt_of exc = (case exc of None \<Rightarrow> None | Some e \<Rightarrow> if ex_is_exception e then Some (txt_of e) else None)"

definition trace_exit :: "'t sdk_env \<Rightarrow> string \<Rightarrow> (string \<times> json) list option \<Rightarrow> trace_frame \<Rightarrow> exn option \<Rightarrow> 't sdk \<Rightarrow> 't sdk" where
  "trace_exit E func_name metadata f exc s =
     (let (now, s1) = read_perf E s;
          s2 = s1\<lparr>sk_trace_id := tf_trace_token f, sk_span_id := tf_span_token f\<rparr>
      in give_span E (Some \<lparr>sd_trace_id = tf_trace_id f, sd_span_id = tf_span_id f, sd_name = func_name, sd_provider = ''custom'',
           sd_model = ''unknown'', sd_input_messages = [], sd_parent_span_id = tf_parent_span_id f, sd_output = JNull,
           sd_error = caught ex_traceback exc, sd_input_tokens = 0, sd_output_tokens = 0,
           sd_latency_ms = (now - tf_start f) * 1000, sd_started_at = tf_started_at f,
           sd_metadata = (case metadata of None \<Rightarrow> [] | Some m \<Rightarrow> m)\<rparr>) s2)"

section \<open>Responses of the clients\<close>

text \<open>\<^verbatim>\<open>_get_value\<close>; \<open>None\<close> in what follows is an exception.\<close>

fun get_value :: "json \<Rightarrow> string \<Rightarrow> json \<Rightarrow> json" where
  "get_value (JObj m) name dflt = (case map_of m name of None \<Rightarrow> dflt | Some v \<Rightarrow> v)"
| "get_value _ name dflt = dflt"

definition py_or :: "json \<Rightarrow> json \<Rightarrow> json" where
  "py_or v w = (if py_falsy v then w else v)"

definition token_count :: "json \<Rightarrow> string \<Rightarrow> int option" where
  "token_count usage name = py_int_of (py_or (get_value usage name (JInt 0)) (JInt 0))"

definition token_counts :: "json \<Rightarrow> string \<Rightarrow> string \<Rightarrow> (int \<times> int) option" where
  "token_counts usage a b = Option.bind (token_count usage a) (\<lambda>i. map_option (Pair i) (token_count usage b))"

text \<open>\<^verbatim>\<open>v[0]\<close> of a value that is not empty.\<close>

fun first_item :: "json \<Rightarrow> json option" where
  "first_item (JArr (x # xs)) = Some x"
| "first_item (JStr (c # cs)) = Some (JStr [c])"
| "first_item _ = None"

definition openai_usage :: "json \<Rightarrow> (int \<times> int) option" where
  "openai_usage response = token_counts (get_value response ''usage'' JNull) ''prompt_tokens'' ''completion_tokens''"

definition openai_output :: "json \<Rightarrow> json option" where
  "openai_output response =
     (let choices = py_or (get_value response ''choices'' (JArr [])) (JArr [])
      in if py_falsy choices then Some JNull
         else map_option (\<lambda>c. get_value (get_value c ''message'' JNull) ''content'' JNull) (first_item choices))"

definition openai_stream_delta :: "json \<Rightarrow> json option" where
  "openai_stream_delta chunk =
     (let choices = py_or (get_value chunk ''choices'' (JArr [])) (JArr [])
      in if py_falsy choices then Some (JStr [])
         else map_option (\<lambda>c. py_or (get_value (get_value c ''delta'' JNull) ''content'' (JStr [])) (JStr [])) (first_item choices))"

definition anthropic_usage :: "json \<Rightarrow> (int \<times> int) option" where
  "anthropic_usage response = token_counts (get_value response ''usage'' JNull) ''input_tokens'' ''output_tokens''"

definition anthropic_output :: "json \<Rightarrow> json option" where
  "anthropic_output response =
     (let content = py_or (get_value response ''content'' (JArr [])) (JArr [])
      in if py_falsy content then Some JNull else map_option (\<lambda>c. get_value c ''text'' JNull) (first_item content))"

definition anthropic_stream_delta :: "(json \<Rightarrow> string) \<Rightarrow> json \<Rightarrow> string" where
  "anthropic_stream_delta str_of event =
     (let text = get_value (get_value event ''delta'' JNull) ''text'' JNull;
          block_text = get_value (get_value event ''content_block'' JNull) ''text'' JNull;
          to_str = (\<lambda>v. case v of JStr s \<Rightarrow> s | _ \<Rightarrow> str_of v)
      in if \<not> py_falsy text then to_str text else if \<not> py_falsy block_text then to_str block_text else [])"

definition anthropic_message_start_usage :: "json \<Rightarrow> (int \<times> int) option" where
  "anthropic_message_start_usage event =
     token_counts (get_value (get_value event ''message'' JNull) ''usage'' JNull) ''input_tokens'' ''output_tokens''"

section \<open>Streams\<close>

text \<open>\<^verbatim>\<open>_capture_chunk\<close> and \<^verbatim>\<open>_capture_event\<close>; the flag is \<open>False\<close> if they raise.\<close>

definition openai_capture :: "json \<Rightarrow> traced_stream \<Rightarrow> traced_stream \<times> bool" where
  "openai_capture chunk ts =
     (case openai_stream_delta chunk of
        None \<Rightarrow> (ts, False)
      | Some delta \<Rightarrow>
          (let ts1 = (if py_falsy delta then ts else ts\<lparr>ts_output_parts := ts_output_parts ts @ [delta]\<rparr>)
           in if get_value chunk ''usage'' JNull = JNull then (ts1, True)
              else case openai_usage chunk of
                     None \<Rightarrow> (ts1, False)
                   | Some (i, n) \<Rightarrow> (ts1\<lparr>ts_input_tokens := i, ts_output_tokens := n\<rparr>, True)))"

definition anthropic_capture :: "(json \<Rightarrow> string) \<Rightarrow> json \<Rightarrow> traced_stream \<Rightarrow> traced_stream \<times> bool" where
  "anthropic_capture str_of event ts =
     (let delta = anthropic_stream_delta str_of event;
          ts1 = (if delta = [] then ts else ts\<lparr>ts_output_parts := ts_output_parts ts @ [JStr delta]\<rparr>);
          usage = get_value event ''usage'' JNull
      in case anthropic_message_start_usage event of
           None \<Rightarrow> (ts1, False)
         | Some (i, n) \<Rightarrow>
             (let ts2 = (if i \<noteq> 0 \<or> n \<noteq> 0 then ts1\<lparr>ts_input_tokens := i, ts_output_tokens := n\<rparr> else ts1)
              in if usage = JNull then (ts2, True)
                 else case token_count usage ''output_tokens'' of
                        None \<Rightarrow> (ts2, False)
                      | Some m \<Rightarrow> (if m \<noteq> 0 then ts2\<lparr>ts_output_tokens := m\<rparr> else ts2, True)))"

definition capture :: "'t sdk_env \<Rightarrow> json \<Rightarrow> traced_stream \<Rightarrow> traced_stream \<times> bool" where
  "capture E chunk ts =
     (case ts_provider ts of OpenAI \<Rightarrow> openai_capture chunk ts | Anthropic \<Rightarrow> anthropic_capture (sv_str E) chunk ts)"

fun call_name :: "provider \<Rightarrow> string" where
  "call_name OpenAI = ''openai.chat.completions.create''"
| "call_name Anthropic = ''anthropic.messages.create''"

fun provider_name :: "provider \<Rightarrow> string" where
  "provider_name OpenAI = ''openai''"
| "provider_name Anthropic = ''anthropic''"

text \<open>\<^verbatim>\<open>"".join(parts)\<close>, which raises on anything but texts.\<close>

fun join_parts :: "json list \<Rightarrow> string option" where
  "join_parts [] = Some []"
| "join_parts (JStr s # ps) = map_option ((@) s) (join_parts ps)"
| "join_parts _ = None"

definition common_stream_span ::
  "string \<Rightarrow> string \<Rightarrow> (string \<times> json) list \<Rightarrow> traced_stream \<Rightarrow> rat \<Rightarrow> string option \<Rightarrow> span_data option" where
  "common_stream_span nm prov metadata ts latency_ms error_str =
     map_option (\<lambda>out. \<lparr>sd_trace_id = ts_trace_id ts, sd_span_id = ts_span_id ts, sd_name = nm, sd_provider = prov,
       sd_model = ts_model ts, sd_input_messages = ts_messages ts, sd_parent_span_id = ts_parent_span_id ts,
       sd_output = (if out = [] then JNull else JStr out), sd_error = error_str,
       sd_input_tokens = ts_input_tokens ts, sd_output_tokens = ts_output_tokens ts, sd_latency_ms = latency_ms,
       sd_started_at = ts_started_at ts, sd_metadata = metadata\<rparr>) (join_parts (ts_output_parts ts))"

definition openai_stream_span :: "traced_stream \<Rightarrow> rat \<Rightarrow> string option \<Rightarrow> bool \<Rightarrow> span_data option" where
  "openai_stream_span ts latency_ms error_str completed =
     common_stream_span (call_name OpenAI) (provider_name OpenAI)
       [(''stream'', JBool True), (''stream_complete'', JBool completed)] ts latency_ms error_str"

definition anthropic_stream_span :: "traced_stream \<Rightarrow> rat \<Rightarrow> string option \<Rightarrow> bool \<Rightarrow> span_data option" where
  "anthropic_stream_span ts latency_ms error_str completed =
     common_stream_span (call_name Anthropic) (provider_name Anthropic)
       [(''system'', ts_system ts), (''stream'', JBool True), (''stream_complete'', JBool completed)] ts latency_ms error_str"

definition stream_span :: "traced_stream \<Rightarrow> rat \<Rightarrow> string option \<Rightarrow> bool \<Rightarrow> span_data option" where
  "stream_span ts = (case ts_provider ts of OpenAI \<Rightarrow> openai_stream_span ts | Anthropic \<Rightarrow> anthropic_stream_span ts)"

lemma stream_span_SomeD:
  assumes "stream_span ts latency_ms error_str completed = Some d"
  shows "sd_trace_id d = ts_trace_id ts" and "sd_span_id d = ts_span_id ts" and "sd_parent_span_id d = ts_parent_span_id ts"
    and "sd_name d = call_name (ts_provider ts)" and "sd_error d = error_str"
  using assms by (auto simp: stream_span_def openai_stream_span_def anthropic_stream_span_def common_stream_span_def split: provider.splits)

lemma stream_span_joined:
  "join_parts (ts_output_parts ts) = Some out \<Longrightarrow> \<exists>d. stream_span ts latency_ms error_str completed = Some d"
  by (cases "ts_provider ts") (simp_all add: stream_span_def openai_stream_span_def anthropic_stream_span_def common_stream_span_def)

definition stream_record :: "'t sdk_env \<Rightarrow> nat \<Rightarrow> string option \<Rightarrow> bool \<Rightarrow> 't sdk \<Rightarrow> 't sdk" where
  "stream_record E i error_str completed s =
     (let ts = sk_streams s ! i
      in if ts_recorded ts then s
         else
           (let s1 = s\<lparr>sk_streams := (sk_streams s)[i := ts\<lparr>ts_recorded := True\<rparr>]\<rparr>;
                (now, s2) = read_perf E s1
            in give_span E (stream_span ts ((now - ts_start ts) * 1000) error_str completed) s2))"

text \<open>One pass over a stream: ask for the next chunk, leave the loop, or close the stream.\<close>

datatype stream_op = SNext | SBreak | SClose

datatype stream_reply = Chunk json | StreamEnd | StreamErr exn | Closed

definition set_stream :: "nat \<Rightarrow> traced_stream \<Rightarrow> 't sdk \<Rightarrow> 't sdk" where
  "set_stream i ts s = s\<lparr>sk_streams := (sk_streams s)[i := ts]\<rparr>"

definition traced_next :: "'t sdk_env \<Rightarrow> nat \<Rightarrow> 't sdk \<Rightarrow> stream_reply \<times> 't sdk" where
  "traced_next E i s =
     (let ts = sk_streams s ! i; src = ts_src ts; over = src\<lparr>src_started := True, src_done := True\<rparr>
      in if src_done src then (StreamEnd, s)
         else case src_chunks src of
           chunk # rest \<Rightarrow>
             (case capture E chunk ts of
                (ts1, True) \<Rightarrow> (Chunk chunk, set_stream i (ts1\<lparr>ts_src := src\<lparr>src_chunks := rest, src_started := True\<rparr>\<rparr>) s)
              | (ts1, False) \<Rightarrow>
                  (StreamErr (sv_error E),
                   stream_record E i (caught ex_str (Some (sv_error E))) False
                     (set_stream i (ts1\<lparr>ts_src := over\<lparr>src_chunks := rest\<rparr>\<rparr>) s)))
         | [] \<Rightarrow>
             (let s1 = set_stream i (ts\<lparr>ts_src := over\<rparr>) s
              in case src_end src of
                   None \<Rightarrow> (StreamEnd, stream_record E i None True s1)
                 | Some e \<Rightarrow> (StreamErr e, stream_record E i (caught ex_str (Some e)) False s1)))"

text \<open>Leaving the loop closes the generator, whose \<^verbatim>\<open>finally\<close> runs if it was started.\<close>

definition stream_break :: "'t sdk_env \<Rightarrow> nat \<Rightarrow> 't sdk \<Rightarrow> stream_reply \<times> 't sdk" where
  "stream_break E i s =
     (let ts = sk_streams s ! i; src = ts_src ts; s1 = set_stream i (ts\<lparr>ts_src := src\<lparr>src_done := True\<rparr>\<rparr>) s
      in (Closed, if src_done src \<or> \<not> src_started src then s1 else stream_record E i None False s1))"

definition stream_close :: "'t sdk_env \<Rightarrow> nat \<Rightarrow> 't sdk \<Rightarrow> stream_reply \<times> 't sdk" where
  "stream_close E i s =
     (let ts = sk_streams s ! i; src = ts_src ts
      in case src_close src of
           None \<Rightarrow> (Closed, stream_record E i None False s)
         | Some (raised, chunks, stream_end) \<Rightarrow>
             (let s1 = set_stream i (ts\<lparr>ts_src := src\<lparr>src_chunks := chunks, src_end := stream_end\<rparr>\<rparr>) s
              in case raised of
                   Some e \<Rightarrow> (StreamErr e, s1)
                 | None \<Rightarrow> (Closed, stream_record E i None False s1)))"

definition stream_step :: "'t sdk_env \<Rightarrow> nat \<Rightarrow> stream_op \<Rightarrow> 't sdk \<Rightarrow> stream_reply \<times> 't sdk" where
  "stream_step E i op s =
     (if length (sk_streams s) \<le> i then (StreamEnd, s)
      else case op of SNext \<Rightarrow> traced_next E i s | SBreak \<Rightarrow> stream_break E i s | SClose \<Rightarrow> stream_close E i s)"

section \<open>Calls of a patched client\<close>

record llm_kwargs =
  kw_model :: "string option"
  kw_messages :: "json list option"
  kw_system :: json
  kw_stream :: json

text \<open>What the client's own function does, and what the application gets.\<close>

datatype llm_result = Raised exn | Response json | AsyncStream stream_src

datatype llm_reply = LRaise exn | LValue json | LStream nat | LRaw stream_src

definition usage_of :: "provider \<Rightarrow> json \<Rightarrow> (int \<times> int) option" where
  "usage_of p response = (case p of OpenAI \<Rightarrow> openai_usage response | Anthropic \<Rightarrow> anthropic_usage response)"

definition output_of :: "provider \<Rightarrow> json \<Rightarrow> json option" where
  "output_of p response = (case p of OpenAI \<Rightarrow> openai_output response | Anthropic \<Rightarrow> anthropic_output response)"

definition traced_create :: "'t sdk_env \<Rightarrow> provider \<Rightarrow> llm_kwargs \<Rightarrow> llm_result \<Rightarrow> 't sdk \<Rightarrow> llm_reply \<times> 't sdk" where
  "traced_create E p kw original s =
     (let (f, s1) = trace_enter E s;
          messages = (case kw_messages kw of None \<Rightarrow> [] | Some ms \<Rightarrow> ms);
          model = (case kw_model kw of None \<Rightarrow> ''unknown'' | Some m \<Rightarrow> m);
          (now, s2) = read_perf E s1;
          s3 = s2\<lparr>sk_span_id := tf_span_token f, sk_trace_id := tf_trace_token f\<rparr>;
          record_call = (\<lambda>error_str response.
            case usage_of p response of
              None \<Rightarrow> s3
            | Some (i, n) \<Rightarrow>
                give_span E (map_option (\<lambda>out. \<lparr>sd_trace_id = tf_trace_id f, sd_span_id = tf_span_id f, sd_name = call_name p,
                  sd_provider = provider_name p, sd_model = model, sd_input_messages = messages,
                  sd_parent_span_id = tf_parent_span_id f, sd_output = out, sd_error = error_str, sd_input_tokens = i,
                  sd_output_tokens = n, sd_latency_ms = (now - tf_start f) * 1000, sd_started_at = tf_started_at f,
                  sd_metadata = (case p of OpenAI \<Rightarrow> [] | Anthropic \<Rightarrow> [(''system'', kw_system kw)])\<rparr>) (output_of p response)) s3)
      in case original of
           Raised e \<Rightarrow> (LRaise e, record_call (caught ex_str (Some e)) JNull)
         | Response response \<Rightarrow> (LValue response, record_call None response)
         | AsyncStream src \<Rightarrow>
             if py_falsy (kw_stream kw) then (LRaw src, record_call None JNull)
             else (LStream (length (sk_streams s3)),
                   s3\<lparr>sk_streams := sk_streams s3 @ [\<lparr>ts_src = src, ts_provider = p, ts_trace_id = tf_trace_id f, ts_span_id = tf_span_id f,
                     ts_parent_span_id = tf_parent_span_id f, ts_model = model, ts_messages = messages, ts_system = kw_system kw,
                     ts_started_at = tf_started_at f, ts_start = tf_start f, ts_output_parts = [], ts_input_tokens = 0,
                     ts_output_tokens = 0, ts_recorded = False\<rparr>]\<rparr>))"

definition traced_openai :: "'t sdk_env \<Rightarrow> llm_kwargs \<Rightarrow> llm_result \<Rightarrow> 't sdk \<Rightarrow> llm_reply \<times> 't sdk" where
  "traced_openai E kw = traced_create E OpenAI kw"

definition traced_anthropic :: "'t sdk_env \<Rightarrow> llm_kwargs \<Rightarrow> llm_result \<Rightarrow> 't sdk \<Rightarrow> llm_reply \<times> 't sdk" where
  "traced_anthropic E kw = traced_create E Anthropic kw"

definition llm_call :: "'t sdk_env \<Rightarrow> provider \<Rightarrow> llm_kwargs \<Rightarrow> llm_result \<Rightarrow> 't sdk \<Rightarrow> llm_reply \<times> 't sdk" where
  "llm_call E p = (case p of OpenAI \<Rightarrow> traced_openai E | Anthropic \<Rightarrow> traced_anthropic E)"

lemma llm_call_eq: "llm_call E p = traced_create E p"
  by (cases p) (simp_all add: llm_call_def traced_openai_def traced_anthropic_def fun_eq_iff)

section \<open>An instrumented application\<close>

text \<open>
  A block ends normally or with an exception, and the application goes on with that: it may catch the
  exception or finish with it.
\<close>

datatype prog =
    Finish "exn option"
  | WithSpan span_args "span_op list" prog "exn option \<Rightarrow> prog"
  | TracedCall string "(string \<times> json) list option" prog "exn option \<Rightarrow> prog"
  | LlmCall provider llm_kwargs llm_result "llm_reply \<Rightarrow> prog"
  | StreamOp nat stream_op "stream_reply \<Rightarrow> prog"

primrec run_prog :: "prog \<Rightarrow> 't sdk_env \<Rightarrow> 't sdk \<Rightarrow> exn option \<times> 't sdk" where
  "run_prog (Finish r) E s = (r, s)"
| "run_prog (WithSpan a ops body k) E s =
     (let (m0, s1) = manual_span_init E a s;
          (m, s2) = aenter E m0 s1;
          (r, s3) = run_prog body E s2
      in run_prog (k r) E (aexit E (fold apply_span_op ops m) r s3))"
| "run_prog (TracedCall func_name metadata body k) E s =
     (let (f, s1) = trace_enter E s;
          (r, s2) = run_prog body E s1
      in run_prog (k r) E (trace_exit E func_name metadata f r s2))"
| "run_prog (LlmCall p kw original k) E s =
     (let (r, s1) = llm_call E p kw original s in run_prog (k r) E s1)"
| "run_prog (StreamOp i op k) E s =
     (let (r, s1) = stream_step E i op s in run_prog (k r) E s1)"

section \<open>What giving a span changes\<close>

text \<open>Spans can be given: there is a tracer or a key to make one.\<close>

definition tracing :: "'t sdk_env \<Rightarrow> 't sdk \<Rightarrow> bool" where
  "tracing E s \<longleftrightarrow> sk_tracer s \<noteq> None \<or> truthy (sv_api_key E)"

lemma give_span_frame [simp]:
  "sk_trace_id (give_span E sp s) = sk_trace_id s" "sk_span_id (give_span E sp s) = sk_span_id s"
  "sk_streams (give_span E sp s) = sk_streams s" "sk_uuids (give_span E sp s) = sk_uuids s"
  "sk_readings (give_span E sp s) = sk_readings s" "tracing E (give_span E sp s) = tracing E s"
  by (auto simp: give_span_def get_or_create_tracer_def tracing_def Let_def split: option.splits)

lemma give_span_log [simp]:
  "tracing E s \<Longrightarrow> sk_log (give_span E sp s) = sk_log s @ (case sp of None \<Rightarrow> [] | Some d \<Rightarrow> [d])"
  by (auto simp: give_span_def get_or_create_tracer_def tracing_def Let_def split: option.splits)

lemma tracing_frame [simp]:
  "tracing E (s\<lparr>sk_trace_id := a\<rparr>) = tracing E s" "tracing E (s\<lparr>sk_span_id := a\<rparr>) = tracing E s"
  "tracing E (s\<lparr>sk_streams := b\<rparr>) = tracing E s" "tracing E (s\<lparr>sk_uuids := c\<rparr>) = tracing E s"
  "tracing E (s\<lparr>sk_readings := c\<rparr>) = tracing E s"
  by (simp_all add: tracing_def)

lemmas supplies = fresh_uuid_def read_now_def read_perf_def trace_id_or_new_def

section \<open>Forests of spans\<close>

text \<open>
  A node is a trace, a span and its parent. \<open>A\<close> are the spans that are open, \<open>L\<close> the recorded nodes, \<open>P\<close>
  those of streams still to be recorded, and \<open>n\<close> the number of identifiers drawn.
\<close>

type_synonym node = "string \<times> string \<times> string option"

definition older :: "(nat \<Rightarrow> string) \<Rightarrow> string \<Rightarrow> string \<Rightarrow> bool" where
  "older u q i \<longleftrightarrow> (\<exists>j k. q = u j \<and> i = u k \<and> j < k)"

definition anchored :: "(nat \<Rightarrow> string) \<Rightarrow> (string \<times> string) set \<Rightarrow> node \<Rightarrow> bool" where
  "anchored u S x = (case x of (t, i, par) \<Rightarrow> (case par of None \<Rightarrow> True | Some q \<Rightarrow> (t, q) \<in> S \<and> older u q i))"

definition node_key :: "node \<Rightarrow> string \<times> string" where
  "node_key x = (fst x, fst (snd x))"

definition forest :: "(nat \<Rightarrow> string) \<Rightarrow> (string \<times> string) list \<Rightarrow> node list \<Rightarrow> node list \<Rightarrow> nat \<Rightarrow> bool" where
  "forest u A L P n \<longleftrightarrow>
     distinct (map snd (A @ map node_key (L @ P))) \<and>
     (\<forall>x \<in> set (A @ map node_key (L @ P)). \<exists>k < n. snd x = u k) \<and>
     (\<forall>x \<in> set (L @ P). anchored u (set A \<union> node_key ` set L) x)"

lemma anchored_mono: "anchored u S x \<Longrightarrow> S \<subseteq> T \<Longrightarrow> anchored u T x"
  by (auto simp: anchored_def split: prod.splits option.splits)

lemma forest_mono: "forest u A L P n \<Longrightarrow> n \<le> m \<Longrightarrow> forest u A L P m"
  unfolding forest_def by (meson order_less_le_trans)

lemma forest_enter:
  assumes "forest u A L P n" and "inj u" and "n \<le> k" and "k < m"
  shows "forest u ((t, u k) # A) L P m"
proof -
  have "u k \<noteq> snd x" if x: "x \<in> set (A @ map node_key (L @ P))" for x
  proof -
    obtain j where "j < n" "snd x = u j" using assms(1) x unfolding forest_def by blast
    with assms(2,3) show ?thesis by (auto dest: injD)
  qed
  then have "u k \<notin> set (map snd (A @ map node_key (L @ P)))" unfolding set_map by blast
  moreover have "\<forall>x \<in> set (A @ map node_key (L @ P)). \<exists>k < m. snd x = u k"
    using forest_mono [OF assms(1), of m] assms(3,4) unfolding forest_def by simp
  moreover have "\<forall>x \<in> set (L @ P). anchored u (set ((t, u k) # A) \<union> node_key ` set L) x"
  proof
    fix x assume "x \<in> set (L @ P)"
    then have "anchored u (set A \<union> node_key ` set L) x" using assms(1) unfolding forest_def by blast
    then show "anchored u (set ((t, u k) # A) \<union> node_key ` set L) x" by (rule anchored_mono) auto
  qed
  ultimately show ?thesis using assms(1,4) unfolding forest_def by auto
qed

lemma forest_exit:
  assumes "forest u ((t, i) # A) L P n" and "anchored u (set A) (t, i, par)"
  shows "forest u A (L @ [(t, i, par)]) P n"
proof -
  let ?x = "(t, i, par)"
  have keys: "set (A @ map node_key ((L @ [?x]) @ P)) = set (((t, i) # A) @ map node_key (L @ P))"
    by (auto simp: node_key_def)
  have "distinct (map snd (A @ map node_key ((L @ [?x]) @ P)))"
    using assms(1) unfolding forest_def by (auto simp: node_key_def)
  moreover have "anchored u (set A \<union> node_key ` set (L @ [?x])) x" if "x \<in> set ((L @ [?x]) @ P)" for x
  proof (cases "x = ?x")
    case True
    show ?thesis unfolding True by (rule anchored_mono [OF assms(2)]) auto
  next
    case False
    with that have "x \<in> set (L @ P)" by auto
    then have "anchored u (set ((t, i) # A) \<union> node_key ` set L) x" using assms(1) unfolding forest_def by blast
    moreover have "set ((t, i) # A) \<union> node_key ` set L = set A \<union> node_key ` set (L @ [?x])" by (auto simp: node_key_def)
    ultimately show ?thesis by simp
  qed
  ultimately show ?thesis using assms(1) keys unfolding forest_def by blast
qed

text \<open>A leaf that waits, and the recording or loss of a waiting leaf.\<close>

lemma forest_wait:
  assumes "forest u A L P n" and "inj u" and "n \<le> k" and "k < m" and "anchored u (set A) (t, u k, par)"
  shows "forest u A L (P @ [(t, u k, par)]) m"
proof -
  let ?x = "(t, u k, par)"
  have new: "distinct (map snd (((t, u k) # A) @ map node_key (L @ P)))"
      "\<forall>x \<in> set (((t, u k) # A) @ map node_key (L @ P)). \<exists>j < m. snd x = u j"
    using forest_enter [OF assms(1-4), of t] unfolding forest_def by blast+
  have "set (A @ map node_key (L @ P @ [?x])) = set (((t, u k) # A) @ map node_key (L @ P))"
    by (auto simp: node_key_def)
  moreover have "distinct (map snd (A @ map node_key (L @ P @ [?x])))" using new(1) by (auto simp: node_key_def)
  moreover have "anchored u (set A \<union> node_key ` set L) x" if x: "x \<in> set (L @ P @ [?x])" for x
  proof (cases "x = ?x")
    case True
    show ?thesis unfolding True by (rule anchored_mono [OF assms(5)]) auto
  qed (use assms(1) x in \<open>auto simp: forest_def\<close>)
  ultimately show ?thesis using new(2) unfolding forest_def by metis
qed

lemma forest_leave:
  assumes "forest u A L P n" and "mset P = add_mset x (mset P')"
  shows "forest u A (L @ [x]) P' n" and "forest u A L P' n"
proof -
  have P: "set P = insert x (set P')" using assms(2) by (metis set_mset_add_mset_insert set_mset_mset)
  have m: "mset (map snd (A @ map node_key (L @ P))) = mset (map snd (A @ map node_key ((L @ [x]) @ P')))"
    using assms(2) by simp
  have d: "distinct (map snd (A @ map node_key ((L @ [x]) @ P')))"
    using assms(1) mset_eq_imp_distinct_iff [OF m] unfolding forest_def by blast
  have keys: "set (A @ map node_key ((L @ [x]) @ P')) = set (A @ map node_key (L @ P))" using P by auto
  have old: "anchored u (set A \<union> node_key ` set L) y" if "y \<in> set (L @ P)" for y
    using assms(1) that unfolding forest_def by blast
  have "anchored u (set A \<union> node_key ` set (L @ [x])) y" if "y \<in> set ((L @ [x]) @ P')" for y
  proof -
    have "y \<in> set (L @ P)" using that P by auto
    from old [OF this] show ?thesis by (rule anchored_mono) auto
  qed
  with d show "forest u A (L @ [x]) P' n" using assms(1) keys unfolding forest_def by simp
  have "distinct (map snd (A @ map node_key (L @ P')))" using d by auto
  then show "forest u A L P' n" using assms(1) P old unfolding forest_def by auto
qed

section \<open>Every operation keeps the forest\<close>

definition log_nodes :: "'t sdk \<Rightarrow> node list" where
  "log_nodes s = map (\<lambda>d. (sd_trace_id d, sd_span_id d, sd_parent_span_id d)) (sk_log s)"

definition stream_node :: "traced_stream \<Rightarrow> node" where
  "stream_node ts = (ts_trace_id ts, ts_span_id ts, ts_parent_span_id ts)"

definition stream_nodes :: "traced_stream list \<Rightarrow> node list" where
  "stream_nodes tss = map stream_node (filter (\<lambda>ts. \<not> ts_recorded ts) tss)"

text \<open>The current span is open, in the current trace.\<close>

definition ambient_ok :: "(string \<times> string) list \<Rightarrow> string option \<Rightarrow> string option \<Rightarrow> bool" where
  "ambient_ok A tr sp = (case sp of None \<Rightarrow> True | Some q \<Rightarrow> truthy tr \<and> (the tr, q) \<in> set A)"

definition spans_ok :: "'t sdk_env \<Rightarrow> (string \<times> string) list \<Rightarrow> 't sdk \<Rightarrow> bool" where
  "spans_ok E A s \<longleftrightarrow> tracing E s \<and> ambient_ok A (sk_trace_id s) (sk_span_id s) \<and>
     forest (sv_uuid E) A (log_nodes s) (stream_nodes (sk_streams s)) (sk_uuids s)"

definition good_uuids :: "'t sdk_env \<Rightarrow> bool" where
  "good_uuids E \<longleftrightarrow> inj (sv_uuid E) \<and> (\<forall>n. sv_uuid E n \<noteq> [])"

lemma older_index:
  assumes "forest u A L P n" and "(t, q) \<in> set A" and "n \<le> k"
  shows "older u q (u k)"
proof -
  have "\<forall>x \<in> set (A @ map node_key (L @ P)). \<exists>k < n. snd x = u k" using assms(1) unfolding forest_def by blast
  then have "\<exists>k < n. snd (t, q) = u k" using assms(2) by (metis UnCI set_append)
  then obtain j where "j < n" "q = u j" by auto
  with assms(3) show ?thesis unfolding older_def by (intro exI [of _ j] exI [of _ k]) simp
qed

text \<open>What entering a span or a traced function does.\<close>

lemma entering:
  assumes "spans_ok E A s" and "good_uuids E" and "sk_uuids s \<le> k" and "k < sk_uuids s'"
    and "t = (if truthy (sk_trace_id s) then the (sk_trace_id s) else sv_uuid E j)"
    and "sk_trace_id s' = Some t" and "sk_span_id s' = Some (sv_uuid E k)"
    and "sk_log s' = sk_log s" and "sk_streams s' = sk_streams s" and "tracing E s' = tracing E s"
  shows "spans_ok E ((t, sv_uuid E k) # A) s'" and "anchored (sv_uuid E) (set A) (t, sv_uuid E k, sk_span_id s)"
proof -
  have f: "forest (sv_uuid E) A (log_nodes s) (stream_nodes (sk_streams s)) (sk_uuids s)"
    and amb: "ambient_ok A (sk_trace_id s) (sk_span_id s)" using assms(1) unfolding spans_ok_def by blast+
  have "t \<noteq> []" using assms(2,5) by (auto simp: good_uuids_def elim: truthy.elims)
  then have "ambient_ok ((t, sv_uuid E k) # A) (sk_trace_id s') (sk_span_id s')" by (simp add: assms(6,7) ambient_ok_def)
  moreover have "forest (sv_uuid E) ((t, sv_uuid E k) # A) (log_nodes s') (stream_nodes (sk_streams s')) (sk_uuids s')"
    using forest_enter [OF f _ assms(3,4)] assms(2,8,9) by (simp add: good_uuids_def log_nodes_def)
  ultimately show "spans_ok E ((t, sv_uuid E k) # A) s'" using assms(1,10) unfolding spans_ok_def by blast
  show "anchored (sv_uuid E) (set A) (t, sv_uuid E k, sk_span_id s)"
    using amb older_index [OF f _ assms(3)] assms(5) by (auto simp: anchored_def ambient_ok_def split: option.splits)
qed

lemma leaving:
  assumes "spans_ok E ((t, i) # A) s" and "anchored (sv_uuid E) (set A) (t, i, par)" and "ambient_ok A tr sp"
    and "sk_trace_id s' = tr" and "sk_span_id s' = sp" and "sk_streams s' = sk_streams s" and "sk_uuids s' = sk_uuids s"
    and "tracing E s' = tracing E s" and "log_nodes s' = log_nodes s @ [(t, i, par)]"
  shows "spans_ok E A s'"
  using assms forest_exit [OF _ assms(2)] unfolding spans_ok_def by simp

lemma trace_enter_spec:
  assumes "trace_enter E s = (f, s')"
  shows "tf_parent_span_id f = sk_span_id s" and "tf_trace_token f = sk_trace_id s" and "tf_span_token f = sk_span_id s"
    and "tf_span_id f = sv_uuid E (sk_uuids s)"
    and "tf_trace_id f = (if truthy (sk_trace_id s) then the (sk_trace_id s) else sv_uuid E (Suc (sk_uuids s)))"
    and "sk_trace_id s' = Some (tf_trace_id f)" and "sk_span_id s' = Some (tf_span_id f)"
    and "sk_log s' = sk_log s" and "sk_streams s' = sk_streams s" and "tracing E s' = tracing E s"
    and "sk_uuids s < sk_uuids s'"
  using assms by (auto simp: trace_enter_def supplies Let_def split: if_splits)

lemma span_enter_spec:
  assumes "manual_span_init E a s = (m0, s1)" and "aenter E m0 s1 = (m, s')"
  shows "ms_parent_span_id m = sk_span_id s" and "ms_trace_token m = Some (sk_trace_id s)" and "ms_span_token m = Some (sk_span_id s)"
    and "\<exists>k. ms_span_id m = sv_uuid E k \<and> sk_uuids s \<le> k \<and> k < sk_uuids s'"
    and "ms_trace_id m = (if truthy (sk_trace_id s) then the (sk_trace_id s) else sv_uuid E (sk_uuids s))"
    and "sk_trace_id s' = Some (ms_trace_id m)" and "sk_span_id s' = Some (ms_span_id m)"
    and "sk_log s' = sk_log s" and "sk_streams s' = sk_streams s" and "tracing E s' = tracing E s"
    and "\<exists>t. ms_started_at m = Some t" and "ms_name m = sa_name a"
  using assms by (auto simp: manual_span_init_def aenter_def supplies Let_def split: if_splits)

lemma span_ops_frame:
  "ms_trace_id (fold apply_span_op ops m) = ms_trace_id m \<and> ms_span_id (fold apply_span_op ops m) = ms_span_id m \<and>
   ms_parent_span_id (fold apply_span_op ops m) = ms_parent_span_id m \<and> ms_trace_token (fold apply_span_op ops m) = ms_trace_token m \<and>
   ms_span_token (fold apply_span_op ops m) = ms_span_token m \<and> ms_started_at (fold apply_span_op ops m) = ms_started_at m \<and>
   ms_name (fold apply_span_op ops m) = ms_name m"
proof (induction ops arbitrary: m)
  case (Cons op ops)
  then show ?case by (cases op) simp_all
qed simp

lemma aexit_spec:
  assumes "ms_trace_token m = Some tr" and "ms_span_token m = Some sp" and "ms_started_at m = Some t" and "tracing E s"
  shows "sk_trace_id (aexit E m exc s) = tr" and "sk_span_id (aexit E m exc s) = sp"
    and "sk_streams (aexit E m exc s) = sk_streams s" and "sk_uuids (aexit E m exc s) = sk_uuids s"
    and "tracing E (aexit E m exc s) = tracing E s"
    and "\<exists>d. sk_log (aexit E m exc s) = sk_log s @ [d] \<and> sd_trace_id d = ms_trace_id m \<and> sd_span_id d = ms_span_id m \<and>
      sd_parent_span_id d = ms_parent_span_id m \<and> sd_name d = ms_name m \<and> sd_error d = map_option ex_traceback exc"
  using assms by (simp_all add: aexit_def read_perf_def Let_def)

lemma trace_exit_spec:
  assumes "tracing E s"
  shows "sk_trace_id (trace_exit E nm md f exc s) = tf_trace_token f" and "sk_span_id (trace_exit E nm md f exc s) = tf_span_token f"
    and "sk_streams (trace_exit E nm md f exc s) = sk_streams s" and "sk_uuids (trace_exit E nm md f exc s) = sk_uuids s"
    and "tracing E (trace_exit E nm md f exc s) = tracing E s"
    and "\<exists>d. sk_log (trace_exit E nm md f exc s) = sk_log s @ [d] \<and> sd_trace_id d = tf_trace_id f \<and> sd_span_id d = tf_span_id f \<and>
      sd_parent_span_id d = tf_parent_span_id f \<and> sd_name d = nm \<and> sd_error d = caught ex_traceback exc"
  using assms by (simp_all add: trace_exit_def read_perf_def Let_def)

text \<open>A call of a model adds at most one node, recorded or waiting.\<close>

lemma llm_call_frame:
  assumes "llm_call E p kw original s = (r, s')"
  shows "sk_trace_id s' = sk_trace_id s" and "sk_span_id s' = sk_span_id s" and "tracing E s' = tracing E s"
    and "sk_uuids s < sk_uuids s'"
proof -
  obtain f s1 where e: "trace_enter E s = (f, s1)" by fastforce
  note spec = trace_enter_spec [OF e]
  show "sk_trace_id s' = sk_trace_id s" "sk_span_id s' = sk_span_id s" "tracing E s' = tracing E s" "sk_uuids s < sk_uuids s'"
    using assms spec by (auto simp: llm_call_eq traced_create_def e read_perf_def Let_def split: llm_result.splits option.splits if_splits)
qed

lemma llm_call_nodes:
  assumes "llm_call E p kw original s = (r, s')" and "tracing E s" and "trace_enter E s = (f, s1)"
  shows "(log_nodes s' = log_nodes s \<or> log_nodes s' = log_nodes s @ [(tf_trace_id f, tf_span_id f, sk_span_id s)]) \<and>
      sk_streams s' = sk_streams s \<or>
    log_nodes s' = log_nodes s \<and> stream_nodes (sk_streams s') = stream_nodes (sk_streams s) @ [(tf_trace_id f, tf_span_id f, sk_span_id s)]"
  using assms trace_enter_spec [OF assms(3)]
  by (auto simp: llm_call_eq traced_create_def read_perf_def Let_def log_nodes_def stream_nodes_def stream_node_def split: llm_result.splits option.splits if_splits)

lemma llm_call_ok:
  assumes "spans_ok E A s" and "good_uuids E" and "llm_call E p kw original s = (r, s')"
  shows "spans_ok E A s'"
proof -
  obtain f s1 where e: "trace_enter E s = (f, s1)" by fastforce
  let ?n = "sk_uuids s" and ?x = "(tf_trace_id f, sv_uuid E (sk_uuids s), sk_span_id s)"
  note spec = trace_enter_spec [OF e] and frame = llm_call_frame [OF assms(3)]
  have f: "forest (sv_uuid E) A (log_nodes s) (stream_nodes (sk_streams s)) ?n" and tr: "tracing E s"
    and amb: "ambient_ok A (sk_trace_id s) (sk_span_id s)" using assms(1) unfolding spans_ok_def by blast+
  have inj: "inj (sv_uuid E)" using assms(2) unfolding good_uuids_def by blast
  have anc: "anchored (sv_uuid E) (set A) ?x"
    using entering(2) [OF assms(1,2) order_refl spec(11) spec(5) spec(6) spec(7) [unfolded spec(4)] spec(8-10)] .
  have logged: "forest (sv_uuid E) A (log_nodes s @ [?x]) (stream_nodes (sk_streams s)) (sk_uuids s')"
    using forest_exit [OF forest_enter [OF f inj order_refl frame(4)] anc] .
  have waiting: "forest (sv_uuid E) A (log_nodes s) (stream_nodes (sk_streams s) @ [?x]) (sk_uuids s')"
    using forest_wait [OF f inj order_refl frame(4) anc] .
  have "forest (sv_uuid E) A (log_nodes s') (stream_nodes (sk_streams s')) (sk_uuids s')"
    using llm_call_nodes [OF assms(3) tr e] logged waiting forest_mono [OF f less_imp_le [OF frame(4)]] spec(4) by metis
  with tr amb frame show ?thesis unfolding spans_ok_def by simp
qed

lemma stream_nodes_update:
  assumes "i < length tss" and "stream_node ts = stream_node (tss ! i)" and "ts_recorded ts = ts_recorded (tss ! i)"
  shows "stream_nodes (tss[i := ts]) = stream_nodes tss"
proof -
  have "stream_nodes (take i tss @ ts # drop (Suc i) tss) = stream_nodes (take i tss @ tss ! i # drop (Suc i) tss)"
    using assms(2,3) by (simp add: stream_nodes_def)
  then show ?thesis using assms(1) by (simp add: upd_conv_take_nth_drop flip: id_take_nth_drop)
qed

lemma stream_nodes_recorded:
  assumes "i < length tss" and "\<not> ts_recorded (tss ! i)"
  shows "mset (stream_nodes tss) = add_mset (stream_node (tss ! i)) (mset (stream_nodes (tss[i := (tss ! i)\<lparr>ts_recorded := True\<rparr>])))"
proof -
  have "mset (stream_nodes (take i tss @ tss ! i # drop (Suc i) tss)) =
      add_mset (stream_node (tss ! i)) (mset (stream_nodes (take i tss @ (tss ! i)\<lparr>ts_recorded := True\<rparr> # drop (Suc i) tss)))"
    using assms(2) by (simp add: stream_nodes_def)
  then show ?thesis using assms(1) by (simp add: upd_conv_take_nth_drop flip: id_take_nth_drop)
qed

lemma stream_record_frame:
  "sk_trace_id (stream_record E i e c s) = sk_trace_id s" "sk_span_id (stream_record E i e c s) = sk_span_id s"
  "tracing E (stream_record E i e c s) = tracing E s" "sk_uuids (stream_record E i e c s) = sk_uuids s"
  "length (sk_streams (stream_record E i e c s)) = length (sk_streams s)"
  by (simp_all add: stream_record_def read_perf_def Let_def)

lemma stream_record_ok:
  assumes "spans_ok E A s" and "i < length (sk_streams s)"
  shows "spans_ok E A (stream_record E i e c s)"
proof (cases "ts_recorded (sk_streams s ! i)")
  case True
  with assms(1) show ?thesis by (simp add: stream_record_def)
next
  case False
  let ?s = "stream_record E i e c s" and ?x = "stream_node (sk_streams s ! i)"
  have f: "forest (sv_uuid E) A (log_nodes s) (stream_nodes (sk_streams s)) (sk_uuids s)" and tr: "tracing E s"
    using assms(1) unfolding spans_ok_def by blast+
  have streams: "sk_streams ?s = (sk_streams s)[i := (sk_streams s ! i)\<lparr>ts_recorded := True\<rparr>]"
    using False by (simp add: stream_record_def read_perf_def Let_def)
  have "log_nodes ?s = log_nodes s \<or> log_nodes ?s = log_nodes s @ [?x]"
    using False tr
    by (auto simp: stream_record_def read_perf_def Let_def log_nodes_def stream_node_def stream_span_SomeD split: option.splits)
  then have "forest (sv_uuid E) A (log_nodes ?s) (stream_nodes (sk_streams ?s)) (sk_uuids s)"
    using forest_leave [OF f stream_nodes_recorded [OF assms(2) False]] streams by metis
  with assms(1) show ?thesis unfolding spans_ok_def stream_record_frame by blast
qed

lemma set_stream_ok:
  assumes "spans_ok E A s" and "i < length (sk_streams s)"
    and "stream_node ts = stream_node (sk_streams s ! i)" and "ts_recorded ts = ts_recorded (sk_streams s ! i)"
  shows "spans_ok E A (set_stream i ts s)"
  using assms stream_nodes_update [OF assms(2-4)] by (simp add: spans_ok_def set_stream_def log_nodes_def)

lemma set_stream_frame [simp]:
  "sk_trace_id (set_stream i ts s) = sk_trace_id s" "sk_span_id (set_stream i ts s) = sk_span_id s"
  "tracing E (set_stream i ts s) = tracing E s" "sk_uuids (set_stream i ts s) = sk_uuids s"
  "length (sk_streams (set_stream i ts s)) = length (sk_streams s)" "sk_log (set_stream i ts s) = sk_log s"
  by (simp_all add: set_stream_def)

lemma capture_frame:
  "stream_node (fst (capture E c ts)) = stream_node ts" "ts_recorded (fst (capture E c ts)) = ts_recorded ts"
  "ts_provider (fst (capture E c ts)) = ts_provider ts"
  by (auto simp: capture_def openai_capture_def anthropic_capture_def stream_node_def Let_def split: provider.splits option.splits)

lemma stream_node_src [simp]: "stream_node (ts\<lparr>ts_src := src\<rparr>) = stream_node ts"
  by (simp add: stream_node_def)

lemma stream_step_ok:
  assumes "spans_ok E A s" and "stream_step E i op s = (r, s')"
  shows "spans_ok E A s' \<and> sk_trace_id s' = sk_trace_id s \<and> sk_span_id s' = sk_span_id s"
proof (cases "i < length (sk_streams s)")
  case False
  with assms show ?thesis by (auto simp: stream_step_def)
next
  case True
  let ?ts = "sk_streams s ! i"
  have set_ok: "spans_ok E A (set_stream i ts s)" if "stream_node ts = stream_node ?ts" "ts_recorded ts = ts_recorded ?ts" for ts
    using set_stream_ok [OF assms(1) True that] .
  have rec_ok: "spans_ok E A (stream_record E i e c (set_stream i ts s))"
    if "stream_node ts = stream_node ?ts" "ts_recorded ts = ts_recorded ?ts" for ts e c
    using stream_record_ok [OF set_ok [OF that]] True by simp
  have cap: "stream_node ts = stream_node ?ts \<and> ts_recorded ts = ts_recorded ?ts" if "capture E c ?ts = (ts, b)" for c ts b
    using capture_frame [of E c ?ts] that by simp
  show ?thesis
    using assms True stream_record_ok [OF assms(1) True] set_ok rec_ok cap
    by (auto simp: stream_step_def traced_next_def stream_break_def stream_close_def Let_def stream_record_frame
        split: stream_op.splits if_splits list.splits option.splits prod.splits bool.splits)
qed

lemma run_prog_ok:
  assumes uuids: "good_uuids E" and "spans_ok E A s" and "run_prog p E s = (r, s')"
  shows "spans_ok E A s' \<and> sk_trace_id s' = sk_trace_id s \<and> sk_span_id s' = sk_span_id s"
  using assms(2,3)
proof (induction p arbitrary: A s r s')
  case (WithSpan a ops body k)
  obtain m0 s1 m s2 r1 s3 where e: "manual_span_init E a s = (m0, s1)" "aenter E m0 s1 = (m, s2)" "run_prog body E s2 = (r1, s3)"
    by (metis prod.exhaust)
  note spec = span_enter_spec [OF e(1,2)] and ops = span_ops_frame [of ops m]
  obtain j where j: "ms_span_id m = sv_uuid E j" "sk_uuids s \<le> j" "j < sk_uuids s2" using spec(4) by blast
  note enter = entering [OF WithSpan.prems(1) uuids j(2,3) spec(5,6) spec(7) [unfolded j(1)] spec(8-10)]
  have body: "spans_ok E ((ms_trace_id m, sv_uuid E j) # A) s3" using WithSpan.IH(1) [OF enter(1) e(3)] by blast
  then have tr: "tracing E s3" unfolding spans_ok_def by blast
  obtain t where t: "ms_started_at m = Some t" using spec(11) by blast
  note exit = aexit_spec [of "fold apply_span_op ops m" "sk_trace_id s" "sk_span_id s" t E s3 r1]
  have ok: "spans_ok E A (aexit E (fold apply_span_op ops m) r1 s3)"
    by (rule leaving [OF body enter(2)])
      (use exit ops spec(1-3) t tr j(1) WithSpan.prems(1) in \<open>auto simp: spans_ok_def log_nodes_def\<close>)
  have "run_prog (k r1) E (aexit E (fold apply_span_op ops m) r1 s3) = (r, s')" using WithSpan.prems(2) e by simp
  from WithSpan.IH(2) [OF rangeI ok this] exit(1,2) ops spec(2,3) t tr show ?case by simp
next
  case (TracedCall nm md body k)
  obtain f s1 r1 s2 where e: "trace_enter E s = (f, s1)" "run_prog body E s1 = (r1, s2)" by (metis prod.exhaust)
  note spec = trace_enter_spec [OF e(1)]
  note enter = entering [OF TracedCall.prems(1) uuids order_refl spec(11,5,6) spec(7) [unfolded spec(4)] spec(8-10)]
  have body: "spans_ok E ((tf_trace_id f, sv_uuid E (sk_uuids s)) # A) s2" using TracedCall.IH(1) [OF enter(1) e(2)] by blast
  then have tr: "tracing E s2" unfolding spans_ok_def by blast
  note exit = trace_exit_spec [OF tr, of nm md f r1]
  have ok: "spans_ok E A (trace_exit E nm md f r1 s2)"
    by (rule leaving [OF body enter(2)]) (use exit spec(1-4) TracedCall.prems(1) in \<open>auto simp: spans_ok_def log_nodes_def\<close>)
  have "run_prog (k r1) E (trace_exit E nm md f r1 s2) = (r, s')" using TracedCall.prems(2) e by simp
  from TracedCall.IH(2) [OF rangeI ok this] exit(1,2) spec(2,3) show ?case by simp
next
  case (LlmCall p kw original k)
  obtain r1 s1 where e: "llm_call E p kw original s = (r1, s1)" by fastforce
  have "run_prog (k r1) E s1 = (r, s')" using LlmCall.prems(2) e by simp
  from LlmCall.IH [OF rangeI llm_call_ok [OF LlmCall.prems(1) uuids e] this] llm_call_frame [OF e] show ?case by simp
next
  case (StreamOp i op k)
  obtain r1 s1 where e: "stream_step E i op s = (r1, s1)" by fastforce
  note step = stream_step_ok [OF StreamOp.prems(1) e]
  have "run_prog (k r1) E s1 = (r, s')" using StreamOp.prems(2) e by simp
  from StreamOp.IH [OF rangeI conjunct1 [OF step] this] step show ?case by simp
qed simp

text \<open>
  C35: The spans an instrumented application records form call trees. Whatever the application does, and
  whatever the clients return or raise: span identifiers are unique; the parent of a recorded span
  is a recorded span of the same trace, whose identifier was drawn earlier; and the current trace
  and span are afterwards what they were before.
\<close>

theorem spans_form_call_trees:
  assumes "good_uuids E" and "tracing E s" and "sk_log s = []" and "sk_streams s = []" and "sk_span_id s = None"
    and "run_prog p E s = (r, s')"
  shows "distinct (map sd_span_id (sk_log s')) \<and>
    list_all (\<lambda>d. case sd_parent_span_id d of None \<Rightarrow> True | Some q \<Rightarrow> older (sv_uuid E) q (sd_span_id d) \<and>
      list_ex (\<lambda>e. sd_span_id e = q \<and> sd_trace_id e = sd_trace_id d) (sk_log s')) (sk_log s') \<and>
    sk_trace_id s' = sk_trace_id s \<and> sk_span_id s' = sk_span_id s"
proof -
  have "spans_ok E [] s"
    using assms(2-5) by (simp add: spans_ok_def ambient_ok_def log_nodes_def stream_nodes_def forest_def)
  from run_prog_ok [OF assms(1) this assms(6)] have ok: "spans_ok E [] s'" and ctx: "sk_trace_id s' = sk_trace_id s" "sk_span_id s' = sk_span_id s"
    by blast+
  from ok have f: "forest (sv_uuid E) [] (log_nodes s') (stream_nodes (sk_streams s')) (sk_uuids s')" unfolding spans_ok_def by blast
  have "distinct (map sd_span_id (sk_log s'))" using f by (simp add: forest_def log_nodes_def node_key_def comp_def)
  moreover have "case sd_parent_span_id d of None \<Rightarrow> True | Some q \<Rightarrow> older (sv_uuid E) q (sd_span_id d) \<and>
      list_ex (\<lambda>e. sd_span_id e = q \<and> sd_trace_id e = sd_trace_id d) (sk_log s')" if "d \<in> set (sk_log s')" for d
  proof -
    have "(sd_trace_id d, sd_span_id d, sd_parent_span_id d) \<in> set (log_nodes s')" using that by (auto simp: log_nodes_def)
    with f have "anchored (sv_uuid E) (node_key ` set (log_nodes s')) (sd_trace_id d, sd_span_id d, sd_parent_span_id d)"
      by (auto simp: forest_def)
    then show ?thesis by (auto simp: anchored_def log_nodes_def node_key_def list_ex_iff split: option.splits)
  qed
  ultimately show ?thesis using ctx by (simp add: list_all_iff)
qed

section \<open>Instrumentation does not disturb the application\<close>

text \<open>
  The application without instrumentation: the streams it was given with the state of the pass over
  them, and the calls in the order in which they ended, with name and error. A stream ends with
  its pass, or when it is left or closed before.
\<close>

record plain =
  pl_streams :: "(stream_src \<times> provider \<times> bool) list"
  pl_events :: "(string \<times> string option) list"

definition plain_put :: "nat \<Rightarrow> stream_src \<Rightarrow> plain \<Rightarrow> plain" where
  "plain_put i src st = st\<lparr>pl_streams := (pl_streams st)[i := (src, snd (pl_streams st ! i))]\<rparr>"

definition plain_end :: "nat \<Rightarrow> string option \<Rightarrow> plain \<Rightarrow> plain" where
  "plain_end i err st =
     (case pl_streams st ! i of
        (src, p, ended) \<Rightarrow>
          if ended then st else st\<lparr>pl_streams := (pl_streams st)[i := (src, p, True)], pl_events := pl_events st @ [(call_name p, err)]\<rparr>)"

definition plain_next :: "nat \<Rightarrow> plain \<Rightarrow> stream_reply \<times> plain" where
  "plain_next i st =
     (let src = fst (pl_streams st ! i); over = plain_put i (src\<lparr>src_started := True, src_done := True\<rparr>) st
      in if src_done src then (StreamEnd, st)
         else case src_chunks src of
           chunk # rest \<Rightarrow> (Chunk chunk, plain_put i (src\<lparr>src_chunks := rest, src_started := True\<rparr>) st)
         | [] \<Rightarrow> (case src_end src of
                   None \<Rightarrow> (StreamEnd, plain_end i None over)
                 | Some e \<Rightarrow> (StreamErr e, plain_end i (caught ex_str (Some e)) over)))"

definition plain_stream_step :: "nat \<Rightarrow> stream_op \<Rightarrow> plain \<Rightarrow> stream_reply \<times> plain" where
  "plain_stream_step i op st =
     (if length (pl_streams st) \<le> i then (StreamEnd, st)
      else
        (let src = fst (pl_streams st ! i)
         in case op of
              SNext \<Rightarrow> plain_next i st
            | SBreak \<Rightarrow>
                (let st1 = plain_put i (src\<lparr>src_done := True\<rparr>) st
                 in (Closed, if src_done src \<or> \<not> src_started src then st1 else plain_end i None st1))
            | SClose \<Rightarrow>
                (case src_close src of
                   None \<Rightarrow> (Closed, plain_end i None st)
                 | Some (raised, chunks, stream_end) \<Rightarrow>
                     (let st1 = plain_put i (src\<lparr>src_chunks := chunks, src_end := stream_end\<rparr>) st
                      in case raised of Some e \<Rightarrow> (StreamErr e, st1) | None \<Rightarrow> (Closed, plain_end i None st1)))))"

definition plain_event :: "string \<Rightarrow> string option \<Rightarrow> plain \<Rightarrow> plain" where
  "plain_event name err st = st\<lparr>pl_events := pl_events st @ [(name, err)]\<rparr>"

definition plain_call :: "provider \<Rightarrow> llm_kwargs \<Rightarrow> llm_result \<Rightarrow> plain \<Rightarrow> llm_reply \<times> plain" where
  "plain_call p kw original st =
     (case original of
        Raised e \<Rightarrow> (LRaise e, plain_event (call_name p) (caught ex_str (Some e)) st)
      | Response v \<Rightarrow> (LValue v, plain_event (call_name p) None st)
      | AsyncStream src \<Rightarrow>
          if py_falsy (kw_stream kw) then (LRaw src, plain_event (call_name p) None st)
          else (LStream (length (pl_streams st)), st\<lparr>pl_streams := pl_streams st @ [(src, p, False)]\<rparr>))"

primrec plain_prog :: "prog \<Rightarrow> plain \<Rightarrow> exn option \<times> plain" where
  "plain_prog (Finish r) st = (r, st)"
| "plain_prog (WithSpan a ops body k) st =
     (let (r, st1) = plain_prog body st in plain_prog (k r) (plain_event (sa_name a) (map_option ex_traceback r) st1))"
| "plain_prog (TracedCall func_name metadata body k) st =
     (let (r, st1) = plain_prog body st in plain_prog (k r) (plain_event func_name (caught ex_traceback r) st1))"
| "plain_prog (LlmCall p kw original k) st = (let (r, st1) = plain_call p kw original st in plain_prog (k r) st1)"
| "plain_prog (StreamOp i op k) st = (let (r, st1) = plain_stream_step i op st in plain_prog (k r) st1)"

text \<open>The shape the clients document: token counts are numbers and stream deltas are texts.\<close>

definition chunk_ok :: "provider \<Rightarrow> json \<Rightarrow> bool" where
  "chunk_ok p c =
     (case p of
        OpenAI \<Rightarrow> (case openai_stream_delta c of Some (JStr d) \<Rightarrow> True | _ \<Rightarrow> False) \<and>
          (get_value c ''usage'' JNull = JNull \<or> openai_usage c \<noteq> None)
      | Anthropic \<Rightarrow> anthropic_message_start_usage c \<noteq> None \<and>
          (get_value c ''usage'' JNull = JNull \<or> token_count (get_value c ''usage'' JNull) ''output_tokens'' \<noteq> None))"

definition src_ok :: "provider \<Rightarrow> stream_src \<Rightarrow> bool" where
  "src_ok p src \<longleftrightarrow> list_all (chunk_ok p) (src_chunks src) \<and>
     (case src_close src of None \<Rightarrow> True | Some (_, chunks, _) \<Rightarrow> list_all (chunk_ok p) chunks)"

definition result_ok :: "provider \<Rightarrow> llm_result \<Rightarrow> bool" where
  "result_ok p original =
     (case original of
        Raised e \<Rightarrow> True
      | Response v \<Rightarrow> usage_of p v \<noteq> None \<and> output_of p v \<noteq> None
      | AsyncStream src \<Rightarrow> src_ok p src)"

primrec responses_ok :: "prog \<Rightarrow> bool" where
  "responses_ok (Finish r) = True"
| "responses_ok (WithSpan a ops body k) = (responses_ok body \<and> (\<forall>r. responses_ok (k r)))"
| "responses_ok (TracedCall nm md body k) = (responses_ok body \<and> (\<forall>r. responses_ok (k r)))"
| "responses_ok (LlmCall p kw original k) = (result_ok p original \<and> (\<forall>r. responses_ok (k r)))"
| "responses_ok (StreamOp i op k) = (\<forall>r. responses_ok (k r))"

definition stream_ok :: "traced_stream \<Rightarrow> bool" where
  "stream_ok ts \<longleftrightarrow> src_ok (ts_provider ts) (ts_src ts) \<and> join_parts (ts_output_parts ts) \<noteq> None"

definition stream_view :: "traced_stream \<Rightarrow> stream_src \<times> provider \<times> bool" where
  "stream_view ts = (ts_src ts, ts_provider ts, ts_recorded ts)"

definition sim :: "'t sdk_env \<Rightarrow> 't sdk \<Rightarrow> plain \<Rightarrow> bool" where
  "sim E s st \<longleftrightarrow> tracing E s \<and> map stream_view (sk_streams s) = pl_streams st \<and> list_all stream_ok (sk_streams s) \<and>
     map (\<lambda>d. (sd_name d, sd_error d)) (sk_log s) = pl_events st"

lemma sim_length: "sim E s st \<Longrightarrow> length (pl_streams st) = length (sk_streams s)"
  unfolding sim_def by (metis length_map)

lemma sim_nth: "sim E s st \<Longrightarrow> i < length (sk_streams s) \<Longrightarrow> pl_streams st ! i = stream_view (sk_streams s ! i)"
  unfolding sim_def by (metis nth_map)

lemma sim_set:
  assumes "sim E s st" and "i < length (sk_streams s)" and "stream_ok ts"
    and "ts_provider ts = ts_provider (sk_streams s ! i)" and "ts_recorded ts = ts_recorded (sk_streams s ! i)"
  shows "sim E (set_stream i ts s) (plain_put i (ts_src ts) st)"
  using assms sim_nth [OF assms(1,2)]
  by (auto simp: sim_def set_stream_def plain_put_def map_update stream_view_def list_all_iff dest!: set_update_subset_insert [THEN subsetD])

lemma join_parts_snoc: "join_parts (ps @ [JStr d]) = map_option (\<lambda>x. x @ d) (join_parts ps)"
  by (induction ps rule: join_parts.induct) (auto simp: option.map_comp comp_def)

lemma capture_chunk_ok:
  assumes "chunk_ok (ts_provider ts) c" and "join_parts (ts_output_parts ts) \<noteq> None"
  shows "snd (capture E c ts)" and "join_parts (ts_output_parts (fst (capture E c ts))) \<noteq> None"
  using assms
  by (auto simp: capture_def chunk_ok_def openai_capture_def anthropic_capture_def join_parts_snoc Let_def
      split: provider.splits option.splits json.splits)

lemma sim_record:
  assumes "sim E s st" and "i < length (sk_streams s)"
  shows "sim E (stream_record E i e c s) (plain_end i e st)"
proof (cases "ts_recorded (sk_streams s ! i)")
  case True
  with assms sim_nth [OF assms] show ?thesis by (simp add: stream_record_def plain_end_def stream_view_def)
next
  case False
  let ?ts = "sk_streams s ! i"
  have ok: "list_all stream_ok (sk_streams s)" "tracing E s" using assms(1) unfolding sim_def by blast+
  then have "stream_ok ?ts" using assms(2) by (simp add: list_all_length)
  then obtain out where out: "join_parts (ts_output_parts ?ts) = Some out" by (auto simp: stream_ok_def)
  have "stream_ok (?ts\<lparr>ts_recorded := True\<rparr>)" using \<open>stream_ok ?ts\<close> by (simp add: stream_ok_def)
  with ok(1) have "list_all stream_ok ((sk_streams s)[i := ?ts\<lparr>ts_recorded := True\<rparr>])"
    by (auto simp: list_all_iff dest!: set_update_subset_insert [THEN subsetD])
  moreover obtain d where d: "stream_span ?ts ((sv_perf E (sk_readings s) - ts_start ?ts) * 1000) e c = Some d"
    using stream_span_joined [OF out] by blast
  ultimately show ?thesis using assms False ok(2) sim_nth [OF assms] stream_span_SomeD(4,5) [OF d]
    by (auto simp: d stream_record_def plain_end_def stream_view_def sim_def read_perf_def Let_def map_update)
qed

lemma sim_stream_step:
  assumes "sim E s st" and "stream_step E i op s = (r, s')"
  shows "\<exists>st'. plain_stream_step i op st = (r, st') \<and> sim E s' st'"
proof (cases "i < length (sk_streams s)")
  case False
  with assms sim_length [OF assms(1)] show ?thesis by (auto simp: stream_step_def plain_stream_step_def)
next
  case i: True
  define ts where "ts = sk_streams s ! i"
  have view: "fst (pl_streams st ! i) = ts_src ts" using sim_nth [OF assms(1) i] by (simp add: stream_view_def ts_def)
  have ok: "stream_ok ts" using assms(1) i by (auto simp: sim_def list_all_length ts_def)
  then have src: "list_all (chunk_ok (ts_provider ts)) (src_chunks (ts_src ts))"
      "\<And>a cs b. src_close (ts_src ts) = Some (a, cs, b) \<Longrightarrow> list_all (chunk_ok (ts_provider ts)) cs"
      and parts: "join_parts (ts_output_parts ts) \<noteq> None"
    by (auto simp: stream_ok_def src_ok_def)
  have put: "sim E (set_stream i (ts\<lparr>ts_src := src\<rparr>) s) (plain_put i src st)" if "src_ok (ts_provider ts) src" for src
    using sim_set [OF assms(1) i, of "ts\<lparr>ts_src := src\<rparr>"] that parts by (simp add: stream_ok_def ts_def)
  have "sim E (set_stream i t1 s) (plain_put i (ts_src t1) st)" if "stream_ok t1" "ts_provider t1 = ts_provider ts" "ts_recorded t1 = ts_recorded ts" for t1
    using sim_set [OF assms(1) i that(1)] that by (simp add: ts_def)
  note put1 = this
  have fin: "sim E (stream_record E i e c (set_stream i (ts\<lparr>ts_src := src\<rparr>) s)) (plain_end i e (plain_put i src st))"
    if "src_ok (ts_provider ts) src" for src e c
    using sim_record [OF put [OF that]] i by simp
  have srcs: "src_ok (ts_provider ts) (ts_src ts\<lparr>src_started := True, src_done := True\<rparr>)" "src_ok (ts_provider ts) (ts_src ts\<lparr>src_done := True\<rparr>)"
    using ok by (simp_all add: stream_ok_def src_ok_def)
  have len: "\<not> length (sk_streams s) \<le> i" "\<not> length (pl_streams st) \<le> i" using i sim_length [OF assms(1)] by auto
  show ?thesis
  proof (cases op)
    case SBreak
    then show ?thesis
      using assms(2) len view put [OF srcs(2)] fin [OF srcs(2)]
      by (auto simp: stream_step_def plain_stream_step_def stream_break_def Let_def simp flip: ts_def)
  next
    case SClose
    show ?thesis
    proof (cases "src_close (ts_src ts)")
      case None
      with SClose show ?thesis using assms(2) len view sim_record [OF assms(1) i]
        by (auto simp: stream_step_def plain_stream_step_def stream_close_def Let_def simp flip: ts_def)
    next
      case (Some x)
      obtain raised chunks stop where x: "x = (raised, chunks, stop)" by (cases x)
      have "src_ok (ts_provider ts) (ts_src ts\<lparr>src_chunks := chunks, src_end := stop\<rparr>)"
        using src(2) Some x by (simp add: src_ok_def)
      with SClose Some x show ?thesis using assms(2) len view put fin
        by (auto simp: stream_step_def plain_stream_step_def stream_close_def Let_def split: option.splits simp flip: ts_def)
    qed
  next
    case SNext
    show ?thesis
    proof (cases "src_done (ts_src ts) \<or> src_chunks (ts_src ts) = []")
      case True
      with SNext show ?thesis using assms len view fin [OF srcs(1)]
        by (auto simp: stream_step_def plain_stream_step_def traced_next_def plain_next_def Let_def split: option.splits simp flip: ts_def)
    next
      case False
      then obtain c rest where c: "src_chunks (ts_src ts) = c # rest" by (cases "src_chunks (ts_src ts)") auto
      obtain t1 b where cap: "capture E c ts = (t1, b)" by fastforce
      note co = capture_chunk_ok [OF _ parts, of c E, unfolded cap fst_conv snd_conv] and cf = capture_frame [of E c ts, unfolded cap fst_conv]
      let ?src = "ts_src ts\<lparr>src_chunks := rest, src_started := True\<rparr>"
      have b: "b" using co src(1) c by simp
      have "stream_ok (t1\<lparr>ts_src := ?src\<rparr>)" using co src c cf ok by (simp add: stream_ok_def src_ok_def)
      from put1 [OF this] cf have "sim E (set_stream i (t1\<lparr>ts_src := ?src\<rparr>) s) (plain_put i ?src st)" by simp
      with SNext False c cap b show ?thesis using assms(2) len view
        by (auto simp: stream_step_def plain_stream_step_def traced_next_def plain_next_def Let_def simp flip: ts_def)
    qed
  qed
qed

lemma sim_event:
  assumes "sim E s st" and "tracing E s' = tracing E s" and "sk_streams s' = sk_streams s"
    and "\<exists>d. sk_log s' = sk_log s @ [d] \<and> sd_name d = nm \<and> sd_error d = err"
  shows "sim E s' (plain_event nm err st)"
  using assms by (auto simp: sim_def plain_event_def)

lemma usage_of_null: "usage_of p JNull = Some (0, 0)" "output_of p JNull = Some JNull"
  by (cases p; simp add: usage_of_def openai_usage_def anthropic_usage_def token_counts_def token_count_def py_or_def
      output_of_def openai_output_def anthropic_output_def)+

lemma sim_llm_call:
  assumes "sim E s st" and "result_ok p original" and "llm_call E p kw original s = (r, s')"
  shows "\<exists>st'. plain_call p kw original st = (r, st') \<and> sim E s' st'"
proof -
  obtain f s1 where e: "trace_enter E s = (f, s1)" by fastforce
  note spec = trace_enter_spec [OF e] and frame = llm_call_frame [OF assms(3)]
  have tr: "tracing E s" using assms(1) unfolding sim_def by blast
  show ?thesis
  proof (cases "\<exists>src. original = AsyncStream src \<and> \<not> py_falsy (kw_stream kw)")
    case True
    then show ?thesis
      using assms spec sim_length [OF assms(1)]
      by (auto simp: llm_call_eq traced_create_def plain_call_def e read_perf_def Let_def sim_def result_ok_def stream_ok_def stream_view_def)
  next
    case False
    obtain err where err: "plain_call p kw original st = (r, plain_event (call_name p) err st)" "sk_streams s' = sk_streams s"
        "\<exists>d. sk_log s' = sk_log s @ [d] \<and> sd_name d = call_name p \<and> sd_error d = err"
      using False assms(2,3) spec tr
      by (auto simp: llm_call_eq traced_create_def plain_call_def e read_perf_def Let_def result_ok_def usage_of_null split: llm_result.splits if_splits)
    from sim_event [OF assms(1) frame(3) err(2,3)] err(1) show ?thesis by blast
  qed
qed

lemma sim_run:
  assumes "sim E s st" and "responses_ok p" and "run_prog p E s = (r, s')"
  shows "\<exists>st'. plain_prog p st = (r, st') \<and> sim E s' st'"
  using assms
proof (induction p arbitrary: s st r s')
  case (WithSpan a ops body k)
  obtain m0 s1 m s2 r1 s3 where e: "manual_span_init E a s = (m0, s1)" "aenter E m0 s1 = (m, s2)" "run_prog body E s2 = (r1, s3)"
    by (metis prod.exhaust)
  note spec = span_enter_spec [OF e(1,2)] and ops = span_ops_frame [of ops m]
  have "sim E s2 st" using WithSpan.prems(1) spec(8-10) by (simp add: sim_def)
  with WithSpan.IH(1) e(3) WithSpan.prems(2) obtain st1 where st1: "plain_prog body st = (r1, st1)" "sim E s3 st1" by fastforce
  obtain t where t: "ms_started_at m = Some t" using spec(11) by blast
  have "tracing E s3" using st1(2) unfolding sim_def by blast
  note exit = aexit_spec [of "fold apply_span_op ops m" "sk_trace_id s" "sk_span_id s" t E s3 r1, OF _ _ _ this]
  have "sim E (aexit E (fold apply_span_op ops m) r1 s3) (plain_event (sa_name a) (map_option ex_traceback r1) st1)"
    by (rule sim_event [OF st1(2)]) (use exit ops spec(2,3,12) t in auto)
  moreover have "run_prog (k r1) E (aexit E (fold apply_span_op ops m) r1 s3) = (r, s')" using WithSpan.prems(3) e by simp
  moreover have "responses_ok (k r1)" using WithSpan.prems(2) by simp
  ultimately show ?case using WithSpan.IH(2) [OF rangeI] st1(1) by simp
next
  case (TracedCall nm md body k)
  obtain f s1 r1 s2 where e: "trace_enter E s = (f, s1)" "run_prog body E s1 = (r1, s2)" by (metis prod.exhaust)
  note spec = trace_enter_spec [OF e(1)]
  have "sim E s1 st" using TracedCall.prems(1) spec(8-10) by (simp add: sim_def)
  with TracedCall.IH(1) e(2) TracedCall.prems(2) obtain st1 where st1: "plain_prog body st = (r1, st1)" "sim E s2 st1" by fastforce
  have "tracing E s2" using st1(2) unfolding sim_def by blast
  note exit = trace_exit_spec [OF this, of nm md f r1]
  have "sim E (trace_exit E nm md f r1 s2) (plain_event nm (caught ex_traceback r1) st1)"
    by (rule sim_event [OF st1(2)]) (use exit in auto)
  moreover have "run_prog (k r1) E (trace_exit E nm md f r1 s2) = (r, s')" using TracedCall.prems(3) e by simp
  moreover have "responses_ok (k r1)" using TracedCall.prems(2) by simp
  ultimately show ?case using TracedCall.IH(2) [OF rangeI] st1(1) by simp
next
  case (LlmCall p kw original k)
  obtain r1 s1 where e: "llm_call E p kw original s = (r1, s1)" by fastforce
  from sim_llm_call [OF LlmCall.prems(1) _ e] LlmCall.prems(2) obtain st1 where "plain_call p kw original st = (r1, st1)" "sim E s1 st1" by auto
  with LlmCall.IH [OF rangeI, of s1 st1 r1 r s'] LlmCall.prems(2,3) e show ?case by simp
next
  case (StreamOp i op k)
  obtain r1 s1 where e: "stream_step E i op s = (r1, s1)" by fastforce
  from sim_stream_step [OF StreamOp.prems(1) e] obtain st1 where "plain_stream_step i op st = (r1, st1)" "sim E s1 st1" by auto
  with StreamOp.IH [OF rangeI, of s1 st1 r1 r s'] StreamOp.prems(2,3) e show ?case by simp
qed simp


text \<open>Outside the documented shape the instrumentation is seen: a failed conversion of a chunk's token counts is
  raised into the loop of the application instead of the chunk.\<close>

theorem unreadable_usage_interrupts_stream:
  assumes "i < length (sk_streams s)" and "ts = sk_streams s ! i" and "\<not> src_done (ts_src ts)"
    and "src_chunks (ts_src ts) = c # rest" and "ts_provider ts = OpenAI"
    and "get_value c ''usage'' JNull \<noteq> JNull" and "openai_usage c = None"
  shows "fst (stream_step E i SNext s) = StreamErr (sv_error E)"
  using assms by (auto simp: stream_step_def traced_next_def capture_def openai_capture_def Let_def split: option.splits)

section \<open>An example application\<close>

definition ex_sdk_env :: "unit sdk_env" where
  "ex_sdk_env = \<lparr>sv_uuid = (\<lambda>n. replicate (Suc n) CHR ''x''), sv_now = int, sv_perf = (\<lambda>n. of_nat n),
     sv_error = \<lparr>ex_str = ''ValueError'', ex_traceback = ''ValueError'', ex_is_exception = True\<rparr>, sv_str = (\<lambda>_. []),
     sv_api_key = Some ''k'', sv_transport = (\<lambda>_. ())\<rparr>"

definition ex_sdk :: "unit sdk" where
  "ex_sdk = \<lparr>sk_trace_id = None, sk_span_id = None, sk_tracer = None, sk_last = None, sk_streams = [], sk_uuids = 0, sk_readings = 0, sk_log = []\<rparr>"

definition ex_chunk :: "string \<Rightarrow> json" where
  "ex_chunk t = JObj [(''choices'', JArr [JObj [(''delta'', JObj [(''content'', JStr t)])]])]"

definition ex_src :: stream_src where
  "ex_src = \<lparr>src_chunks = [ex_chunk ''a'', ex_chunk ''b''], src_end = None, src_close = None, src_started = False, src_done = False\<rparr>"

definition ex_kwargs :: llm_kwargs where
  "ex_kwargs = \<lparr>kw_model = Some ''gpt'', kw_messages = None, kw_system = JNull, kw_stream = JBool True\<rparr>"

text \<open>A span around a traced function that fails after a streamed call whose loop is left after one chunk.\<close>

definition ex_prog :: prog where
  "ex_prog =
     WithSpan \<lparr>sa_name = ''job'', sa_provider = ''custom'', sa_model = ''unknown'', sa_input_messages = None, sa_metadata = None\<rparr>
       [SetOutput (Some ''done'')]
       (TracedCall ''step'' None
          (LlmCall OpenAI ex_kwargs (AsyncStream ex_src)
            (\<lambda>r. StreamOp 0 SNext (\<lambda>c. StreamOp 0 SBreak (\<lambda>c. Finish (Some (sv_error ex_sdk_env))))))
          (\<lambda>r. Finish None))
       Finish"

lemma ex_sdk_ok: "good_uuids ex_sdk_env" "tracing ex_sdk_env ex_sdk" "sk_log ex_sdk = []" "sk_streams ex_sdk = []" "sk_span_id ex_sdk = None"
  by (auto simp: good_uuids_def tracing_def ex_sdk_env_def ex_sdk_def inj_on_def dest: arg_cong [where f = length])

theorem spans_form_call_trees_witness:
  "distinct (map sd_span_id (sk_log (snd (run_prog ex_prog ex_sdk_env ex_sdk)))) \<and>
   map sd_parent_span_id (sk_log (snd (run_prog ex_prog ex_sdk_env ex_sdk))) = [Some ''xxx'', Some ''xx'', None]"
proof -
  have "map sd_parent_span_id (sk_log (snd (run_prog ex_prog ex_sdk_env ex_sdk))) = [Some ''xxx'', Some ''xx'', None]" by code_simp
  then show ?thesis using spans_form_call_trees [OF ex_sdk_ok, of ex_prog] by (metis prod.collapse)
qed


end
