(* ===== verification/Metrics_Service.thy ===== *)
theory Metrics_Service
  imports Metric_Buckets Redis_Client "HOL-Library.Product_Lexorder" "HOL-Library.List_Lexorder" "HOL-Library.Char_ord" "HOL-Library.Multiset"
begin

text \<open>
  The reports of \<^verbatim>\<open>backend/app/services/metrics_service.py\<close> and their cached endpoints in
  \<^verbatim>\<open>backend/app/api/v1/metrics.py\<close>. A query is a function of the rows of \<^verbatim>\<open>spans\<close>; averages, percentages and
  percentiles are exact before they are rounded; the session of the database runs in UTC. Where a query leaves the
  order of rows open, one order is fixed. The regular expressions of the database are a parameter.
\<close>

section \<open>SQL\<close>

text \<open>\<^verbatim>\<open>ROUND(x, 2)\<close> on numerics: half away from zero.\<close>

definition pg_round2 :: "rat \<Rightarrow> rat" where
  "pg_round2 x = (if 0 \<le> x then of_int \<lfloor>x * 100 + 1 / 2\<rfloor> else - of_int \<lfloor>1 / 2 - x * 100\<rfloor>) / 100"

definition avg :: "rat list \<Rightarrow> rat option" where
  "avg xs = (if xs = [] then None else Some (sum_list xs / of_nat (length xs)))"

definition group_by :: "('a \<Rightarrow> 'k) \<Rightarrow> 'a list \<Rightarrow> ('k \<times> 'a list) list" where
  "group_by f xs = map (\<lambda>k. (k, filter (\<lambda>x. f x = k) xs)) (remdups (map f xs))"

text \<open>\<^verbatim>\<open>generate_series\<close> with a positive step.\<close>

definition generate_series :: "time \<Rightarrow> time \<Rightarrow> time \<Rightarrow> time list" where
  "generate_series start stop step = map (\<lambda>i. start + int i * step) [0..<nat ((stop - start) div step + 1)]"

section \<open>Periods\<close>

definition PERIOD_TO_INTERVAL :: "(string \<times> time) list" where
  "PERIOD_TO_INTERVAL = [(''1h'', seconds 3600), (''24h'', seconds 86400), (''7d'', seconds 604800), (''30d'', seconds 2592000)]"

definition PERIOD_TO_BUCKET_SIZE :: "(string \<times> time) list" where
  "PERIOD_TO_BUCKET_SIZE = [(''1h'', seconds 60), (''24h'', seconds 3600), (''7d'', seconds 3600), (''30d'', seconds 86400)]"

definition PERIOD_TO_GRANULARITY :: "(string \<times> string) list" where
  "PERIOD_TO_GRANULARITY = [(''1h'', ''minute''), (''24h'', ''hour''), (''7d'', ''hour''), (''30d'', ''day'')]"

definition date_trunc :: "string \<Rightarrow> time \<Rightarrow> time" where
  "date_trunc granularity t =
     t - t mod (if granularity = ''minute'' then seconds 60 else if granularity = ''hour'' then seconds 3600 else seconds 86400)"

text \<open>The rows of a query's \<^verbatim>\<open>WHERE\<close>.\<close>

definition in_scope :: "uuid \<Rightarrow> time \<Rightarrow> span_row list \<Rightarrow> span_row list" where
  "in_scope project_id cutoff spans = filter (\<lambda>s. sp_project_id s = project_id \<and> cutoff \<le> sp_started_at s) spans"

definition errors :: "span_row list \<Rightarrow> span_row list" where
  "errors xs = filter (\<lambda>s. sp_status s = ''error'') xs"

definition error_rate_pct :: "span_row list \<Rightarrow> rat option" where
  "error_rate_pct xs =
     (if xs = [] then None else Some (pg_round2 (of_nat (length (errors xs)) / of_nat (length xs) * 100)))"

definition total_cost :: "span_row list \<Rightarrow> int" where
  "total_cost xs = sum_list (map sp_cost_usd xs)"

definition total_tokens :: "span_row list \<Rightarrow> int" where
  "total_tokens xs = sum_list (map (\<lambda>s. sp_input_tokens s + sp_output_tokens s) xs)"

section \<open>Overview and time series\<close>

record overview =
  ov_total_spans :: nat
  ov_error_count :: nat
  ov_error_rate_pct :: "rat option"
  ov_avg_latency_ms :: "rat option"
  ov_p95_latency_ms :: "rat option"
  ov_p99_latency_ms :: "rat option"
  ov_total_cost_usd :: int
  ov_total_tokens :: int

definition get_overview :: "time \<Rightarrow> uuid \<Rightarrow> string \<Rightarrow> span_row list \<Rightarrow> string + overview" where
  "get_overview now project_id period spans =
     (case map_of PERIOD_TO_INTERVAL period of
        None \<Rightarrow> Inl ''KeyError''
      | Some interval \<Rightarrow>
          (let xs = in_scope project_id (now - interval) spans
           in Inr \<lparr>ov_total_spans = length xs, ov_error_count = length (errors xs), ov_error_rate_pct = error_rate_pct xs,
                ov_avg_latency_ms = map_option pg_round2 (avg (map sp_latency_ms xs)),
                ov_p95_latency_ms = percentile_cont (95 / 100) (map sp_latency_ms xs),
                ov_p99_latency_ms = percentile_cont (99 / 100) (map sp_latency_ms xs),
                ov_total_cost_usd = total_cost xs, ov_total_tokens = total_tokens xs\<rparr>))"

record series_point =
  pt_bucket :: time
  pt_cost :: int
  pt_avg_latency :: rat
  pt_span_count :: nat
  pt_error_count :: nat

text \<open>\<open>db_now\<close> is the database's \<^verbatim>\<open>NOW()\<close>. The left join: the rows of the metrics whose bucket is the series' one, or zeros.\<close>

definition time_buckets :: "string \<Rightarrow> time \<Rightarrow> time \<Rightarrow> time \<Rightarrow> time list" where
  "time_buckets granularity bucket_size cutoff db_now =
     generate_series (date_trunc granularity cutoff) (date_trunc granularity db_now) bucket_size"

definition bucket_rows :: "string \<Rightarrow> time \<Rightarrow> span_row list \<Rightarrow> span_row list" where
  "bucket_rows granularity bucket xs = filter (\<lambda>s. date_trunc granularity (sp_started_at s) = bucket) xs"

definition get_timeseries :: "time \<Rightarrow> time \<Rightarrow> uuid \<Rightarrow> string \<Rightarrow> span_row list \<Rightarrow> string + series_point list" where
  "get_timeseries now db_now project_id period spans =
     (case (map_of PERIOD_TO_INTERVAL period, map_of PERIOD_TO_GRANULARITY period, map_of PERIOD_TO_BUCKET_SIZE period) of
        (Some interval, Some granularity, Some bucket_size) \<Rightarrow>
          (let cutoff = now - interval; xs = in_scope project_id cutoff spans
           in Inr (map (\<lambda>b. let ys = bucket_rows granularity b xs in
                \<lparr>pt_bucket = b, pt_cost = total_cost ys,
                 pt_avg_latency = (case avg (map sp_latency_ms ys) of None \<Rightarrow> 0 | Some v \<Rightarrow> v),
                 pt_span_count = length ys, pt_error_count = length (errors ys)\<rparr>)
                (time_buckets granularity bucket_size cutoff db_now)))
      | _ \<Rightarrow> Inl ''KeyError'')"

section \<open>Analytics\<close>

text \<open>\<^verbatim>\<open>GROUP BY ... ORDER BY ... LIMIT 10\<close>.\<close>

definition top_groups :: "('r \<Rightarrow> 'o::linorder) \<Rightarrow> ('k \<times> span_row list \<Rightarrow> 'r) \<Rightarrow> (span_row \<Rightarrow> 'k) \<Rightarrow> span_row list \<Rightarrow> 'r list" where
  "top_groups order row f xs = take 10 (sort_key order (map row (group_by f xs)))"

record 'k cost_row =
  cr_key :: 'k
  cr_total_cost_usd :: int
  cr_total_tokens :: int
  cr_span_count :: nat

definition cost_by :: "(span_row \<Rightarrow> 'k) \<Rightarrow> span_row list \<Rightarrow> 'k cost_row list" where
  "cost_by f xs = top_groups (\<lambda>r. (- cr_total_cost_usd r, - int (cr_span_count r)))
     (\<lambda>(k, ys). \<lparr>cr_key = k, cr_total_cost_usd = total_cost ys, cr_total_tokens = total_tokens ys, cr_span_count = length ys\<rparr>) f xs"

text \<open>Bucket, cost and number of spans.\<close>

definition cost_over_time :: "string \<Rightarrow> span_row list \<Rightarrow> (time \<times> int \<times> nat) list" where
  "cost_over_time granularity xs =
     sort_key fst (map (\<lambda>(b, ys). (b, total_cost ys, length ys)) (group_by (\<lambda>s. date_trunc granularity (sp_started_at s)) xs))"

record 'k latency_row =
  lr_key :: 'k
  lr_avg_latency_ms :: "rat option"
  lr_p95_latency_ms :: "rat option"
  lr_span_count :: nat

definition nulls_last :: "rat option \<Rightarrow> nat \<times> rat" where
  "nulls_last v = (case v of None \<Rightarrow> (1, 0) | Some x \<Rightarrow> (0, - x))"

definition latency_by :: "(span_row \<Rightarrow> 'k) \<Rightarrow> span_row list \<Rightarrow> 'k latency_row list" where
  "latency_by f xs = top_groups (\<lambda>r. (nulls_last (lr_p95_latency_ms r), - int (lr_span_count r)))
     (\<lambda>(k, ys). \<lparr>lr_key = k, lr_avg_latency_ms = map_option pg_round2 (avg (map sp_latency_ms ys)),
        lr_p95_latency_ms = percentile_cont (95 / 100) (map sp_latency_ms ys), lr_span_count = length ys\<rparr>) f xs"

text \<open>Trace, cost, number of spans, start.\<close>

definition top_expensive_traces :: "span_row list \<Rightarrow> (uuid \<times> int \<times> nat \<times> time) list" where
  "top_expensive_traces xs = top_groups (\<lambda>(t, cost, n, start). (- cost, - int n))
     (\<lambda>(t, ys). (t, total_cost ys, length ys, Min (set (map sp_started_at ys)))) sp_trace_id xs"

text \<open>Trace, largest and average latency, number of spans, start.\<close>

definition slowest_traces :: "span_row list \<Rightarrow> (uuid \<times> rat \<times> rat option \<times> nat \<times> time) list" where
  "slowest_traces xs = top_groups (\<lambda>(t, m, a, n, start). (- m, - int n))
     (\<lambda>(t, ys). (t, Max (set (map sp_latency_ms ys)), map_option pg_round2 (avg (map sp_latency_ms ys)), length ys,
        Min (set (map sp_started_at ys)))) sp_trace_id xs"

text \<open>Bucket, number of spans, number of errors, error rate.\<close>

definition error_rate_trend :: "string \<Rightarrow> time \<Rightarrow> time \<Rightarrow> time \<Rightarrow> span_row list \<Rightarrow> (time \<times> nat \<times> nat \<times> rat) list" where
  "error_rate_trend granularity bucket_size cutoff db_now xs =
     map (\<lambda>b. let ys = bucket_rows granularity b xs in
            (b, length ys, length (errors ys), case error_rate_pct ys of None \<Rightarrow> 0 | Some v \<Rightarrow> v))
       (time_buckets granularity bucket_size cutoff db_now)"

definition error_text :: "span_row \<Rightarrow> string" where
  "error_text s = (if truthy (sp_error s) then the (sp_error s) else ''unknown error'')"

text \<open>Message, number of errors, last seen.\<close>

definition top_error_messages :: "span_row list \<Rightarrow> (string \<times> nat \<times> time) list" where
  "top_error_messages xs = top_groups (\<lambda>(m, n, t). (- int n, - t))
     (\<lambda>(m, ys). (m, length ys, Max (set (map sp_started_at ys)))) (\<lambda>s. take 240 (error_text s)) (errors xs)"

text \<open>Key, number of spans, number of errors, error rate.\<close>

definition errors_by :: "(span_row \<Rightarrow> 'k) \<Rightarrow> span_row list \<Rightarrow> ('k \<times> nat \<times> nat \<times> rat option) list" where
  "errors_by f xs = top_groups (\<lambda>(k, n, e, rate). (- int e, nulls_last rate))
     (\<lambda>(k, ys). (k, length ys, length (errors ys), error_rate_pct ys)) f xs"

definition latest_first :: "span_row list \<Rightarrow> span_row list" where
  "latest_first xs = sort_key (\<lambda>s. - sp_started_at s) xs"

text \<open>Trace, time of the last error, number of errors, message of the last error.\<close>

definition recent_failed_traces :: "span_row list \<Rightarrow> (uuid \<times> time \<times> nat \<times> string) list" where
  "recent_failed_traces xs = top_groups (\<lambda>(t, start, n, m). - start)
     (\<lambda>(t, ys). (t, Max (set (map sp_started_at ys)), length ys, take 240 (error_text (hd (latest_first ys))))) sp_trace_id (errors xs)"

subsection \<open>Error fingerprints\<close>

text \<open>\<^verbatim>\<open>regexp_replace(text, pattern, replacement, flags)\<close> and \<^verbatim>\<open>lower\<close> of the database.\<close>

record sql_text =
  sq_regexp_replace :: "string \<Rightarrow> string \<Rightarrow> string \<Rightarrow> string \<Rightarrow> string"
  sq_lower :: "string \<Rightarrow> string"

definition uuid_pattern :: string where
  "uuid_pattern = ''[0-9a-f]{8}-[0-9a-f]{4}-[0-9a-f]{4}-[0-9a-f]{4}-[0-9a-f]{12}''"

definition masked_error :: "sql_text \<Rightarrow> string \<Rightarrow> string" where
  "masked_error Q m =
     sq_regexp_replace Q (sq_regexp_replace Q m uuid_pattern ''<uuid>'' ''gi'')
       ''(sk-[A-Za-z0-9_-]+|llmobs_[A-Za-z0-9_-]+)'' ''<secret>'' ''gi''"

definition sample_message :: "sql_text \<Rightarrow> span_row \<Rightarrow> string" where
  "sample_message Q s = take 240 (masked_error Q (error_text s))"

definition fingerprint :: "sql_text \<Rightarrow> span_row \<Rightarrow> string" where
  "fingerprint Q s =
     take 160
       (sq_regexp_replace Q
          (sq_regexp_replace Q
             (sq_regexp_replace Q (sq_lower Q (masked_error Q (error_text s))) uuid_pattern ''<uuid>'' ''gi'')
             ([CHR 0x5C] @ ''m[0-9]+'' @ [CHR 0x5C] @ ''M'') ''<num>'' ''g'')
          ([CHR 0x5C] @ ''s+'') '' '' ''g'')"

record fingerprint_row =
  fp_fingerprint :: string
  fp_sample_message :: string
  fp_error_count :: nat
  fp_affected_trace_count :: nat
  fp_top_provider :: string
  fp_top_model :: string
  fp_last_seen_at :: time

text \<open>The value of rank 1: most rows, then the smallest.\<close>

definition top_value :: "(span_row \<Rightarrow> string) \<Rightarrow> span_row list \<Rightarrow> string" where
  "top_value f ys = fst (hd (sort_key (\<lambda>(k, zs). (- int (length zs), k)) (group_by f ys)))"

definition error_fingerprints :: "sql_text \<Rightarrow> span_row list \<Rightarrow> fingerprint_row list" where
  "error_fingerprints Q xs = top_groups (\<lambda>r. (- int (fp_error_count r), - fp_last_seen_at r))
     (\<lambda>(k, ys). \<lparr>fp_fingerprint = k, fp_sample_message = sample_message Q (hd (latest_first ys)), fp_error_count = length ys,
        fp_affected_trace_count = card (set (map sp_trace_id ys)), fp_top_provider = top_value sp_provider ys,
        fp_top_model = top_value sp_model ys, fp_last_seen_at = Max (set (map sp_started_at ys))\<rparr>) (fingerprint Q) (errors xs)"

subsection \<open>The whole report\<close>

record analytics =
  an_cost_by_model :: "string cost_row list"
  an_cost_by_provider :: "string cost_row list"
  an_cost_over_time :: "(time \<times> int \<times> nat) list"
  an_latency_by_model :: "string latency_row list"
  an_latency_by_provider :: "string latency_row list"
  an_top_expensive_traces :: "(uuid \<times> int \<times> nat \<times> time) list"
  an_slowest_traces :: "(uuid \<times> rat \<times> rat option \<times> nat \<times> time) list"
  an_error_rate_trend :: "(time \<times> nat \<times> nat \<times> rat) list"
  an_top_error_messages :: "(string \<times> nat \<times> time) list"
  an_errors_by_model :: "(string \<times> nat \<times> nat \<times> rat option) list"
  an_errors_by_provider :: "(string \<times> nat \<times> nat \<times> rat option) list"
  an_recent_failed_traces :: "(uuid \<times> time \<times> nat \<times> string) list"
  an_error_fingerprints :: "fingerprint_row list"

definition get_analytics :: "sql_text \<Rightarrow> time \<Rightarrow> time \<Rightarrow> uuid \<Rightarrow> string \<Rightarrow> span_row list \<Rightarrow> string + analytics" where
  "get_analytics Q now db_now project_id period spans =
     (case (map_of PERIOD_TO_INTERVAL period, map_of PERIOD_TO_GRANULARITY period, map_of PERIOD_TO_BUCKET_SIZE period) of
        (Some interval, Some granularity, Some bucket_size) \<Rightarrow>
          (let cutoff = now - interval; xs = in_scope project_id cutoff spans
           in Inr \<lparr>an_cost_by_model = cost_by sp_model xs, an_cost_by_provider = cost_by sp_provider xs,
                an_cost_over_time = cost_over_time granularity xs, an_latency_by_model = latency_by sp_model xs,
                an_latency_by_provider = latency_by sp_provider xs, an_top_expensive_traces = top_expensive_traces xs,
                an_slowest_traces = slowest_traces xs,
                an_error_rate_trend = error_rate_trend granularity bucket_size cutoff db_now xs,
                an_top_error_messages = top_error_messages xs, an_errors_by_model = errors_by sp_model xs,
                an_errors_by_provider = errors_by sp_provider xs, an_recent_failed_traces = recent_failed_traces xs,
                an_error_fingerprints = error_fingerprints Q xs\<rparr>)
      | _ \<Rightarrow> Inl ''KeyError'')"

section \<open>The cached endpoints\<close>

datatype report_kind = OverviewReport | TimeseriesReport | AnalyticsReport

datatype report = Overview overview | Timeseries "series_point list" | Analytics analytics

definition compute_report :: "sql_text \<Rightarrow> report_kind \<Rightarrow> uuid \<Rightarrow> string \<Rightarrow> time \<Rightarrow> span_row list \<Rightarrow> string + report" where
  "compute_report Q kind project_id period now spans =
     (case kind of
        OverviewReport \<Rightarrow> map_sum id Overview (get_overview now project_id period spans)
      | TimeseriesReport \<Rightarrow> map_sum id Timeseries (get_timeseries now now project_id period spans)
      | AnalyticsReport \<Rightarrow> map_sum id Analytics (get_analytics Q now now project_id period spans))"

fun kind_name :: "report_kind \<Rightarrow> string" where
  "kind_name OverviewReport = ''overview''"
| "kind_name TimeseriesReport = ''timeseries''"
| "kind_name AnalyticsReport = ''analytics''"

definition metrics_cache_key :: "report_kind \<Rightarrow> uuid \<Rightarrow> string \<Rightarrow> string" where
  "metrics_cache_key kind project_id period = ''metrics:'' @ kind_name kind @ '':'' @ project_id @ '':'' @ period"

definition metrics_ttl :: "(string \<times> int) list" where
  "metrics_ttl = [(''1h'', 30), (''24h'', 60), (''7d'', 300), (''30d'', 300)]"

text \<open>The cache holds the JSON form of a report, \<open>to_json\<close>; what is computed is returned as it is. A reply tells which it is.\<close>

definition get_metrics ::
  "('r, 'j) redis \<Rightarrow> sql_text \<Rightarrow> (report \<Rightarrow> 'j) \<Rightarrow> report_kind \<Rightarrow> uuid \<Rightarrow> string \<Rightarrow> time \<Rightarrow> span_row list \<Rightarrow> 'r
     \<Rightarrow> (string + 'j + report) \<times> 'r" where
  "get_metrics R Q to_json kind project_id period now spans r =
     (if period \<notin> {''1h'', ''24h'', ''7d'', ''30d''} then (Inl ''validation error'', r)
      else
        (let cache_key = metrics_cache_key kind project_id period
         in case r_get R now cache_key r of
              Some cached \<Rightarrow> (Inr (Inl cached), r)
            | None \<Rightarrow>
                (case compute_report Q kind project_id period now spans of
                   Inl e \<Rightarrow> (Inl e, r)
                 | Inr result \<Rightarrow>
                     (Inr (Inr result), r_setex R now cache_key (the (map_of metrics_ttl period)) (to_json result) r))))"

section \<open>Buckets cover the period\<close>

definition granularity_size :: "string \<Rightarrow> time" where
  "granularity_size granularity =
     (if granularity = ''minute'' then seconds 60 else if granularity = ''hour'' then seconds 3600 else seconds 86400)"

lemma granularity_size_pos: "0 < granularity_size g"
  by (simp add: granularity_size_def)

lemma date_trunc_alt: "date_trunc g t = granularity_size g * (t div granularity_size g)"
  by (simp add: date_trunc_def granularity_size_def minus_mod_eq_mult_div)

lemma series_step:
  assumes "map_of PERIOD_TO_GRANULARITY period = Some g" and "map_of PERIOD_TO_BUCKET_SIZE period = Some b"
  shows "b = granularity_size g"
  using assms by (auto simp: PERIOD_TO_GRANULARITY_def PERIOD_TO_BUCKET_SIZE_def granularity_size_def split: if_splits)

text \<open>The buckets of a period are consecutive and hold every instant between the cutoff and now.\<close>

lemma time_buckets_alt:
  "time_buckets g (granularity_size g) cutoff now =
   map (\<lambda>i. granularity_size g * (cutoff div granularity_size g + int i)) [0..<nat (now div granularity_size g - cutoff div granularity_size g + 1)]"
proof -
  let ?z = "granularity_size g"
  have "(?z * (now div ?z) - ?z * (cutoff div ?z)) div ?z = now div ?z - cutoff div ?z"
    using granularity_size_pos [of g] by (simp flip: right_diff_distrib)
  then show ?thesis unfolding time_buckets_def generate_series_def date_trunc_alt by (simp add: algebra_simps)
qed

lemma time_buckets_distinct: "distinct (time_buckets g (granularity_size g) cutoff now)"
  using granularity_size_pos [of g] by (simp add: time_buckets_alt distinct_map inj_on_def)

lemma time_buckets_cover:
  assumes "cutoff \<le> t" and "t \<le> now"
  shows "date_trunc g t \<in> set (time_buckets g (granularity_size g) cutoff now)"
proof -
  let ?z = "granularity_size g"
  have le: "cutoff div ?z \<le> t div ?z" "t div ?z \<le> now div ?z" using assms granularity_size_pos [of g] by (simp_all add: zdiv_mono1)
  then have "date_trunc g t = ?z * (cutoff div ?z + int (nat (t div ?z - cutoff div ?z)))" by (simp add: date_trunc_alt)
  moreover have "nat (t div ?z - cutoff div ?z) < nat (now div ?z - cutoff div ?z + 1)" using le by simp
  ultimately show ?thesis unfolding time_buckets_alt set_map by (intro image_eqI [of _ _ "nat (t div ?z - cutoff div ?z)"]) simp_all
qed

text \<open>A sum over the groups of a partition of the keys is the sum over all rows.\<close>

lemma sum_over_groups:
  fixes h :: "'a \<Rightarrow> int"
  assumes "distinct ks" and "\<And>x. x \<in> set xs \<Longrightarrow> f x \<in> set ks"
  shows "(\<Sum>k\<leftarrow>ks. \<Sum>x\<leftarrow>filter (\<lambda>x. f x = k) xs. h x) = (\<Sum>x\<leftarrow>xs. h x)"
  using assms(2)
proof (induction xs)
  case (Cons x xs)
  have "(\<Sum>k\<leftarrow>ks. if f x = k then h x else 0) = h x"
    using assms(1) Cons.prems [of x] by (simp add: sum_list_distinct_conv_sum_set)
  moreover have "(\<Sum>k\<leftarrow>ks. \<Sum>x\<leftarrow>filter (\<lambda>y. f y = k) (x # xs). h x) =
      (\<Sum>k\<leftarrow>ks. if f x = k then h x else 0) + (\<Sum>k\<leftarrow>ks. \<Sum>x\<leftarrow>filter (\<lambda>y. f y = k) xs. h x)"
    by (induction ks) auto
  ultimately show ?case using Cons by simp
qed simp

lemma length_as_sum: "int (length xs) = (\<Sum>x\<leftarrow>xs. 1)" "int (length (errors ys)) = (\<Sum>s\<leftarrow>ys. if sp_status s = ''error'' then 1 else 0)"
proof -
  show "int (length xs) = (\<Sum>x\<leftarrow>xs. 1)" by (induction xs) auto
  show "int (length (errors ys)) = (\<Sum>s\<leftarrow>ys. if sp_status s = ''error'' then 1 else 0)"
    unfolding errors_def by (induction ys) auto
qed

lemma sum_over_buckets:
  fixes h :: "span_row \<Rightarrow> int"
  assumes "\<And>s. s \<in> set xs \<Longrightarrow> cutoff \<le> sp_started_at s \<and> sp_started_at s \<le> now"
  shows "(\<Sum>b\<leftarrow>time_buckets g (granularity_size g) cutoff now. \<Sum>s\<leftarrow>bucket_rows g b xs. h s) = (\<Sum>s\<leftarrow>xs. h s)"
  unfolding bucket_rows_def
  by (rule sum_over_groups [OF time_buckets_distinct]) (use assms time_buckets_cover in blast)


section \<open>Rankings\<close>

lemma group_by_row: "(k, ys) \<in> set (group_by f xs) \<longleftrightarrow> k \<in> f ` set xs \<and> ys = filter (\<lambda>x. f x = k) xs"
  by (auto simp: group_by_def)

lemma top_rows:
  fixes order :: "'r \<Rightarrow> 'o::linorder"
  shows "set (take n (sort_key order rows)) \<subseteq> set rows" and "sorted (map order (take n (sort_key order rows)))"
    and "x \<in> set rows \<Longrightarrow> x \<notin> set (take n (sort_key order rows)) \<Longrightarrow>
      length (take n (sort_key order rows)) = n \<and> (\<forall>y \<in> set (take n (sort_key order rows)). order y \<le> order x)"
proof -
  let ?s = "sort_key order rows"
  show "set (take n ?s) \<subseteq> set rows" by (auto dest: in_set_takeD)
  show "sorted (map order (take n ?s))" by (simp add: take_map sorted_wrt_take flip: take_map)
  assume x: "x \<in> set rows" "x \<notin> set (take n ?s)"
  then have d: "x \<in> set (drop n ?s)" by (metis UnE append_take_drop_id set_append set_sort)
  have "sorted (map order (take n ?s @ drop n ?s))" by simp
  then have "\<forall>y \<in> set (take n ?s). order y \<le> order x" using d unfolding map_append sorted_append by auto
  moreover have "n \<le> length ?s" using d by (metis drop_all empty_iff empty_set nat_le_linear)
  ultimately show "length (take n ?s) = n \<and> (\<forall>y \<in> set (take n ?s). order y \<le> order x)" by simp
qed

text \<open>What a ranking by cost promises.\<close>

definition cost_ranking_ok :: "(span_row \<Rightarrow> 'k) \<Rightarrow> span_row list \<Rightarrow> 'k cost_row list \<Rightarrow> bool" where
  "cost_ranking_ok f xs rows \<longleftrightarrow>
     length rows \<le> 10 \<and> distinct (map cr_key rows) \<and> sorted (map (\<lambda>r. - cr_total_cost_usd r) rows) \<and>
     (\<forall>r \<in> set rows. cr_total_cost_usd r = total_cost (filter (\<lambda>s. f s = cr_key r) xs) \<and>
        cr_span_count r = length (filter (\<lambda>s. f s = cr_key r) xs) \<and> 0 < cr_span_count r) \<and>
     (\<forall>s \<in> set xs. f s \<in> set (map cr_key rows) \<or>
        length rows = 10 \<and> (\<forall>r \<in> set rows. total_cost (filter (\<lambda>s'. f s' = f s) xs) \<le> cr_total_cost_usd r))"

lemma cost_by_ok: "cost_ranking_ok f xs (cost_by f xs)"
proof -
  define row where "row = (\<lambda>(k :: 'a, ys). \<lparr>cr_key = k, cr_total_cost_usd = total_cost ys, cr_total_tokens = total_tokens ys, cr_span_count = length ys\<rparr>)"
  define order where "order = (\<lambda>r :: 'a cost_row. (- cr_total_cost_usd r, - int (cr_span_count r)))"
  define rows where "rows = map row (group_by f xs)"
  have cost: "cost_by f xs = take 10 (sort_key order rows)"
    by (simp add: cost_by_def top_groups_def rows_def row_def order_def)
  note top = top_rows [where n = 10 and order = order and rows = rows, folded cost]
  have rows: "r \<in> set rows \<Longrightarrow> \<exists>k \<in> f ` set xs. r = row (k, filter (\<lambda>x. f x = k) xs)" for r
    by (auto simp: rows_def group_by_def)
  have keys: "map cr_key rows = remdups (map f xs)" by (simp add: rows_def row_def group_by_def comp_def case_prod_unfold)
  have "mset (map cr_key (sort_key order rows)) = mset (map cr_key rows)" by simp
  then have "distinct (map cr_key (sort_key order rows))" using keys by (metis distinct_remdups mset_eq_imp_distinct_iff)
  then have d: "distinct (map cr_key (cost_by f xs))" unfolding cost by (simp add: distinct_take flip: take_map)
  have s: "sorted (map (\<lambda>r. - cr_total_cost_usd r) (cost_by f xs))"
    unfolding sorted_map
    by (rule sorted_wrt_mono_rel [OF _ top(2) [unfolded sorted_map]]) (auto simp: order_def)
  have exact: "cr_total_cost_usd r = total_cost (filter (\<lambda>s. f s = cr_key r) xs) \<and>
      cr_span_count r = length (filter (\<lambda>s. f s = cr_key r) xs) \<and> 0 < cr_span_count r" if r: "r \<in> set (cost_by f xs)" for r
  proof -
    obtain x where "x \<in> set xs" "r = row (f x, filter (\<lambda>y. f y = f x) xs)" using rows top(1) r by blast
    moreover have "0 < length (filter (\<lambda>y. f y = f x) xs)" using \<open>x \<in> set xs\<close> by (intro length_pos_if_in_set [of x]) simp
    ultimately show ?thesis by (simp add: row_def)
  qed
  have missing: "f x \<in> set (map cr_key (cost_by f xs)) \<or>
      length (cost_by f xs) = 10 \<and> (\<forall>r \<in> set (cost_by f xs). total_cost (filter (\<lambda>y. f y = f x) xs) \<le> cr_total_cost_usd r)"
    if x: "x \<in> set xs" for x
  proof (cases "row (f x, filter (\<lambda>y. f y = f x) xs) \<in> set (cost_by f xs)")
    case True
    then show ?thesis by (force simp: row_def)
  next
    case False
    have "row (f x, filter (\<lambda>y. f y = f x) xs) \<in> set rows" using x by (auto simp: rows_def group_by_def)
    from top(3) [OF this False] show ?thesis by (auto simp: order_def row_def)
  qed
  have "length (cost_by f xs) \<le> 10" by (simp add: cost)
  with d s exact missing show ?thesis unfolding cost_ranking_ok_def by blast
qed

text \<open>
  The cost rankings are exact. In the analytics of a period, every row of the cost by model and by
  provider has the cost and the number of the spans of the period with that key; rows come in
  descending cost, at most ten, no key twice; and a model or provider that is not listed costs
  no more than any that is.
\<close>

theorem cost_rankings_are_exact:
  assumes "get_analytics Q now db_now project_id period spans = Inr a" and "map_of PERIOD_TO_INTERVAL period = Some interval"
  shows "cost_ranking_ok sp_model (in_scope project_id (now - interval) spans) (an_cost_by_model a) \<and>
    cost_ranking_ok sp_provider (in_scope project_id (now - interval) spans) (an_cost_by_provider a)"
  using assms cost_by_ok by (auto simp: get_analytics_def Let_def split: option.splits)

section \<open>Cached reports are recent\<close>

text \<open>Requests and changes of the table, each at its time; the replies with the rows that were there.\<close>

datatype metrics_event = Ask report_kind uuid string | Write "span_row list"

type_synonym 'j answer = "time \<times> (report_kind \<times> uuid \<times> string) \<times> span_row list \<times> (string + 'j + report)"

fun metrics_run ::
  "('r, 'j) redis \<Rightarrow> sql_text \<Rightarrow> (report \<Rightarrow> 'j) \<Rightarrow> (time \<times> metrics_event) list \<Rightarrow> span_row list \<Rightarrow> 'r \<Rightarrow> 'j answer list" where
  "metrics_run R Q to_json [] spans r = []"
| "metrics_run R Q to_json ((now, Write spans') # es) spans r = metrics_run R Q to_json es spans' r"
| "metrics_run R Q to_json ((now, Ask kind project_id period) # es) spans r =
     (case get_metrics R Q to_json kind project_id period now spans r of
        (reply, r') \<Rightarrow> (now, (kind, project_id, period), spans, reply) # metrics_run R Q to_json es spans r')"

lemma last_separator:
  assumes "xs @ c # a = ys @ c # b" and "c \<notin> set a" and "c \<notin> set b"
  shows "xs = ys \<and> a = b"
proof -
  have eq: "rev a @ c # rev xs = rev b @ c # rev ys" using arg_cong [OF assms(1), of rev] by simp
  have "takeWhile (\<lambda>x. x \<noteq> c) (rev a @ c # rev xs) = rev a" "takeWhile (\<lambda>x. x \<noteq> c) (rev b @ c # rev ys) = rev b"
    using assms(2,3) by (auto simp: takeWhile_append)
  with eq have "rev a = rev b" by simp
  with assms(1) show ?thesis by simp
qed

lemma metrics_cache_key_inj:
  assumes "metrics_cache_key kind p per = metrics_cache_key kind' p' per'" and "CHR '':'' \<notin> set per" and "CHR '':'' \<notin> set per'"
  shows "kind = kind' \<and> p = p' \<and> per = per'"
proof -
  have "(kind_name kind @ '':'' @ p) @ CHR '':'' # per = (kind_name kind' @ '':'' @ p') @ CHR '':'' # per'"
    using assms(1) by (simp add: metrics_cache_key_def)
  from last_separator [OF this assms(2,3)] have "kind_name kind @ '':'' @ p = kind_name kind' @ '':'' @ p'" "per = per'" by blast+
  then show ?thesis by (cases kind; cases kind') auto
qed

text \<open>What answers a question by a fresh computation.\<close>

definition computed :: "sql_text \<Rightarrow> report_kind \<times> uuid \<times> string \<Rightarrow> report \<Rightarrow> 'j answer \<Rightarrow> bool" where
  "computed Q q rep ans =
     (case ans of (t, q', spans, reply) \<Rightarrow> q' = q \<and> reply = Inr (Inr rep) \<and>
        (case q of (kind, p, per) \<Rightarrow> compute_report Q kind p per t spans = Inr rep))"

definition ttl_of :: "string \<Rightarrow> int" where
  "ttl_of period = the (map_of metrics_ttl period)"

definition cache_recent :: "('r, 'j) redis \<Rightarrow> sql_text \<Rightarrow> (report \<Rightarrow> 'j) \<Rightarrow> 'j answer list \<Rightarrow> 'r \<Rightarrow> bool" where
  "cache_recent R Q to_json past r \<longleftrightarrow>
     (\<forall>now k j. r_get R now k r = Some j \<longrightarrow>
        (\<exists>kind p per rep ans. k = metrics_cache_key kind p per \<and> per \<in> {''1h'', ''24h'', ''7d'', ''30d''} \<and> j = to_json rep \<and>
           ans \<in> set past \<and> computed Q (kind, p, per) rep ans \<and> now < fst ans + seconds (ttl_of per)))"

lemma cache_recent_snoc: "cache_recent R Q to_json past r \<Longrightarrow> cache_recent R Q to_json (past @ [a]) r"
  unfolding cache_recent_def set_append by blast

lemma period_no_colon: "per \<in> {''1h'', ''24h'', ''7d'', ''30d''} \<Longrightarrow> CHR '':'' \<notin> set per"
  by auto

lemma get_metrics_step:
  assumes "redis_cache R" and "cache_recent R Q to_json past r"
    and "get_metrics R Q to_json kind p per now spans r = (reply, r')"
  shows "cache_recent R Q to_json (past @ [(now, (kind, p, per), spans, reply)]) r' \<and>
    (\<forall>j. reply = Inr (Inl j) \<longrightarrow> (\<exists>rep ans. j = to_json rep \<and> ans \<in> set past \<and> computed Q (kind, p, per) rep ans \<and>
      now < fst ans + seconds (ttl_of per))) \<and>
    (\<forall>rep. reply = Inr (Inr rep) \<longrightarrow> compute_report Q kind p per now spans = Inr rep)"
proof (cases "per \<in> {''1h'', ''24h'', ''7d'', ''30d''} \<and> r_get R now (metrics_cache_key kind p per) r = None")
  case True
  show ?thesis
  proof (cases "compute_report Q kind p per now spans")
    case (Inl e)
    with True assms(3) have "reply = Inl e" "r' = r" by (auto simp: get_metrics_def Let_def)
    with cache_recent_snoc [OF assms(2)] show ?thesis by simp
  next
    case (Inr rep)
    let ?new = "(now, (kind, p, per), spans, Inr (Inr rep))"
    have r: "reply = Inr (Inr rep)" "r' = r_setex R now (metrics_cache_key kind p per) (ttl_of per) (to_json rep) r"
      using True Inr assms(3) by (auto simp: get_metrics_def Let_def ttl_of_def)
    have "cache_recent R Q to_json (past @ [?new]) r'"
      unfolding cache_recent_def
    proof (intro allI impI)
      fix now' k j assume "r_get R now' k r' = Some j"
      from redis_cache.get_setex [OF assms(1) this [unfolded r(2)]]
      consider "k = metrics_cache_key kind p per" "j = to_json rep" "now' < now + seconds (ttl_of per)" | "r_get R now' k r = Some j" by blast
      then show "\<exists>kind p per rep ans. k = metrics_cache_key kind p per \<and> per \<in> {''1h'', ''24h'', ''7d'', ''30d''} \<and> j = to_json rep \<and>
          ans \<in> set (past @ [?new]) \<and> computed Q (kind, p, per) rep ans \<and> now' < fst ans + seconds (ttl_of per)"
      proof cases
        case 1
        have "computed Q (kind, p, per) rep ?new" using Inr by (simp add: computed_def)
        with 1 True show ?thesis by (intro exI [of _ kind] exI [of _ p] exI [of _ per] exI [of _ rep] exI [of _ ?new]) simp
      next
        case 2
        from assms(2) [unfolded cache_recent_def, rule_format, OF 2] show ?thesis unfolding set_append by blast
      qed
    qed
    with r Inr show ?thesis by simp
  qed
next
  case False
  have same: "r' = r" using False assms(3) by (auto simp: get_metrics_def Let_def split: option.splits if_splits)
  have "\<exists>rep ans. j = to_json rep \<and> ans \<in> set past \<and> computed Q (kind, p, per) rep ans \<and> now < fst ans + seconds (ttl_of per)"
    if "reply = Inr (Inl j)" for j
  proof -
    have j: "r_get R now (metrics_cache_key kind p per) r = Some j" "per \<in> {''1h'', ''24h'', ''7d'', ''30d''}"
      using that assms(3) by (auto simp: get_metrics_def Let_def split: option.splits if_splits sum.splits)
    from assms(2) [unfolded cache_recent_def, rule_format, OF j(1)] obtain kind' p' per' rep ans
      where e: "metrics_cache_key kind p per = metrics_cache_key kind' p' per'" "per' \<in> {''1h'', ''24h'', ''7d'', ''30d''}" "j = to_json rep"
        "ans \<in> set past" "computed Q (kind', p', per') rep ans" "now < fst ans + seconds (ttl_of per')" by blast
    from metrics_cache_key_inj [OF e(1) period_no_colon [OF j(2)] period_no_colon [OF e(2)]] e(3-6) show ?thesis by blast
  qed
  moreover have "reply \<noteq> Inr (Inr rep)" for rep
    using False assms(3) by (auto simp: get_metrics_def Let_def split: option.splits if_splits)
  ultimately show ?thesis using same cache_recent_snoc [OF assms(2)] by blast
qed

lemma metrics_run_recent:
  assumes redis: "redis_cache R" and "cache_recent R Q to_json past r" and "sorted (map fst es)"
    and "\<forall>a \<in> set past. \<forall>e \<in> set es. fst a \<le> fst e"
    and "metrics_run R Q to_json es spans r = before @ (now, q, rows, reply) # after"
  shows "(\<forall>j. reply = Inr (Inl j) \<longrightarrow> (\<exists>rep ans. j = to_json rep \<and> ans \<in> set (past @ before) \<and> computed Q q rep ans \<and>
      fst ans \<le> now \<and> now < fst ans + seconds (ttl_of (snd (snd q))))) \<and>
    (\<forall>rep. reply = Inr (Inr rep) \<longrightarrow> computed Q q rep (now, q, rows, reply))"
  using assms(2-5)
proof (induction es arbitrary: past spans r before)
  case (Cons e es)
  obtain t ev where e: "e = (t, ev)" by fastforce
  show ?case
  proof (cases ev)
    case (Write spans')
    from Cons.IH [OF Cons.prems(1), of spans'] Cons.prems(2-4) e Write show ?thesis by simp
  next
    case (Ask kind p per)
    obtain rp r' where g: "get_metrics R Q to_json kind p per t spans r = (rp, r')" by fastforce
    note step = get_metrics_step [OF redis Cons.prems(1) g]
    have run: "(t, (kind, p, per), spans, rp) # metrics_run R Q to_json es spans r' = before @ (now, q, rows, reply) # after"
      using Cons.prems(4) e Ask g by simp
    show ?thesis
    proof (cases before)
      case Nil
      with run have "now = t" "q = (kind, p, per)" "rows = spans" "reply = rp" by auto
      with step Cons.prems(3) Nil e show ?thesis by (fastforce simp: computed_def)
    next
      case (Cons b bs)
      with run have b: "b = (t, (kind, p, per), spans, rp)" "metrics_run R Q to_json es spans r' = bs @ (now, q, rows, reply) # after"
        by auto
      have "\<forall>a \<in> set (past @ [b]). \<forall>e \<in> set es. fst a \<le> fst e" using Cons.prems(2,3) e b(1) by auto
      from Cons.IH [OF _ _ this b(2)] step Cons.prems(2) b(1) Cons show ?thesis by simp
    qed
  qed
qed simp

text \<open>
  A cached report is the report of a recent instant. In every sequence of requests and changes of
  the spans, starting with an empty cache, a cached answer is the stored form of a report that an
  earlier request for the same project, kind and period computed from the rows of its time, and
  that time lies less than the period's lifetime back; every other answer is computed from the
  rows that are there.
\<close>

theorem cached_reports_are_recent:
  assumes "redis_cache R" and "\<And>now k. r_get R now k r = None" and "sorted (map fst es)"
    and "metrics_run R Q to_json es spans r = before @ (now, q, rows, reply) # after"
  shows "(\<forall>j. reply = Inr (Inl j) \<longrightarrow> (\<exists>rep ans. j = to_json rep \<and> ans \<in> set before \<and> computed Q q rep ans \<and>
      fst ans \<le> now \<and> now < fst ans + seconds (ttl_of (snd (snd q))))) \<and>
    (\<forall>rep. reply = Inr (Inr rep) \<longrightarrow> computed Q q rep (now, q, rows, reply))"
proof -
  have "cache_recent R Q to_json [] r" using assms(2) by (simp add: cache_recent_def)
  from metrics_run_recent [OF assms(1) this assms(3) _ assms(4)] show ?thesis by simp
qed

section \<open>The properties on a few spans\<close>

definition ex_metric_span :: "uuid \<Rightarrow> string \<Rightarrow> int \<Rightarrow> string \<Rightarrow> time \<Rightarrow> span_row" where
  "ex_metric_span i model cost status t = \<lparr>sp_id = i, sp_trace_id = ''t'', sp_project_id = ''p'', sp_parent_span_id = None, sp_name = ''n'',
     sp_provider = ''openai'', sp_model = model, sp_input_tokens = 1, sp_output_tokens = 1, sp_cost_usd = cost, sp_latency_ms = 1,
     sp_status = status, sp_error = None, sp_started_at = t, sp_payload_s3_key = None, sp_payload_status = Omitted,
     sp_payload_drop_reason = None, sp_metadata = JStr ''{}''\<rparr>"

definition ex_metric_spans :: "span_row list" where
  "ex_metric_spans = [ex_metric_span ''a'' ''m1'' 5 ''ok'' (seconds 3600), ex_metric_span ''b'' ''m2'' 7 ''error'' (seconds 3660),
     ex_metric_span ''c'' ''m1'' 1 ''ok'' (seconds 3661)]"

definition ex_sql :: sql_text where
  "ex_sql = \<lparr>sq_regexp_replace = (\<lambda>s p q f. s), sq_lower = py_lower\<rparr>"

definition ex_series :: "series_point list" where
  "ex_series = map (\<lambda>b. let ys = bucket_rows ''minute'' b ex_metric_spans in
     \<lparr>pt_bucket = b, pt_cost = total_cost ys, pt_avg_latency = (case avg (map sp_latency_ms ys) of None \<Rightarrow> 0 | Some v \<Rightarrow> v),
      pt_span_count = length ys, pt_error_count = length (errors ys)\<rparr>) (time_buckets ''minute'' (seconds 60) (seconds 100) (seconds 3700))"


theorem cost_rankings_are_exact_witness:
  "\<exists>a. get_analytics ex_sql (seconds 3700) (seconds 3700) ''p'' ''1h'' ex_metric_spans = Inr a \<and>
     cost_ranking_ok sp_model (in_scope ''p'' (seconds 3700 - seconds 3600) ex_metric_spans) (an_cost_by_model a)"
proof -
  obtain a where a: "get_analytics ex_sql (seconds 3700) (seconds 3700) ''p'' ''1h'' ex_metric_spans = Inr a"
    by (simp add: get_analytics_def PERIOD_TO_INTERVAL_def PERIOD_TO_GRANULARITY_def PERIOD_TO_BUCKET_SIZE_def Let_def)
  from cost_rankings_are_exact [OF a, of "seconds 3600"] a show ?thesis by (simp add: PERIOD_TO_INTERVAL_def)
qed

text \<open>Two requests ten seconds apart, with a change in between: the second answer is the first report.\<close>

theorem cached_reports_are_recent_witness:
  "\<exists>first rep. metrics_run mem_redis ex_sql id [(0, Ask OverviewReport ''p'' ''1h''), (0, Write []), (seconds 10, Ask OverviewReport ''p'' ''1h'')]
      ex_metric_spans [] = [first, (seconds 10, (OverviewReport, ''p'', ''1h''), [], Inr (Inl rep))] \<and>
     computed ex_sql (OverviewReport, ''p'', ''1h'') rep first"
proof -
  let ?es = "[(0, Ask OverviewReport ''p'' ''1h''), (0, Write []), (seconds 10, Ask OverviewReport ''p'' ''1h'')]"
  obtain first rep where run: "metrics_run mem_redis ex_sql id ?es ex_metric_spans [] =
      [first] @ (seconds 10, (OverviewReport, ''p'', ''1h''), [], Inr (Inl rep)) # []"
    by (simp add: get_metrics_def compute_report_def get_overview_def PERIOD_TO_INTERVAL_def metrics_ttl_def mem_get_def mem_setex_def Let_def)
  have "\<exists>rep' ans. rep = id rep' \<and> ans \<in> set [first] \<and> computed ex_sql (OverviewReport, ''p'', ''1h'') rep' ans"
    using cached_reports_are_recent [OF mem.redis_cache_axioms _ _ run] by (auto simp: mem_get_def)
  with run show ?thesis by auto
qed

end
