(* ===== verification/Audit_Api.thy ===== *)
theory Audit_Api
  imports Access_Control Py_Numbers
begin

text \<open>
  The audit log: \<^verbatim>\<open>backend/app/api/v1/audit.py\<close> with its schemas. The database's \<^verbatim>\<open>ILIKE\<close>, its reading of a
  UUID and the JSON parser are parameters.
\<close>

section \<open>The listing\<close>

text \<open>A row of \<^verbatim>\<open>audit_log\<close>: the event with its number, its metadata as stored, and its time.\<close>

record audit_log_row =
  al_id :: int
  al_org_id :: uuid
  al_user_id :: "uuid option"
  al_action :: string
  al_resource_id :: "uuid option"
  al_metadata :: json
  al_created_at :: time

record audit_log_event =
  ae_id :: int
  ae_action :: string
  ae_user_id :: "uuid option"
  ae_user_email :: "string option"
  ae_resource_id :: "uuid option"
  ae_metadata :: "(string \<times> json) list"
  ae_created_at :: time

record audit_env =
  av_ilike :: "string \<Rightarrow> string \<Rightarrow> bool"
  av_uuid :: "string \<Rightarrow> uuid option"
  av_loads :: "string \<Rightarrow> json option"

record audit_query =
  aq_action :: "string option"
  aq_user_id :: "string option"
  aq_from_dt :: "time option"
  aq_to_dt :: "time option"

definition parse_metadata :: "(string \<Rightarrow> json option) \<Rightarrow> json \<Rightarrow> (string \<times> json) list" where
  "parse_metadata loads value =
     (case value of
        JObj m \<Rightarrow> m
      | JStr s \<Rightarrow> (case loads s of Some (JObj m) \<Rightarrow> m | _ \<Rightarrow> [])
      | _ \<Rightarrow> [])"

definition action_pattern :: "string option \<Rightarrow> string option" where
  "action_pattern action =
     (case action of None \<Rightarrow> None | Some a \<Rightarrow> if py_strip a = [] then None else Some (''%'' @ py_strip a @ ''%''))"

text \<open>The conditions of the query other than the cursor.\<close>

definition audit_matches :: "audit_env \<Rightarrow> uuid \<Rightarrow> audit_query \<Rightarrow> audit_log_row \<Rightarrow> bool" where
  "audit_matches E org q r \<longleftrightarrow>
     al_org_id r = org \<and>
     (case action_pattern (aq_action q) of None \<Rightarrow> True | Some p \<Rightarrow> av_ilike E p (al_action r)) \<and>
     (case aq_user_id q of None \<Rightarrow> True | Some u \<Rightarrow> al_user_id r \<noteq> None \<and> al_user_id r = av_uuid E u) \<and>
     (case aq_from_dt q of None \<Rightarrow> True | Some t \<Rightarrow> t \<le> al_created_at r) \<and>
     (case aq_to_dt q of None \<Rightarrow> True | Some t \<Rightarrow> al_created_at r \<le> t)"

definition audit_event_of :: "audit_env \<Rightarrow> org_db \<Rightarrow> audit_log_row \<Rightarrow> audit_log_event" where
  "audit_event_of E db r =
     \<lparr>ae_id = al_id r, ae_action = al_action r, ae_user_id = (if truthy (al_user_id r) then al_user_id r else None),
      ae_user_email = (case al_user_id r of None \<Rightarrow> None | Some u \<Rightarrow> map_option us_email (select_one (\<lambda>x. us_id x = u) (od_users db))),
      ae_resource_id = (if truthy (al_resource_id r) then al_resource_id r else None),
      ae_metadata = parse_metadata (av_loads E) (al_metadata r), ae_created_at = al_created_at r\<rparr>"

definition list_audit_events ::
  "audit_env \<Rightarrow> current_user \<Rightarrow> audit_query \<Rightarrow> int option \<Rightarrow> int \<Rightarrow> org_db \<Rightarrow> audit_log_row list
     \<Rightarrow> http_error + audit_log_event list \<times> string option" where
  "list_audit_events E user q cursor page_size db rows =
     (if (case aq_action q of None \<Rightarrow> False | Some a \<Rightarrow> 100 < length a) \<or> (case cursor of None \<Rightarrow> False | Some c \<Rightarrow> c < 1) \<or>
         page_size < 1 \<or> 100 < page_size
      then Inl (HTTPException 422 ''validation error'')
      else case require_admin user of
        Inl e \<Rightarrow> Inl e
      | Inr _ \<Rightarrow>
          if (case aq_user_id q of None \<Rightarrow> False | Some u \<Rightarrow> av_uuid E u = None) then Inl (Unhandled ''DataError'')
          else
            (let hits = filter (\<lambda>r. audit_matches E (cu_org_id user) q r \<and> (case cursor of None \<Rightarrow> True | Some c \<Rightarrow> al_id r < c)) rows;
                 found = take (nat page_size + 1) (rev (sort_key al_id hits));
                 page = take (nat page_size) found;
                 next_cursor = (if nat page_size < length found \<and> page \<noteq> [] then Some (py_str_int (al_id (last page))) else None)
             in Inr (map (audit_event_of E db) page, next_cursor)))"

section \<open>Following the cursors\<close>

text \<open>A client that sends the returned cursor as the next one, for at most so many requests.\<close>

fun all_audit_pages ::
  "audit_env \<Rightarrow> current_user \<Rightarrow> audit_query \<Rightarrow> int \<Rightarrow> org_db \<Rightarrow> audit_log_row list \<Rightarrow> nat \<Rightarrow> int option \<Rightarrow> audit_log_event list option" where
  "all_audit_pages E user q page_size db rows 0 cursor = None"
| "all_audit_pages E user q page_size db rows (Suc n) cursor =
     (case list_audit_events E user q cursor page_size db rows of
        Inl _ \<Rightarrow> None
      | Inr (events, None) \<Rightarrow> Some events
      | Inr (events, Some c) \<Rightarrow>
          (case py_int c of
             None \<Rightarrow> None
           | Some i \<Rightarrow> map_option ((@) events) (all_audit_pages E user q page_size db rows n (Some i))))"

text \<open>The matching rows, newest first.\<close>

definition audit_listing :: "audit_env \<Rightarrow> uuid \<Rightarrow> audit_query \<Rightarrow> audit_log_row list \<Rightarrow> audit_log_row list" where
  "audit_listing E org q rows = rev (sort_key al_id (filter (audit_matches E org q) rows))"

definition audit_query_ok :: "audit_env \<Rightarrow> audit_query \<Rightarrow> bool" where
  "audit_query_ok E q \<longleftrightarrow> (case aq_action q of None \<Rightarrow> True | Some a \<Rightarrow> length a \<le> 100) \<and>
     (case aq_user_id q of None \<Rightarrow> True | Some u \<Rightarrow> av_uuid E u \<noteq> None)"

lemma audit_listing_descending:
  assumes "distinct (map al_id rows)"
  shows "sorted_wrt (\<lambda>a b. al_id b < al_id a) (audit_listing E org q rows)"
proof -
  have "distinct (map al_id (sort_key al_id (filter (audit_matches E org q) rows)))"
    using assms by (simp add: distinct_map inj_on_def)
  then have "sorted_wrt (<) (map al_id (sort_key al_id (filter (audit_matches E org q) rows)))"
    by (simp add: strict_sorted_iff)
  then show ?thesis by (simp add: audit_listing_def sorted_wrt_rev sorted_wrt_map)
qed

text \<open>One page, as a window on the rest of the listing.\<close>

lemma audit_page:
  assumes "audit_query_ok E q" and "require_admin user = Inr u" and "1 \<le> page_size" and "page_size \<le> 100"
    and "case cursor of None \<Rightarrow> True | Some c \<Rightarrow> 1 \<le> c"
    and "rest = filter (\<lambda>r. case cursor of None \<Rightarrow> True | Some c \<Rightarrow> al_id r < c) (audit_listing E (cu_org_id user) q rows)"
  shows "list_audit_events E user q cursor page_size db rows =
    Inr (map (audit_event_of E db) (take (nat page_size) rest),
      if nat page_size < length rest then Some (py_str_int (al_id (rest ! (nat page_size - 1)))) else None)"
proof -
  have hits: "rev (sort_key al_id (filter (\<lambda>r. audit_matches E (cu_org_id user) q r \<and> (case cursor of None \<Rightarrow> True | Some c \<Rightarrow> al_id r < c)) rows)) = rest"
    unfolding assms(6) audit_listing_def rev_filter [symmetric] filter_sort filter_filter by (simp add: conj_commute)
  have guard: "\<not> ((case aq_action q of None \<Rightarrow> False | Some a \<Rightarrow> 100 < length a) \<or> (case cursor of None \<Rightarrow> False | Some c \<Rightarrow> c < 1) \<or>
      page_size < 1 \<or> 100 < page_size)" "\<not> (case aq_user_id q of None \<Rightarrow> False | Some u \<Rightarrow> av_uuid E u = None)"
    using assms(1,3-5) by (auto simp: audit_query_ok_def split: option.splits)
  have n: "0 < nat page_size" using assms(3) by simp
  have last: "last (take (nat page_size) rest) = rest ! (nat page_size - 1)" if "nat page_size < length rest"
    using n that by (rule last_take_nth)
  show ?thesis
    unfolding list_audit_events_def if_not_P [OF guard(1)] assms(2) sum.case if_not_P [OF guard(2)] Let_def hits
    using n last by (auto simp: take_take min_def)
qed

lemma audit_pages_rest:
  assumes "audit_query_ok E q" and "require_admin user = Inr u" and "1 \<le> page_size" and "page_size \<le> 100"
    and "distinct (map al_id rows)" and "list_all (\<lambda>r. 1 \<le> al_id r) rows"
    and "audit_listing E (cu_org_id user) q rows = before @ rest" and "length rest < n"
    and "cursor = (if before = [] then None else Some (al_id (last before)))"
  shows "all_audit_pages E user q page_size db rows n cursor = Some (map (audit_event_of E db) rest)"
  using assms(7-9)
proof (induction n arbitrary: before rest cursor)
  case (Suc n)
  let ?n = "nat page_size"
  have desc: "sorted_wrt (\<lambda>a b. al_id b < al_id a) (before @ rest)"
    using audit_listing_descending [OF assms(5), of E "cu_org_id user" q] by (simp add: Suc.prems(1))
  have pos: "1 \<le> al_id r" if "r \<in> set (before @ rest)" for r
    using that assms(6) unfolding Suc.prems(1) [symmetric] by (auto simp: audit_listing_def list_all_iff)
  have rest: "rest = filter (\<lambda>r. case cursor of None \<Rightarrow> True | Some c \<Rightarrow> al_id r < c) (audit_listing E (cu_org_id user) q rows)"
  proof (cases "before = []")
    case False
    then obtain xs x where b: "before = xs @ [x]" by (metis append_butlast_last_id)
    have "filter (\<lambda>r. al_id r < al_id x) (xs @ x # rest) = rest"
      using desc b by (auto simp: sorted_wrt_append filter_empty_conv filter_id_conv)
    with False b Suc.prems(1,3) show ?thesis by simp
  qed (use Suc.prems in simp)
  have cursor: "case cursor of None \<Rightarrow> True | Some c \<Rightarrow> 1 \<le> c" using Suc.prems(3) pos [of "last before"] by auto
  note page = audit_page [OF assms(1-4) cursor rest, of db]
  show ?case
  proof (cases "?n < length rest")
    case False
    then show ?thesis by (simp add: page)
  next
    case True
    have split: "before @ rest = (before @ take ?n rest) @ drop ?n rest" by simp
    have n: "0 < ?n" using assms(3) by simp
    have ne: "take ?n rest \<noteq> []" using True n by auto
    note ne = ne last_take_nth [OF n True]
    have "all_audit_pages E user q page_size db rows n (Some (al_id (rest ! (?n - 1)))) = Some (map (audit_event_of E db) (drop ?n rest))"
      by (rule Suc.IH [of "before @ take ?n rest"]) (use Suc.prems(1,2) True assms(3) ne in auto)
    with True show ?thesis by (simp add: page py_int_str_int flip: map_append)
  qed
qed simp

text \<open>
  The audit log is read completely. An administrator who follows the cursors gets, after at most as
  many requests as there are rows and one more, every event of the own organization that matches,
  once, newest first, and no event of another organization.
\<close>

theorem audit_log_is_read_completely:
  assumes "audit_query_ok E q" and "require_admin user = Inr u" and "1 \<le> page_size" and "page_size \<le> 100"
    and "distinct (map al_id rows)" and "list_all (\<lambda>r. 1 \<le> al_id r) rows"
  shows "all_audit_pages E user q page_size db rows (length rows + 1) None =
    Some (map (audit_event_of E db) (audit_listing E (cu_org_id user) q rows))"
proof -
  have "length (audit_listing E (cu_org_id user) q rows) < length rows + 1"
    by (simp add: audit_listing_def less_Suc_eq_le)
  then show ?thesis by (intro audit_pages_rest [OF assms, of "[]"]) simp_all
qed

text \<open>A log of four events of two organizations, read one event at a time, with a filter on the action.\<close>

definition sample_audit_env :: audit_env where
  "sample_audit_env = \<lparr>av_ilike = (\<lambda>p a. p = ''%login%'' \<and> take 5 a = ''login''), av_uuid = Some, av_loads = (\<lambda>_. None)\<rparr>"

definition sample_audit_row :: "int \<Rightarrow> uuid \<Rightarrow> string \<Rightarrow> audit_log_row" where
  "sample_audit_row i org action = \<lparr>al_id = i, al_org_id = org, al_user_id = None, al_action = action, al_resource_id = None,
     al_metadata = JStr ''{}'', al_created_at = i\<rparr>"

definition sample_audit_rows :: "audit_log_row list" where
  "sample_audit_rows = [sample_audit_row 1 ''a'' ''login'', sample_audit_row 2 ''b'' ''login'', sample_audit_row 3 ''a'' ''invite'',
     sample_audit_row 4 ''a'' ''login.failed'']"

definition sample_audit_user :: current_user where
  "sample_audit_user = \<lparr>cu_sub = ''u'', cu_org_id = ''a'', cu_role = Some ''admin'', cu_is_platform_admin = None\<rparr>"

definition sample_audit_query :: audit_query where
  "sample_audit_query = \<lparr>aq_action = Some '' login '', aq_user_id = None, aq_from_dt = None, aq_to_dt = None\<rparr>"

lemma sample_audit_listing:
  "map al_id (audit_listing sample_audit_env (cu_org_id sample_audit_user) sample_audit_query sample_audit_rows) = [4, 1]"
  by code_simp

lemma sample_audit_admin: "require_admin sample_audit_user = Inr ()"
  by code_simp

theorem audit_log_is_read_completely_witness:
  "map_option (map ae_id) (all_audit_pages sample_audit_env sample_audit_user sample_audit_query 1
     \<lparr>od_orgs = [], od_users = [], od_projects = [], od_api_keys = [], od_memberships = [], od_invites = [], od_audit = []\<rparr>
     sample_audit_rows (length sample_audit_rows + 1) None) = Some [4, 1]"
proof -
  have ids: "map (ae_id \<circ> audit_event_of E db) xs = map al_id xs" for E db xs by (simp add: audit_event_of_def)
  show ?thesis
    by (subst audit_log_is_read_completely [OF _ sample_audit_admin])
      (simp_all add: ids sample_audit_listing, simp_all add: audit_query_ok_def sample_audit_query_def sample_audit_rows_def sample_audit_row_def)
qed

end
