(* ===== verification/Migrations.thy ===== *)
theory Migrations
  imports Obs_Prelude
begin

text \<open>
  The schema migrations (\<^verbatim>\<open>backend/alembic/versions\<close>), each as the list of its statements, and what the
  statements do to the catalogue of the database: tables with columns, constraints, row-level security
  and policies, indexes, sequences, roles and grants. Rows are not part of the catalogue; the
  greatest identifier of a table, which one migration reads, is a parameter. The ranges of
  partitions and the texts of checks, defaults and conditions are kept as texts.
\<close>

section \<open>The catalogue\<close>

datatype col_type = UUID | String nat | Text | Integer | BigInteger | Numeric "(nat \<times> nat) option" | Float | Boolean
  | TIMESTAMPTZ | JSONB | INET

text \<open>A default is an SQL text, a string literal, or the next value of a sequence.\<close>

datatype server_default = Sql string | Lit string | Nextval string

record column =
  co_name :: string
  co_type :: col_type
  co_nullable :: bool
  co_default :: "server_default option"

datatype table_constraint =
  PrimaryKey "string list"
  | Unique "string option" "string list"
  | ForeignKey "string option" "string list" string "string list" string
  | Check string string

text \<open>The conditions of the policies: the project of a row against the setting \<^verbatim>\<open>app.current_project_id\<close>.\<close>

datatype policy_cond = Null_safe_context | Strict_context | Text_context

record table_schema =
  ts_columns :: "column list"
  ts_constraints :: "table_constraint list"
  ts_partition_by :: "string option"
  ts_partition_of :: "(string \<times> (string \<times> string) option) option"
  ts_rls :: bool
  ts_force :: bool
  ts_policies :: "(string \<times> policy_cond) list"
  ts_granted :: "string list"

record db_index =
  ix_name :: string
  ix_table :: string
  ix_columns :: "string list"
  ix_where :: "string option"
  ix_using :: "string option"

record db_sequence =
  sq_owner :: "(string \<times> string) option"
  sq_next :: int
  sq_granted :: "string list"

record db_role =
  ro_login :: bool
  ro_superuser :: bool
  ro_createdb :: bool
  ro_createrole :: bool
  ro_inherit :: bool
  ro_bypassrls :: bool

record db_schema =
  sc_tables :: "(string \<times> table_schema) list"
  sc_indexes :: "db_index list"
  sc_sequences :: "(string \<times> db_sequence) list"
  sc_roles :: "(string \<times> db_role) list"
  sc_usage :: "string list"
  sc_default_tables :: "string list"
  sc_default_sequences :: "string list"

definition empty_schema :: db_schema where
  "empty_schema = \<lparr>sc_tables = [], sc_indexes = [], sc_sequences = [], sc_roles = [], sc_usage = [],
     sc_default_tables = [], sc_default_sequences = []\<rparr>"

datatype rls_setting = ENABLE | DISABLE | FORCE | NO_FORCE

datatype ddl_error = DuplicateTable | UndefinedTable | DuplicateColumn | UndefinedColumn | DuplicateObject | UndefinedObject
  | DependentObjectsStillExist

section \<open>The statements\<close>

text \<open>What \<^verbatim>\<open>op\<close> and \<^verbatim>\<open>op.execute\<close> are used for.\<close>

datatype ddl =
  create_table string "column list" "table_constraint list" "string option"
  | drop_table string
  | create_index string string "string list" "string option" "string option"
  | drop_index string string
  | add_column string column
  | drop_column string string
  | create_constraint string table_constraint
  | drop_constraint string string
  | create_partition string string "(string \<times> string) option"
  | drop_table_if_exists string
  | alter_rls string rls_setting
  | create_policy string string policy_cond
  | drop_policy_if_exists string string
  | for_partitions "string list" "rls_setting list"
  | create_sequence_if_not_exists string
  | setval_after_max string string
  | set_default string string "server_default option"
  | own_sequence string string string
  | drop_sequence_if_exists string
  | put_role string
  | grant_schema string bool
  | grant_all_tables string bool
  | grant_all_sequences string bool
  | grant_default_tables string bool
  | grant_default_sequences string bool

definition on_table :: "string \<Rightarrow> (table_schema \<Rightarrow> ddl_error + table_schema) \<Rightarrow> db_schema \<Rightarrow> ddl_error + db_schema" where
  "on_table t f s =
     (case map_of (sc_tables s) t of
        None \<Rightarrow> Inl UndefinedTable
      | Some d \<Rightarrow>
          (case f d of
             Inl e \<Rightarrow> Inl e
           | Inr d' \<Rightarrow> Inr (s\<lparr>sc_tables := map (\<lambda>x. if fst x = t then (t, d') else x) (sc_tables s)\<rparr>)))"

definition has_column :: "string \<Rightarrow> table_schema \<Rightarrow> bool" where
  "has_column c d \<longleftrightarrow> c \<in> set (map co_name (ts_columns d))"

text \<open>A grant adds a role once; revoking removes it.\<close>

definition grant :: "bool \<Rightarrow> string \<Rightarrow> string list \<Rightarrow> string list" where
  "grant add r rs = (if add then (if r \<in> set rs then rs else rs @ [r]) else filter (\<lambda>x. x \<noteq> r) rs)"

text \<open>
  A table with a single integer as primary key gets a sequence of its own for it (SQLAlchemy's
  \<^verbatim>\<open>SERIAL\<close> and \<^verbatim>\<open>BIGSERIAL\<close>).
\<close>

definition serial_column :: "column list \<Rightarrow> table_constraint list \<Rightarrow> string option" where
  "serial_column cols cs =
     (case concat (map (\<lambda>c. case c of PrimaryKey ks \<Rightarrow> [ks] | _ \<Rightarrow> []) cs) of
        [[k]] \<Rightarrow> (case filter (\<lambda>c. co_name c = k \<and> co_type c \<in> {Integer, BigInteger} \<and> co_default c = None) cols of
                   [] \<Rightarrow> None
                 | _ \<Rightarrow> Some k)
      | _ \<Rightarrow> None)"

definition serial_sequence :: "string \<Rightarrow> string \<Rightarrow> string" where
  "serial_sequence t k = t @ ''_'' @ k @ ''_seq''"

fun references :: "table_constraint \<Rightarrow> string option" where
  "references (ForeignKey _ _ t _ _) = Some t"
| "references _ = None"

fun constraint_name :: "table_constraint \<Rightarrow> string option" where
  "constraint_name (PrimaryKey _) = None"
| "constraint_name (Unique n _) = n"
| "constraint_name (ForeignKey n _ _ _ _) = n"
| "constraint_name (Check n _) = Some n"

fun constraint_columns :: "table_constraint \<Rightarrow> string list" where
  "constraint_columns (PrimaryKey ks) = ks"
| "constraint_columns (Unique _ ks) = ks"
| "constraint_columns (ForeignKey _ ks _ _ _) = ks"
| "constraint_columns (Check _ _) = []"

definition partitions_of :: "db_schema \<Rightarrow> string \<Rightarrow> string list" where
  "partitions_of s t = map fst (filter (\<lambda>x. case ts_partition_of (snd x) of Some (p, _) \<Rightarrow> p = t | None \<Rightarrow> False) (sc_tables s))"

text \<open>
  \<^verbatim>\<open>DROP TABLE\<close> takes the partitions, indexes and owned sequences along and is refused while another
  table refers to this one.
\<close>

definition drop_relation :: "string \<Rightarrow> db_schema \<Rightarrow> ddl_error + db_schema" where
  "drop_relation t s =
     (let gone = t # partitions_of s t in
      if list_ex (\<lambda>x. fst x \<notin> set gone \<and> Some t \<in> set (map references (ts_constraints (snd x)))) (sc_tables s)
      then Inl DependentObjectsStillExist
      else Inr (s\<lparr>sc_tables := filter (\<lambda>x. fst x \<notin> set gone) (sc_tables s),
                  sc_indexes := filter (\<lambda>i. ix_table i \<notin> set gone) (sc_indexes s),
                  sc_sequences := filter (\<lambda>q. case sq_owner (snd q) of Some (o', _) \<Rightarrow> o' \<notin> set gone | None \<Rightarrow> True) (sc_sequences s)\<rparr>))"

definition new_table :: "column list \<Rightarrow> table_constraint list \<Rightarrow> string option \<Rightarrow> (string \<times> (string \<times> string) option) option \<Rightarrow> string list \<Rightarrow> table_schema" where
  "new_table cols cs by' of' granted = \<lparr>ts_columns = cols, ts_constraints = cs, ts_partition_by = by', ts_partition_of = of',
     ts_rls = False, ts_force = False, ts_policies = [], ts_granted = granted\<rparr>"

fun set_rls :: "rls_setting \<Rightarrow> table_schema \<Rightarrow> table_schema" where
  "set_rls ENABLE d = d\<lparr>ts_rls := True\<rparr>"
| "set_rls DISABLE d = d\<lparr>ts_rls := False\<rparr>"
| "set_rls FORCE d = d\<lparr>ts_force := True\<rparr>"
| "set_rls NO_FORCE d = d\<lparr>ts_force := False\<rparr>"

text \<open>\<^verbatim>\<open>GRANT\<close> and \<^verbatim>\<open>REVOKE\<close> need the role.\<close>

definition with_role :: "string \<Rightarrow> db_schema \<Rightarrow> db_schema \<Rightarrow> ddl_error + db_schema" where
  "with_role r s s' = (if map_of (sc_roles s) r = None then Inl UndefinedObject else Inr s')"

definition runtime_role :: db_role where
  "runtime_role = \<lparr>ro_login = True, ro_superuser = False, ro_createdb = False, ro_createrole = False, ro_inherit = False,
     ro_bypassrls = False\<rparr>"

fun ddl_step :: "(string \<Rightarrow> int option) \<Rightarrow> ddl \<Rightarrow> db_schema \<Rightarrow> ddl_error + db_schema" where
  "ddl_step max_id (create_table t cols cs by') s =
     (if map_of (sc_tables s) t \<noteq> None then Inl DuplicateTable
      else if \<not> list_all (\<lambda>c. case references c of None \<Rightarrow> True | Some r \<Rightarrow> map_of (sc_tables s) r \<noteq> None) cs then Inl UndefinedTable
      else (case serial_column cols cs of
              None \<Rightarrow> Inr (s\<lparr>sc_tables := sc_tables s @ [(t, new_table cols cs by' None (sc_default_tables s))]\<rparr>)
            | Some k \<Rightarrow>
                Inr (s\<lparr>sc_tables := sc_tables s @ [(t, new_table
                         (map (\<lambda>c. if co_name c = k then c\<lparr>co_default := Some (Nextval (serial_sequence t k))\<rparr> else c) cols)
                         cs by' None (sc_default_tables s))],
                       sc_sequences := sc_sequences s @ [(serial_sequence t k,
                         \<lparr>sq_owner = Some (t, k), sq_next = 1, sq_granted = sc_default_sequences s\<rparr>)]\<rparr>)))"
| "ddl_step max_id (drop_table t) s = (if map_of (sc_tables s) t = None then Inl UndefinedTable else drop_relation t s)"
| "ddl_step max_id (create_index n t cols w u) s =
     (if map_of (sc_tables s) t = None then Inl UndefinedTable
      else if n \<in> set (map ix_name (sc_indexes s)) then Inl DuplicateObject
      else Inr (s\<lparr>sc_indexes := sc_indexes s @ [\<lparr>ix_name = n, ix_table = t, ix_columns = cols, ix_where = w, ix_using = u\<rparr>]\<rparr>))"
| "ddl_step max_id (drop_index n t) s =
     (if n \<notin> set (map ix_name (sc_indexes s)) then Inl UndefinedObject
      else Inr (s\<lparr>sc_indexes := filter (\<lambda>i. ix_name i \<noteq> n) (sc_indexes s)\<rparr>))"
| "ddl_step max_id (add_column t c) s =
     on_table t (\<lambda>d. if has_column (co_name c) d then Inl DuplicateColumn else Inr (d\<lparr>ts_columns := ts_columns d @ [c]\<rparr>)) s"
| "ddl_step max_id (drop_column t c) s =
     (case on_table t (\<lambda>d. if \<not> has_column c d then Inl UndefinedColumn
                          else Inr (d\<lparr>ts_columns := filter (\<lambda>x. co_name x \<noteq> c) (ts_columns d),
                                      ts_constraints := filter (\<lambda>k. c \<notin> set (constraint_columns k)) (ts_constraints d)\<rparr>)) s of
        Inl e \<Rightarrow> Inl e
      | Inr s' \<Rightarrow> Inr (s'\<lparr>sc_indexes := filter (\<lambda>i. \<not> (ix_table i = t \<and> c \<in> set (ix_columns i))) (sc_indexes s')\<rparr>))"
| "ddl_step max_id (create_constraint t c) s =
     (if \<not> (case references c of None \<Rightarrow> True | Some r \<Rightarrow> map_of (sc_tables s) r \<noteq> None) then Inl UndefinedTable
      else on_table t (\<lambda>d. if constraint_name c \<noteq> None \<and> constraint_name c \<in> set (map constraint_name (ts_constraints d)) then Inl DuplicateObject
                          else Inr (d\<lparr>ts_constraints := ts_constraints d @ [c]\<rparr>)) s)"
| "ddl_step max_id (drop_constraint n t) s =
     on_table t (\<lambda>d. if Some n \<notin> set (map constraint_name (ts_constraints d)) then Inl UndefinedObject
                    else Inr (d\<lparr>ts_constraints := filter (\<lambda>k. constraint_name k \<noteq> Some n) (ts_constraints d)\<rparr>)) s"
| "ddl_step max_id (create_partition n t bounds) s =
     (if map_of (sc_tables s) n \<noteq> None then Inr s
      else if map_of (sc_tables s) t = None then Inl UndefinedTable
      else Inr (s\<lparr>sc_tables := sc_tables s @ [(n, new_table [] [] None (Some (t, bounds)) (sc_default_tables s))]\<rparr>))"
| "ddl_step max_id (drop_table_if_exists t) s = (if map_of (sc_tables s) t = None then Inr s else drop_relation t s)"
| "ddl_step max_id (alter_rls t x) s = on_table t (\<lambda>d. Inr (set_rls x d)) s"
| "ddl_step max_id (create_policy n t c) s =
     on_table t (\<lambda>d. if map_of (ts_policies d) n \<noteq> None then Inl DuplicateObject else Inr (d\<lparr>ts_policies := ts_policies d @ [(n, c)]\<rparr>)) s"
| "ddl_step max_id (drop_policy_if_exists n t) s =
     (if map_of (sc_tables s) t = None then Inr s
      else on_table t (\<lambda>d. Inr (d\<lparr>ts_policies := filter (\<lambda>p. fst p \<noteq> n) (ts_policies d)\<rparr>)) s)"
| "ddl_step max_id (for_partitions parents settings) s =
     Inr (s\<lparr>sc_tables := map (\<lambda>(n, d). case ts_partition_of d of
         Some (p, _) \<Rightarrow> (n, if p \<in> set parents then fold set_rls settings d else d)
       | None \<Rightarrow> (n, d)) (sc_tables s)\<rparr>)"
| "ddl_step max_id (create_sequence_if_not_exists q) s =
     (if map_of (sc_sequences s) q \<noteq> None then Inr s
      else Inr (s\<lparr>sc_sequences := sc_sequences s @ [(q, \<lparr>sq_owner = None, sq_next = 1, sq_granted = sc_default_sequences s\<rparr>)]\<rparr>))"
| "ddl_step max_id (setval_after_max q t) s =
     (if map_of (sc_sequences s) q = None \<or> map_of (sc_tables s) t = None then Inl UndefinedTable
      else Inr (s\<lparr>sc_sequences := map (\<lambda>x. if fst x = q then (q, (snd x)\<lparr>sq_next := (case max_id t of None \<Rightarrow> 0 | Some m \<Rightarrow> m) + 1\<rparr>) else x)
                    (sc_sequences s)\<rparr>))"
| "ddl_step max_id (set_default t c v) s =
     on_table t (\<lambda>d. if \<not> has_column c d then Inl UndefinedColumn
                    else Inr (d\<lparr>ts_columns := map (\<lambda>x. if co_name x = c then x\<lparr>co_default := v\<rparr> else x) (ts_columns d)\<rparr>)) s"
| "ddl_step max_id (own_sequence q t c) s =
     (if map_of (sc_sequences s) q = None \<or> map_of (sc_tables s) t = None then Inl UndefinedTable
      else Inr (s\<lparr>sc_sequences := map (\<lambda>x. if fst x = q then (q, (snd x)\<lparr>sq_owner := Some (t, c)\<rparr>) else x) (sc_sequences s)\<rparr>))"
| "ddl_step max_id (drop_sequence_if_exists q) s =
     (if list_ex (\<lambda>x. list_ex (\<lambda>c. co_default c = Some (Nextval q)) (ts_columns (snd x))) (sc_tables s) \<and> map_of (sc_sequences s) q \<noteq> None
      then Inl DependentObjectsStillExist
      else Inr (s\<lparr>sc_sequences := filter (\<lambda>x. fst x \<noteq> q) (sc_sequences s)\<rparr>))"
| "ddl_step max_id (put_role r) s =
     (if map_of (sc_roles s) r = None then Inr (s\<lparr>sc_roles := sc_roles s @ [(r, runtime_role)]\<rparr>)
      else Inr (s\<lparr>sc_roles := map (\<lambda>x. if fst x = r then (r, runtime_role) else x) (sc_roles s)\<rparr>))"
| "ddl_step max_id (grant_schema r b) s = with_role r s (s\<lparr>sc_usage := grant b r (sc_usage s)\<rparr>)"
| "ddl_step max_id (grant_all_tables r b) s =
     with_role r s (s\<lparr>sc_tables := map (\<lambda>(n, d). (n, d\<lparr>ts_granted := grant b r (ts_granted d)\<rparr>)) (sc_tables s)\<rparr>)"
| "ddl_step max_id (grant_all_sequences r b) s =
     with_role r s (s\<lparr>sc_sequences := map (\<lambda>(n, q). (n, q\<lparr>sq_granted := grant b r (sq_granted q)\<rparr>)) (sc_sequences s)\<rparr>)"
| "ddl_step max_id (grant_default_tables r b) s = with_role r s (s\<lparr>sc_default_tables := grant b r (sc_default_tables s)\<rparr>)"
| "ddl_step max_id (grant_default_sequences r b) s = with_role r s (s\<lparr>sc_default_sequences := grant b r (sc_default_sequences s)\<rparr>)"

fun run_ddl :: "(string \<Rightarrow> int option) \<Rightarrow> ddl list \<Rightarrow> db_schema \<Rightarrow> ddl_error + db_schema" where
  "run_ddl max_id [] s = Inr s"
| "run_ddl max_id (d # ds) s = (case ddl_step max_id d s of Inl e \<Rightarrow> Inl e | Inr s' \<Rightarrow> run_ddl max_id ds s')"

section \<open>The migrations\<close>

definition col :: "string \<Rightarrow> col_type \<Rightarrow> bool \<Rightarrow> server_default option \<Rightarrow> column" where
  "col n t nullable d = \<lparr>co_name = n, co_type = t, co_nullable = nullable, co_default = d\<rparr>"

definition sql_quote :: "string \<Rightarrow> string" where
  "sql_quote s = CHR 0x27 # s @ [CHR 0x27]"

definition utc_now :: "server_default option" where
  "utc_now = Some (Sql ''TIMEZONE('utc', now())'')"

text \<open>
  The role of the application, from the environment. Where there is a password, the role is created
  or altered.
\<close>

definition role_sql :: "string option \<Rightarrow> string option \<Rightarrow> (ddl list \<times> string) option" where
  "role_sql app_user app_password =
     (if \<not> truthy app_user then None else Some (if truthy app_password then [put_role (the app_user)] else [], the app_user))"

definition upgrade_initial_schema :: "ddl list" where
  "upgrade_initial_schema =
    [create_table ''audit_log''
       [col ''id'' BigInteger False None,
        col ''org_id'' UUID False None,
        col ''user_id'' UUID True None,
        col ''action'' (String 100) False None,
        col ''resource_id'' UUID True None,
        col ''ip_address'' INET True None,
        col ''user_agent'' (String 500) True None,
        col ''metadata'' JSONB False None,
        col ''created_at'' TIMESTAMPTZ False utc_now]
       [PrimaryKey [''id'']] None,
     create_table ''failed_tasks''
       [col ''id'' BigInteger False None,
        col ''task_name'' (String 255) False None,
        col ''task_args'' Text True None,
        col ''error'' Text True None,
        col ''attempts'' Integer True None,
        col ''failed_at'' TIMESTAMPTZ False utc_now,
        col ''resolved'' Boolean False (Some (Sql ''false''))]
       [PrimaryKey [''id'']] None,
     create_table ''model_pricing''
       [col ''id'' Integer False None,
        col ''provider'' (String 50) False None,
        col ''model'' (String 100) False None,
        col ''input_cost_per_1k_tokens'' (Numeric (Some (12, 10))) False None,
        col ''output_cost_per_1k_tokens'' (Numeric (Some (12, 10))) False None,
        col ''valid_from'' TIMESTAMPTZ False utc_now,
        col ''valid_to'' TIMESTAMPTZ True None]
       [PrimaryKey [''id''],
        Unique None [''provider'', ''model'', ''valid_from'']] None,
     create_table ''organizations''
       [col ''id'' UUID False None,
        col ''name'' (String 255) False None,
        col ''slug'' (String 100) False None,
        col ''created_at'' TIMESTAMPTZ False utc_now]
       [PrimaryKey [''id''],
        Unique None [''slug'']] None,
     create_table ''spans''
       [col ''id'' UUID False None,
        col ''trace_id'' UUID False None,
        col ''project_id'' UUID False None,
        col ''parent_span_id'' UUID True None,
        col ''name'' (String 255) False None,
        col ''provider'' (String 50) False None,
        col ''model'' (String 100) False None,
        col ''input_tokens'' Integer False None,
        col ''output_tokens'' Integer False None,
        col ''cost_usd'' (Numeric (Some (12, 8))) False None,
        col ''latency_ms'' Float False None,
        col ''status'' (String 20) False None,
        col ''error'' Text True None,
        col ''started_at'' TIMESTAMPTZ False None,
        col ''payload_s3_key'' (String 500) True None,
        col ''metadata'' JSONB False None]
       [PrimaryKey [''id'', ''started_at'']] (Some ''RANGE (started_at)''),
     create_table ''traces''
       [col ''id'' UUID False None,
        col ''project_id'' UUID False None,
        col ''started_at'' TIMESTAMPTZ False None,
        col ''ended_at'' TIMESTAMPTZ True None,
        col ''total_tokens'' Integer False None,
        col ''total_cost_usd'' (Numeric (Some (12, 8))) False None,
        col ''span_count'' Integer False None,
        col ''status'' (String 20) False None]
       [PrimaryKey [''id'', ''started_at'']] (Some ''RANGE (started_at)''),
     create_table ''projects''
       [col ''id'' UUID False None,
        col ''org_id'' UUID False None,
        col ''name'' (String 255) False None,
        col ''api_key_hash'' (String 64) False None,
        col ''retention_days'' Integer False None,
        col ''is_active'' Boolean False (Some (Sql ''true'')),
        col ''created_at'' TIMESTAMPTZ False utc_now]
       [ForeignKey None [''org_id''] ''organizations'' [''id''] ''CASCADE'',
        PrimaryKey [''id''],
        Unique None [''api_key_hash''],
        Unique None [''org_id'', ''name'']] None,
     create_table ''users''
       [col ''id'' UUID False None,
        col ''org_id'' UUID False None,
        col ''email'' (String 255) False None,
        col ''password_hash'' (String 255) False None,
        col ''role'' (String 20) False (Some (Sql (sql_quote ''member''))),
        col ''is_active'' Boolean False (Some (Sql ''true'')),
        col ''created_at'' TIMESTAMPTZ False utc_now]
       [Check ''ck_users_role'' ''role IN ('admin', 'member', 'viewer')'',
        ForeignKey None [''org_id''] ''organizations'' [''id''] ''CASCADE'',
        PrimaryKey [''id''],
        Unique None [''email'']] None,
     create_index ''idx_spans_project_time'' ''spans'' [''project_id'', ''started_at DESC''] None None,
     create_index ''idx_spans_trace'' ''spans'' [''trace_id'', ''started_at DESC''] None None,
     create_index ''idx_spans_model'' ''spans'' [''project_id'', ''model'', ''started_at DESC''] None None,
     create_index ''idx_spans_errors'' ''spans'' [''project_id'', ''started_at DESC''] (Some (''status = '' @ sql_quote ''error'')) None,
     create_index ''idx_spans_metadata'' ''spans'' [''metadata''] None (Some ''gin''),
     create_index ''idx_traces_project'' ''traces'' [''project_id'', ''started_at DESC''] None None,
     create_index ''idx_audit_org'' ''audit_log'' [''org_id'', ''created_at DESC''] None None,
     create_partition ''spans_2026_05'' ''spans'' (Some (''2026-05-01'', ''2026-06-01'')),
     create_partition ''spans_2026_06'' ''spans'' (Some (''2026-06-01'', ''2026-07-01'')),
     create_partition ''traces_2026_05'' ''traces'' (Some (''2026-05-01'', ''2026-06-01'')),
     create_partition ''traces_2026_06'' ''traces'' (Some (''2026-06-01'', ''2026-07-01''))]"

definition downgrade_initial_schema :: "ddl list" where
  "downgrade_initial_schema =
    [drop_table ''users'',
     drop_table ''projects'',
     drop_table ''traces'',
     drop_table ''spans'',
     drop_table ''organizations'',
     drop_table ''model_pricing'',
     drop_table ''failed_tasks'',
     drop_table ''audit_log'']"

definition upgrade_add_alert_tables :: "ddl list" where
  "upgrade_add_alert_tables =
    [create_table ''alert_rules''
       [col ''id'' UUID False None,
        col ''project_id'' UUID False None,
        col ''name'' (String 255) False None,
        col ''metric'' (String 50) False None,
        col ''condition'' (String 20) False None,
        col ''threshold'' (Numeric None) True None,
        col ''window_minutes'' Integer False None,
        col ''notify_slack_webhook'' (String 500) True None,
        col ''notify_email'' (String 255) True None,
        col ''cooldown_minutes'' Integer False None,
        col ''is_active'' Boolean False None,
        col ''created_at'' TIMESTAMPTZ False utc_now]
       [Check ''ck_alert_rules_condition'' ''condition IN ('gt','lt','anomaly')'',
        Check ''ck_alert_rules_metric'' ''metric IN ('latency_p95','error_rate','cost_hourly','anomaly')'',
        ForeignKey None [''project_id''] ''projects'' [''id''] ''CASCADE'',
        PrimaryKey [''id'']] None,
     create_table ''alert_events''
       [col ''id'' UUID False None,
        col ''rule_id'' UUID False None,
        col ''triggered_at'' TIMESTAMPTZ False utc_now,
        col ''value'' (Numeric None) False None,
        col ''message'' Text False None,
        col ''resolved_at'' TIMESTAMPTZ True None]
       [ForeignKey None [''rule_id''] ''alert_rules'' [''id''] ''CASCADE'',
        PrimaryKey [''id'']] None,
     create_index ''idx_alert_events'' ''alert_events'' [''rule_id'', ''triggered_at DESC''] None None]"

definition downgrade_add_alert_tables :: "ddl list" where
  "downgrade_add_alert_tables =
    [drop_index ''idx_alert_events'' ''alert_events'',
     drop_table ''alert_events'',
     drop_table ''alert_rules'']"

definition upgrade_add_rls_policies :: "ddl list" where
  "upgrade_add_rls_policies =
    [alter_rls ''spans'' ENABLE,
     alter_rls ''traces'' ENABLE,
     create_policy ''spans_project_isolation'' ''spans'' Null_safe_context,
     create_policy ''traces_project_isolation'' ''traces'' Null_safe_context]"

definition downgrade_add_rls_policies :: "ddl list" where
  "downgrade_add_rls_policies =
    [drop_policy_if_exists ''spans_project_isolation'' ''spans'',
     drop_policy_if_exists ''traces_project_isolation'' ''traces'',
     alter_rls ''spans'' DISABLE,
     alter_rls ''traces'' DISABLE]"

definition upgrade_add_default_trace_span_partitions :: "ddl list" where
  "upgrade_add_default_trace_span_partitions =
    [create_partition ''spans_default'' ''spans'' None,
     create_partition ''traces_default'' ''traces'' None]"

definition downgrade_add_default_trace_span_partitions :: "ddl list" where
  "downgrade_add_default_trace_span_partitions =
    [drop_table_if_exists ''spans_default'',
     drop_table_if_exists ''traces_default'']"

definition upgrade_add_failed_task_scope :: "ddl list" where
  "upgrade_add_failed_task_scope =
    [add_column ''failed_tasks'' (col ''org_id'' UUID True None),
     add_column ''failed_tasks'' (col ''project_id'' UUID True None),
     create_index ''idx_failed_tasks_org'' ''failed_tasks'' [''org_id'', ''resolved''] None None,
     create_index ''idx_failed_tasks_project'' ''failed_tasks'' [''project_id'', ''resolved''] None None,
     create_constraint ''failed_tasks'' (ForeignKey (Some ''fk_failed_tasks_org'') [''org_id''] ''organizations'' [''id''] ''SET NULL''),
     create_constraint ''failed_tasks'' (ForeignKey (Some ''fk_failed_tasks_project'') [''project_id''] ''projects'' [''id''] ''SET NULL'')]"

definition downgrade_add_failed_task_scope :: "ddl list" where
  "downgrade_add_failed_task_scope =
    [drop_constraint ''fk_failed_tasks_project'' ''failed_tasks'',
     drop_constraint ''fk_failed_tasks_org'' ''failed_tasks'',
     drop_index ''idx_failed_tasks_project'' ''failed_tasks'',
     drop_index ''idx_failed_tasks_org'' ''failed_tasks'',
     drop_column ''failed_tasks'' ''project_id'',
     drop_column ''failed_tasks'' ''org_id'']"

definition upgrade_add_user_invites :: "ddl list" where
  "upgrade_add_user_invites =
    [create_table ''organization_invites''
       [col ''id'' UUID False None,
        col ''org_id'' UUID False None,
        col ''email'' (String 255) False None,
        col ''role'' (String 20) False None,
        col ''token_hash'' (String 64) False None,
        col ''expires_at'' TIMESTAMPTZ False None,
        col ''accepted_at'' TIMESTAMPTZ True None,
        col ''created_by_user_id'' UUID True None,
        col ''created_at'' TIMESTAMPTZ False utc_now]
       [Check ''ck_organization_invites_role'' ''role IN ('admin', 'member', 'viewer')'',
        ForeignKey None [''org_id''] ''organizations'' [''id''] ''CASCADE'',
        PrimaryKey [''id''],
        Unique None [''token_hash'']] None,
     create_index ''idx_org_invites_org_created'' ''organization_invites'' [''org_id'', ''created_at DESC''] None None,
     create_index ''idx_org_invites_pending_email'' ''organization_invites'' [''org_id'', ''email''] (Some ''accepted_at IS NULL'') None]"

definition downgrade_add_user_invites :: "ddl list" where
  "downgrade_add_user_invites =
    [drop_index ''idx_org_invites_pending_email'' ''organization_invites'',
     drop_index ''idx_org_invites_org_created'' ''organization_invites'',
     drop_table ''organization_invites'']"

definition upgrade_add_project_api_keys :: "ddl list" where
  "upgrade_add_project_api_keys =
    [create_table ''project_api_keys''
       [col ''id'' UUID False None,
        col ''project_id'' UUID False None,
        col ''name'' (String 100) False None,
        col ''description'' Text True None,
        col ''key_hash'' (String 64) False None,
        col ''scope'' (String 20) False None,
        col ''is_active'' Boolean False (Some (Sql ''true'')),
        col ''created_at'' TIMESTAMPTZ False utc_now,
        col ''last_used_at'' TIMESTAMPTZ True None,
        col ''revoked_at'' TIMESTAMPTZ True None]
       [Check ''ck_project_api_keys_scope'' ''scope IN ('ingest', 'read', 'read_write')'',
        ForeignKey None [''project_id''] ''projects'' [''id''] ''CASCADE'',
        PrimaryKey [''id''],
        Unique None [''key_hash'']] None,
     create_index ''idx_project_api_keys_project_created'' ''project_api_keys'' [''project_id'', ''created_at DESC''] None None]"

definition downgrade_add_project_api_keys :: "ddl list" where
  "downgrade_add_project_api_keys =
    [drop_index ''idx_project_api_keys_project_created'' ''project_api_keys'',
     drop_table ''project_api_keys'']"

definition upgrade_add_payload_privacy_settings :: "ddl list" where
  "upgrade_add_payload_privacy_settings =
    [add_column ''projects'' (col ''payload_storage_mode'' (String 20) False (Some (Lit ''all''))),
     add_column ''projects'' (col ''payload_max_bytes'' Integer False (Some (Lit ''262144''))),
     add_column ''projects'' (col ''payload_redact_keys'' Text False (Some (Lit ''api_key,password,secret,token,authorization''))),
     create_constraint ''projects'' (Check ''ck_projects_payload_storage_mode'' ''payload_storage_mode IN ('all', 'errors', 'none')''),
     create_constraint ''projects'' (Check ''ck_projects_payload_max_bytes'' ''payload_max_bytes >= 0 AND payload_max_bytes <= 10485760'')]"

definition downgrade_add_payload_privacy_settings :: "ddl list" where
  "downgrade_add_payload_privacy_settings =
    [drop_constraint ''ck_projects_payload_max_bytes'' ''projects'',
     drop_constraint ''ck_projects_payload_storage_mode'' ''projects'',
     drop_column ''projects'' ''payload_redact_keys'',
     drop_column ''projects'' ''payload_max_bytes'',
     drop_column ''projects'' ''payload_storage_mode'']"

definition upgrade_add_audit_log_id_sequence :: "ddl list" where
  "upgrade_add_audit_log_id_sequence =
    [create_sequence_if_not_exists ''audit_log_id_seq'',
     setval_after_max ''audit_log_id_seq'' ''audit_log'',
     set_default ''audit_log'' ''id'' (Some (Nextval ''audit_log_id_seq'')),
     own_sequence ''audit_log_id_seq'' ''audit_log'' ''id'']"

definition downgrade_add_audit_log_id_sequence :: "ddl list" where
  "downgrade_add_audit_log_id_sequence =
    [set_default ''audit_log'' ''id'' None,
     drop_sequence_if_exists ''audit_log_id_seq'']"

definition upgrade_force_rls_on_trace_tables :: "ddl list" where
  "upgrade_force_rls_on_trace_tables =
    [alter_rls ''spans'' FORCE,
     alter_rls ''traces'' FORCE,
     for_partitions [''spans'', ''traces''] [ENABLE, FORCE]]"

definition downgrade_force_rls_on_trace_tables :: "ddl list" where
  "downgrade_force_rls_on_trace_tables =
    [for_partitions [''spans'', ''traces''] [NO_FORCE, DISABLE],
     alter_rls ''spans'' NO_FORCE,
     alter_rls ''traces'' NO_FORCE]"

definition upgrade_add_project_memberships :: "ddl list" where
  "upgrade_add_project_memberships =
    [create_table ''project_memberships''
       [col ''id'' UUID False None,
        col ''project_id'' UUID False None,
        col ''user_id'' UUID False None,
        col ''role'' (String 20) False None,
        col ''created_at'' TIMESTAMPTZ False utc_now,
        col ''updated_at'' TIMESTAMPTZ False utc_now]
       [Check ''ck_project_memberships_role'' ''role IN ('member', 'viewer')'',
        ForeignKey None [''project_id''] ''projects'' [''id''] ''CASCADE'',
        ForeignKey None [''user_id''] ''users'' [''id''] ''CASCADE'',
        PrimaryKey [''id''],
        Unique (Some ''uq_project_memberships_project_user'') [''project_id'', ''user_id'']] None,
     create_index ''idx_project_memberships_project'' ''project_memberships'' [''project_id''] None None,
     create_index ''idx_project_memberships_user'' ''project_memberships'' [''user_id''] None None]"

definition downgrade_add_project_memberships :: "ddl list" where
  "downgrade_add_project_memberships =
    [drop_index ''idx_project_memberships_user'' ''project_memberships'',
     drop_index ''idx_project_memberships_project'' ''project_memberships'',
     drop_table ''project_memberships'']"

definition upgrade_add_invite_project_assignments :: "ddl list" where
  "upgrade_add_invite_project_assignments =
    [add_column ''organization_invites'' (col ''project_assignments'' JSONB False (Some (Sql (sql_quote ''[]'' @ ''::jsonb''))))]"

definition downgrade_add_invite_project_assignments :: "ddl list" where
  "downgrade_add_invite_project_assignments =
    [drop_column ''organization_invites'' ''project_assignments'']"

definition upgrade_runtime_database_role_grants :: "string option \<Rightarrow> string option \<Rightarrow> ddl list" where
  "upgrade_runtime_database_role_grants app_user app_password =
     (case role_sql app_user app_password of
        None \<Rightarrow> []
      | Some (set_up, role) \<Rightarrow> set_up @
     [grant_schema role True,
      grant_all_tables role True,
      grant_all_sequences role True,
      grant_default_tables role True,
      grant_default_sequences role True])"

definition downgrade_runtime_database_role_grants :: "string option \<Rightarrow> string option \<Rightarrow> ddl list" where
  "downgrade_runtime_database_role_grants app_user app_password =
     (case role_sql app_user app_password of
        None \<Rightarrow> []
      | Some (set_up, role) \<Rightarrow> set_up @
     [grant_default_tables role False,
      grant_default_sequences role False,
      grant_all_sequences role False,
      grant_all_tables role False,
      grant_schema role False])"

definition upgrade_null_safe_rls_project_context :: "ddl list" where
  "upgrade_null_safe_rls_project_context =
    [drop_policy_if_exists ''spans_project_isolation'' ''spans'',
     drop_policy_if_exists ''traces_project_isolation'' ''traces'',
     create_policy ''spans_project_isolation'' ''spans'' Null_safe_context,
     create_policy ''traces_project_isolation'' ''traces'' Null_safe_context]"

definition downgrade_null_safe_rls_project_context :: "ddl list" where
  "downgrade_null_safe_rls_project_context =
    [drop_policy_if_exists ''spans_project_isolation'' ''spans'',
     drop_policy_if_exists ''traces_project_isolation'' ''traces'',
     create_policy ''spans_project_isolation'' ''spans'' Strict_context,
     create_policy ''traces_project_isolation'' ''traces'' Strict_context]"

definition upgrade_add_payload_storage_status :: "ddl list" where
  "upgrade_add_payload_storage_status =
    [add_column ''spans'' (col ''payload_status'' (String 30) True None),
     add_column ''spans'' (col ''payload_drop_reason'' (String 100) True None)]"

definition downgrade_add_payload_storage_status :: "ddl list" where
  "downgrade_add_payload_storage_status =
    [drop_column ''spans'' ''payload_drop_reason'',
     drop_column ''spans'' ''payload_status'']"

definition upgrade_add_idempotency_records :: "ddl list" where
  "upgrade_add_idempotency_records =
    [create_table ''idempotency_records''
       [col ''project_id'' UUID False None,
        col ''idempotency_key'' (String 128) False None,
        col ''request_hash'' (String 64) False None,
        col ''status'' (String 20) False None,
        col ''result'' JSONB True None,
        col ''created_at'' TIMESTAMPTZ False utc_now,
        col ''updated_at'' TIMESTAMPTZ False utc_now]
       [Check ''ck_idempotency_records_status'' ''status IN ('PENDING', 'COMMITTED', 'FAILED')'',
        ForeignKey None [''project_id''] ''projects'' [''id''] ''CASCADE'',
        PrimaryKey [''project_id'', ''idempotency_key'']] None,
     create_index ''idx_idempotency_records_project_status'' ''idempotency_records'' [''project_id'', ''status''] None None]"

definition downgrade_add_idempotency_records :: "ddl list" where
  "downgrade_add_idempotency_records =
    [drop_index ''idx_idempotency_records_project_status'' ''idempotency_records'',
     drop_table ''idempotency_records'']"

definition upgrade_add_outbox_events :: "ddl list" where
  "upgrade_add_outbox_events =
    [create_table ''outbox_events''
       [col ''id'' UUID False None,
        col ''project_id'' UUID False None,
        col ''event_type'' (String 80) False None,
        col ''event_key'' (String 160) False None,
        col ''payload'' JSONB False None,
        col ''status'' (String 20) False (Some (Sql (sql_quote ''PENDING''))),
        col ''attempts'' Integer False (Some (Sql ''0'')),
        col ''available_at'' TIMESTAMPTZ False utc_now,
        col ''locked_at'' TIMESTAMPTZ True None,
        col ''delivered_at'' TIMESTAMPTZ True None,
        col ''last_error'' Text True None,
        col ''created_at'' TIMESTAMPTZ False utc_now,
        col ''updated_at'' TIMESTAMPTZ False utc_now]
       [Check ''ck_outbox_events_status'' ''status IN ('PENDING', 'PROCESSING', 'DELIVERED', 'FAILED')'',
        ForeignKey None [''project_id''] ''projects'' [''id''] ''CASCADE'',
        PrimaryKey [''id''],
        Unique (Some ''uq_outbox_events_project_type_key'') [''project_id'', ''event_type'', ''event_key'']] None,
     create_index ''idx_outbox_events_claim'' ''outbox_events'' [''event_type'', ''status'', ''available_at'', ''created_at''] None None,
     create_index ''idx_outbox_events_project_status'' ''outbox_events'' [''project_id'', ''status''] None None]"

definition downgrade_add_outbox_events :: "ddl list" where
  "downgrade_add_outbox_events =
    [drop_index ''idx_outbox_events_project_status'' ''outbox_events'',
     drop_index ''idx_outbox_events_claim'' ''outbox_events'',
     drop_table ''outbox_events'']"

definition upgrade_add_platform_admin_capability :: "ddl list" where
  "upgrade_add_platform_admin_capability =
    [add_column ''users'' (col ''is_platform_admin'' Boolean False (Some (Sql ''false'')))]"

definition downgrade_add_platform_admin_capability :: "ddl list" where
  "downgrade_add_platform_admin_capability =
    [drop_column ''users'' ''is_platform_admin'']"

definition upgrade_add_span_metric_buckets :: "ddl list" where
  "upgrade_add_span_metric_buckets =
    [create_table ''span_metric_buckets''
       [col ''project_id'' UUID False None,
        col ''bucket_start'' TIMESTAMPTZ False None,
        col ''span_count'' Integer False (Some (Sql ''0'')),
        col ''error_count'' Integer False (Some (Sql ''0'')),
        col ''total_cost_usd'' (Numeric (Some (18, 8))) False (Some (Sql ''0'')),
        col ''latency_sum_ms'' (Numeric (Some (18, 3))) False (Some (Sql ''0'')),
        col ''created_at'' TIMESTAMPTZ False utc_now,
        col ''updated_at'' TIMESTAMPTZ False utc_now]
       [ForeignKey None [''project_id''] ''projects'' [''id''] ''CASCADE'',
        PrimaryKey [''project_id'', ''bucket_start'']] None,
     create_index ''idx_span_metric_buckets_project_time'' ''span_metric_buckets'' [''project_id'', ''bucket_start DESC''] None None,
     alter_rls ''span_metric_buckets'' ENABLE,
     alter_rls ''span_metric_buckets'' FORCE,
     create_policy ''span_metric_buckets_project_isolation'' ''span_metric_buckets'' Text_context]"

definition downgrade_add_span_metric_buckets :: "ddl list" where
  "downgrade_add_span_metric_buckets =
    [drop_policy_if_exists ''span_metric_buckets_project_isolation'' ''span_metric_buckets'',
     drop_index ''idx_span_metric_buckets_project_time'' ''span_metric_buckets'',
     drop_table ''span_metric_buckets'']"

record migration =
  mi_revision :: string
  mi_down_revision :: "string option"
  mi_upgrade :: "ddl list"
  mi_downgrade :: "ddl list"

text \<open>The files, in the order of their links.\<close>

definition migrations :: "string option \<Rightarrow> string option \<Rightarrow> migration list" where
  "migrations u p =
    [\<lparr>mi_revision = ''891391a704b3'', mi_down_revision = None,
       mi_upgrade = upgrade_initial_schema, mi_downgrade = downgrade_initial_schema\<rparr>,
     \<lparr>mi_revision = ''f37d7ee64540'', mi_down_revision = Some ''891391a704b3'',
       mi_upgrade = upgrade_add_alert_tables, mi_downgrade = downgrade_add_alert_tables\<rparr>,
     \<lparr>mi_revision = ''bf79868b5f76'', mi_down_revision = Some ''f37d7ee64540'',
       mi_upgrade = upgrade_add_rls_policies, mi_downgrade = downgrade_add_rls_policies\<rparr>,
     \<lparr>mi_revision = ''7c1f2e8a9b34'', mi_down_revision = Some ''bf79868b5f76'',
       mi_upgrade = upgrade_add_default_trace_span_partitions, mi_downgrade = downgrade_add_default_trace_span_partitions\<rparr>,
     \<lparr>mi_revision = ''4a6c9d2e1f03'', mi_down_revision = Some ''7c1f2e8a9b34'',
       mi_upgrade = upgrade_add_failed_task_scope, mi_downgrade = downgrade_add_failed_task_scope\<rparr>,
     \<lparr>mi_revision = ''9d8c7b6a5f4e'', mi_down_revision = Some ''4a6c9d2e1f03'',
       mi_upgrade = upgrade_add_user_invites, mi_downgrade = downgrade_add_user_invites\<rparr>,
     \<lparr>mi_revision = ''0f4d3c2b1a9e'', mi_down_revision = Some ''9d8c7b6a5f4e'',
       mi_upgrade = upgrade_add_project_api_keys, mi_downgrade = downgrade_add_project_api_keys\<rparr>,
     \<lparr>mi_revision = ''2e6a4d9c8b10'', mi_down_revision = Some ''0f4d3c2b1a9e'',
       mi_upgrade = upgrade_add_payload_privacy_settings, mi_downgrade = downgrade_add_payload_privacy_settings\<rparr>,
     \<lparr>mi_revision = ''6d4b8a2e9c11'', mi_down_revision = Some ''2e6a4d9c8b10'',
       mi_upgrade = upgrade_add_audit_log_id_sequence, mi_downgrade = downgrade_add_audit_log_id_sequence\<rparr>,
     \<lparr>mi_revision = ''3b9f1a2c4d6e'', mi_down_revision = Some ''6d4b8a2e9c11'',
       mi_upgrade = upgrade_force_rls_on_trace_tables, mi_downgrade = downgrade_force_rls_on_trace_tables\<rparr>,
     \<lparr>mi_revision = ''8f2c1d4e9a7b'', mi_down_revision = Some ''3b9f1a2c4d6e'',
       mi_upgrade = upgrade_add_project_memberships, mi_downgrade = downgrade_add_project_memberships\<rparr>,
     \<lparr>mi_revision = ''c7e4a9b2d135'', mi_down_revision = Some ''8f2c1d4e9a7b'',
       mi_upgrade = upgrade_add_invite_project_assignments, mi_downgrade = downgrade_add_invite_project_assignments\<rparr>,
     \<lparr>mi_revision = ''d4e5f6a7b8c9'', mi_down_revision = Some ''c7e4a9b2d135'',
       mi_upgrade = upgrade_runtime_database_role_grants u p, mi_downgrade = downgrade_runtime_database_role_grants u p\<rparr>,
     \<lparr>mi_revision = ''e5f6a7b8c9d0'', mi_down_revision = Some ''d4e5f6a7b8c9'',
       mi_upgrade = upgrade_null_safe_rls_project_context, mi_downgrade = downgrade_null_safe_rls_project_context\<rparr>,
     \<lparr>mi_revision = ''a1b2c3d4e5f6'', mi_down_revision = Some ''e5f6a7b8c9d0'',
       mi_upgrade = upgrade_add_payload_storage_status, mi_downgrade = downgrade_add_payload_storage_status\<rparr>,
     \<lparr>mi_revision = ''b1c2d3e4f5a6'', mi_down_revision = Some ''a1b2c3d4e5f6'',
       mi_upgrade = upgrade_add_idempotency_records, mi_downgrade = downgrade_add_idempotency_records\<rparr>,
     \<lparr>mi_revision = ''c2d3e4f5a6b7'', mi_down_revision = Some ''b1c2d3e4f5a6'',
       mi_upgrade = upgrade_add_outbox_events, mi_downgrade = downgrade_add_outbox_events\<rparr>,
     \<lparr>mi_revision = ''d8e7f6a5b4c3'', mi_down_revision = Some ''c2d3e4f5a6b7'',
       mi_upgrade = upgrade_add_platform_admin_capability, mi_downgrade = downgrade_add_platform_admin_capability\<rparr>,
     \<lparr>mi_revision = ''e9a1b2c3d4f5'', mi_down_revision = Some ''d8e7f6a5b4c3'',
       mi_upgrade = upgrade_add_span_metric_buckets, mi_downgrade = downgrade_add_span_metric_buckets\<rparr>]"

definition upgrade_all :: "(string \<Rightarrow> int option) \<Rightarrow> migration list \<Rightarrow> db_schema \<Rightarrow> ddl_error + db_schema" where
  "upgrade_all max_id ms s = run_ddl max_id (concat (map mi_upgrade ms)) s"

definition downgrade_all :: "(string \<Rightarrow> int option) \<Rightarrow> migration list \<Rightarrow> db_schema \<Rightarrow> ddl_error + db_schema" where
  "downgrade_all max_id ms s = run_ddl max_id (concat (map mi_downgrade (rev ms))) s"


end
