(* ===== verification/Schema_Checks.thy ===== *)
theory Schema_Checks
  imports Migrations
begin

text \<open>
  What the migrations lead to: the tables that the models of \<^verbatim>\<open>backend/app/models\<close> declare, row-level
  security on the data of projects, and which migrations can be taken back.
\<close>

section \<open>The declared models\<close>

text \<open>
  A model with its columns (nullable as declared or by its annotation), constraints and partitioning.
\<close>

record orm_model =
  om_table :: string
  om_columns :: "column list"
  om_constraints :: "table_constraint list"
  om_partition_by :: "string option"

definition orm :: "string \<Rightarrow> column list \<Rightarrow> table_constraint list \<Rightarrow> string option \<Rightarrow> orm_model" where
  "orm t cols cs by' = \<lparr>om_table = t, om_columns = cols, om_constraints = cs, om_partition_by = by'\<rparr>"

definition alert_event_model :: orm_model where
  "alert_event_model = orm ''alert_events''
    [col ''id'' UUID False None,
     col ''rule_id'' UUID False None,
     col ''triggered_at'' TIMESTAMPTZ False utc_now,
     col ''value'' (Numeric None) False None,
     col ''message'' Text False None,
     col ''resolved_at'' TIMESTAMPTZ True None]
    [PrimaryKey [''id''],
     ForeignKey None [''rule_id''] ''alert_rules'' [''id''] ''CASCADE''] None"

definition alert_rule_model :: orm_model where
  "alert_rule_model = orm ''alert_rules''
    [col ''id'' UUID False None,
     col ''project_id'' UUID False None,
     col ''name'' (String 255) False None,
     col ''metric'' (String 50) False None,
     col ''condition'' (String 20) False None,
     col ''threshold'' (Numeric None) True None,
     col ''window_minutes'' Integer False None,
     col ''notify_slack_webhook'' (String 500) True None,
     col ''notify_email'' (String 255) True None,
     col ''cooldown_minutes'' Integer False None,
     col ''is_active'' Boolean False None,
     col ''created_at'' TIMESTAMPTZ False utc_now]
    [PrimaryKey [''id''],
     ForeignKey None [''project_id''] ''projects'' [''id''] ''CASCADE'',
     Check ''ck_alert_rules_metric'' ''metric IN ('latency_p95','error_rate','cost_hourly','anomaly')'',
     Check ''ck_alert_rules_condition'' ''condition IN ('gt','lt','anomaly')''] None"

definition audit_log_model :: orm_model where
  "audit_log_model = orm ''audit_log''
    [col ''id'' BigInteger False None,
     col ''org_id'' UUID False None,
     col ''user_id'' UUID True None,
     col ''action'' (String 100) False None,
     col ''resource_id'' UUID True None,
     col ''ip_address'' INET True None,
     col ''user_agent'' (String 500) True None,
     col ''metadata'' JSONB False None,
     col ''created_at'' TIMESTAMPTZ False utc_now]
    [PrimaryKey [''id'']] None"

definition failed_task_model :: orm_model where
  "failed_task_model = orm ''failed_tasks''
    [col ''id'' BigInteger False None,
     col ''org_id'' UUID True None,
     col ''project_id'' UUID True None,
     col ''task_name'' (String 255) False None,
     col ''task_args'' Text True None,
     col ''error'' Text True None,
     col ''attempts'' Integer True None,
     col ''failed_at'' TIMESTAMPTZ False utc_now,
     col ''resolved'' Boolean False (Some (Sql ''false''))]
    [PrimaryKey [''id'']] None"

definition idempotency_record_model :: orm_model where
  "idempotency_record_model = orm ''idempotency_records''
    [col ''project_id'' UUID False None,
     col ''idempotency_key'' (String 128) False None,
     col ''request_hash'' (String 64) False None,
     col ''status'' (String 20) False None,
     col ''result'' JSONB True None,
     col ''created_at'' TIMESTAMPTZ False utc_now,
     col ''updated_at'' TIMESTAMPTZ False utc_now]
    [PrimaryKey [''project_id'', ''idempotency_key''],
     ForeignKey None [''project_id''] ''projects'' [''id''] ''CASCADE'',
     Check ''ck_idempotency_records_status'' ''status IN ('PENDING', 'COMMITTED', 'FAILED')''] None"

definition model_price_model :: orm_model where
  "model_price_model = orm ''model_pricing''
    [col ''id'' Integer False None,
     col ''provider'' (String 50) False None,
     col ''model'' (String 100) False None,
     col ''input_cost_per_1k_tokens'' (Numeric (Some (12, 10))) False None,
     col ''output_cost_per_1k_tokens'' (Numeric (Some (12, 10))) False None,
     col ''valid_from'' TIMESTAMPTZ False utc_now,
     col ''valid_to'' TIMESTAMPTZ True None]
    [PrimaryKey [''id''],
     Unique None [''provider'', ''model'', ''valid_from'']] None"

definition organization_model :: orm_model where
  "organization_model = orm ''organizations''
    [col ''id'' UUID False None,
     col ''name'' (String 255) False None,
     col ''slug'' (String 100) False None,
     col ''created_at'' TIMESTAMPTZ False utc_now]
    [PrimaryKey [''id''],
     Unique None [''slug'']] None"

definition outbox_event_model :: orm_model where
  "outbox_event_model = orm ''outbox_events''
    [col ''id'' UUID False None,
     col ''project_id'' UUID False None,
     col ''event_type'' (String 80) False None,
     col ''event_key'' (String 160) False None,
     col ''payload'' JSONB False None,
     col ''status'' (String 20) False (Some (Sql (sql_quote ''PENDING''))),
     col ''attempts'' Integer False (Some (Sql ''0'')),
     col ''available_at'' TIMESTAMPTZ False utc_now,
     col ''locked_at'' TIMESTAMPTZ True None,
     col ''delivered_at'' TIMESTAMPTZ True None,
     col ''last_error'' Text True None,
     col ''created_at'' TIMESTAMPTZ False utc_now,
     col ''updated_at'' TIMESTAMPTZ False utc_now]
    [PrimaryKey [''id''],
     ForeignKey None [''project_id''] ''projects'' [''id''] ''CASCADE'',
     Check ''ck_outbox_events_status'' ''status IN ('PENDING', 'PROCESSING', 'DELIVERED', 'FAILED')'',
     Unique (Some ''uq_outbox_events_project_type_key'') [''project_id'', ''event_type'', ''event_key'']] None"

definition project_model :: orm_model where
  "project_model = orm ''projects''
    [col ''id'' UUID False None,
     col ''org_id'' UUID False None,
     col ''name'' (String 255) False None,
     col ''api_key_hash'' (String 64) False None,
     col ''retention_days'' Integer False None,
     col ''payload_storage_mode'' (String 20) False (Some (Sql (sql_quote ''all''))),
     col ''payload_max_bytes'' Integer False (Some (Sql ''262144'')),
     col ''payload_redact_keys'' Text False (Some (Sql (sql_quote ''api_key,password,secret,token,authorization''))),
     col ''is_active'' Boolean False (Some (Sql ''true'')),
     col ''created_at'' TIMESTAMPTZ False utc_now]
    [PrimaryKey [''id''],
     Unique None [''api_key_hash''],
     ForeignKey None [''org_id''] ''organizations'' [''id''] ''CASCADE'',
     Unique None [''org_id'', ''name'']] None"

definition project_membership_model :: orm_model where
  "project_membership_model = orm ''project_memberships''
    [col ''id'' UUID False None,
     col ''project_id'' UUID False None,
     col ''user_id'' UUID False None,
     col ''role'' (String 20) False None,
     col ''created_at'' TIMESTAMPTZ False utc_now,
     col ''updated_at'' TIMESTAMPTZ False utc_now]
    [PrimaryKey [''id''],
     ForeignKey None [''project_id''] ''projects'' [''id''] ''CASCADE'',
     ForeignKey None [''user_id''] ''users'' [''id''] ''CASCADE'',
     Check ''ck_project_memberships_role'' ''role IN ('member', 'viewer')'',
     Unique (Some ''uq_project_memberships_project_user'') [''project_id'', ''user_id'']] None"

definition span_model :: orm_model where
  "span_model = orm ''spans''
    [col ''id'' UUID False None,
     col ''trace_id'' UUID False None,
     col ''project_id'' UUID False None,
     col ''parent_span_id'' UUID True None,
     col ''name'' (String 255) False None,
     col ''provider'' (String 50) False None,
     col ''model'' (String 100) False None,
     col ''input_tokens'' Integer False None,
     col ''output_tokens'' Integer False None,
     col ''cost_usd'' (Numeric (Some (12, 8))) False None,
     col ''latency_ms'' Float False None,
     col ''status'' (String 20) False None,
     col ''error'' Text True None,
     col ''started_at'' TIMESTAMPTZ False None,
     col ''payload_s3_key'' (String 500) True None,
     col ''payload_status'' (String 30) True None,
     col ''payload_drop_reason'' (String 100) True None,
     col ''metadata'' JSONB False None]
    [PrimaryKey [''id'', ''started_at'']] (Some ''RANGE (started_at)'')"

definition span_metric_bucket_model :: orm_model where
  "span_metric_bucket_model = orm ''span_metric_buckets''
    [col ''project_id'' UUID False None,
     col ''bucket_start'' TIMESTAMPTZ False None,
     col ''span_count'' Integer False None,
     col ''error_count'' Integer False None,
     col ''total_cost_usd'' (Numeric (Some (18, 8))) False None,
     col ''latency_sum_ms'' (Numeric (Some (18, 3))) False None,
     col ''created_at'' TIMESTAMPTZ False None,
     col ''updated_at'' TIMESTAMPTZ False None]
    [PrimaryKey [''project_id'', ''bucket_start'']] None"

definition trace_model :: orm_model where
  "trace_model = orm ''traces''
    [col ''id'' UUID False None,
     col ''project_id'' UUID False None,
     col ''started_at'' TIMESTAMPTZ False None,
     col ''ended_at'' TIMESTAMPTZ True None,
     col ''total_tokens'' Integer False None,
     col ''total_cost_usd'' (Numeric (Some (12, 8))) False None,
     col ''span_count'' Integer False None,
     col ''status'' (String 20) False None]
    [PrimaryKey [''id'', ''started_at'']] (Some ''RANGE (started_at)'')"

definition user_model :: orm_model where
  "user_model = orm ''users''
    [col ''id'' UUID False None,
     col ''org_id'' UUID False None,
     col ''email'' (String 255) False None,
     col ''password_hash'' (String 255) False None,
     col ''role'' (String 20) False (Some (Sql (sql_quote ''member''))),
     col ''is_active'' Boolean False (Some (Sql ''true'')),
     col ''is_platform_admin'' Boolean False (Some (Sql ''false'')),
     col ''created_at'' TIMESTAMPTZ False utc_now]
    [PrimaryKey [''id''],
     Unique None [''email''],
     ForeignKey None [''org_id''] ''organizations'' [''id''] ''CASCADE'',
     Check ''ck_users_role'' ''role IN ('admin', 'member', 'viewer')''] None"

definition Base_metadata :: "orm_model list" where
  "Base_metadata = [alert_event_model, alert_rule_model, audit_log_model, failed_task_model, idempotency_record_model, model_price_model, organization_model, outbox_event_model, project_model, project_membership_model, span_model, span_metric_bucket_model, trace_model, user_model]"

section \<open>Agreement of models and tables\<close>

fun default_text :: "server_default \<Rightarrow> string" where
  "default_text (Sql s) = s"
| "default_text (Lit s) = (if s \<noteq> [] \<and> list_all (\<lambda>c. c \<in> set ''0123456789'') s then s else sql_quote s)"
| "default_text (Nextval q) = ''nextval(''  @ sql_quote q @ '')''"

text \<open>Name, type and nullability agree, and the default that the model declares, if it does.\<close>

definition column_agrees :: "column \<Rightarrow> column \<Rightarrow> bool" where
  "column_agrees m c \<longleftrightarrow> co_name m = co_name c \<and> co_type m = co_type c \<and> co_nullable m = co_nullable c \<and>
     (co_default m = None \<or> map_option default_text (co_default m) = map_option default_text (co_default c))"

definition model_agrees :: "orm_model \<Rightarrow> table_schema \<Rightarrow> bool" where
  "model_agrees m d \<longleftrightarrow> length (om_columns m) = length (ts_columns d) \<and>
     list_all (\<lambda>c. list_ex (column_agrees c) (ts_columns d)) (om_columns m) \<and>
     list_all (\<lambda>c. list_ex (\<lambda>c'. column_agrees c' c) (om_columns m)) (ts_columns d) \<and>
     list_all (\<lambda>k. k \<in> set (ts_constraints d)) (om_constraints m) \<and> om_partition_by m = ts_partition_by d"

text \<open>Constraints of the tables that their models do not declare, and tables without a model.\<close>

definition undeclared_constraints :: "orm_model list \<Rightarrow> db_schema \<Rightarrow> (string \<times> table_constraint) list" where
  "undeclared_constraints ms s = concat (map (\<lambda>m. case map_of (sc_tables s) (om_table m) of None \<Rightarrow> []
     | Some d \<Rightarrow> map (Pair (om_table m)) (filter (\<lambda>k. k \<notin> set (om_constraints m)) (ts_constraints d))) ms)"

definition tables_without_model :: "orm_model list \<Rightarrow> db_schema \<Rightarrow> string list" where
  "tables_without_model ms s = map fst (filter (\<lambda>x. ts_partition_of (snd x) = None \<and> fst x \<notin> set (map om_table ms)) (sc_tables s))"

section \<open>Row-level security of the data of projects\<close>

text \<open>The tables of projects that have row-level security, with the condition of their policy.\<close>

definition project_tables :: "(string \<times> policy_cond) list" where
  "project_tables = [(''spans'', Null_safe_context), (''traces'', Null_safe_context), (''span_metric_buckets'', Text_context)]"

text \<open>
  Each of these tables has exactly the policy of its project and is no partition, each partition of
  them has no policy, and all of them have row-level security enabled and forced.
\<close>

definition projects_protected :: "db_schema \<Rightarrow> bool" where
  "projects_protected s \<longleftrightarrow>
     list_all (\<lambda>(t, c). case map_of (sc_tables s) t of None \<Rightarrow> False
       | Some d \<Rightarrow> ts_rls d \<and> ts_force d \<and> map snd (ts_policies d) = [c] \<and> ts_partition_of d = None) project_tables \<and>
     list_all (\<lambda>x. case ts_partition_of (snd x) of None \<Rightarrow> True
       | Some (p, _) \<Rightarrow> (if p \<in> set (map fst project_tables) then ts_rls (snd x) \<and> ts_force (snd x) \<and> ts_policies (snd x) = [] else True)) (sc_tables s)"

text \<open>
  What the schema itself says: the tables and partitions with row-level security, and the tables
  that have a project but no row-level security.
\<close>

definition row_secured :: "db_schema \<Rightarrow> string \<Rightarrow> bool" where
  "row_secured s t \<longleftrightarrow> (case map_of (sc_tables s) t of None \<Rightarrow> False | Some d \<Rightarrow> ts_rls d)"

definition secured_tables :: "db_schema \<Rightarrow> string list" where
  "secured_tables s = map fst (filter (\<lambda>x. ts_rls (snd x)) (sc_tables s))"

definition unsecured_project_tables :: "db_schema \<Rightarrow> string list" where
  "unsecured_project_tables s =
     map fst (filter (\<lambda>x. \<not> ts_rls (snd x) \<and> list_ex (\<lambda>c. co_name c = ''project_id'') (ts_columns (snd x))) (sc_tables s))"

definition only_projects_secured :: "db_schema \<Rightarrow> bool" where
  "only_projects_secured s \<longleftrightarrow>
     list_all (\<lambda>x. if ts_rls (snd x)
       then fst x \<in> set (map fst project_tables) \<or>
         (case ts_partition_of (snd x) of None \<Rightarrow> False | Some (p, _) \<Rightarrow> p \<in> set (map fst project_tables))
       else True) (sc_tables s)"

section \<open>Running all migrations\<close>

text \<open>The migrations before and after the one that grants the role of the application its rights.\<close>

definition early_migrations :: "migration list" where
  "early_migrations = take 12 (migrations None None)"

definition late_migrations :: "migration list" where
  "late_migrations = drop 13 (migrations None None)"

definition role_migration :: "string option \<Rightarrow> string option \<Rightarrow> migration" where
  "role_migration u p = \<lparr>mi_revision = ''d4e5f6a7b8c9'', mi_down_revision = Some ''c7e4a9b2d135'',
     mi_upgrade = upgrade_runtime_database_role_grants u p, mi_downgrade = downgrade_runtime_database_role_grants u p\<rparr>"

lemma migrations_split: "migrations u p = early_migrations @ role_migration u p # late_migrations"
  by (simp add: migrations_def early_migrations_def late_migrations_def role_migration_def)

text \<open>A schema in which exactly the roles \<open>g\<close> have the rights of the application.\<close>

definition granted_to :: "string list \<Rightarrow> (string \<times> db_role) list \<Rightarrow> db_schema \<Rightarrow> db_schema" where
  "granted_to g rs s = s\<lparr>sc_tables := map (\<lambda>(n, d). (n, d\<lparr>ts_granted := g\<rparr>)) (sc_tables s),
     sc_sequences := map (\<lambda>(n, q). (n, q\<lparr>sq_granted := g\<rparr>)) (sc_sequences s),
     sc_roles := rs, sc_usage := g, sc_default_tables := g, sc_default_sequences := g\<rparr>"

lemma run_ddl_append:
  "run_ddl M (xs @ ys) s = (case run_ddl M xs s of Inl e \<Rightarrow> Inl e | Inr s' \<Rightarrow> run_ddl M ys s')"
  by (induction xs arbitrary: s) (auto split: sum.splits)

lemma upgrade_all_append:
  "upgrade_all M (ms @ ms') s = (case upgrade_all M ms s of Inl e \<Rightarrow> Inl e | Inr s' \<Rightarrow> upgrade_all M ms' s')"
  unfolding upgrade_all_def map_append concat_append run_ddl_append ..

lemma upgrade_all_Cons:
  "upgrade_all M (m # ms) s = (case run_ddl M (mi_upgrade m) s of Inl e \<Rightarrow> Inl e | Inr s' \<Rightarrow> upgrade_all M ms s')"
  unfolding upgrade_all_def list.map concat.simps run_ddl_append ..

section \<open>What taking a migration back leaves\<close>

text \<open>The sequence of the audit log is removed with the default that uses it.\<close>

definition without_audit_sequence :: "db_schema \<Rightarrow> db_schema" where
  "without_audit_sequence s = s\<lparr>
     sc_tables := map (\<lambda>(n, d). (n, if n = ''audit_log''
       then d\<lparr>ts_columns := map (\<lambda>c. if co_name c = ''id'' then c\<lparr>co_default := None\<rparr> else c) (ts_columns d)\<rparr> else d)) (sc_tables s),
     sc_sequences := filter (\<lambda>q. fst q \<noteq> ''audit_log_id_seq'') (sc_sequences s)\<rparr>"

text \<open>The policies convert the setting without looking whether it is empty.\<close>

definition with_strict_policies :: "db_schema \<Rightarrow> db_schema" where
  "with_strict_policies s = s\<lparr>sc_tables := map (\<lambda>(n, d). (n, d\<lparr>ts_policies :=
     map (\<lambda>(q, c). (q, case c of Null_safe_context \<Rightarrow> Strict_context | _ \<Rightarrow> c)) (ts_policies d)\<rparr>)) (sc_tables s)\<rparr>"

text \<open>What is left after a migration was taken back, apart from that of the role.\<close>

definition after_undo :: "string \<Rightarrow> db_schema \<Rightarrow> db_schema" where
  "after_undo r s = (if r = ''6d4b8a2e9c11'' then without_audit_sequence s
     else if r = ''e5f6a7b8c9d0'' then with_strict_policies s else s)"

text \<open>
  The migrations are run, each is also taken back, and the schema at the end is passed on. The
  comparison is a parameter, so that the run can be evaluated before two schemas are compared.
\<close>

fun check_undo :: "((ddl_error + db_schema) \<Rightarrow> (ddl_error + db_schema) \<Rightarrow> bool \<Rightarrow> bool) \<Rightarrow> (string \<Rightarrow> int option) \<Rightarrow> migration list
    \<Rightarrow> db_schema \<Rightarrow> (db_schema \<Rightarrow> bool) \<Rightarrow> bool" where
  "check_undo same M [] s k = k s"
| "check_undo same M (m # ms) s k =
     (case run_ddl M (mi_upgrade m) s of
        Inl e \<Rightarrow> False
      | Inr s' \<Rightarrow> same (run_ddl M (mi_downgrade m) s') (Inr (after_undo (mi_revision m) s)) (check_undo same M ms s' k))"

definition undone_at :: "(string \<Rightarrow> int option) \<Rightarrow> migration \<Rightarrow> db_schema \<Rightarrow> bool" where
  "undone_at M m s \<longleftrightarrow> (\<exists>s'. run_ddl M (mi_upgrade m) s = Inr s' \<and> run_ddl M (mi_downgrade m) s' = Inr (after_undo (mi_revision m) s))"

lemma check_undo_sound:
  assumes "check_undo (\<lambda>a b r. a = b \<and> r) M ms s k"
  shows "\<exists>s'. upgrade_all M ms s = Inr s' \<and> k s'"
    and "ms = before @ m # after \<Longrightarrow> \<exists>s1. upgrade_all M before s = Inr s1 \<and> undone_at M m s1"
  using assms
proof (induction ms arbitrary: s before)
  case Nil
  { case 1 then show ?case by (simp add: upgrade_all_def) }
  { case 2 then show ?case by simp }
next
  case (Cons x ms)
  { case 1 with Cons.IH(1) show ?case by (auto simp: upgrade_all_def run_ddl_append split: sum.splits) }
  { case 2
    obtain s' where s': "run_ddl M (mi_upgrade x) s = Inr s'" "run_ddl M (mi_downgrade x) s' = Inr (after_undo (mi_revision x) s)"
        "check_undo (\<lambda>a b r. a = b \<and> r) M ms s' k"
      using 2(2) by (auto simp del: append_Cons split: sum.splits)
    show ?case
    proof (cases before)
      case Nil
      with 2(1) s' show ?thesis by (simp add: upgrade_all_def undone_at_def)
    next
      case (Cons b bs)
      with 2(1) have "b = x" "ms = bs @ m # after" by simp_all
      with Cons.IH(2) [OF _ s'(3)] Cons s'(1) show ?thesis by (simp add: upgrade_all_def run_ddl_append)
    qed }
qed

section \<open>The runs\<close>

definition nothing_granted :: "db_schema \<Rightarrow> bool" where
  "nothing_granted s \<longleftrightarrow> sc_usage s = [] \<and> sc_default_tables s = [] \<and> sc_default_sequences s = [] \<and>
     list_all (\<lambda>x. ts_granted (snd x) = []) (sc_tables s) \<and> list_all (\<lambda>x. sq_granted (snd x) = []) (sc_sequences s)"

lemma early_check:
  assumes "\<And>x r. same x x r = r" and "\<And>x. R x x"
  shows "check_undo same M early_migrations (empty_schema\<lparr>sc_roles := rs\<rparr>) (\<lambda>s. if nothing_granted s then R (sc_roles s) rs else False)"
  by (code_simp, (simp only: assms(1))?, rule assms(2))

text \<open>The schema before the migration of the role, with the roles that there are.\<close>

definition early_schema :: "(string \<Rightarrow> int option) \<Rightarrow> (string \<times> db_role) list \<Rightarrow> db_schema" where
  "early_schema max_id rs = (case upgrade_all max_id early_migrations (empty_schema\<lparr>sc_roles := rs\<rparr>) of Inr s \<Rightarrow> s)"

definition head_ok :: "db_schema \<Rightarrow> bool" where
  "head_ok s \<longleftrightarrow> projects_protected s \<and>
     list_all (\<lambda>m. case map_of (sc_tables s) (om_table m) of None \<Rightarrow> False | Some d \<Rightarrow> model_agrees m d) Base_metadata \<and>
     undeclared_constraints Base_metadata s =
       [(''failed_tasks'', ForeignKey (Some ''fk_failed_tasks_org'') [''org_id''] ''organizations'' [''id''] ''SET NULL''),
        (''failed_tasks'', ForeignKey (Some ''fk_failed_tasks_project'') [''project_id''] ''projects'' [''id''] ''SET NULL''),
        (''projects'', Check ''ck_projects_payload_storage_mode'' ''payload_storage_mode IN ('all', 'errors', 'none')''),
        (''projects'', Check ''ck_projects_payload_max_bytes'' ''payload_max_bytes >= 0 AND payload_max_bytes <= 10485760''),
        (''span_metric_buckets'', ForeignKey None [''project_id''] ''projects'' [''id''] ''CASCADE'')] \<and>
     tables_without_model Base_metadata s = [''organization_invites'', ''project_api_keys''] \<and> only_projects_secured s \<and>
     secured_tables s = [''spans'', ''traces'', ''spans_2026_05'', ''spans_2026_06'', ''traces_2026_05'', ''traces_2026_06'',
       ''spans_default'', ''traces_default'', ''span_metric_buckets''] \<and>
     unsecured_project_tables s = [''failed_tasks'', ''alert_rules'', ''project_api_keys'', ''project_memberships'',
       ''idempotency_records'', ''outbox_events'']"

lemma head_ok_tables:
  assumes "head_ok s"
  shows "secured_tables s = [''spans'', ''traces'', ''spans_2026_05'', ''spans_2026_06'', ''traces_2026_05'', ''traces_2026_06'',
      ''spans_default'', ''traces_default'', ''span_metric_buckets'']"
    and "unsecured_project_tables s = [''failed_tasks'', ''alert_rules'', ''project_api_keys'', ''project_memberships'',
      ''idempotency_records'', ''outbox_events'']"
    and "projects_protected s" and "only_projects_secured s"
  by (rule assms [unfolded head_ok_def, THEN conjunct2, THEN conjunct2, THEN conjunct2, THEN conjunct2, THEN conjunct2, THEN conjunct1],
    rule assms [unfolded head_ok_def, THEN conjunct2, THEN conjunct2, THEN conjunct2, THEN conjunct2, THEN conjunct2, THEN conjunct2],
    rule assms [unfolded head_ok_def, THEN conjunct1],
    rule assms [unfolded head_ok_def, THEN conjunct2, THEN conjunct2, THEN conjunct2, THEN conjunct2, THEN conjunct1])

lemma late_check:
  assumes "\<And>x r. same x x r = r" and "\<And>gs. list_all (\<lambda>x. x = g) gs \<Longrightarrow> R rs gs"
  shows "check_undo same M late_migrations (granted_to g rs (early_schema M rs'))
    (\<lambda>s. if head_ok s then R (sc_roles s) (map (\<lambda>x. ts_granted (snd x)) (sc_tables s)) else False)"
  by (code_simp, (simp only: assms(1))?, rule assms(2)) simp

section \<open>The role of the application\<close>

definition put_role_in :: "string \<Rightarrow> (string \<times> db_role) list \<Rightarrow> (string \<times> db_role) list" where
  "put_role_in r rs = (if map_of rs r = None then rs @ [(r, runtime_role)] else map (\<lambda>x. if fst x = r then (r, runtime_role) else x) rs)"

definition roles_after :: "string option \<Rightarrow> string option \<Rightarrow> (string \<times> db_role) list \<Rightarrow> (string \<times> db_role) list" where
  "roles_after u p rs = (if truthy u \<and> truthy p then put_role_in (the u) rs else rs)"

definition granted_roles :: "string option \<Rightarrow> string list" where
  "granted_roles u = (if truthy u then [the u] else [])"

definition head_schema :: "(string \<Rightarrow> int option) \<Rightarrow> string option \<Rightarrow> string option \<Rightarrow> (string \<times> db_role) list \<Rightarrow> db_schema" where
  "head_schema max_id u p rs =
     (case upgrade_all max_id late_migrations (granted_to (granted_roles u) (roles_after u p rs) (early_schema max_id rs)) of Inr s \<Rightarrow> s)"

lemma map_of_put_role_in: "map_of (put_role_in r rs) r = Some runtime_role"
proof -
  have "map_of (map (\<lambda>x. if fst x = r then (r, runtime_role) else x) rs) r = Some runtime_role" if "map_of rs r \<noteq> None"
    using that by (induction rs) (auto split: if_splits)
  then show ?thesis by (auto simp: put_role_in_def map_add_def)
qed

lemma put_role_in_same:
  assumes "map_of rs r = Some runtime_role" and "distinct (map fst rs)"
  shows "put_role_in r rs = rs"
proof -
  have "x = (r, runtime_role)" if "x \<in> set rs" and "fst x = r" for x
  proof -
    have "(r, snd x) \<in> set rs" using that by (metis prod.collapse)
    then have "snd x = runtime_role" by (rule eq_key_imp_eq_value [OF assms(2) _ map_of_SomeD [OF assms(1)]])
    with that show ?thesis by (simp add: prod_eq_iff)
  qed
  then have "map (\<lambda>x. if fst x = r then (r, runtime_role) else x) rs = rs" by (intro map_idI) simp
  then show ?thesis using assms(1) by (simp add: put_role_in_def)
qed

lemma distinct_put_role_in: "distinct (map fst rs) \<Longrightarrow> distinct (map fst (put_role_in r rs))"
proof -
  have "map fst (map (\<lambda>x. if fst x = r then (r, runtime_role) else x) rs) = map fst rs" by (simp add: comp_def)
  then show "distinct (map fst rs) \<Longrightarrow> ?thesis" by (auto simp: put_role_in_def map_of_eq_None_iff simp del: map_map)
qed

lemma roles_after_distinct: "distinct (map fst rs) \<Longrightarrow> distinct (map fst (roles_after u p rs))"
  by (simp add: roles_after_def distinct_put_role_in)

lemma granted_to_roles: "sc_roles (granted_to g rs s) = rs"
  by (simp add: granted_to_def)

lemma granted_to_twice: "granted_to g rs (granted_to g' rs' s) = granted_to g rs s"
  by (simp add: granted_to_def case_prod_unfold comp_def)

lemma granted_to_same:
  assumes "nothing_granted s"
  shows "granted_to [] (sc_roles s) s = s"
proof -
  have "map (\<lambda>(n, d). (n, d\<lparr>ts_granted := []\<rparr>)) (sc_tables s) = sc_tables s"
    using assms by (auto simp: nothing_granted_def list_all_iff intro!: map_idI)
  moreover have "map (\<lambda>(n, q). (n, q\<lparr>sq_granted := []\<rparr>)) (sc_sequences s) = sc_sequences s"
    using assms by (auto simp: nothing_granted_def list_all_iff intro!: map_idI)
  ultimately show ?thesis using assms by (simp add: granted_to_def nothing_granted_def)
qed

lemma run_put_role: "run_ddl M [put_role r] s = Inr (s\<lparr>sc_roles := put_role_in r (sc_roles s)\<rparr>)"
  by (simp add: put_role_in_def)

lemma role_grants:
  assumes "map_of rs r \<noteq> None"
  shows "run_ddl M [grant_schema r True, grant_all_tables r True, grant_all_sequences r True, grant_default_tables r True,
      grant_default_sequences r True] (granted_to [] rs s) = Inr (granted_to [r] rs s)"
    and "run_ddl M [grant_default_tables r False, grant_default_sequences r False, grant_all_sequences r False, grant_all_tables r False,
      grant_schema r False] (granted_to [r] rs s) = Inr (granted_to [] rs s)"
  using assms by (auto simp: granted_to_def with_role_def grant_def case_prod_unfold comp_def)

lemma role_missing:
  assumes "map_of rs r = None"
  shows "run_ddl M (grant_schema r True # ds) (granted_to [] rs s) = Inl UndefinedObject"
  using assms by (simp add: granted_to_def with_role_def)

lemma granted_to_set_roles: "(granted_to g rs s)\<lparr>sc_roles := rs'\<rparr> = granted_to g rs' s"
  by (simp add: granted_to_def)

lemma upgrade_role:
  "run_ddl M (mi_upgrade (role_migration u p)) (granted_to [] rs s) =
     (if truthy u \<and> map_of (roles_after u p rs) (the u) = None then Inl UndefinedObject
      else Inr (granted_to (granted_roles u) (roles_after u p rs) s))"
proof (cases "truthy u")
  case False
  then show ?thesis
    by (simp add: role_migration_def upgrade_runtime_database_role_grants_def role_sql_def granted_roles_def roles_after_def)
next
  case True
  have put: "run_ddl M (if truthy p then [put_role (the u)] else []) (granted_to [] rs s) = Inr (granted_to [] (roles_after u p rs) s)"
  proof (cases "truthy p")
    case p: True
    have "run_ddl M [put_role (the u)] (granted_to [] rs s) = Inr (granted_to [] (put_role_in (the u) rs) s)"
      unfolding run_put_role granted_to_roles granted_to_set_roles ..
    with True p show ?thesis by (simp only: roles_after_def if_True simp_thms)
  qed (simp add: roles_after_def)
  let ?grants = "[grant_schema (the u) True, grant_all_tables (the u) True, grant_all_sequences (the u) True,
    grant_default_tables (the u) True, grant_default_sequences (the u) True]"
  have "mi_upgrade (role_migration u p) = (if truthy p then [put_role (the u)] else []) @ ?grants"
    using True by (simp add: role_migration_def upgrade_runtime_database_role_grants_def role_sql_def)
  then have up: "run_ddl M (mi_upgrade (role_migration u p)) (granted_to [] rs s) = run_ddl M ?grants (granted_to [] (roles_after u p rs) s)"
    by (simp only: run_ddl_append put sum.case)
  show ?thesis
  proof (cases "map_of (roles_after u p rs) (the u) = None")
    case None: True
    show ?thesis unfolding up role_missing [OF None] using True None by simp
  next
    case False
    show ?thesis unfolding up role_grants(1) [OF False] using True False by (simp add: granted_roles_def)
  qed
qed

lemma downgrade_role:
  assumes "truthy u \<Longrightarrow> map_of rs (the u) \<noteq> None"
    and "truthy u \<Longrightarrow> truthy p \<Longrightarrow> map_of rs (the u) = Some runtime_role" and "distinct (map fst rs)"
  shows "run_ddl M (mi_downgrade (role_migration u p)) (granted_to (granted_roles u) rs s) = Inr (granted_to [] rs s)"
proof (cases "truthy u")
  case False
  then show ?thesis
    by (simp add: role_migration_def downgrade_runtime_database_role_grants_def role_sql_def granted_roles_def)
next
  case True
  have put: "run_ddl M (if truthy p then [put_role (the u)] else []) (granted_to [the u] rs s) = Inr (granted_to [the u] rs s)"
  proof (cases "truthy p")
    case p: True
    have "run_ddl M [put_role (the u)] (granted_to [the u] rs s) = Inr (granted_to [the u] rs s)"
      unfolding run_put_role granted_to_roles put_role_in_same [OF assms(2) [OF True p] assms(3)] granted_to_set_roles ..
    with p show ?thesis by (simp only: if_True)
  qed simp
  let ?grants = "[grant_default_tables (the u) False, grant_default_sequences (the u) False, grant_all_sequences (the u) False,
    grant_all_tables (the u) False, grant_schema (the u) False]"
  have "mi_downgrade (role_migration u p) = (if truthy p then [put_role (the u)] else []) @ ?grants"
    using True by (simp add: role_migration_def downgrade_runtime_database_role_grants_def role_sql_def)
  then have down: "run_ddl M (mi_downgrade (role_migration u p)) (granted_to [the u] rs s) = run_ddl M ?grants (granted_to [the u] rs s)"
    by (simp only: run_ddl_append put sum.case)
  from role_grants(2) [OF assms(1) [OF True], of M s] True show ?thesis by (simp only: granted_roles_def if_True down)
qed

section \<open>The whole history\<close>

lemma early_run:
  "upgrade_all M early_migrations (empty_schema\<lparr>sc_roles := rs\<rparr>) = Inr (early_schema M rs)"
  "granted_to [] rs (early_schema M rs) = early_schema M rs"
  "early_migrations = before @ m # after \<Longrightarrow>
     \<exists>s1. upgrade_all M before (empty_schema\<lparr>sc_roles := rs\<rparr>) = Inr s1 \<and> undone_at M m s1"
proof -
  note check = check_undo_sound [OF early_check [of "\<lambda>a b r. a = b \<and> r" "(=)" M rs, simplified]]
  from check(1) obtain s where s: "upgrade_all M early_migrations (empty_schema\<lparr>sc_roles := rs\<rparr>) = Inr s" "nothing_granted s" "sc_roles s = rs"
    by (auto split: if_splits)
  then show "upgrade_all M early_migrations (empty_schema\<lparr>sc_roles := rs\<rparr>) = Inr (early_schema M rs)"
    by (simp add: early_schema_def)
  from s granted_to_same [OF s(2)] show "granted_to [] rs (early_schema M rs) = early_schema M rs"
    by (simp add: early_schema_def)
  show "\<exists>s1. upgrade_all M before (empty_schema\<lparr>sc_roles := rs\<rparr>) = Inr s1 \<and> undone_at M m s1" if "early_migrations = before @ m # after"
    by (rule check(2) [OF that])
qed

lemma late_run:
  "upgrade_all M late_migrations (granted_to (granted_roles u) (roles_after u p rs) (early_schema M rs)) = Inr (head_schema M u p rs)"
  "head_ok (head_schema M u p rs)"
  "sc_roles (head_schema M u p rs) = roles_after u p rs"
  "list_all (\<lambda>x. ts_granted (snd x) = granted_roles u) (sc_tables (head_schema M u p rs))"
  "late_migrations = before @ m # after \<Longrightarrow>
     \<exists>s1. upgrade_all M before (granted_to (granted_roles u) (roles_after u p rs) (early_schema M rs)) = Inr s1 \<and> undone_at M m s1"
proof -
  note check = check_undo_sound [OF late_check [of "\<lambda>a b r. a = b \<and> r" "granted_roles u" "\<lambda>r gs. r = roles_after u p rs \<and> list_all (\<lambda>x. x = granted_roles u) gs"
      "roles_after u p rs" M rs, simplified]]
  from check(1) obtain s where s: "upgrade_all M late_migrations (granted_to (granted_roles u) (roles_after u p rs) (early_schema M rs)) = Inr s"
      "head_ok s" "sc_roles s = roles_after u p rs" "list_all (\<lambda>x. ts_granted (snd x) = granted_roles u) (sc_tables s)"
    by (auto simp: list_all_iff split: if_splits)
  moreover from s(1) have "head_schema M u p rs = s" by (simp add: head_schema_def)
  ultimately show "upgrade_all M late_migrations (granted_to (granted_roles u) (roles_after u p rs) (early_schema M rs)) = Inr (head_schema M u p rs)"
    "head_ok (head_schema M u p rs)" "sc_roles (head_schema M u p rs) = roles_after u p rs"
    "list_all (\<lambda>x. ts_granted (snd x) = granted_roles u) (sc_tables (head_schema M u p rs))" by simp_all
  show "\<exists>s1. upgrade_all M before (granted_to (granted_roles u) (roles_after u p rs) (early_schema M rs)) = Inr s1 \<and> undone_at M m s1"
    if "late_migrations = before @ m # after"
    by (rule check(2) [OF that])
qed

lemma upgrade_to_head:
  "upgrade_all M (migrations u p) (empty_schema\<lparr>sc_roles := rs\<rparr>) =
     (if truthy u \<and> map_of (roles_after u p rs) (the u) = None then Inl UndefinedObject else Inr (head_schema M u p rs))"
proof -
  have role: "upgrade_all M (role_migration u p # ms) (early_schema M rs) =
      (case run_ddl M (mi_upgrade (role_migration u p)) (granted_to [] rs (early_schema M rs)) of Inl e \<Rightarrow> Inl e | Inr s \<Rightarrow> upgrade_all M ms s)" for ms
    unfolding early_run(2) by (rule upgrade_all_Cons)
  show ?thesis unfolding migrations_split upgrade_all_append early_run(1) sum.case role upgrade_role by (simp add: late_run(1))
qed

text \<open>
  The migrations lead from an empty database to a schema in which the data of projects are under
  row-level security, for a role of the application that cannot bypass it, and in which this role has
  its rights on every table. They fail exactly when that role does not exist and is not to be created.
\<close>

theorem upgraded_schema_protects_projects:
  assumes "truthy u"
  shows "case upgrade_all max_id (migrations u p) (empty_schema\<lparr>sc_roles := rs\<rparr>) of
      Inl e \<Rightarrow> e = UndefinedObject \<and> \<not> truthy p \<and> map_of rs (the u) = None
    | Inr s \<Rightarrow> (truthy p \<or> map_of rs (the u) \<noteq> None) \<and> projects_protected s \<and>
        (truthy p \<longrightarrow> map_of (sc_roles s) (the u) = Some runtime_role) \<and>
        list_all (\<lambda>x. ts_granted (snd x) = [the u]) (sc_tables s)"
proof -
  have "projects_protected (head_schema max_id u p rs)" using late_run(2) by (simp add: head_ok_def)
  moreover have "list_all (\<lambda>x. ts_granted (snd x) = [the u]) (sc_tables (head_schema max_id u p rs))"
    using late_run(4) [of u max_id p rs] assms by (simp add: granted_roles_def)
  moreover have "map_of (roles_after u p rs) (the u) = (if truthy p then Some runtime_role else map_of rs (the u))"
    using assms by (simp add: roles_after_def map_of_put_role_in)
  ultimately show ?thesis using assms by (simp add: upgrade_to_head late_run(3))
qed

text \<open>
  The models agree with the migrated tables: every model has its table, with the same columns, types
  and nullability, the defaults and constraints that it declares and its partitioning. Only two
  tables have no model, and the only constraints that no model declares are five.
\<close>

theorem models_match_migrations:
  assumes "upgrade_all max_id (migrations u p) (empty_schema\<lparr>sc_roles := rs\<rparr>) = Inr s"
  shows "list_all (\<lambda>m. case map_of (sc_tables s) (om_table m) of None \<Rightarrow> False | Some d \<Rightarrow> model_agrees m d) Base_metadata \<and>
    tables_without_model Base_metadata s = [''organization_invites'', ''project_api_keys''] \<and>
    map fst (undeclared_constraints Base_metadata s) = [''failed_tasks'', ''failed_tasks'', ''projects'', ''projects'', ''span_metric_buckets'']"
proof -
  have "s = head_schema max_id u p rs" using assms by (simp add: upgrade_to_head split: if_splits)
  then have "head_ok s" using late_run(2) by simp
  then show ?thesis unfolding head_ok_def by simp
qed

text \<open>What is left after a migration was taken back: that of the role leaves the role.\<close>

definition after_downgrade :: "string option \<Rightarrow> string option \<Rightarrow> string \<Rightarrow> db_schema \<Rightarrow> db_schema" where
  "after_downgrade u p r s =
     (if r = ''d4e5f6a7b8c9'' then s\<lparr>sc_roles := roles_after u p (sc_roles s)\<rparr> else after_undo r s)"

lemma early_late_revisions:
  "m \<in> set early_migrations \<Longrightarrow> mi_revision m \<noteq> ''d4e5f6a7b8c9''"
  "m \<in> set late_migrations \<Longrightarrow> mi_revision m \<noteq> ''d4e5f6a7b8c9''"
  by (auto simp: early_migrations_def late_migrations_def migrations_def)


text \<open>The models of a database without a role of the application.\<close>

theorem models_match_migrations_witness:
  "\<exists>s. upgrade_all (\<lambda>_. None) (migrations None None) (empty_schema\<lparr>sc_roles := []\<rparr>) = Inr s \<and>
     tables_without_model Base_metadata s = [''organization_invites'', ''project_api_keys'']"
  using models_match_migrations [of "\<lambda>_. None" None None "[]" "head_schema (\<lambda>_. None) None None []"] by (simp add: upgrade_to_head)


end
