(* ===== verification/Row_Security.thy ===== *)
theory Row_Security
  imports Schema_Checks
begin

text \<open>
  Sessions with the database (\<^verbatim>\<open>backend/app/core/db.py\<close>) under the row-level security that the
  migrations set up: the setting \<^verbatim>\<open>app.current_project_id\<close> on pooled connections, and what statements see
  and change. Reading a text as UUID and the other constraints of the tables are parameters.
\<close>

section \<open>Connections\<close>

text \<open>The setting of a connection, for its session and for the running transaction.\<close>

record db_conn =
  cn_base :: "string option"
  cn_local :: "string option"

definition current_setting :: "db_conn \<Rightarrow> string option" where
  "current_setting c = (case cn_local c of Some v \<Rightarrow> Some v | None \<Rightarrow> cn_base c)"

text \<open>
  \<^verbatim>\<open>set_config(..., true)\<close> holds until the end of the transaction; a setting that was not there before is
  empty afterwards, and no longer missing.
\<close>

definition set_config_local :: "string \<Rightarrow> db_conn \<Rightarrow> db_conn" where
  "set_config_local v c = c\<lparr>cn_local := Some v\<rparr>"

definition end_transaction :: "db_conn \<Rightarrow> db_conn" where
  "end_transaction c = (case cn_local c of None \<Rightarrow> c
     | Some _ \<Rightarrow> \<lparr>cn_base = Some (case cn_base c of None \<Rightarrow> [] | Some v \<Rightarrow> v), cn_local = None\<rparr>)"

section \<open>Policies\<close>

datatype sql_error = InvalidTextRepresentation | RowSecurityViolation | NoPartition | UndefinedRelation | IntegrityError

text \<open>A row with the table or partition that stores it, and its project.\<close>

record 'a db_row =
  rw_table :: string
  rw_project :: uuid
  rw_data :: 'a

record 'a db_env =
  en_schema :: db_schema
  en_role :: db_role
  en_owner :: bool
  en_uuid :: "string \<Rightarrow> uuid option"
  en_consistent :: "'a db_row list \<Rightarrow> bool"

fun policy_holds :: "(string \<Rightarrow> uuid option) \<Rightarrow> policy_cond \<Rightarrow> string option \<Rightarrow> uuid \<Rightarrow> sql_error + bool" where
  "policy_holds cast c None q = Inr False"
| "policy_holds cast Text_context (Some v) q = Inr (v \<noteq> [] \<and> q = v)"
| "policy_holds cast Null_safe_context (Some v) q =
     (if v = [] then Inr False else (case cast v of None \<Rightarrow> Inl InvalidTextRepresentation | Some p \<Rightarrow> Inr (q = p)))"
| "policy_holds cast Strict_context (Some v) q = (case cast v of None \<Rightarrow> Inl InvalidTextRepresentation | Some p \<Rightarrow> Inr (q = p))"

fun policies_hold :: "(string \<Rightarrow> uuid option) \<Rightarrow> policy_cond list \<Rightarrow> string option \<Rightarrow> uuid \<Rightarrow> sql_error + bool" where
  "policies_hold cast [] v q = Inr False"
| "policies_hold cast (c # cs) v q =
     (case policy_holds cast c v q of
        Inl e \<Rightarrow> Inl e
      | Inr b \<Rightarrow> if b then Inr True else policies_hold cast cs v q)"

text \<open>Superusers, roles that bypass it, and owners of tables where it is not forced escape row-level security.\<close>

definition bypasses :: "'a db_env \<Rightarrow> table_schema \<Rightarrow> bool" where
  "bypasses E d \<longleftrightarrow> ro_superuser (en_role E) \<or> ro_bypassrls (en_role E) \<or> \<not> ts_rls d \<or> (en_owner E \<and> \<not> ts_force d)"

text \<open>Whether a row may be seen or written through a table, which is the one that is named.\<close>

definition row_allowed :: "'a db_env \<Rightarrow> string \<Rightarrow> string option \<Rightarrow> 'a db_row \<Rightarrow> sql_error + bool" where
  "row_allowed E t v r =
     (case map_of (sc_tables (en_schema E)) t of
        None \<Rightarrow> Inl UndefinedRelation
      | Some d \<Rightarrow> if bypasses E d then Inr True else policies_hold (en_uuid E) (map snd (ts_policies d)) v (rw_project r))"

text \<open>A table holds its own rows and those of its partitions.\<close>

definition parent_of :: "db_schema \<Rightarrow> string \<Rightarrow> string option" where
  "parent_of s t = (case map_of (sc_tables s) t of None \<Rightarrow> None | Some d \<Rightarrow> map_option fst (ts_partition_of d))"

definition holds_row :: "db_schema \<Rightarrow> string \<Rightarrow> 'a db_row \<Rightarrow> bool" where
  "holds_row s t r \<longleftrightarrow> rw_table r = t \<or> parent_of s (rw_table r) = Some t"

section \<open>Statements\<close>

datatype 'a stmt =
  Select string "'a db_row \<Rightarrow> bool"
  | Insert string "'a db_row" bool
  | Update string "'a db_row \<Rightarrow> bool" "'a db_row \<Rightarrow> 'a db_row"
  | Delete string "'a db_row \<Rightarrow> bool"
  | Commit
  | Rollback

record 'a db_session =
  ss_conn :: db_conn
  ss_rows :: "'a db_row list"
  ss_committed :: "'a db_row list"

definition rollback :: "'a db_session \<Rightarrow> 'a db_session" where
  "rollback s = s\<lparr>ss_conn := end_transaction (ss_conn s), ss_rows := ss_committed s\<rparr>"

definition commit :: "'a db_session \<Rightarrow> 'a db_session" where
  "commit s = s\<lparr>ss_conn := end_transaction (ss_conn s), ss_committed := ss_rows s\<rparr>"

text \<open>The rows of a table that a statement gets to work on.\<close>

fun visible_rows :: "'a db_env \<Rightarrow> string \<Rightarrow> string option \<Rightarrow> 'a db_row list \<Rightarrow> sql_error + 'a db_row list" where
  "visible_rows E t v [] = Inr []"
| "visible_rows E t v (r # rs) =
     (if \<not> holds_row (en_schema E) t r then visible_rows E t v rs
      else case row_allowed E t v r of
        Inl e \<Rightarrow> Inl e
      | Inr b \<Rightarrow> (case visible_rows E t v rs of Inl e \<Rightarrow> Inl e | Inr xs \<Rightarrow> Inr (if b then r # xs else xs)))"

text \<open>A written row must belong to the table and satisfy its policy; the constraints are checked at the end.\<close>

definition write_check :: "'a db_env \<Rightarrow> string \<Rightarrow> string option \<Rightarrow> 'a db_row \<Rightarrow> sql_error option" where
  "write_check E t v r =
     (if \<not> holds_row (en_schema E) t r then Some NoPartition
      else case row_allowed E t v r of Inl e \<Rightarrow> Some e | Inr b \<Rightarrow> if b then None else Some RowSecurityViolation)"

definition is_hit :: "'a db_env \<Rightarrow> string \<Rightarrow> string option \<Rightarrow> ('a db_row \<Rightarrow> bool) \<Rightarrow> 'a db_row \<Rightarrow> bool" where
  "is_hit E t v P r \<longleftrightarrow> holds_row (en_schema E) t r \<and> row_allowed E t v r = Inr True \<and> P r"

definition put_rows :: "'a db_env \<Rightarrow> 'a db_row list \<Rightarrow> 'a db_row list \<Rightarrow> 'a db_session \<Rightarrow> (sql_error + 'a db_row list) \<times> 'a db_session" where
  "put_rows E returned rows s = (if en_consistent E rows then (Inr returned, s\<lparr>ss_rows := rows\<rparr>) else (Inl IntegrityError, s))"

text \<open>An \<^verbatim>\<open>INSERT\<close> may have \<^verbatim>\<open>ON CONFLICT DO NOTHING\<close>. The result of a statement is what it returns.\<close>

fun execute :: "'a db_env \<Rightarrow> 'a stmt \<Rightarrow> 'a db_session \<Rightarrow> (sql_error + 'a db_row list) \<times> 'a db_session" where
  "execute E (Select t P) s = (map_sum id (filter P) (visible_rows E t (current_setting (ss_conn s)) (ss_rows s)), s)"
| "execute E (Insert t r ignore) s =
     (case write_check E t (current_setting (ss_conn s)) r of
        Some e \<Rightarrow> (Inl e, s)
      | None \<Rightarrow> if ignore \<and> \<not> en_consistent E (ss_rows s @ [r]) then (Inr [], s) else put_rows E [r] (ss_rows s @ [r]) s)"
| "execute E (Update t P f) s =
     (let v = current_setting (ss_conn s) in
      case visible_rows E t v (ss_rows s) of
        Inl e \<Rightarrow> (Inl e, s)
      | Inr rs \<Rightarrow>
          (case first_error (map (\<lambda>r. write_check E t v (f r)) (filter P rs)) of
             Some e \<Rightarrow> (Inl e, s)
           | None \<Rightarrow> put_rows E (map f (filter P rs)) (map (\<lambda>r. if is_hit E t v P r then f r else r) (ss_rows s)) s))"
| "execute E (Delete t P) s =
     (let v = current_setting (ss_conn s) in
      case visible_rows E t v (ss_rows s) of
        Inl e \<Rightarrow> (Inl e, s)
      | Inr rs \<Rightarrow> put_rows E (filter P rs) (filter (\<lambda>r. \<not> is_hit E t v P r) (ss_rows s)) s)"
| "execute E Commit s = (Inr [], commit s)"
| "execute E Rollback s = (Inr [], rollback s)"

section \<open>Sessions\<close>

text \<open>What is done with a session is a tree: it ends, or goes on with the rows that a statement returned.\<close>

datatype 'a use = Leave | Then "'a stmt" "'a db_row list \<Rightarrow> 'a use"

text \<open>The results of the statements, and the session after the last one or the first that fails.\<close>

primrec run_use :: "'a db_env \<Rightarrow> 'a use \<Rightarrow> 'a db_session \<Rightarrow> 'a db_row list list \<times> 'a db_session" where
  "run_use E Leave s = ([], s)"
| "run_use E (Then st k) s =
     (case execute E st s of
        (Inl e, s') \<Rightarrow> ([], s')
      | (Inr rs, s') \<Rightarrow> (case run_use E (k rs) s' of (obs, s'') \<Rightarrow> (rs # obs, s'')))"

text \<open>
  \<^verbatim>\<open>get_db\<close> on a connection of the pool: set the project, give the session out, and roll back what is
  left when it is closed or fails.
\<close>

definition get_db :: "'a db_env \<Rightarrow> string option \<Rightarrow> 'a use \<Rightarrow> db_conn \<times> 'a db_row list \<Rightarrow> 'a db_row list list \<times> db_conn \<times> 'a db_row list" where
  "get_db E project_id body st =
     (let s = \<lparr>ss_conn = fst st, ss_rows = snd st, ss_committed = snd st\<rparr>;
          s = (if truthy project_id then s\<lparr>ss_conn := set_config_local (the project_id) (ss_conn s)\<rparr> else s)
      in case run_use E body s of (obs, s') \<Rightarrow> (obs, ss_conn (rollback s'), ss_rows (rollback s')))"

text \<open>A pool: every session takes one of the connections.\<close>

fun run_pool :: "'a db_env \<Rightarrow> (nat \<times> string option \<times> 'a use) list \<Rightarrow> (nat \<Rightarrow> db_conn) \<times> 'a db_row list
    \<Rightarrow> 'a db_row list list list \<times> (nat \<Rightarrow> db_conn) \<times> 'a db_row list" where
  "run_pool E [] st = ([], st)"
| "run_pool E ((i, project_id, body) # xs) st =
     (case get_db E project_id body (fst st i, snd st) of
        (obs, c, rows) \<Rightarrow> (case run_pool E xs ((fst st)(i := c), rows) of (obss, st') \<Rightarrow> (obs # obss, st')))"

section \<open>Confinement to a project\<close>

text \<open>The stored data of projects, and the rows that are none of a session's business.\<close>

definition stores_project_data :: "db_schema \<Rightarrow> string \<Rightarrow> bool" where
  "stores_project_data s t \<longleftrightarrow> t \<in> set (map fst project_tables) \<or>
     (case parent_of s t of None \<Rightarrow> False | Some p \<Rightarrow> p \<in> set (map fst project_tables))"

definition foreign_row :: "db_schema \<Rightarrow> string option \<Rightarrow> 'a db_row \<Rightarrow> bool" where
  "foreign_row s project_id r \<longleftrightarrow> stores_project_data s (rw_table r) \<and>
     \<not> (truthy project_id \<and> rw_project r = the project_id)"

definition confined_env :: "'a db_env \<Rightarrow> bool" where
  "confined_env E \<longleftrightarrow> projects_protected (en_schema E) \<and> \<not> ro_superuser (en_role E) \<and> \<not> ro_bypassrls (en_role E)"

definition unset_setting :: "string option \<Rightarrow> bool" where
  "unset_setting v \<longleftrightarrow> v = None \<or> v = Some []"

definition fits_project :: "(string \<Rightarrow> uuid option) \<Rightarrow> string option \<Rightarrow> bool" where
  "fits_project cast project_id \<longleftrightarrow> (truthy project_id \<longrightarrow> cast (the project_id) = Some (the project_id))"

lemma protected_table:
  assumes "projects_protected s" and "t \<in> set (map fst project_tables)"
  obtains d c where "map_of (sc_tables s) t = Some d" "ts_rls d" "ts_force d" "map snd (ts_policies d) = [c]"
    "c \<in> {Null_safe_context, Text_context}" "ts_partition_of d = None"
proof -
  from assms(2) obtain c where c: "(t, c) \<in> set project_tables" by auto
  with assms(1) have "case map_of (sc_tables s) t of None \<Rightarrow> False
      | Some d \<Rightarrow> ts_rls d \<and> ts_force d \<and> map snd (ts_policies d) = [c] \<and> ts_partition_of d = None"
    by (auto simp: projects_protected_def list_all_iff)
  moreover have "c \<in> {Null_safe_context, Text_context}" using c by (auto simp: project_tables_def)
  ultimately show thesis using that by (auto split: option.splits)
qed

lemma protected_partition:
  assumes "projects_protected s" and "map_of (sc_tables s) t = Some d" and "map_option fst (ts_partition_of d) = Some p"
    and "p \<in> set (map fst project_tables)"
  shows "ts_rls d \<and> ts_force d \<and> ts_policies d = []"
proof -
  have "(t, d) \<in> set (sc_tables s)" using assms(2) by (rule map_of_SomeD)
  with assms(1,3,4) show ?thesis
    by (auto simp: projects_protected_def list_all_iff simp del: set_map split: option.splits if_splits)
qed

text \<open>The heart of it: what a policy lets through belongs to the project of the setting.\<close>

lemma allowed_is_own:
  assumes E: "confined_env E" and fits: "fits_project (en_uuid E) project_id"
    and v: "unset_setting v \<or> (truthy project_id \<and> v = project_id)"
    and r: "holds_row (en_schema E) t r" "row_allowed E t v r = Inr True"
  shows "\<not> foreign_row (en_schema E) project_id r"
proof
  assume foreign: "foreign_row (en_schema E) project_id r"
  let ?s = "en_schema E"
  have prot: "projects_protected ?s" using E by (simp add: confined_env_def)
  obtain d where d: "map_of (sc_tables ?s) t = Some d" using r(2) by (cases "map_of (sc_tables ?s) t") (auto simp: row_allowed_def)
  have t: "t \<in> set (map fst project_tables) \<or> (\<exists>p. map_option fst (ts_partition_of d) = Some p \<and> p \<in> set (map fst project_tables))"
  proof (cases "rw_table r = t")
    case True
    with foreign d show ?thesis
      by (auto simp: foreign_row_def stores_project_data_def parent_of_def simp del: set_map split: option.splits)
  next
    case False
    then have parent: "parent_of ?s (rw_table r) = Some t" using r(1) by (simp add: holds_row_def)
    have "rw_table r \<notin> set (map fst project_tables)"
    proof
      assume "rw_table r \<in> set (map fst project_tables)"
      then obtain d' where "map_of (sc_tables ?s) (rw_table r) = Some d'" "ts_partition_of d' = None"
        by (rule protected_table [OF prot])
      with parent show False by (simp add: parent_of_def)
    qed
    with foreign parent show ?thesis by (auto simp: foreign_row_def stores_project_data_def simp del: set_map)
  qed
  from t show False
  proof
    assume "t \<in> set (map fst project_tables)"
    then obtain d' c where d': "map_of (sc_tables ?s) t = Some d'" and c': "ts_rls d'" "ts_force d'" "map snd (ts_policies d') = [c]"
      "c \<in> {Null_safe_context, Text_context}" by (rule protected_table [OF prot])
    have "d' = d" using d d' by simp
    note c = c' [unfolded this]
    have "\<not> bypasses E d" using E c by (simp add: bypasses_def confined_env_def)
    with r(2) d c have "policies_hold (en_uuid E) [c] v (rw_project r) = Inr True" by (simp add: row_allowed_def)
    then have "policy_holds (en_uuid E) c v (rw_project r) = Inr True" by (auto split: sum.splits if_splits)
    with c(4) v fits have "truthy project_id \<and> rw_project r = the project_id"
      by (cases v) (auto simp: unset_setting_def fits_project_def split: option.splits if_splits)
    with foreign show False by (simp add: foreign_row_def)
  next
    assume "\<exists>p. map_option fst (ts_partition_of d) = Some p \<and> p \<in> set (map fst project_tables)"
    then have "ts_rls d \<and> ts_force d \<and> ts_policies d = []" using protected_partition [OF prot d] by blast
    with E r(2) d show False by (simp add: row_allowed_def bypasses_def confined_env_def)
  qed
qed

section \<open>Statements and sessions are confined\<close>

lemma visible_rows_eq:
  "visible_rows E t v rows = Inr rs \<Longrightarrow> rs = filter (\<lambda>r. holds_row (en_schema E) t r \<and> row_allowed E t v r = Inr True) rows"
  by (induction rows arbitrary: rs) (auto split: if_splits sum.splits)

text \<open>A session for a project, before or after a transaction has ended, with these foreign rows.\<close>

definition session_inv :: "'a db_env \<Rightarrow> string option \<Rightarrow> 'a db_row list \<Rightarrow> 'a db_session \<Rightarrow> bool" where
  "session_inv E project_id others s \<longleftrightarrow> unset_setting (cn_base (ss_conn s)) \<and>
     (cn_local (ss_conn s) = None \<or> (truthy project_id \<and> cn_local (ss_conn s) = project_id)) \<and>
     filter (foreign_row (en_schema E) project_id) (ss_rows s) = others \<and>
     filter (foreign_row (en_schema E) project_id) (ss_committed s) = others"

lemma session_setting:
  assumes "session_inv E project_id others s"
  shows "unset_setting (current_setting (ss_conn s)) \<or> (truthy project_id \<and> current_setting (ss_conn s) = project_id)"
  using assms by (auto simp: session_inv_def current_setting_def split: option.splits)

lemma end_transaction_inv:
  assumes "session_inv E project_id others s"
  shows "session_inv E project_id others (rollback s)" and "session_inv E project_id others (commit s)"
    and "cn_local (end_transaction (ss_conn s)) = None"
  using assms by (auto simp: session_inv_def rollback_def commit_def end_transaction_def unset_setting_def split: option.splits)

lemma put_rows_inv:
  assumes "session_inv E project_id others s" and "filter (foreign_row (en_schema E) project_id) rows = others"
  shows "session_inv E project_id others (snd (put_rows E returned rows s))"
  using assms by (simp add: put_rows_def session_inv_def)

lemma put_rows_returns: "fst (put_rows E returned rows s) = Inr rs \<Longrightarrow> rs = returned"
  by (simp add: put_rows_def split: if_splits)

lemma execute_confined:
  assumes E: "confined_env E" and fits: "fits_project (en_uuid E) project_id" and inv: "session_inv E project_id others s"
  shows "session_inv E project_id others (snd (execute E st s)) \<and>
    (\<forall>rs. fst (execute E st s) = Inr rs \<longrightarrow> list_all (\<lambda>r. \<not> foreign_row (en_schema E) project_id r) rs)"
proof -
  let ?v = "current_setting (ss_conn s)" and ?foreign = "foreign_row (en_schema E) project_id"
  note own = allowed_is_own [OF E fits session_setting [OF inv]]
  have ok: "\<not> ?foreign r" if "write_check E t ?v r = None" for t r
    using that own by (auto simp: write_check_def split: if_splits sum.splits)
  have visible: "list_all (\<lambda>r. \<not> ?foreign r) rs" if "visible_rows E t ?v (ss_rows s) = Inr rs" for t rs
    using visible_rows_eq [OF that] own by (auto simp: list_all_iff)
  have others: "filter ?foreign (ss_rows s) = others" using inv by (simp add: session_inv_def)
  show ?thesis
  proof (cases st)
    case (Select t P)
    then show ?thesis using inv visible [of t] by (cases "visible_rows E t ?v (ss_rows s)") (auto simp: list_all_iff)
  next
    case (Insert t r ignore)
    show ?thesis
    proof (cases "write_check E t ?v r")
      case None
      from ok [OF None] have "\<not> ?foreign r" .
      with others have "filter ?foreign (ss_rows s @ [r]) = others" by simp
      from put_rows_inv [OF inv this] \<open>\<not> ?foreign r\<close> inv None Insert show ?thesis by (auto dest: put_rows_returns)
    qed (use inv Insert in simp)
  next
    case (Update t P f)
    show ?thesis
    proof (cases "visible_rows E t ?v (ss_rows s)")
      case (Inr rs)
      show ?thesis
      proof (cases "first_error (map (\<lambda>r. write_check E t ?v (f r)) (filter P rs))")
        case None
        have new: "\<not> ?foreign (f r)" if "r \<in> set (filter P rs)" for r
          using None that ok by (auto simp: first_error_None)
        have hit: "\<not> ?foreign r \<and> \<not> ?foreign (f r)" if "is_hit E t ?v P r" and "r \<in> set (ss_rows s)" for r
          using that own new visible_rows_eq [OF Inr] by (auto simp: is_hit_def)
        have "filter ?foreign (map (\<lambda>r. if is_hit E t ?v P r then f r else r) rows) = filter ?foreign rows"
          if "set rows \<subseteq> set (ss_rows s)" for rows
          using that hit by (induction rows) auto
        with others have "filter ?foreign (map (\<lambda>r. if is_hit E t ?v P r then f r else r) (ss_rows s)) = others" by simp
        from put_rows_inv [OF inv this] new Inr None Update show ?thesis by (auto simp: Let_def list_all_iff dest!: put_rows_returns)
      qed (use inv Inr Update in \<open>simp add: Let_def\<close>)
    qed (use inv Update in \<open>simp add: Let_def\<close>)
  next
    case (Delete t P)
    show ?thesis
    proof (cases "visible_rows E t ?v (ss_rows s)")
      case (Inr rs)
      have "filter ?foreign (filter (\<lambda>r. \<not> is_hit E t ?v P r) (ss_rows s)) = filter ?foreign (ss_rows s)"
        using own by (auto simp: is_hit_def intro!: filter_cong)
      with others have "filter ?foreign (filter (\<lambda>r. \<not> is_hit E t ?v P r) (ss_rows s)) = others" by simp
      from put_rows_inv [OF inv this] visible [OF Inr] Inr Delete show ?thesis by (auto simp: Let_def list_all_iff dest!: put_rows_returns)
    qed (use inv Delete in \<open>simp add: Let_def\<close>)
  qed (use end_transaction_inv [OF inv] in simp_all)
qed

lemma run_use_confined:
  assumes "confined_env E" and "fits_project (en_uuid E) project_id" and "session_inv E project_id others s"
  shows "session_inv E project_id others (snd (run_use E body s)) \<and>
    list_all (list_all (\<lambda>r. \<not> foreign_row (en_schema E) project_id r)) (fst (run_use E body s))"
  using assms(3)
proof (induction body arbitrary: s)
  case (Then st k)
  note step = execute_confined [OF assms(1,2) Then.prems, of st]
  obtain res s' where res: "execute E st s = (res, s')" by (cases "execute E st s")
  show ?case
  proof (cases res)
    case (Inr rs)
    from step res have "session_inv E project_id others s'" by simp
    from Then.IH [OF rangeI this, of rs] step res Inr show ?thesis by (simp add: case_prod_unfold)
  qed (use step res in simp)
qed simp

definition idle_conn :: "db_conn \<Rightarrow> bool" where
  "idle_conn c \<longleftrightarrow> cn_local c = None \<and> unset_setting (cn_base c)"

lemma get_db_confined:
  assumes "confined_env E" and "fits_project (en_uuid E) project_id" and "idle_conn (fst st)"
    and "get_db E project_id body st = (obs, c, rows)"
  shows "list_all (list_all (\<lambda>r. \<not> foreign_row (en_schema E) project_id r)) obs" and "idle_conn c"
    and "filter (foreign_row (en_schema E) project_id) rows = filter (foreign_row (en_schema E) project_id) (snd st)"
proof -
  let ?s0 = "\<lparr>ss_conn = fst st, ss_rows = snd st, ss_committed = snd st\<rparr>"
  let ?s = "if truthy project_id then ?s0\<lparr>ss_conn := set_config_local (the project_id) (ss_conn ?s0)\<rparr> else ?s0"
  let ?others = "filter (foreign_row (en_schema E) project_id) (snd st)"
  have "session_inv E project_id ?others ?s"
    using assms(3) by (cases project_id) (auto simp: session_inv_def idle_conn_def set_config_local_def)
  note run = run_use_confined [OF assms(1,2) this, of body]
  from run have inv: "session_inv E project_id ?others (snd (run_use E body ?s))" ..
  have result: "obs = fst (run_use E body ?s)" "c = ss_conn (rollback (snd (run_use E body ?s)))"
      "rows = ss_rows (rollback (snd (run_use E body ?s)))"
    using assms(4) by (simp_all add: get_db_def Let_def case_prod_unfold split del: if_split)
  show "list_all (list_all (\<lambda>r. \<not> foreign_row (en_schema E) project_id r)) obs" unfolding result(1) using run ..
  note idle = end_transaction_inv(1,3) [OF inv]
  from idle show "idle_conn c" unfolding result(2) by (simp add: idle_conn_def session_inv_def rollback_def)
  from idle(1) show "filter (foreign_row (en_schema E) project_id) rows = ?others" unfolding result(3) by (simp add: session_inv_def)
qed

text \<open>The rows of a project, in its tables and their partitions.\<close>

definition project_rows :: "db_schema \<Rightarrow> uuid \<Rightarrow> 'a db_row list \<Rightarrow> 'a db_row list" where
  "project_rows s q rows = filter (\<lambda>r. stores_project_data s (rw_table r) \<and> rw_project r = q) rows"

lemma run_pool_confined:
  assumes "confined_env E" and "list_all (\<lambda>(i, project_id, body). fits_project (en_uuid E) project_id) sessions"
    and "\<And>i. idle_conn (cs i)" and "run_pool E sessions (cs, rows) = (obss, cs', rows')"
  shows "list_all2 (\<lambda>(i, project_id, body) obs. list_all (list_all (\<lambda>r. \<not> foreign_row (en_schema E) project_id r)) obs) sessions obss \<and>
    (Some q \<notin> set (map (\<lambda>(i, project_id, body). project_id) sessions) \<longrightarrow> project_rows (en_schema E) q rows' = project_rows (en_schema E) q rows)"
  using assms(2-4)
proof (induction sessions arbitrary: cs rows obss)
  case (Cons x sessions)
  obtain i project_id body where x: "x = (i, project_id, body)" by (cases x)
  obtain obs c rows1 where g: "get_db E project_id body (cs i, rows) = (obs, c, rows1)" by (cases "get_db E project_id body (cs i, rows)")
  obtain obss1 where p: "run_pool E sessions (cs(i := c), rows1) = (obss1, cs', rows')" "obss = obs # obss1"
    using Cons.prems(3) x g by (auto simp: case_prod_unfold prod_eq_iff)
  have fits: "fits_project (en_uuid E) project_id" using Cons.prems(1) x by simp
  note one = get_db_confined [OF assms(1) fits _ g, simplified, OF Cons.prems(2)]
  have rest: "list_all2 (\<lambda>(i, project_id, body) obs. list_all (list_all (\<lambda>r. \<not> foreign_row (en_schema E) project_id r)) obs) sessions obss1 \<and>
    (Some q \<notin> set (map (\<lambda>(i, project_id, body). project_id) sessions) \<longrightarrow> project_rows (en_schema E) q rows' = project_rows (en_schema E) q rows1)"
    by (rule Cons.IH [OF _ _ p(1)]) (use Cons.prems(1,2) one(2) in auto)
  have kept: "project_rows (en_schema E) q rows1 = project_rows (en_schema E) q rows" if "project_id \<noteq> Some q"
  proof -
    have split: "project_rows (en_schema E) q xs = project_rows (en_schema E) q (filter (foreign_row (en_schema E) project_id) xs)" for xs
      using that by (auto simp: project_rows_def foreign_row_def intro!: filter_cong elim: truthy.elims)
    show ?thesis by (subst (1 2) split) (simp add: one(3))
  qed
  from rest one(1) kept show ?case unfolding x p(2) by auto
qed simp

text \<open>In the migrated schema the tables and partitions with row-level security are those of projects.\<close>

lemma secured_is_project_data:
  assumes "head_ok s"
  shows "stores_project_data s = row_secured s"
proof
  fix t
  note prot = head_ok_tables(3) [OF assms] and only = head_ok_tables(4) [OF assms]
  show "stores_project_data s t = row_secured s t"
  proof
    assume stores: "stores_project_data s t"
    show "row_secured s t"
    proof (cases "t \<in> set (map fst project_tables)")
      case True
      then obtain d where "map_of (sc_tables s) t = Some d" "ts_rls d" by (rule protected_table [OF prot])
      then show ?thesis by (simp add: row_secured_def)
    next
      case False
      have "case parent_of s t of None \<Rightarrow> False | Some p \<Rightarrow> p \<in> set (map fst project_tables)"
        using stores False unfolding stores_project_data_def by (simp only: simp_thms)
      then have "\<exists>p. parent_of s t = Some p \<and> p \<in> set (map fst project_tables)"
        by (cases "parent_of s t") (simp_all del: set_map)
      then obtain p where p: "parent_of s t = Some p" "p \<in> set (map fst project_tables)" by blast
      from p(1) obtain d where d: "map_of (sc_tables s) t = Some d" "map_option fst (ts_partition_of d) = Some p"
        by (cases "map_of (sc_tables s) t") (simp_all add: parent_of_def)
      from protected_partition [OF prot d p(2)] d(1) show ?thesis by (simp add: row_secured_def)
    qed
  next
    assume "row_secured s t"
    then obtain d where d: "map_of (sc_tables s) t = Some d" "ts_rls d" by (auto simp: row_secured_def split: option.splits)
    have "(t, d) \<in> set (sc_tables s)" using d(1) by (rule map_of_SomeD)
    with only d(2) have "t \<in> set (map fst project_tables) \<or>
        (case ts_partition_of d of None \<Rightarrow> False | Some (p, _) \<Rightarrow> p \<in> set (map fst project_tables))"
      by (auto simp: only_projects_secured_def list_all_iff simp del: set_map)
    then show "stores_project_data s t"
      unfolding stores_project_data_def parent_of_def d(1) option.case
      by (cases "ts_partition_of d") (simp_all del: set_map add: case_prod_beta)
  qed
qed

text \<open>The rows of a project that row-level security is to protect.\<close>

definition secured_rows :: "db_schema \<Rightarrow> uuid \<Rightarrow> 'a db_row list \<Rightarrow> 'a db_row list" where
  "secured_rows s q rows = filter (\<lambda>r. row_secured s (rw_table r) \<and> rw_project r = q) rows"


text \<open>
  The context ends with the transaction: after a commit the statements of the same session see no
  data of projects any more.
\<close>

theorem commit_ends_project_context:
  assumes "confined_env E" and "session_inv E project_id others s" and "fst (execute E (Select t P) (snd (execute E Commit s))) = Inr rs"
  shows "list_all (\<lambda>r. \<not> stores_project_data (en_schema E) (rw_table r)) rs"
proof -
  let ?v = "current_setting (ss_conn (commit s))"
  have "unset_setting ?v"
    using end_transaction_inv(2,3) [OF assms(2)] by (auto simp: session_inv_def commit_def current_setting_def)
  then have own: "\<not> foreign_row (en_schema E) None r" if "holds_row (en_schema E) t r" "row_allowed E t ?v r = Inr True" for r
    using that by (intro allowed_is_own [OF assms(1)]) (auto simp: fits_project_def)
  obtain xs where xs: "visible_rows E t ?v (ss_rows (commit s)) = Inr xs" "rs = filter P xs"
    using assms(3) by (cases "visible_rows E t ?v (ss_rows (commit s))") auto
  show ?thesis using own visible_rows_eq [OF xs(1)] xs(2) by (auto simp: list_all_iff foreign_row_def)
qed

text \<open>
  Without a project no data of projects can be written: every such insert is refused.
\<close>

theorem insert_without_project_is_refused:
  assumes "confined_env E" and "session_inv E None others s" and "stores_project_data (en_schema E) (rw_table r)"
  shows "\<exists>e. fst (execute E (Insert t r ignore) s) = Inl e"
proof -
  let ?v = "current_setting (ss_conn s)"
  have "unset_setting ?v" using session_setting [OF assms(2)] by simp
  have "write_check E t ?v r \<noteq> None"
  proof
    assume "write_check E t ?v r = None"
    then have r: "holds_row (en_schema E) t r" "row_allowed E t ?v r = Inr True"
      by (auto simp: write_check_def split: if_splits sum.splits)
    from allowed_is_own [OF assms(1) _ _ r, of None] \<open>unset_setting ?v\<close> assms(3) show False
      by (simp add: fits_project_def foreign_row_def)
  qed
  then show ?thesis by auto
qed

text \<open>Two sessions of different projects and one without a project, on the same connection.\<close>

definition sample_env :: "unit db_env" where
  "sample_env = \<lparr>en_schema = head_schema (\<lambda>_. None) (Some ''app'') (Some ''secret'') [], en_role = runtime_role, en_owner = False,
     en_uuid = Some, en_consistent = (\<lambda>_. True)\<rparr>"

definition sample_bucket :: "uuid \<Rightarrow> unit db_row" where
  "sample_bucket q = \<lparr>rw_table = ''span_metric_buckets'', rw_project = q, rw_data = ()\<rparr>"

definition sample_sessions :: "(nat \<times> string option \<times> unit use) list" where
  "sample_sessions =
     [(0, Some ''a'', Then (Insert ''span_metric_buckets'' (sample_bucket ''a'') False) (\<lambda>_. Then Commit (\<lambda>_. Leave))),
      (0, Some ''b'', Then (Delete ''span_metric_buckets'' (\<lambda>_. True)) (\<lambda>_. Leave)),
      (0, None, Then (Select ''span_metric_buckets'' (\<lambda>_. True)) (\<lambda>_. Leave))]"


end
