(* ===== verification/Audit_Gates.thy ===== *)
theory Audit_Gates
  imports Obs_Prelude "HOL-Library.List_Lexorder" "HOL-Library.Char_ord"
begin

text \<open>
  The dependency gates of the build: \<^verbatim>\<open>scripts/npm_audit_gate.py\<close> and \<^verbatim>\<open>scripts/pip_audit_gate.py\<close>. Reading and
  parsing a file, running an auditor and reading a date are parameters. A JSON object is the list of its
  members, one for each key.
\<close>

section \<open>Shared parts\<close>

text \<open>How a gate ends other than by its exit code: \<^verbatim>\<open>SystemExit\<close> with a message, or an exception.\<close>

datatype gate_exit = SystemExit string | Uncaught string

text \<open>What reading a file gives.\<close>

datatype 'a file_read = File_missing | File_invalid | File_json 'a

text \<open>The outcome of running an auditor.\<close>

record completed =
  cp_returncode :: int
  cp_stdout :: string
  cp_stderr :: string

definition load_json_file :: "json file_read \<Rightarrow> gate_exit + (string \<times> json) list" where
  "load_json_file f =
     (case f of
        File_missing \<Rightarrow> Inl (SystemExit ''allowlist file does not exist'')
      | File_invalid \<Rightarrow> Inl (SystemExit ''allowlist file is not valid JSON'')
      | File_json raw \<Rightarrow> (case raw of JObj m \<Rightarrow> Inr m | _ \<Rightarrow> Inl (SystemExit ''allowlist file must contain a JSON object'')))"

definition nonempty_text :: "json option \<Rightarrow> string option" where
  "nonempty_text v = (case v of Some (JStr s) \<Rightarrow> if s = [] then None else Some s | _ \<Rightarrow> None)"

text \<open>A list of nonempty strings.\<close>

definition advisory_list :: "json option \<Rightarrow> string list option" where
  "advisory_list v =
     (case v of
        Some (JArr xs) \<Rightarrow> (if list_all (\<lambda>x. nonempty_text (Some x) \<noteq> None) xs then Some (map (\<lambda>x. the (nonempty_text (Some x))) xs) else None)
      | _ \<Rightarrow> None)"

text \<open>The entries of a package, as \<^verbatim>\<open>allowlist.get(package, [])\<close>.\<close>

type_synonym 'e allowlist = "string \<Rightarrow> 'e list"

definition add_entry :: "string \<Rightarrow> 'e \<Rightarrow> 'e allowlist \<Rightarrow> 'e allowlist" where
  "add_entry package e al = al(package := al package @ [e])"

text \<open>The entries of the file, read one after the other.\<close>

fun load_entries :: "((string \<times> json) list \<Rightarrow> gate_exit + string \<times> 'e) \<Rightarrow> json list \<Rightarrow> 'e allowlist \<Rightarrow> gate_exit + 'e allowlist" where
  "load_entries parse [] al = Inr al"
| "load_entries parse (JObj entry # xs) al =
     (case parse entry of
        Inl e \<Rightarrow> Inl e
      | Inr (package, e) \<Rightarrow> load_entries parse xs (add_entry package e al))"
| "load_entries parse (x # xs) al = Inl (SystemExit ''each allowlist entry must be an object'')"

definition load_allowlist_with :: "((string \<times> json) list \<Rightarrow> gate_exit + string \<times> 'e) \<Rightarrow> json file_read \<Rightarrow> gate_exit + 'e allowlist" where
  "load_allowlist_with parse f =
     (case load_json_file f of
        Inl e \<Rightarrow> Inl e
      | Inr raw \<Rightarrow>
          (case map_of raw ''ignore'' of
             None \<Rightarrow> Inr (\<lambda>_. [])
           | Some (JArr entries) \<Rightarrow> load_entries parse entries (\<lambda>_. [])
           | Some _ \<Rightarrow> Inl (SystemExit (''allowlist field ignore must be a list''))))"

text \<open>Running an auditor: its output must be a JSON object and its code 0 or 1.\<close>

definition audit_result :: "(string \<Rightarrow> json option) \<Rightarrow> completed \<Rightarrow> gate_exit + (string \<times> json) list" where
  "audit_result loads c =
     (if py_strip (cp_stdout c) = []
      then Inl (SystemExit (if py_strip (cp_stderr c) = [] then ''the audit did not return JSON'' else py_strip (cp_stderr c)))
      else case loads (cp_stdout c) of
        None \<Rightarrow> Inl (SystemExit ''the audit returned invalid JSON'')
      | Some raw \<Rightarrow>
          (case raw of
             JObj m \<Rightarrow>
               (if cp_returncode c \<noteq> 0 \<and> cp_returncode c \<noteq> 1
                then Inl (SystemExit (if py_strip (cp_stderr c) = [] then ''the audit failed'' else py_strip (cp_stderr c)))
                else Inr m)
           | _ \<Rightarrow> Inl (SystemExit ''the audit JSON root must be an object'')))"

section \<open>The npm gate\<close>

datatype severity = Info | Low | Moderate | High | Critical

definition severity_of :: "string \<rightharpoonup> severity" where
  "severity_of = [''info'' \<mapsto> Info, ''low'' \<mapsto> Low, ''moderate'' \<mapsto> Moderate, ''high'' \<mapsto> High, ''critical'' \<mapsto> Critical]"

fun SEVERITY_RANK :: "severity \<Rightarrow> int" where
  "SEVERITY_RANK Info = 0"
| "SEVERITY_RANK Low = 1"
| "SEVERITY_RANK Moderate = 2"
| "SEVERITY_RANK High = 3"
| "SEVERITY_RANK Critical = 4"

record npm_entry =
  ne_package :: string
  ne_reason :: string
  ne_advisories :: "string list"

record npm_vulnerability =
  nv_package :: string
  nv_severity :: severity
  nv_advisories :: "string list"
  nv_title :: string

definition npm_parse_entry :: "(string \<times> json) list \<Rightarrow> gate_exit + string \<times> npm_entry" where
  "npm_parse_entry entry =
     (case nonempty_text (map_of entry ''package'') of
        None \<Rightarrow> Inl (SystemExit ''each allowlist entry needs a non-empty package'')
      | Some package \<Rightarrow>
          (case nonempty_text (map_of entry ''reason'') of
             None \<Rightarrow> Inl (SystemExit (''allowlist entry for '' @ package @ '' needs a reason''))
           | Some reason \<Rightarrow>
               (case advisory_list (case map_of entry ''advisories'' of None \<Rightarrow> Some (JArr []) | Some v \<Rightarrow> Some v) of
                  None \<Rightarrow> Inl (SystemExit (''allowlist entry for '' @ package @ '' has invalid advisories''))
                | Some advisories \<Rightarrow> Inr (package, \<lparr>ne_package = package, ne_reason = reason, ne_advisories = advisories\<rparr>))))"

definition npm_load_allowlist :: "json file_read \<Rightarrow> gate_exit + npm_entry allowlist" where
  "npm_load_allowlist f = load_allowlist_with npm_parse_entry f"

text \<open>Lists and objects cannot be looked up in a dictionary.\<close>

definition as_severity :: "json option \<Rightarrow> gate_exit + severity" where
  "as_severity v =
     (case v of
        Some (JStr s) \<Rightarrow> Inr (case severity_of s of None \<Rightarrow> Info | Some x \<Rightarrow> x)
      | Some (JArr _) \<Rightarrow> Inl (Uncaught ''TypeError'')
      | Some (JObj _) \<Rightarrow> Inl (Uncaught ''TypeError'')
      | _ \<Rightarrow> Inr Info)"

definition advisory_ids :: "json option \<Rightarrow> string list" where
  "advisory_ids via =
     (case via of
        Some (JArr items) \<Rightarrow> concat (map (\<lambda>item. case item of
            JStr s \<Rightarrow> [s]
          | JObj m \<Rightarrow> concat (map (\<lambda>field. case nonempty_text (map_of m field) of None \<Rightarrow> [] | Some s \<Rightarrow> [s]) [''source'', ''url'', ''title''])
          | _ \<Rightarrow> []) items)
      | _ \<Rightarrow> [])"

fun first_title :: "json list \<Rightarrow> string option" where
  "first_title [] = None"
| "first_title (JObj m # items) = (case map_of m ''title'' of Some (JStr s) \<Rightarrow> Some s | _ \<Rightarrow> first_title items)"
| "first_title (_ # items) = first_title items"

definition npm_vulnerability_of :: "string \<Rightarrow> (string \<times> json) list \<Rightarrow> gate_exit + npm_vulnerability" where
  "npm_vulnerability_of package details =
     (case as_severity (map_of details ''severity'') of
        Inl e \<Rightarrow> Inl e
      | Inr s \<Rightarrow>
          Inr \<lparr>nv_package = package, nv_severity = s, nv_advisories = advisory_ids (map_of details ''via''),
               nv_title = (case map_of details ''via'' of
                             Some (JArr items) \<Rightarrow> (case first_title items of None \<Rightarrow> package | Some t \<Rightarrow> t)
                           | _ \<Rightarrow> package)\<rparr>)"

fun npm_collect :: "(string \<times> json) list \<Rightarrow> gate_exit + npm_vulnerability list" where
  "npm_collect [] = Inr []"
| "npm_collect ((package, JObj details) # xs) =
     (case npm_vulnerability_of package details of
        Inl e \<Rightarrow> Inl e
      | Inr v \<Rightarrow> (case npm_collect xs of Inl e \<Rightarrow> Inl e | Inr vs \<Rightarrow> Inr (v # vs)))"
| "npm_collect ((package, _) # xs) = npm_collect xs"

definition npm_vulnerabilities :: "(string \<times> json) list \<Rightarrow> gate_exit + npm_vulnerability list" where
  "npm_vulnerabilities raw =
     (case map_of raw ''vulnerabilities'' of
        None \<Rightarrow> Inr []
      | Some (JObj m) \<Rightarrow> npm_collect m
      | Some _ \<Rightarrow> Inl (SystemExit ''npm audit JSON did not contain a vulnerabilities object''))"

definition npm_is_allowed :: "npm_vulnerability \<Rightarrow> npm_entry allowlist \<Rightarrow> bool" where
  "npm_is_allowed v al =
     list_ex (\<lambda>e. ne_advisories e = [] \<or> list_ex (\<lambda>a. a \<in> set (ne_advisories e)) (nv_advisories v)) (al (nv_package v))"

text \<open>The exit code and the reported packages, worst first.\<close>

definition npm_main :: "(string \<Rightarrow> json option) \<Rightarrow> json file_read \<Rightarrow> severity \<Rightarrow> completed \<Rightarrow> gate_exit + int \<times> (string \<times> severity) list" where
  "npm_main loads f audit_level c =
     (case npm_load_allowlist f of
        Inl e \<Rightarrow> Inl e
      | Inr al \<Rightarrow>
          (case audit_result loads c of
             Inl e \<Rightarrow> Inl e
           | Inr raw \<Rightarrow>
               (case npm_vulnerabilities raw of
                  Inl e \<Rightarrow> Inl e
                | Inr vs \<Rightarrow>
                    (let failing = filter (\<lambda>v. SEVERITY_RANK audit_level \<le> SEVERITY_RANK (nv_severity v) \<and> \<not> npm_is_allowed v al) vs
                     in Inr (if failing = [] then (0, [])
                             else (1, map (\<lambda>v. (nv_package v, nv_severity v))
                                        (sort_key (\<lambda>v. - SEVERITY_RANK (nv_severity v)) (sort_key nv_package failing))))))))"

section \<open>The pip gate\<close>

record pip_entry =
  pe_package :: string
  pe_advisories :: "string list"
  pe_reason :: string
  pe_expires :: int

record pip_vulnerability =
  pv_project :: string
  pv_package :: string
  pv_version :: string
  pv_advisory :: string
  pv_fix_versions :: "string list"

definition parse_expiry :: "(string \<Rightarrow> int option) \<Rightarrow> json option \<Rightarrow> string \<Rightarrow> gate_exit + int" where
  "parse_expiry fromisoformat v package =
     (case nonempty_text v of
        None \<Rightarrow> Inl (SystemExit (''allowlist entry for '' @ package @ '' needs an expires date''))
      | Some s \<Rightarrow>
          (case fromisoformat s of
             None \<Rightarrow> Inl (SystemExit (''allowlist entry for '' @ package @ '' has invalid expires date: '' @ s))
           | Some d \<Rightarrow> Inr d))"

definition pip_parse_entry :: "(string \<Rightarrow> int option) \<Rightarrow> int \<Rightarrow> (string \<times> json) list \<Rightarrow> gate_exit + string \<times> pip_entry" where
  "pip_parse_entry fromisoformat today entry =
     (case nonempty_text (map_of entry ''package'') of
        None \<Rightarrow> Inl (SystemExit ''each allowlist entry needs a non-empty package'')
      | Some package \<Rightarrow>
          (case advisory_list (map_of entry ''advisories'') of
             None \<Rightarrow> Inl (SystemExit (''allowlist entry for '' @ package @ '' needs advisories''))
           | Some advisories \<Rightarrow>
               (case nonempty_text (map_of entry ''reason'') of
                  None \<Rightarrow> Inl (SystemExit (''allowlist entry for '' @ package @ '' needs a reason''))
                | Some reason \<Rightarrow>
                    (case parse_expiry fromisoformat (map_of entry ''expires'') package of
                       Inl e \<Rightarrow> Inl e
                     | Inr expires \<Rightarrow>
                         if expires < today then Inl (SystemExit (''allowlist entry for '' @ package @ '' expired''))
                         else Inr (package, \<lparr>pe_package = package, pe_advisories = advisories, pe_reason = reason, pe_expires = expires\<rparr>)))))"

definition pip_load_allowlist :: "(string \<Rightarrow> int option) \<Rightarrow> int \<Rightarrow> json file_read \<Rightarrow> gate_exit + pip_entry allowlist" where
  "pip_load_allowlist fromisoformat today f = load_allowlist_with (pip_parse_entry fromisoformat today) f"

definition text_of :: "json option \<Rightarrow> string option" where
  "text_of v = (case v of Some (JStr s) \<Rightarrow> Some s | _ \<Rightarrow> None)"

definition pip_vuln :: "string \<Rightarrow> string \<Rightarrow> string \<Rightarrow> json \<Rightarrow> pip_vulnerability list" where
  "pip_vuln project package version vuln =
     (case vuln of
        JObj m \<Rightarrow>
          (case text_of (map_of m ''id'') of
             None \<Rightarrow> []
           | Some advisory \<Rightarrow>
               [\<lparr>pv_project = project, pv_package = package, pv_version = version, pv_advisory = advisory,
                 pv_fix_versions = (case map_of m ''fix_versions'' of
                     Some (JArr xs) \<Rightarrow> (if list_all (\<lambda>x. text_of (Some x) \<noteq> None) xs then map (\<lambda>x. the (text_of (Some x))) xs else [])
                   | _ \<Rightarrow> [])\<rparr>])
      | _ \<Rightarrow> [])"

definition pip_dependency :: "string \<Rightarrow> json \<Rightarrow> pip_vulnerability list" where
  "pip_dependency project dependency =
     (case dependency of
        JObj m \<Rightarrow>
          (case (text_of (map_of m ''name''), text_of (map_of m ''version'')) of
             (Some package, Some version) \<Rightarrow>
               (case map_of m ''vulns'' of
                  None \<Rightarrow> []
                | Some (JArr vulns) \<Rightarrow> concat (map (pip_vuln project package version) vulns)
                | Some _ \<Rightarrow> [])
           | _ \<Rightarrow> [])
      | _ \<Rightarrow> [])"

definition pip_vulnerabilities :: "string \<Rightarrow> (string \<times> json) list \<Rightarrow> gate_exit + pip_vulnerability list" where
  "pip_vulnerabilities project audit =
     (case map_of audit ''dependencies'' of
        None \<Rightarrow> Inr []
      | Some (JArr ds) \<Rightarrow> Inr (concat (map (pip_dependency project) ds))
      | Some _ \<Rightarrow> Inl (SystemExit (''pip-audit JSON did not contain dependencies: '' @ project)))"

definition pip_is_allowed :: "pip_vulnerability \<Rightarrow> pip_entry allowlist \<Rightarrow> bool" where
  "pip_is_allowed v al = list_ex (\<lambda>e. pv_advisory v \<in> set (pe_advisories e)) (al (pv_package v))"

fun pip_collect :: "(string \<Rightarrow> json option) \<Rightarrow> (string \<Rightarrow> completed) \<Rightarrow> string list \<Rightarrow> gate_exit + pip_vulnerability list" where
  "pip_collect loads run [] = Inr []"
| "pip_collect loads run (project # ps) =
     (case audit_result loads (run project) of
        Inl e \<Rightarrow> Inl e
      | Inr raw \<Rightarrow>
          (case pip_vulnerabilities project raw of
             Inl e \<Rightarrow> Inl e
           | Inr vs \<Rightarrow> (case pip_collect loads run ps of Inl e \<Rightarrow> Inl e | Inr ws \<Rightarrow> Inr (vs @ ws))))"

definition pip_main :: "(string \<Rightarrow> json option) \<Rightarrow> (string \<Rightarrow> int option) \<Rightarrow> int \<Rightarrow> json file_read \<Rightarrow> (string \<Rightarrow> completed) \<Rightarrow> string list
    \<Rightarrow> gate_exit + int \<times> pip_vulnerability list" where
  "pip_main loads fromisoformat today f run projects =
     (case pip_load_allowlist fromisoformat today f of
        Inl e \<Rightarrow> Inl e
      | Inr al \<Rightarrow>
          (case pip_collect loads run projects of
             Inl e \<Rightarrow> Inl e
           | Inr vs \<Rightarrow>
               (let failing = filter (\<lambda>v. \<not> pip_is_allowed v al) vs
                in Inr (if failing = [] then (0, [])
                        else (1, sort_key pv_project (sort_key pv_package (sort_key pv_advisory failing)))))))"

section \<open>What the gates decide\<close>

lemma load_entries_set:
  assumes "load_entries parse xs al = Inr al'"
  shows "e \<in> set (al' package) \<longleftrightarrow> e \<in> set (al package) \<or> (\<exists>entry. JObj entry \<in> set xs \<and> parse entry = Inr (package, e))"
  using assms
proof (induction parse xs al arbitrary: al' rule: load_entries.induct)
  case (2 parse entry xs al)
  then obtain p d where p: "parse entry = Inr (p, d)" "load_entries parse xs (add_entry p d al) = Inr al'"
    by (auto split: sum.splits)
  from "2.IH" [OF p(1) refl p(2)] p(1) show ?case by (auto simp: add_entry_def)
qed simp_all

lemma load_entries_parsed:
  assumes "load_entries parse xs al = Inr al'" and "JObj entry \<in> set xs"
  shows "\<exists>package e. parse entry = Inr (package, e)"
  using assms by (induction parse xs al rule: load_entries.induct) (auto split: sum.splits)

text \<open>The entries of a loaded file.\<close>

definition file_entry :: "json file_read \<Rightarrow> (string \<times> json) list \<Rightarrow> bool" where
  "file_entry f entry \<longleftrightarrow> (\<exists>a entries. f = File_json (JObj a) \<and> map_of a ''ignore'' = Some (JArr entries) \<and> JObj entry \<in> set entries)"

lemma load_allowlist_entries:
  assumes "load_allowlist_with parse f = Inr al"
  shows "e \<in> set (al package) \<longleftrightarrow> (\<exists>entry. file_entry f entry \<and> parse entry = Inr (package, e))"
proof -
  obtain a where a: "f = File_json (JObj a)"
    using assms by (auto simp: load_allowlist_with_def load_json_file_def split: file_read.splits json.splits)
  show ?thesis
  proof (cases "map_of a ''ignore''")
    case None
    with assms a show ?thesis by (auto simp: load_allowlist_with_def load_json_file_def file_entry_def)
  next
    case (Some v)
    with assms a obtain entries where v: "v = JArr entries" "load_entries parse entries (\<lambda>_. []) = Inr al"
      by (cases v) (simp_all add: load_allowlist_with_def load_json_file_def)
    from load_entries_set [OF v(2)] Some v(1) a show ?thesis by (simp add: file_entry_def)
  qed
qed

lemma load_allowlist_parsed:
  assumes "load_allowlist_with parse f = Inr al" and "file_entry f entry"
  shows "\<exists>package e. parse entry = Inr (package, e)"
proof -
  obtain a entries where a: "f = File_json (JObj a)" "map_of a ''ignore'' = Some (JArr entries)" "JObj entry \<in> set entries"
    using assms(2) by (auto simp: file_entry_def)
  with assms(1) have "load_entries parse entries (\<lambda>_. []) = Inr al" by (simp add: load_allowlist_with_def load_json_file_def)
  from load_entries_parsed [OF this a(3)] show ?thesis .
qed

text \<open>A vulnerability that the audit reports, and an entry that covers it.\<close>

definition npm_reports :: "(string \<times> json) list \<Rightarrow> string \<Rightarrow> (string \<times> json) list \<Rightarrow> severity \<Rightarrow> bool" where
  "npm_reports audit package details s \<longleftrightarrow> (\<exists>m. map_of audit ''vulnerabilities'' = Some (JObj m) \<and> (package, JObj details) \<in> set m) \<and>
     as_severity (map_of details ''severity'') = Inr s"

definition npm_covers :: "(string \<times> json) list \<Rightarrow> string \<Rightarrow> (string \<times> json) list \<Rightarrow> bool" where
  "npm_covers entry package details \<longleftrightarrow> (\<exists>e. npm_parse_entry entry = Inr (package, e) \<and>
     (ne_advisories e = [] \<or> set (ne_advisories e) \<inter> set (advisory_ids (map_of details ''via'')) \<noteq> {}))"

lemma npm_collect_set:
  assumes "npm_collect m = Inr vs"
  shows "v \<in> set vs \<longleftrightarrow> (\<exists>package details. (package, JObj details) \<in> set m \<and> npm_vulnerability_of package details = Inr v)"
  using assms by (induction m arbitrary: vs rule: npm_collect.induct) ((auto split: sum.splits)[1]; blast?)+

lemma npm_vulnerability_of_Inr:
  assumes "npm_vulnerability_of package details = Inr v"
  shows "nv_package v = package \<and> as_severity (map_of details ''severity'') = Inr (nv_severity v) \<and>
    nv_advisories v = advisory_ids (map_of details ''via'')"
  using assms unfolding npm_vulnerability_of_def by (cases "as_severity (map_of details ''severity'')") auto

text \<open>
  The npm gate is exact. When it returns, it was given an allowlist and an audit as JSON objects, and
  its code is 0 exactly when every reported vulnerability of at least the given severity is covered
  by an entry of the file, and 1 otherwise.
\<close>

theorem npm_gate_is_exact:
  assumes "npm_main loads f audit_level c = Inr (code, report)"
  shows "\<exists>audit. loads (cp_stdout c) = Some (JObj audit) \<and> code = (if \<forall>package details s. npm_reports audit package details s \<and>
      SEVERITY_RANK audit_level \<le> SEVERITY_RANK s \<longrightarrow> (\<exists>entry. file_entry f entry \<and> npm_covers entry package details) then 0 else 1)"
proof -
  obtain al where al: "npm_load_allowlist f = Inr al" using assms by (auto simp: npm_main_def split: sum.splits)
  obtain raw where raw: "audit_result loads c = Inr raw" using assms al by (auto simp: npm_main_def split: sum.splits)
  obtain vs where vs: "npm_vulnerabilities raw = Inr vs" using assms al raw by (auto simp: npm_main_def split: sum.splits)
  let ?bad = "\<lambda>v. SEVERITY_RANK audit_level \<le> SEVERITY_RANK (nv_severity v) \<and> \<not> npm_is_allowed v al"
  have code: "code = (if \<forall>v \<in> set vs. \<not> ?bad v then 0 else 1)"
    using assms by (auto simp: npm_main_def al raw vs Let_def filter_empty_conv split: if_splits)
  have loads: "loads (cp_stdout c) = Some (JObj raw)"
    using raw by (auto simp: audit_result_def split: if_splits option.splits json.splits)
  have allowed: "npm_is_allowed v al \<longleftrightarrow> (\<exists>entry. file_entry f entry \<and> npm_covers entry (nv_package v) details)"
    if "nv_advisories v = advisory_ids (map_of details ''via'')" for v details
    using that load_allowlist_entries [OF al [unfolded npm_load_allowlist_def]]
    by (fastforce simp: npm_is_allowed_def list_ex_iff npm_covers_def)
  have reports: "(\<forall>v \<in> set vs. P v) \<longleftrightarrow> (\<forall>package details s. npm_reports raw package details s \<longrightarrow>
      (\<forall>v. npm_vulnerability_of package details = Inr v \<longrightarrow> P v))" for P
  proof (cases "map_of raw ''vulnerabilities''")
    case None
    with vs show ?thesis by (simp add: npm_vulnerabilities_def npm_reports_def)
  next
    case (Some x)
    with vs obtain m where m: "x = JObj m" "npm_collect m = Inr vs" by (cases x) (simp_all add: npm_vulnerabilities_def)
    have "(\<forall>v \<in> set vs. P v) \<longleftrightarrow> (\<forall>package details v. (package, JObj details) \<in> set m \<longrightarrow> npm_vulnerability_of package details = Inr v \<longrightarrow> P v)"
      using npm_collect_set [OF m(2)] by blast
    with Some m(1) show ?thesis using npm_vulnerability_of_Inr unfolding npm_reports_def by fastforce
  qed
  have one: "(\<forall>v. npm_vulnerability_of package details = Inr v \<longrightarrow> \<not> ?bad v) \<longleftrightarrow>
      (SEVERITY_RANK audit_level \<le> SEVERITY_RANK s \<longrightarrow> (\<exists>entry. file_entry f entry \<and> npm_covers entry package details))"
    if "npm_reports raw package details s" for package details s
  proof -
    have sev: "as_severity (map_of details ''severity'') = Inr s" using that by (simp add: npm_reports_def)
    then obtain v where v: "npm_vulnerability_of package details = Inr v" by (simp add: npm_vulnerability_of_def)
    from npm_vulnerability_of_Inr [OF v] sev allowed [of v details] v show ?thesis by auto
  qed
  have "(\<forall>v \<in> set vs. \<not> ?bad v) \<longleftrightarrow> (\<forall>package details s. npm_reports raw package details s \<longrightarrow>
      (SEVERITY_RANK audit_level \<le> SEVERITY_RANK s \<longrightarrow> (\<exists>entry. file_entry f entry \<and> npm_covers entry package details)))"
    unfolding reports using one by simp
  note decided = this
  show ?thesis unfolding imp_conjL by (rule exI [of _ raw]) (simp only: loads code decided simp_thms)
qed

text \<open>
  The gate does not ask whether the audit took place. An answer without vulnerabilities, such as the
  error report of a registry that cannot be reached, passes.
\<close>

theorem npm_gate_passes_without_audit:
  assumes "npm_load_allowlist f = Inr al" and "loads (cp_stdout c) = Some (JObj audit)" and "py_strip (cp_stdout c) \<noteq> []"
    and "cp_returncode c = 1" and "map_of audit ''vulnerabilities'' = None"
  shows "npm_main loads f audit_level c = Inr (0, [])"
  using assms by (simp add: npm_main_def audit_result_def npm_vulnerabilities_def)

text \<open>The same for the pip gate.\<close>

definition pip_reports :: "(string \<times> json) list \<Rightarrow> string \<Rightarrow> string \<Rightarrow> bool" where
  "pip_reports audit package advisory \<longleftrightarrow> (\<exists>ds m version vulns vuln. map_of audit ''dependencies'' = Some (JArr ds) \<and> JObj m \<in> set ds \<and>
     map_of m ''name'' = Some (JStr package) \<and> map_of m ''version'' = Some (JStr version) \<and> map_of m ''vulns'' = Some (JArr vulns) \<and>
     JObj vuln \<in> set vulns \<and> map_of vuln ''id'' = Some (JStr advisory))"

definition pip_covers :: "(string \<Rightarrow> int option) \<Rightarrow> int \<Rightarrow> (string \<times> json) list \<Rightarrow> string \<Rightarrow> string \<Rightarrow> bool" where
  "pip_covers fromisoformat today entry package advisory \<longleftrightarrow>
     (\<exists>e. pip_parse_entry fromisoformat today entry = Inr (package, e) \<and> advisory \<in> set (pe_advisories e) \<and> today \<le> pe_expires e)"

lemma text_of_Some: "text_of v = Some s \<longleftrightarrow> v = Some (JStr s)"
  by (auto simp: text_of_def split: option.splits json.splits)

lemma text_of_Str: "text_of (Some (JStr s)) = Some s"
  by (simp add: text_of_def)

lemma pip_vuln_set:
  "(\<exists>v \<in> set (pip_vuln project package version vuln). P (pv_package v) (pv_advisory v)) \<longleftrightarrow>
     (\<exists>m a. vuln = JObj m \<and> map_of m ''id'' = Some (JStr a) \<and> P package a)"
proof (cases vuln)
  case (JObj m)
  then show ?thesis
    by (cases "text_of (map_of m ''id'')") (auto simp: pip_vuln_def text_of_Some text_of_Str)
qed (simp_all add: pip_vuln_def)

lemma pip_dependency_set:
  "v \<in> set (pip_dependency project d) \<longleftrightarrow>
     (\<exists>m package version vulns vuln. d = JObj m \<and> map_of m ''name'' = Some (JStr package) \<and> map_of m ''version'' = Some (JStr version) \<and>
        map_of m ''vulns'' = Some (JArr vulns) \<and> vuln \<in> set vulns \<and> v \<in> set (pip_vuln project package version vuln))"
proof (cases d)
  case (JObj m)
  show ?thesis
  proof (cases "text_of (map_of m ''name'')"; cases "text_of (map_of m ''version'')")
    fix package version
    assume "text_of (map_of m ''name'') = Some package" "text_of (map_of m ''version'') = Some version"
    then have "map_of m ''name'' = Some (JStr package)" "map_of m ''version'' = Some (JStr version)" by (simp_all only: text_of_Some)
    then show ?thesis using JObj
      by (auto simp: pip_dependency_def text_of_Str split: option.splits json.splits) metis+
  qed (use JObj in \<open>simp_all add: pip_dependency_def text_of_def split: option.splits json.splits\<close>)
qed (simp_all add: pip_dependency_def)

lemma pip_vulnerabilities_set:
  assumes "pip_vulnerabilities project audit = Inr vs"
  shows "(\<forall>v \<in> set vs. P (pv_package v) (pv_advisory v)) \<longleftrightarrow> (\<forall>package advisory. pip_reports audit package advisory \<longrightarrow> P package advisory)"
proof (cases "map_of audit ''dependencies''")
  case None
  with assms show ?thesis by (simp add: pip_vulnerabilities_def pip_reports_def)
next
  case (Some x)
  with assms obtain ds where ds: "x = JArr ds" "vs = concat (map (pip_dependency project) ds)"
    by (cases x) (simp_all add: pip_vulnerabilities_def)
  have "(\<exists>v \<in> set vs. Q (pv_package v) (pv_advisory v)) \<longleftrightarrow> (\<exists>package advisory. pip_reports audit package advisory \<and> Q package advisory)" for Q
  proof -
    have "(\<exists>v \<in> set vs. Q (pv_package v) (pv_advisory v)) \<longleftrightarrow>
        (\<exists>m package version vulns vuln. JObj m \<in> set ds \<and> map_of m ''name'' = Some (JStr package) \<and> map_of m ''version'' = Some (JStr version) \<and>
           map_of m ''vulns'' = Some (JArr vulns) \<and> vuln \<in> set vulns \<and>
           (\<exists>v \<in> set (pip_vuln project package version vuln). Q (pv_package v) (pv_advisory v)))"
      unfolding ds(2) by (simp add: Bex_def pip_dependency_set) blast
    then show ?thesis unfolding pip_vuln_set pip_reports_def Some ds(1) by (simp only: option.inject json.inject) blast
  qed
  from this [of "\<lambda>p a. \<not> P p a"] show ?thesis by blast
qed

lemma pip_collect_set:
  assumes "pip_collect loads run projects = Inr vs"
  shows "(\<forall>v \<in> set vs. P (pv_package v) (pv_advisory v)) \<longleftrightarrow>
    (\<forall>project \<in> set projects. \<exists>audit. loads (cp_stdout (run project)) = Some (JObj audit) \<and>
       (\<forall>package advisory. pip_reports audit package advisory \<longrightarrow> P package advisory))"
  using assms
proof (induction projects arbitrary: vs)
  case (Cons project ps)
  obtain raw where raw: "audit_result loads (run project) = Inr raw" using Cons.prems by (auto split: sum.splits)
  obtain us where us: "pip_vulnerabilities project raw = Inr us" using Cons.prems raw by (auto split: sum.splits)
  obtain ws where ws: "pip_collect loads run ps = Inr ws" "vs = us @ ws" using Cons.prems raw us by (auto split: sum.splits)
  have "loads (cp_stdout (run project)) = Some (JObj raw)"
    using raw by (auto simp: audit_result_def split: if_splits option.splits json.splits)
  with Cons.IH [OF ws(1)] pip_vulnerabilities_set [OF us, of P] ws(2) show ?case by (simp add: ball_Un)
qed simp

text \<open>
  The pip gate is exact. When it returns, no entry of the allowlist has expired, and its code is 0
  exactly when every advisory that an audit reports for a package is named by an entry for that package.
\<close>

theorem pip_gate_is_exact:
  assumes "pip_main loads fromisoformat today f run projects = Inr (code, report)"
  shows "(\<forall>entry. file_entry f entry \<longrightarrow> (\<exists>package d s. nonempty_text (map_of entry ''package'') = Some package \<and>
      map_of entry ''expires'' = Some (JStr s) \<and> fromisoformat s = Some d \<and> today \<le> d)) \<and>
    code = (if \<forall>project \<in> set projects. \<exists>audit. loads (cp_stdout (run project)) = Some (JObj audit) \<and>
        (\<forall>package advisory. pip_reports audit package advisory \<longrightarrow>
           (\<exists>entry. file_entry f entry \<and> pip_covers fromisoformat today entry package advisory)) then 0 else 1)"
proof -
  obtain al where al: "pip_load_allowlist fromisoformat today f = Inr al" using assms by (auto simp: pip_main_def split: sum.splits)
  obtain vs where vs: "pip_collect loads run projects = Inr vs" using assms al by (auto simp: pip_main_def split: sum.splits)
  have parsed: "e = \<lparr>pe_package = package, pe_advisories = pe_advisories e, pe_reason = pe_reason e, pe_expires = pe_expires e\<rparr> \<and>
      nonempty_text (map_of entry ''package'') = Some package \<and> today \<le> pe_expires e \<and>
      (\<exists>s. map_of entry ''expires'' = Some (JStr s) \<and> fromisoformat s = Some (pe_expires e))"
    if "pip_parse_entry fromisoformat today entry = Inr (package, e)" for entry package e
    using that by (auto simp: pip_parse_entry_def parse_expiry_def nonempty_text_def split: option.splits json.splits sum.splits if_splits)
  have code: "code = (if \<forall>v \<in> set vs. pip_is_allowed v al then 0 else 1)"
    using assms by (auto simp: pip_main_def al vs Let_def filter_empty_conv split: if_splits)
  have allowed: "pip_is_allowed v al \<longleftrightarrow> (\<exists>entry. file_entry f entry \<and> pip_covers fromisoformat today entry (pv_package v) (pv_advisory v))" for v
    using load_allowlist_entries [OF al [unfolded pip_load_allowlist_def]] parsed
    by (fastforce simp: pip_is_allowed_def list_ex_iff pip_covers_def)
  have "\<exists>package d s. nonempty_text (map_of entry ''package'') = Some package \<and>
      map_of entry ''expires'' = Some (JStr s) \<and> fromisoformat s = Some d \<and> today \<le> d" if "file_entry f entry" for entry
    using load_allowlist_parsed [OF al [unfolded pip_load_allowlist_def] that] parsed by blast
  with code show ?thesis unfolding allowed
    by (simp only: pip_collect_set [OF vs, of "\<lambda>p a. \<exists>entry. file_entry f entry \<and> pip_covers fromisoformat today entry p a"] simp_thms) blast
qed

text \<open>An entry for an advisory, with an expiry, and audits that report it.\<close>

definition sample_allowlist :: "json file_read" where
  "sample_allowlist = File_json (JObj [(''ignore'', JArr [JObj [(''package'', JStr ''ecdsa''), (''advisories'', JArr [JStr ''A-1'']),
     (''reason'', JStr ''not used''), (''expires'', JStr ''2026-09-30'')]])])"

definition sample_audit :: "string \<Rightarrow> json" where
  "sample_audit advisory = JObj [(''dependencies'', JArr [JObj [(''name'', JStr ''ecdsa''), (''version'', JStr ''1''),
     (''vulns'', JArr [JObj [(''id'', JStr advisory)]])], JObj [(''name'', JStr ''skipped'')]])]"

definition sample_run :: "string \<Rightarrow> string \<Rightarrow> completed" where
  "sample_run out project = \<lparr>cp_returncode = 1, cp_stdout = out, cp_stderr = []\<rparr>"

definition sample_gate :: "string \<Rightarrow> gate_exit + int \<times> pip_vulnerability list" where
  "sample_gate out = pip_main (\<lambda>s. Some (sample_audit s)) (\<lambda>s. if s = ''2026-09-30'' then Some 20 else None) 10 sample_allowlist
     (sample_run out) [''backend'']"

lemma sample_gate_codes: "map_sum id fst (sample_gate ''A-1'') = Inr 0" "map_sum id fst (sample_gate ''A-2'') = Inr 1"
  by code_simp+

theorem pip_gate_is_exact_witness:
  "\<exists>entry. file_entry sample_allowlist entry \<and>
     pip_covers (\<lambda>s. if s = ''2026-09-30'' then Some 20 else None) 10 entry ''ecdsa'' ''A-1''"
proof -
  obtain report where run: "pip_main (\<lambda>s. Some (sample_audit s)) (\<lambda>s. if s = ''2026-09-30'' then Some 20 else None) 10 sample_allowlist
      (sample_run ''A-1'') [''backend''] = Inr (0, report)"
    using sample_gate_codes(1) by (cases "sample_gate ''A-1''") (auto simp: sample_gate_def)
  have report: "pip_reports m ''ecdsa'' ''A-1''" if "sample_audit ''A-1'' = JObj m" for m
    using that by (auto simp: sample_audit_def pip_reports_def conj_disj_distribR ex_disj_distrib)
  obtain m where m: "sample_audit (cp_stdout (sample_run ''A-1'' ''backend'')) = JObj m" "sample_audit ''A-1'' = JObj m"
    by (simp add: sample_audit_def sample_run_def)
  from pip_gate_is_exact [OF run] report [OF m(2)] m(1) show ?thesis by (auto split: if_splits)
qed

end
