(* ===== verification/App_Shell.thy ===== *)
theory App_Shell
  imports Obs_Prelude
begin

text \<open>
  What surrounds the application: the payload bucket (\<^verbatim>\<open>services/storage.py\<close>), start-up and shutdown (\<^verbatim>\<open>main.py\<close>),
  and the gauges of the monitoring (\<^verbatim>\<open>core/metrics.py\<close>). The object store, the resources that are closed, Redis,
  the database query and the parsers of JSON and of dates are parameters.
\<close>

section \<open>The payload bucket\<close>

text \<open>An exception of the object store: a \<^verbatim>\<open>ClientError\<close> with its code and HTTP status, or another.\<close>

datatype s3_exception = ClientError "string option" "int option" | OtherError string

definition MISSING_BUCKET_CODES :: "string set" where
  "MISSING_BUCKET_CODES = {''404'', ''NoSuchBucket'', ''NotFound''}"

fun is_missing_bucket_error :: "s3_exception \<Rightarrow> bool" where
  "is_missing_bucket_error (ClientError code http_status) \<longleftrightarrow>
     (case code of None \<Rightarrow> [] | Some c \<Rightarrow> c) \<in> MISSING_BUCKET_CODES \<or> http_status = Some 404"
| "is_missing_bucket_error (OtherError _) \<longleftrightarrow> False"

text \<open>The calls give \<open>None\<close> or an exception, and the next state of the store.\<close>

definition check_payload_bucket :: "('s \<Rightarrow> s3_exception option \<times> 's) \<Rightarrow> 's \<Rightarrow> string \<times> 's" where
  "check_payload_bucket head_bucket s3 =
     (case head_bucket s3 of
        (None, s3') \<Rightarrow> (''ok'', s3')
      | (Some exc, s3') \<Rightarrow> (if is_missing_bucket_error exc then ''missing'' else ''degraded'', s3'))"

definition ensure_payload_bucket :: "('s \<Rightarrow> s3_exception option \<times> 's) \<Rightarrow> ('s \<Rightarrow> s3_exception option \<times> 's) \<Rightarrow> 's \<Rightarrow> string \<times> 's" where
  "ensure_payload_bucket head_bucket create_bucket s3 =
     (case head_bucket s3 of
        (None, s3') \<Rightarrow> (''ok'', s3')
      | (Some exc, s3') \<Rightarrow>
          if \<not> is_missing_bucket_error exc then (''degraded'', s3')
          else (case create_bucket s3' of
                  (None, s3'') \<Rightarrow> (''created'', s3'')
                | (Some _, s3'') \<Rightarrow> (''degraded'', s3'')))"

section \<open>Start-up and shutdown\<close>

text \<open>A step either succeeds or raises; both change the resources.\<close>

type_synonym 'w app_step = "'w \<Rightarrow> string option \<times> 'w"

text \<open>
  The steps of the shutdown, with the failures that are logged. All steps run.
\<close>

fun close_all :: "(string \<times> 'w app_step) list \<Rightarrow> 'w \<Rightarrow> (string \<times> string) list \<times> 'w" where
  "close_all [] w = ([], w)"
| "close_all ((name, close) # steps) w =
     (case close w of
        (error, w') \<Rightarrow>
          (case close_all steps w' of
             (logged, w'') \<Rightarrow> ((case error of None \<Rightarrow> logged | Some e \<Rightarrow> (name, e) # logged), w'')))"

text \<open>
  The lifespan: the bucket is looked at, Redis and the listener are started, the application serves
  and may raise, and what was opened is closed. A failure before serving is raised at once.
\<close>

definition lifespan :: "('w \<Rightarrow> string \<times> 'w) \<Rightarrow> 'w app_step \<Rightarrow> 'w app_step \<Rightarrow> (string \<Rightarrow> 'w app_step) \<Rightarrow> 'w app_step \<Rightarrow> 'w app_step \<Rightarrow> 'w app_step
    \<Rightarrow> 'w \<Rightarrow> (string option \<times> (string \<times> string) list) \<times> 'w" where
  "lifespan ensure_bucket open_redis start_pubsub serve stop_pubsub close_redis close_engines w =
     (case ensure_bucket w of
        (bucket_status, w1) \<Rightarrow>
          (case open_redis w1 of
             (Some e, w2) \<Rightarrow> ((Some e, []), w2)
           | (None, w2) \<Rightarrow>
               (case start_pubsub w2 of
                  (Some e, w3) \<Rightarrow> ((Some e, []), w3)
                | (None, w3) \<Rightarrow>
                    (case serve bucket_status w3 of
                       (raised, w4) \<Rightarrow>
                         (case close_all [(''pubsub'', stop_pubsub), (''redis'', close_redis), (''database'', close_engines)] w4 of
                            (logged, w5) \<Rightarrow> ((raised, logged), w5))))))"

section \<open>The age of the oldest job\<close>

definition TASKIQ_QUEUE_NAME :: string where
  "TASKIQ_QUEUE_NAME = ''taskiq''"

definition TASKIQ_QUEUE_TIMESTAMP_KEYS :: "string list" where
  "TASKIQ_QUEUE_TIMESTAMP_KEYS = [''enqueued_at'', ''queued_at'', ''created_at'', ''sent_at'', ''timestamp'']"

definition replace_Z :: "string \<Rightarrow> string" where
  "replace_Z s = concat (map (\<lambda>c. if c = CHR ''Z'' then ''+00:00'' else [c]) s)"

text \<open>
  The readers of dates: an ISO text gives a local time and, if it has one, its offset; a number gives
  an instant or fails.
\<close>

record date_readers =
  dr_fromisoformat :: "string \<Rightarrow> (time \<times> int option) option"
  dr_fromtimestamp :: "rat \<Rightarrow> time option"
  dr_loads :: "string \<Rightarrow> json option"

definition parse_timestamp_value :: "date_readers \<Rightarrow> json option \<Rightarrow> time option" where
  "parse_timestamp_value D v =
     (case v of
        Some (JStr s) \<Rightarrow>
          (case dr_fromisoformat D (replace_Z s) of
             None \<Rightarrow> None
           | Some (local, None) \<Rightarrow> Some local
           | Some (local, Some offset) \<Rightarrow> Some (local - offset))
      | Some (JInt i) \<Rightarrow> dr_fromtimestamp D (of_int i)
      | Some (JFloat r) \<Rightarrow> dr_fromtimestamp D r
      | Some (JBool b) \<Rightarrow> dr_fromtimestamp D (if b then 1 else 0)
      | _ \<Rightarrow> None)"

fun first_some :: "'a option list \<Rightarrow> 'a option" where
  "first_some [] = None"
| "first_some (None # xs) = first_some xs"
| "first_some (Some x # xs) = Some x"

fun find_taskiq_timestamp :: "date_readers \<Rightarrow> json \<Rightarrow> time option" where
  "find_taskiq_timestamp D (JObj m) =
     (case first_some (map (\<lambda>key. parse_timestamp_value D (map_of m key)) TASKIQ_QUEUE_TIMESTAMP_KEYS) of
        Some t \<Rightarrow> Some t
      | None \<Rightarrow> first_some (map (\<lambda>kv. find_taskiq_timestamp D (snd kv)) m))"
| "find_taskiq_timestamp D (JArr xs) = first_some (map (find_taskiq_timestamp D) xs)"
| "find_taskiq_timestamp D _ = None"

definition parse_taskiq_queued_job_timestamp :: "date_readers \<Rightarrow> string option \<Rightarrow> time option" where
  "parse_taskiq_queued_job_timestamp D raw_job =
     (case raw_job of
        None \<Rightarrow> None
      | Some s \<Rightarrow> (case dr_loads D s of None \<Rightarrow> None | Some payload \<Rightarrow> find_taskiq_timestamp D payload))"

definition estimate_taskiq_queued_job_age_seconds :: "date_readers \<Rightarrow> string option \<Rightarrow> time \<Rightarrow> rat" where
  "estimate_taskiq_queued_job_age_seconds D raw_job observed_at =
     (case parse_taskiq_queued_job_timestamp D raw_job of
        None \<Rightarrow> 0
      | Some queued_at \<Rightarrow> max (of_int (observed_at - queued_at) / 1000000) 0)"

text \<open>The queue's Redis: \<open>None\<close> stands for an exception, of the connection or of a command.\<close>

record queue_redis =
  qr_llen :: "string \<Rightarrow> int option"
  qr_lindex_last :: "string \<Rightarrow> string option option"

definition taskiq_queue_depth_value :: "queue_redis option \<Rightarrow> string \<Rightarrow> rat" where
  "taskiq_queue_depth_value redis queue_name =
     (case redis of
        None \<Rightarrow> 0
      | Some r \<Rightarrow> (case qr_llen r queue_name of None \<Rightarrow> 0 | Some n \<Rightarrow> of_int n))"

definition taskiq_queue_oldest_job_age_value :: "date_readers \<Rightarrow> queue_redis option \<Rightarrow> string \<Rightarrow> time \<Rightarrow> rat" where
  "taskiq_queue_oldest_job_age_value D redis queue_name observed_at =
     (case redis of
        None \<Rightarrow> 0
      | Some r \<Rightarrow>
          (case qr_llen r queue_name of
             None \<Rightarrow> 0
           | Some n \<Rightarrow>
               if n \<le> 0 then 0
               else (case qr_lindex_last r queue_name of
                       None \<Rightarrow> 0
                     | Some raw_job \<Rightarrow> estimate_taskiq_queued_job_age_seconds D raw_job observed_at)))"

section \<open>The backlog of the outbox\<close>

text \<open>A query in a thread of its own: its value, an exception, or no answer in time.\<close>

datatype query_result = Answered int | Failed | Timed_out

definition run_async_metric_query :: "query_result \<Rightarrow> rat" where
  "run_async_metric_query r = (case r of Answered n \<Rightarrow> of_int n | Failed \<Rightarrow> 0 | Timed_out \<Rightarrow> 0)"

definition OUTBOX_BACKLOG_STATUSES :: "string list" where
  "OUTBOX_BACKLOG_STATUSES = [''PENDING'', ''FAILED'']"

definition outbox_backlog_value :: "(string \<Rightarrow> string \<Rightarrow> query_result) \<Rightarrow> string \<Rightarrow> string \<Rightarrow> rat" where
  "outbox_backlog_value query event_type status = run_async_metric_query (query event_type status)"

section \<open>Registration of the gauges\<close>

datatype gauge = Queue_depth string | Oldest_job_age string | Outbox_backlog string string

text \<open>The callbacks that were set, in order, and the two flags of the module.\<close>

record metrics_state =
  mt_callbacks :: "gauge list"
  mt_taskiq_registered :: bool
  mt_outbox_registered :: bool

definition register_taskiq_queue_metric_callbacks :: "string \<Rightarrow> metrics_state \<Rightarrow> metrics_state" where
  "register_taskiq_queue_metric_callbacks queue_name s =
     (if mt_taskiq_registered s then s
      else s\<lparr>mt_callbacks := mt_callbacks s @ [Queue_depth queue_name, Oldest_job_age queue_name], mt_taskiq_registered := True\<rparr>)"

definition register_outbox_backlog_metric_callbacks :: "string \<Rightarrow> metrics_state \<Rightarrow> metrics_state" where
  "register_outbox_backlog_metric_callbacks event_type s =
     (if mt_outbox_registered s then s
      else s\<lparr>mt_callbacks := mt_callbacks s @ map (Outbox_backlog event_type) OUTBOX_BACKLOG_STATUSES, mt_outbox_registered := True\<rparr>)"

definition setup_metrics :: "metrics_state \<Rightarrow> metrics_state" where
  "setup_metrics s = register_outbox_backlog_metric_callbacks ''span.inserted'' (register_taskiq_queue_metric_callbacks TASKIQ_QUEUE_NAME s)"

definition init_metrics :: metrics_state where
  "init_metrics = \<lparr>mt_callbacks = [], mt_taskiq_registered = False, mt_outbox_registered = False\<rparr>"

section \<open>Properties\<close>

text \<open>
  Shutdown closes everything in order, whatever fails before: the resources at the end are those after
  all steps, and exactly the failures are logged.
\<close>

theorem shutdown_closes_everything:
  "close_all steps w = (concat (map2 (\<lambda>(name, close) w'. case fst (close w') of None \<Rightarrow> [] | Some e \<Rightarrow> [(name, e)]) steps
       (map (\<lambda>i. fold (\<lambda>x w. snd (snd x w)) (take i steps) w) [0..<length steps])),
     fold (\<lambda>x w. snd (snd x w)) steps w)"
proof (induction steps arbitrary: w)
  case (Cons x steps)
  obtain name close where x: "x = (name, close)" by (cases x)
  have "map (\<lambda>i. fold (\<lambda>x w. snd (snd x w)) (take i (x # steps)) w) [0..<length (x # steps)] =
      w # map (\<lambda>i. fold (\<lambda>x w. snd (snd x w)) (take i steps) (snd (close w))) [0..<length steps]"
    by (simp add: x upt_conv_Cons map_Suc_upt [symmetric] comp_def del: upt_Suc)
  then show ?case by (simp add: x Cons.IH case_prod_unfold split: option.split)
qed simp

text \<open>The bucket exists after start-up whenever it is reported as there or as created.\<close>

theorem ensured_bucket_exists:
  assumes "\<And>s. fst (head_bucket s) = None \<Longrightarrow> bucket_exists (snd (head_bucket s))"
    and "\<And>s. fst (create_bucket s) = None \<Longrightarrow> bucket_exists (snd (create_bucket s))"
    and "fst (ensure_payload_bucket head_bucket create_bucket s3) \<noteq> ''degraded''"
  shows "bucket_exists (snd (ensure_payload_bucket head_bucket create_bucket s3))"
  using assms(1) [of s3] assms(2) [of "snd (head_bucket s3)"] assms(3)
  by (auto simp: ensure_payload_bucket_def case_prod_unfold split: option.splits if_splits)

text \<open>A place inside a job where a timestamp may stand.\<close>

inductive timestamp_at :: "date_readers \<Rightarrow> json \<Rightarrow> time \<Rightarrow> bool" for D where
  here: "key \<in> set TASKIQ_QUEUE_TIMESTAMP_KEYS \<Longrightarrow> parse_timestamp_value D (map_of m key) = Some t \<Longrightarrow> timestamp_at D (JObj m) t"
| member: "(key, v) \<in> set m \<Longrightarrow> timestamp_at D v t \<Longrightarrow> timestamp_at D (JObj m) t"
| element: "v \<in> set xs \<Longrightarrow> timestamp_at D v t \<Longrightarrow> timestamp_at D (JArr xs) t"

lemma first_some_None: "first_some xs = None \<longleftrightarrow> (\<forall>x \<in> set xs. x = None)"
  by (induction xs rule: first_some.induct) auto

lemma first_some_SomeD: "first_some xs = Some x \<Longrightarrow> Some x \<in> set xs"
  by (induction xs rule: first_some.induct) auto

lemma first_some_map: "x \<in> set xs \<Longrightarrow> f x \<noteq> None \<Longrightarrow> first_some (map f xs) \<noteq> None"
  unfolding first_some_None by auto

text \<open>
  The search for a timestamp is complete: it finds one exactly when there is one at any depth, and the
  one it finds is there.
\<close>

theorem timestamp_search_is_complete:
  "(find_taskiq_timestamp D v = None \<longleftrightarrow> (\<forall>t. \<not> timestamp_at D v t)) \<and>
   (\<forall>t. find_taskiq_timestamp D v = Some t \<longrightarrow> timestamp_at D v t)"
proof -
  have sound: "timestamp_at D v t" if "find_taskiq_timestamp D v = Some t" for v t
    using that
  proof (induction D v rule: find_taskiq_timestamp.induct)
    case (1 D m)
    show ?case
    proof (cases "first_some (map (\<lambda>key. parse_timestamp_value D (map_of m key)) TASKIQ_QUEUE_TIMESTAMP_KEYS)")
      case None
      with 1 obtain kv where "kv \<in> set m" "find_taskiq_timestamp D (snd kv) = Some t"
        by (fastforce dest: first_some_SomeD)
      with 1(1) [OF None] show ?thesis by (metis prod.collapse timestamp_at.member)
    next
      case (Some t')
      with 1(2) have "t' = t" by simp
      with first_some_SomeD [OF Some] obtain key where "key \<in> set TASKIQ_QUEUE_TIMESTAMP_KEYS"
        "parse_timestamp_value D (map_of m key) = Some t" by auto
      then show ?thesis by (rule timestamp_at.here)
    qed
  next
    case (2 D xs)
    then obtain v where "v \<in> set xs" "find_taskiq_timestamp D v = Some t" by (fastforce dest: first_some_SomeD)
    with 2(1) show ?case by (blast intro: timestamp_at.element)
  qed simp_all
  have complete: "find_taskiq_timestamp D v \<noteq> None" if "timestamp_at D v t" for v t
    using that
  proof induction
    case (here key m t)
    then have "first_some (map (\<lambda>key. parse_timestamp_value D (map_of m key)) TASKIQ_QUEUE_TIMESTAMP_KEYS) \<noteq> None"
      by (intro first_some_map) auto
    then show ?case by auto
  next
    case (member key v m t)
    then have "first_some (map (\<lambda>kv. find_taskiq_timestamp D (snd kv)) m) \<noteq> None" by (intro first_some_map) auto
    then show ?case by (simp split: option.split)
  next
    case (element v xs t)
    then have "first_some (map (find_taskiq_timestamp D) xs) \<noteq> None" by (intro first_some_map) auto
    then show ?case by simp
  qed
  show ?thesis using sound complete by fastforce
qed

text \<open>
  The gauges never raise and are never negative, whatever Redis and the database answer, and setting
  them up again changes nothing.
\<close>

theorem gauges_are_nonnegative:
  assumes "\<And>r n. redis = Some r \<Longrightarrow> qr_llen r queue_name = Some n \<Longrightarrow> 0 \<le> n" and "\<And>n. query event_type status = Answered n \<Longrightarrow> 0 \<le> n"
  shows "0 \<le> taskiq_queue_depth_value redis queue_name \<and> 0 \<le> taskiq_queue_oldest_job_age_value D redis queue_name observed_at \<and>
    0 \<le> outbox_backlog_value query event_type status \<and> setup_metrics (setup_metrics s) = setup_metrics s"
proof -
  have "0 \<le> estimate_taskiq_queued_job_age_seconds D raw observed_at" for raw
    by (simp add: estimate_taskiq_queued_job_age_seconds_def split: option.split)
  with assms show ?thesis
    by (auto simp: taskiq_queue_depth_value_def taskiq_queue_oldest_job_age_value_def outbox_backlog_value_def run_async_metric_query_def
        setup_metrics_def register_taskiq_queue_metric_callbacks_def register_outbox_backlog_metric_callbacks_def
        split: option.split query_result.split)
qed

end
