(* ===== verification/Spec2Isabelle.thy ===== *)
theory Spec2Isabelle
  imports Sdk_Tracer Payload_Storage Pricing Ingest_Concurrency Outbox Span_Pipeline Metric_Buckets
    Rate_Limit Access_Control Key_Cache Alerts
    Trace_Query Http_Shell Live_Stream Health Otlp Failed_Tasks Maintenance Sdk_Instrument
    Metrics_Service Settings Audit_Api Row_Security Audit_Gates App_Shell
begin

text \<open>
  Verification of LLM Obs, a service that records the calls an application makes to language
  models. A client library (\<^verbatim>\<open>sdk/llm_obs\<close>) buffers spans and posts them in batches; the backend
  (\<^verbatim>\<open>backend/app\<close>, FastAPI over Postgres, Redis, an object store and a task queue) validates a
  batch, records it under its idempotency key and enqueues it; a worker prices the spans, stores
  their payloads and writes rows, minute buckets, trace rows and outbox events in one
  transaction; further tasks deliver the outbox and aggregate traces. Administrators manage
  users, projects, keys and prices.

  \<^bold>\<open>Conventions.\<close> Python code is translated to functions on explicit state. A table is the list of
  its rows and an SQL statement a list operation; a transaction is a function whose result is kept
  or dropped as a whole. Exceptions are values. Code outside the repository is a parameter: Redis
  (records of commands with the laws of the locales \<^verbatim>\<open>redis_cache\<close>, \<^verbatim>\<open>redis_store\<close>, \<^verbatim>\<open>redis_zset\<close>, each
  with a reference instance), the HTTP client, the object store, the task queue, the date, JSON
  and token coders, hashing, and random and clock values. Metrics and log lines are left out.
  Texts are ordered by code points. Identifiers in requests are canonical UUID texts.

  \<^bold>\<open>Theories and the code they model.\<close>

  \<^item> \<^verbatim>\<open>Obs_Prelude\<close>: basic types, Python strings, tables, shared lemmas.
  \<^item> \<^verbatim>\<open>Sdk_Transport\<close> (\<^verbatim>\<open>sdk/llm_obs/transport.py\<close>): \<^verbatim>\<open>send_batch\<close> with its three attempts and
    diagnostics. Lemmas: result and diagnostics agree; a batch is delivered when an attempt
    succeeds.
  \<^item> \<^verbatim>\<open>Sdk_Tracer\<close> (\<^verbatim>\<open>sdk/llm_obs/tracer.py\<close>): buffer, pending batches, flush loop, shutdown. The loop
    of shutdown is a partial function on an option; \<^verbatim>\<open>shutdown_drains\<close> proves that it returns.
    Lemmas: no span is lost unaccounted for, order is kept, failed batches go first; a batch in
    flight at shutdown is lost.
  \<^item> \<^verbatim>\<open>Sdk_Instrument\<close> (\<^verbatim>\<open>sdk/llm_obs/decorators.py\<close>, \<^verbatim>\<open>integrations\<close>, \<^verbatim>\<open>__init__.py\<close>): manual spans, traced functions and
    patched clients under an arbitrary application, given as a tree of its actions. Lemmas: the spans
    form call trees; the application is not disturbed and every call is recorded once.
  \<^item> \<^verbatim>\<open>Payload_Storage\<close> (\<^verbatim>\<open>services/storage.py\<close> and the privacy helpers of
    \<^verbatim>\<open>workers/process_span.py\<close>): redaction, size limit, store and read back, metadata sanitising.
  \<^item> \<^verbatim>\<open>Redis_Client\<close> (\<^verbatim>\<open>core/redis.py\<close>), \<^verbatim>\<open>Rate_Limit\<close> (\<^verbatim>\<open>core/ratelimit.py\<close>): the interfaces of Redis and the
    sliding-window limiter, which is proved to count the window.
  \<^item> \<^verbatim>\<open>Pricing\<close> (\<^verbatim>\<open>services/cost.py\<close>, \<^verbatim>\<open>api/v1/pricing.py\<close>): the price list, its two caches and the cost of
    a span. Lemmas: the caches never serve a stale price, the cost is exact to half a unit.
  \<^item> \<^verbatim>\<open>Idempotency\<close>, \<^verbatim>\<open>Ingest\<close>, \<^verbatim>\<open>Ingest_Concurrency\<close> (\<^verbatim>\<open>services/ingest.py\<close>, \<^verbatim>\<open>api/v1/ingest.py\<close>,
    \<^verbatim>\<open>schemas/ingest.py\<close>): validation, the idempotency table, the handlers, and their statements
    interleaved as a step relation. Lemmas: a repeated request replays its answer; under every
    interleaving a key enqueues once, unless it is retried concurrently after a failure.
  \<^item> \<^verbatim>\<open>Outbox\<close> (\<^verbatim>\<open>services/outbox.py\<close>, \<^verbatim>\<open>deliver_span_outbox_events\<close>): claim, delivery and retry of events;
    attempts are bounded; events claimed when a publication fails are stranded.
  \<^item> \<^verbatim>\<open>Metric_Buckets\<close> (\<^verbatim>\<open>services/span_metric_buckets.py\<close>), \<^verbatim>\<open>Span_Pipeline\<close> (\<^verbatim>\<open>process_span_batch\<close> and its
    helpers, \<^verbatim>\<open>bulk_insert_spans\<close>, \<^verbatim>\<open>update_trace_aggregates\<close>): the worker. Lemmas: a batch inserts
    exactly the new spans or nothing, processing it again changes nothing, buckets and trace rows
    always agree with the spans, the reported status counts the rows.
  \<^item> \<^verbatim>\<open>Org_Tables\<close> (models, \<^verbatim>\<open>services/audit.py\<close>), \<^verbatim>\<open>Rbac\<close> (\<^verbatim>\<open>core/rbac.py\<close>), \<^verbatim>\<open>Access_Control\<close> (\<^verbatim>\<open>core/auth.py\<close>):
    the tables with their constraints, role guards, tokens and API keys. Lemma: who reaches a
    project by a token.
  \<^item> \<^verbatim>\<open>Accounts\<close> (\<^verbatim>\<open>api/v1/auth.py\<close>, \<^verbatim>\<open>api/v1/users.py\<close>), \<^verbatim>\<open>Projects\<close> (\<^verbatim>\<open>api/v1/projects.py\<close>): every
    handler, split into guards and transaction.
  \<^item> \<^verbatim>\<open>Org_System\<close>, \<^verbatim>\<open>Key_Cache\<close>: these handlers and authentication as one step relation, with its
    invariants: constraints, an administrator per organization, valid settings, invites used
    once, a key cache that agrees with the tables; and two interleavings that break them.
  \<^item> \<^verbatim>\<open>Webhook\<close> (the URL checks of \<^verbatim>\<open>schemas/alerts.py\<close> over Python's \<^verbatim>\<open>urlsplit\<close>), \<^verbatim>\<open>Alerts\<close> (\<^verbatim>\<open>api/v1/alerts.py\<close>,
    \<^verbatim>\<open>services/notifications.py\<close>, \<^verbatim>\<open>services/anomaly.py\<close> and the alert tasks of the worker): rules, events,
    delivery with redirects and cooldown. Lemmas: posts go only to allowed hosts, the cooldown holds,
    the bucketed metrics are those of the spans.
  \<^item> \<^verbatim>\<open>Base64\<close>, \<^verbatim>\<open>Py_Numbers\<close>: coders and number texts of Python's library that the code uses, with their
    round trips.
  \<^item> \<^verbatim>\<open>Trace_Query\<close> (\<^verbatim>\<open>services/trace_service.py\<close>, \<^verbatim>\<open>api/v1/traces.py\<close>): cursors, pages, details. Lemmas:
    following the cursors lists every trace once; a detail has all spans.
  \<^item> \<^verbatim>\<open>Http_Shell\<close> (the middleware of \<^verbatim>\<open>main.py\<close>, \<^verbatim>\<open>core/security_headers.py\<close>): an application is a tree of its
    interactions; the body limit holds for every application.
  \<^item> \<^verbatim>\<open>Live_Stream\<close> (\<^verbatim>\<open>services/pubsub.py\<close>, the stream of \<^verbatim>\<open>api/v1/traces.py\<close>), \<^verbatim>\<open>Health\<close> (\<^verbatim>\<open>api/v1/health.py\<close>,
    \<^verbatim>\<open>workers/health.py\<close>): queues and listener; probes and the heartbeat.
  \<^item> \<^verbatim>\<open>Otlp\<close> (\<^verbatim>\<open>services/otlp.py\<close>, \<^verbatim>\<open>api/v1/otlp.py\<close>): OpenTelemetry exports in JSON and protobuf are
    converted to the same spans.
  \<^item> \<^verbatim>\<open>Failed_Tasks\<close> (\<^verbatim>\<open>services/failed_tasks.py\<close>, \<^verbatim>\<open>api/v1/failed_tasks.py\<close>, \<^verbatim>\<open>workers/dlq.py\<close>, \<^verbatim>\<open>core/taskiq.py\<close>): the
    dead-letter store. Lemmas: a failing task is recorded once, its record hides values, and it cannot
    be retried from it.
  \<^item> \<^verbatim>\<open>Maintenance\<close> (\<^verbatim>\<open>workers/maintenance.py\<close>): retention and partitions. Lemmas: only expired data goes,
    all of it when the store works; the coming months have partitions.
  \<^item> \<^verbatim>\<open>Metrics_Service\<close> (\<^verbatim>\<open>services/metrics_service.py\<close>, \<^verbatim>\<open>api/v1/metrics.py\<close>): the reports and their cache. Lemmas:
    the time series adds up to the overview, rankings are exact, cached reports are recent.
  \<^item> \<^verbatim>\<open>Settings\<close> (\<^verbatim>\<open>core/config.py\<close>): accepted production settings are safe.
  \<^item> \<^verbatim>\<open>Audit_Api\<close> (\<^verbatim>\<open>api/v1/audit.py\<close>): following the cursors reads every matching event of the own
    organization once.
  \<^item> \<^verbatim>\<open>Migrations\<close> (\<^verbatim>\<open>backend/alembic/versions\<close>), \<^verbatim>\<open>Schema_Checks\<close> (\<^verbatim>\<open>backend/app/models\<close>): every migration as its statements
    on the catalogue of the database, and the tables that the models declare. The run of all migrations is
    evaluated once. Lemmas: all apply, the models match, which can be taken back.
  \<^item> \<^verbatim>\<open>Row_Security\<close> (\<^verbatim>\<open>core/db.py\<close>): sessions on pooled connections under the policies of the migrated schema; a
    use of a session is a tree. Lemmas: sessions are confined to their project, a commit ends
    the context, and without a project nothing can be written.
  \<^item> \<^verbatim>\<open>Audit_Gates\<close> (\<^verbatim>\<open>scripts/npm_audit_gate.py\<close>, \<^verbatim>\<open>scripts/pip_audit_gate.py\<close>): the gates of the build are exact
    with respect to their allowlists.
  \<^item> \<^verbatim>\<open>App_Shell\<close> (\<^verbatim>\<open>lifespan\<close> of \<^verbatim>\<open>main.py\<close>, \<^verbatim>\<open>core/metrics.py\<close>, the bucket of \<^verbatim>\<open>services/storage.py\<close>): shutdown closes
    everything, the search for timestamps is complete, gauges are never negative.

  \<^bold>\<open>Bounds and fuel.\<close> The three attempts of the transport, the five of the outbox and the limits of
  the schemas are those of the code. The functions of the code need no fuel. The client that follows
  cursors (\<^verbatim>\<open>all_pages\<close>) has as many requests as there are rows and one more, and the worker that retries
  a failing task (\<^verbatim>\<open>run_failing\<close>) as many attempts as the theorem says; both are proved to be enough.

  \<^bold>\<open>Not modelled\<close>: the declarations of routes, counters and histograms, which only call libraries; the
  demonstration data, the smoke test and the list of critical tests, which are fixed input and output.
\<close>

end
